(* ===== verification/Prelude.thy ===== *)
theory Prelude
  imports Main "HOL-Library.Word"
begin

text \<open>
  Shared vocabulary of the development: Go error values and \<open>errors.Is\<close>, the state-and-error
  computations every handler is written in (with the \<open>keeps\<close> calculus that proves invariants
  of them), Go's byte strings with the functions of package \<open>strings\<close> the program calls, and
  generic lemmas on the row lists that stand for database tables.
\<close>

section \<open>Collections of facts\<close>

named_theorems keeps_intros \<open>compositional rules: a computation keeps an invariant\<close>
named_theorems go_consts \<open>values of the named constants of the program\<close>

section \<open>Go errors\<close>

text \<open>
  The sentinel errors of the modelled packages, errors that only carry a text, and the three ways
  the program builds errors from errors: wrapping with \<open>fmt.Errorf("...: %w", err)\<close> or
  \<open>fmt.Errorf("%w: ...", err)\<close>, wrapping two with \<open>"%w: %w"\<close>, and \<open>errors.Join\<close>. Database, Redis and network failures arrive as \<open>ErrText\<close>;
  \<open>ErrSentinel\<close> is a package variable made by \<open>errors.New\<close>, told apart by its text.
\<close>

datatype err =
    ErrForbidden
  | ErrRecordNotFound
  | ErrDuplicatedKey
  | ErrTaskIDConflict
  | ErrPublicationDisabled
  | ErrPublicationRequiresSync
  | ErrPublicationAlreadyPublishing
  | ErrPublishQueueEmpty
  | ErrPublishLockOwnershipLost
  | ErrPublishJobWorkspaceMismatch
  | ErrScheduledPublicationMissing
  | ErrScheduledPublicationNotStartable
  | ErrPlatformAccountForbidden
  | ErrInvalidPlatformAccount
  | ErrInvalidWorkspace
  | ErrInvalidWorkspaceMember
  | ErrInvalidWorkspaceInvite
  | ErrInvalidProject
  | ErrCircuitOpen
  | ErrContextCanceled
  | ErrDeadlineExceeded
  | ErrRedisNil
  | ErrLimitExceeded
  | ErrStreamLimiterUnavailable
  | ErrSentinel string
  | ErrText string
  | ErrWrap string err
  | ErrSuffix err string
  | ErrJoin err err
  | ErrBoth err err

text \<open>\<open>errors.Is\<close>: the target is the error itself or is reached by unwrapping.\<close>

fun err_is :: "err \<Rightarrow> err \<Rightarrow> bool" where
  "err_is (ErrWrap s e) t = (ErrWrap s e = t \<or> err_is e t)"
| "err_is (ErrSuffix e s) t = (ErrSuffix e s = t \<or> err_is e t)"
| "err_is (ErrJoin a b) t = (ErrJoin a b = t \<or> err_is a t \<or> err_is b t)"
| "err_is (ErrBoth a b) t = (ErrBoth a b = t \<or> err_is a t \<or> err_is b t)"
| "err_is e t = (e = t)"

lemma err_is_refl [simp]: "err_is e e"
  by (cases e) simp_all

text \<open>
  \<open>err.Error()\<close>: the texts the program gives its sentinels; a wrapped error is its prefix
  (or suffix) and the text of the inner error with a colon between them, a joined one has a line
  for each.
\<close>

fun err_text :: "err \<Rightarrow> string" where
  "err_text ErrForbidden = ''forbidden: you do not have permission to access this resource''"
| "err_text ErrRecordNotFound = ''record not found''"
| "err_text ErrTaskIDConflict = ''task ID conflicts with another task''"
| "err_text ErrDuplicatedKey = ''duplicated key not allowed''"
| "err_text ErrPublicationDisabled = ''publication is disabled''"
| "err_text ErrPublicationRequiresSync = ''publication requires prepublish sync''"
| "err_text ErrPublicationAlreadyPublishing = ''publication is already publishing''"
| "err_text ErrPublishQueueEmpty = ''publish queue empty''"
| "err_text ErrPublishLockOwnershipLost = ''publish lock ownership lost''"
| "err_text ErrPublishJobWorkspaceMismatch = ''publish job workspace does not match project''"
| "err_text ErrScheduledPublicationMissing = ''scheduled publication does not exist''"
| "err_text ErrScheduledPublicationNotStartable = ''scheduled publication is not startable''"
| "err_text ErrPlatformAccountForbidden = ''platform account access denied''"
| "err_text ErrInvalidPlatformAccount = ''invalid platform account settings''"
| "err_text ErrInvalidWorkspace = ''invalid workspace''"
| "err_text ErrInvalidWorkspaceMember = ''invalid workspace member''"
| "err_text ErrInvalidWorkspaceInvite = ''invalid workspace invite''"
| "err_text ErrInvalidProject = ''invalid project''"
| "err_text ErrCircuitOpen = ''circuit breaker open''"
| "err_text ErrContextCanceled = ''context canceled''"
| "err_text ErrDeadlineExceeded = ''context deadline exceeded''"
| "err_text ErrRedisNil = ''redis: nil''"
| "err_text ErrLimitExceeded = ''stream concurrency limit exceeded''"
| "err_text ErrStreamLimiterUnavailable = ''stream limiter unavailable''"
| "err_text (ErrSentinel s) = s"
| "err_text (ErrText s) = s"
| "err_text (ErrWrap s e) = s @ '': '' @ err_text e"
| "err_text (ErrSuffix e s) = err_text e @ '': '' @ s"
| "err_text (ErrBoth a b) = err_text a @ '': '' @ err_text b"
| "err_text (ErrJoin a b) = err_text a @ [CHR 0x0A] @ err_text b"

section \<open>Computations with state and errors\<close>

text \<open>
  A Go function that reads and writes shared state and may return an error is a function from
  the state to an error (\<open>Inl\<close>) or a result (\<open>Inr\<close>) and the state it leaves.
  \<open>bindE\<close> is \<open>x, err := m(); if err != nil { return err }\<close>; \<open>tryE\<close> hands the error
  to the code that looks at it.
\<close>

type_synonym ('w, 'a) io = "'w \<Rightarrow> (err + 'a) \<times> 'w"

definition ret :: "'a \<Rightarrow> ('w, 'a) io" where
  "ret x = (\<lambda>w. (Inr x, w))"

definition throw :: "err \<Rightarrow> ('w, 'a) io" where
  "throw e = (\<lambda>w. (Inl e, w))"

definition bindE :: "('w, 'a) io \<Rightarrow> ('a \<Rightarrow> ('w, 'b) io) \<Rightarrow> ('w, 'b) io" where
  "bindE m f = (\<lambda>w. case m w of (Inl e, w') \<Rightarrow> (Inl e, w') | (Inr x, w') \<Rightarrow> f x w')"

definition tryE :: "('w, 'a) io \<Rightarrow> ('w, err + 'a) io" where
  "tryE m = (\<lambda>w. case m w of (r, w') \<Rightarrow> (Inr r, w'))"

definition ignoreE :: "('w, 'a) io \<Rightarrow> ('w, unit) io" where
  "ignoreE m = (\<lambda>w. (Inr (), snd (m w)))"

definition liftS :: "err + 'a \<Rightarrow> ('w, 'a) io" where
  "liftS r = (\<lambda>w. (r, w))"

lemmas io_defs = ret_def throw_def bindE_def tryE_def ignoreE_def liftS_def

text \<open>Results and states of the composed computations, one rule per combinator.\<close>

lemma bindE_Inr: "bindE m f w = (Inr y, w'') \<longleftrightarrow> (\<exists>x w'. m w = (Inr x, w') \<and> f x w' = (Inr y, w''))"
  by (auto simp: bindE_def split: prod.splits sum.splits)

lemma bindE_Inl:
  "bindE m f w = (Inl e, w'') \<longleftrightarrow>
     m w = (Inl e, w'') \<or> (\<exists>x w'. m w = (Inr x, w') \<and> f x w' = (Inl e, w''))"
  by (auto simp: bindE_def split: prod.splits sum.splits)

lemma bindE_ret [simp]: "bindE (ret x) f = f x"
  by (simp add: bindE_def ret_def)

lemma bindE_throw [simp]: "bindE (throw e) f = throw e"
  by (simp add: bindE_def throw_def)

lemma bindE_tryE_app [simp]: "bindE (tryE m) f w = (case m w of (r, w') \<Rightarrow> f r w')"
  by (simp add: bindE_def tryE_def split: prod.splits)

lemma ret_app [simp]: "ret x w = (Inr x, w)"
  by (simp add: ret_def)

lemma throw_app [simp]: "throw e w = (Inl e, w)"
  by (simp add: throw_def)

lemma bindE_Pair [simp]: "bindE (Pair (Inr x)) f = f x" "bindE (Pair (Inl e)) f = Pair (Inl e)"
  by (simp_all add: bindE_def fun_eq_iff)

subsection \<open>Keeping an invariant\<close>

text \<open>\<open>keeps I m\<close>: started in \<open>I\<close>, the computation ends in \<open>I\<close>, whatever it returns.\<close>

definition keeps :: "('w \<Rightarrow> bool) \<Rightarrow> ('w, 'a) io \<Rightarrow> bool" where
  "keeps I m \<longleftrightarrow> (\<forall>w. I w \<longrightarrow> I (snd (m w)))"

lemma keepsD: "keeps I m \<Longrightarrow> I w \<Longrightarrow> I (snd (m w))"
  by (simp add: keeps_def)

lemma keepsD2: "keeps I m \<Longrightarrow> m w = (r, w') \<Longrightarrow> I w \<Longrightarrow> I w'"
  by (metis keeps_def snd_conv)

lemma keeps_ret [keeps_intros]: "keeps I (ret x)"
  by (simp add: keeps_def)

lemma keeps_throw [keeps_intros]: "keeps I (throw e)"
  by (simp add: keeps_def)

lemma keeps_liftS [keeps_intros]: "keeps I (liftS r)"
  by (simp add: keeps_def liftS_def)

lemma keeps_bindE [keeps_intros]:
  assumes "keeps I m" and "\<And>x. keeps I (f x)"
  shows "keeps I (bindE m f)"
  unfolding keeps_def
proof (intro allI impI)
  fix w assume "I w"
  then have "I (snd (m w))" using assms(1) by (rule keepsD [rotated])
  then show "I (snd (bindE m f w))"
    using assms(2) by (auto simp: bindE_def keeps_def split: prod.splits sum.splits)
qed

lemma keeps_tryE [keeps_intros]: "keeps I m \<Longrightarrow> keeps I (tryE m)"
  by (auto simp: keeps_def tryE_def split: prod.splits)

lemma keeps_ignoreE [keeps_intros]: "keeps I m \<Longrightarrow> keeps I (ignoreE m)"
  by (auto simp: keeps_def ignoreE_def)

lemma keeps_If [keeps_intros]:
  "(b \<Longrightarrow> keeps I m) \<Longrightarrow> (\<not> b \<Longrightarrow> keeps I n) \<Longrightarrow> keeps I (if b then m else n)"
  by simp

lemma keeps_case_option [keeps_intros]:
  "keeps I m \<Longrightarrow> (\<And>x. keeps I (f x)) \<Longrightarrow> keeps I (case z of None \<Rightarrow> m | Some x \<Rightarrow> f x)"
  by (cases z) auto

lemma keeps_case_sum [keeps_intros]:
  "(\<And>e. keeps I (g e)) \<Longrightarrow> (\<And>x. keeps I (f x)) \<Longrightarrow> keeps I (case z of Inl e \<Rightarrow> g e | Inr x \<Rightarrow> f x)"
  by (cases z) auto

lemma keeps_case_prod [keeps_intros]:
  "(\<And>x y. keeps I (f x y)) \<Longrightarrow> keeps I (case z of (x, y) \<Rightarrow> f x y)"
  by (cases z) auto

lemma keeps_Let [keeps_intros]: "(\<And>x. keeps I (f x)) \<Longrightarrow> keeps I (let x = t in f x)"
  by (simp add: Let_def)

subsection \<open>Weakest preconditions\<close>

text \<open>
  \<open>wp m Q E w\<close>: started in \<open>w\<close>, a normal return of \<open>m\<close> satisfies \<open>Q\<close> and an error return
  \<open>E\<close>. The rules of \<open>wp_intros\<close> reduce the goal for a composed computation to those for its
  statements; the statements of the world add theirs.
\<close>

definition wp :: "('w, 'a) io \<Rightarrow> ('a \<Rightarrow> 'w \<Rightarrow> bool) \<Rightarrow> (err \<Rightarrow> 'w \<Rightarrow> bool) \<Rightarrow> 'w \<Rightarrow> bool" where
  "wp m Q E w = (case m w of (Inl e, w') \<Rightarrow> E e w' | (Inr x, w') \<Rightarrow> Q x w')"

lemma wpD: "wp m Q E w \<Longrightarrow> m w = (r, w') \<Longrightarrow> (case r of Inl e \<Rightarrow> E e w' | Inr x \<Rightarrow> Q x w')"
  by (simp add: wp_def split: sum.splits)

lemma wp_InrD: "wp m Q E w \<Longrightarrow> m w = (Inr x, w') \<Longrightarrow> Q x w'"
  by (simp add: wp_def)

lemma wpI: "(\<And>x w'. m w = (Inr x, w') \<Longrightarrow> Q x w') \<Longrightarrow> (\<And>e w'. m w = (Inl e, w') \<Longrightarrow> E e w') \<Longrightarrow> wp m Q E w"
  by (simp add: wp_def split: prod.splits sum.splits)

lemma wp_conseq: "wp m Q' E' w \<Longrightarrow> (\<And>x w'. Q' x w' \<Longrightarrow> Q x w') \<Longrightarrow> (\<And>e w'. E' e w' \<Longrightarrow> E e w') \<Longrightarrow> wp m Q E w"
  by (simp add: wp_def split: prod.splits sum.splits)

lemma wp_conj: "wp m Q E w \<Longrightarrow> wp m Q' E' w \<Longrightarrow> wp m (\<lambda>x w. Q x w \<and> Q' x w) (\<lambda>e w. E e w \<and> E' e w) w"
  by (simp add: wp_def split: prod.splits sum.splits)

lemma wp_keeps: "keeps I m \<Longrightarrow> I w \<Longrightarrow> (\<And>x w'. I w' \<Longrightarrow> Q x w') \<Longrightarrow> (\<And>e w'. I w' \<Longrightarrow> E e w') \<Longrightarrow>
    wp m Q E w"
  by (rule wpI) (auto dest: keepsD2)

lemma keeps_wpI:
  assumes "\<And>w. I w \<Longrightarrow> wp m (\<lambda>_. I) (\<lambda>_. I) w"
  shows "keeps I m"
  unfolding keeps_def
proof (intro allI impI)
  fix w assume "I w"
  then have "wp m (\<lambda>_. I) (\<lambda>_. I) w" by (rule assms)
  then show "I (snd (m w))" by (simp add: wp_def split: prod.splits sum.splits)
qed

named_theorems wp_intros \<open>weakest preconditions of composed computations\<close>

lemma wp_ret [wp_intros]: "Q x w \<Longrightarrow> wp (ret x) Q E w"
  by (simp add: wp_def)

lemma wp_throw [wp_intros]: "E e w \<Longrightarrow> wp (throw e) Q E w"
  by (simp add: wp_def)

lemma wp_bindE [wp_intros]: "wp m (\<lambda>x. wp (f x) Q E) E w \<Longrightarrow> wp (bindE m f) Q E w"
  by (simp add: wp_def bindE_def split: prod.splits sum.splits)

lemma wp_tryE [wp_intros]: "wp m (\<lambda>x. Q (Inr x)) (\<lambda>e. Q (Inl e)) w \<Longrightarrow> wp (tryE m) Q E w"
  by (simp add: wp_def tryE_def split: prod.splits sum.splits)

lemma wp_ignoreE [wp_intros]: "wp m (\<lambda>_. Q ()) (\<lambda>_. Q ()) w \<Longrightarrow> wp (ignoreE m) Q E w"
  by (auto simp: wp_def ignoreE_def split: prod.splits sum.splits)

lemma wp_If [wp_intros]: "(b \<Longrightarrow> wp m Q E w) \<Longrightarrow> (\<not> b \<Longrightarrow> wp n Q E w) \<Longrightarrow> wp (if b then m else n) Q E w"
  by simp

lemma wp_case_option [wp_intros]:
  "(z = None \<Longrightarrow> wp m Q E w) \<Longrightarrow> (\<And>x. z = Some x \<Longrightarrow> wp (f x) Q E w) \<Longrightarrow>
    wp (case z of None \<Rightarrow> m | Some x \<Rightarrow> f x) Q E w"
  by (cases z) auto

lemma wp_case_sum [wp_intros]:
  "(\<And>e. z = Inl e \<Longrightarrow> wp (g e) Q E w) \<Longrightarrow> (\<And>x. z = Inr x \<Longrightarrow> wp (f x) Q E w) \<Longrightarrow>
    wp (case z of Inl e \<Rightarrow> g e | Inr x \<Rightarrow> f x) Q E w"
  by (cases z) auto

lemma wp_case_prod [wp_intros]:
  "(\<And>x y. z = (x, y) \<Longrightarrow> wp (f x y) Q E w) \<Longrightarrow> wp (case z of (x, y) \<Rightarrow> f x y) Q E w"
  by (cases z) auto

lemma wp_Let [wp_intros]: "(\<And>x. x = t \<Longrightarrow> wp (f x) Q E w) \<Longrightarrow> wp (let x = t in f x) Q E w"
  by (simp add: Let_def)

section \<open>Go strings\<close>

text \<open>A Go string is a byte sequence; Isabelle's \<open>char\<close> is a byte.\<close>

definition byte_of :: "char \<Rightarrow> nat" where
  "byte_of c = of_char c"

definition is_ascii :: "string \<Rightarrow> bool" where
  "is_ascii s = (\<forall>c\<in>set s. byte_of c < 128)"

text \<open>The UTF-8 encodings of the code points \<open>unicode.IsSpace\<close> accepts.\<close>

definition is_space_rune :: "string \<Rightarrow> bool" where
  "is_space_rune s = (case map byte_of s of
      [a] \<Rightarrow> (9 \<le> a \<and> a \<le> 13) \<or> a = 32
    | [a, b] \<Rightarrow> a = 0xC2 \<and> (b = 0x85 \<or> b = 0xA0)
    | [a, b, c] \<Rightarrow>
        (a = 0xE1 \<and> b = 0x9A \<and> c = 0x80) \<or>
        (a = 0xE2 \<and> b = 0x80 \<and> ((0x80 \<le> c \<and> c \<le> 0x8A) \<or> c = 0xA8 \<or> c = 0xA9 \<or> c = 0xAF)) \<or>
        (a = 0xE2 \<and> b = 0x81 \<and> c = 0x9F) \<or>
        (a = 0xE3 \<and> b = 0x80 \<and> c = 0x80)
    | _ \<Rightarrow> False)"

text \<open>Length in bytes of the white space character a string starts (ends) with, 0 for none.\<close>

definition lead_space :: "string \<Rightarrow> nat" where
  "lead_space s = (if is_space_rune (take 1 s) then 1
     else if is_space_rune (take 2 s) then 2
     else if is_space_rune (take 3 s) then 3 else 0)"

definition trail_space :: "string \<Rightarrow> nat" where
  "trail_space s = (if is_space_rune (drop (length s - 1) s) then 1
     else if is_space_rune (drop (length s - 2) s) then 2
     else if is_space_rune (drop (length s - 3) s) then 3 else 0)"

lemma not_space_Nil [simp]: "\<not> is_space_rune []"
  by (simp add: is_space_rune_def)

lemma lead_space_Nil [simp]: "lead_space [] = 0"
  by (simp add: lead_space_def)

lemma trail_space_Nil [simp]: "trail_space [] = 0"
  by (simp add: trail_space_def)

function trim_left :: "string \<Rightarrow> string" where
  "trim_left s = (if lead_space s = 0 then s else trim_left (drop (lead_space s) s))"
  by pat_completeness auto
termination
proof (relation "measure length")
  fix s :: string assume "lead_space s \<noteq> 0"
  moreover from this have "s \<noteq> []" by auto
  ultimately show "(drop (lead_space s) s, s) \<in> measure length" by simp
qed simp

function trim_right :: "string \<Rightarrow> string" where
  "trim_right s = (if trail_space s = 0 then s else trim_right (take (length s - trail_space s) s))"
  by pat_completeness auto
termination
proof (relation "measure length")
  fix s :: string assume "trail_space s \<noteq> 0"
  moreover from this have "s \<noteq> []" by auto
  ultimately show "(take (length s - trail_space s) s, s) \<in> measure length" by simp
qed simp

declare trim_left.simps [simp del] trim_right.simps [simp del]

text \<open>\<open>strings.TrimSpace\<close>.\<close>

definition trim_space :: "string \<Rightarrow> string" where
  "trim_space s = trim_right (trim_left s)"

text \<open>Trimming twice changes nothing: neither end of the result starts a white space.\<close>

lemma lead_space_trim_left [simp]: "lead_space (trim_left s) = 0"
proof (induction s rule: trim_left.induct)
  case (1 s)
  then show ?case by (subst trim_left.simps) auto
qed

lemma trail_space_trim_right [simp]: "trail_space (trim_right s) = 0"
proof (induction s rule: trim_right.induct)
  case (1 s)
  then show ?case by (subst trim_right.simps) auto
qed

lemma trim_right_take: "\<exists>k. trim_right s = take k s"
proof (induction s rule: trim_right.induct)
  case (1 s)
  show ?case
  proof (cases "trail_space s = 0")
    case True
    then have "trim_right s = take (length s) s" by (subst trim_right.simps) simp
    then show ?thesis ..
  next
    case False
    with "1.IH" obtain k where "trim_right (take (length s - trail_space s) s)
      = take k (take (length s - trail_space s) s)" by blast
    with False have "trim_right s = take (min k (length s - trail_space s)) s"
      by (subst trim_right.simps) simp
    then show ?thesis ..
  qed
qed

lemma space_rune_length: "is_space_rune s \<Longrightarrow> length s \<in> {1, 2, 3}"
  by (auto simp: is_space_rune_def split: list.splits)

lemma take_space_rune:
  assumes "is_space_rune (take j (take k s))" shows "\<exists>i\<in>{1, 2, 3}. is_space_rune (take i s)"
proof -
  have "take j (take k s) = take (length (take j (take k s))) s"
    by (cases "length s \<le> min j k") (simp_all add: min_def)
  moreover from assms have "length (take j (take k s)) \<in> {1, 2, 3}" by (rule space_rune_length)
  ultimately show ?thesis using assms by metis
qed

lemma lead_space_0_iff: "lead_space s = 0 \<longleftrightarrow> (\<forall>i\<in>{1, 2, 3}. \<not> is_space_rune (take i s))"
  by (simp add: lead_space_def)

lemma lead_space_take: "lead_space s = 0 \<Longrightarrow> lead_space (take k s) = 0"
  unfolding lead_space_0_iff using take_space_rune by blast

theorem trim_space_idem [simp]: "trim_space (trim_space s) = trim_space s"
proof -
  let ?t = "trim_right (trim_left s)"
  have "lead_space ?t = 0" using trim_right_take [of "trim_left s"] lead_space_take by fastforce
  then have "trim_left ?t = ?t" by (subst trim_left.simps) simp
  moreover have "trim_right ?t = ?t" by (subst trim_right.simps) simp
  ultimately show ?thesis by (simp add: trim_space_def)
qed

lemma trim_space_Nil [simp]: "trim_space [] = []"
  by (simp add: trim_space_def trim_left.simps trim_right.simps)

text \<open>
  \<open>strings.ToLower\<close>: for an ASCII string the letters A to Z are mapped; any other string goes
  through Go's Unicode tables, which are the parameter \<open>ulow\<close>.
\<close>

definition lower_byte :: "char \<Rightarrow> char" where
  "lower_byte c = (if 65 \<le> byte_of c \<and> byte_of c \<le> 90 then char_of (byte_of c + 32) else c)"

definition to_lower :: "(string \<Rightarrow> string) \<Rightarrow> string \<Rightarrow> string" where
  "to_lower ulow s = (if is_ascii s then map lower_byte s else ulow s)"

text \<open>\<open>strings.HasPrefix\<close>, \<open>strings.HasSuffix\<close> and \<open>strings.Contains\<close>.\<close>

definition has_prefix :: "string \<Rightarrow> string \<Rightarrow> bool" where
  "has_prefix s p = (take (length p) s = p)"

definition has_suffix :: "string \<Rightarrow> string \<Rightarrow> bool" where
  "has_suffix s p = (length p \<le> length s \<and> drop (length s - length p) s = p)"

fun contains :: "string \<Rightarrow> string \<Rightarrow> bool" where
  "contains [] p = (p = [])"
| "contains (c # s) p = (has_prefix (c # s) p \<or> contains s p)"

lemma contains_append: "contains (u @ p @ v) p"
proof (induction u)
  case Nil
  have "has_prefix (p @ v) p" by (simp add: has_prefix_def)
  then show ?case by (cases "p @ v") simp_all
next
  case (Cons c u)
  then show ?case by simp
qed

text \<open>
  The width of the rune at the head of a byte string as \<open>range\<close> over a string decodes it: a
  well formed UTF-8 sequence is one rune, any other byte is a rune of width 1.
\<close>

definition is_cont :: "nat \<Rightarrow> bool" where
  "is_cont b = (0x80 \<le> b \<and> b \<le> 0xBF)"

definition rune_width :: "string \<Rightarrow> nat" where
  "rune_width s = (case map byte_of (take 4 s) of
      a # b # rest \<Rightarrow>
        if 0xC2 \<le> a \<and> a \<le> 0xDF \<and> is_cont b then 2
        else (case rest of
          c # rest2 \<Rightarrow>
            if ((a = 0xE0 \<and> 0xA0 \<le> b \<and> b \<le> 0xBF) \<or> (a = 0xED \<and> 0x80 \<le> b \<and> b \<le> 0x9F) \<or>
                (0xE1 \<le> a \<and> a \<le> 0xEF \<and> a \<noteq> 0xED \<and> is_cont b)) \<and> is_cont c then 3
            else (case rest2 of
              d # _ \<Rightarrow>
                if ((a = 0xF0 \<and> 0x90 \<le> b \<and> b \<le> 0xBF) \<or> (a = 0xF4 \<and> 0x80 \<le> b \<and> b \<le> 0x8F) \<or>
                    (0xF1 \<le> a \<and> a \<le> 0xF3 \<and> is_cont b)) \<and> is_cont c \<and> is_cont d then 4 else 1
            | [] \<Rightarrow> 1)
        | [] \<Rightarrow> 1)
    | _ \<Rightarrow> 1)"

lemma rune_width_pos [simp]: "0 < rune_width s"
  by (auto simp: rune_width_def split: list.splits)

section \<open>Row lists\<close>

text \<open>\<open>UPDATE ... SET f WHERE p\<close> on a table kept as the list of its rows.\<close>

definition update_rows :: "('r \<Rightarrow> bool) \<Rightarrow> ('r \<Rightarrow> 'r) \<Rightarrow> 'r list \<Rightarrow> 'r list" where
  "update_rows p f = map (\<lambda>r. if p r then f r else r)"

definition count_rows :: "('r \<Rightarrow> bool) \<Rightarrow> 'r list \<Rightarrow> nat" where
  "count_rows p rs = length (filter p rs)"

lemma count_rows_0 [simp]: "count_rows p rs = 0 \<longleftrightarrow> (\<forall>r\<in>set rs. \<not> p r)"
  by (simp add: count_rows_def filter_empty_conv)

lemma count_rows_pos [simp]: "0 < count_rows p rs \<longleftrightarrow> (\<exists>r\<in>set rs. p r)"
  using count_rows_0 [of p rs] by (simp add: zero_less_iff_neq_zero)

lemma row_by_id: "distinct (map k rs) \<Longrightarrow> r \<in> set rs \<Longrightarrow> x \<in> set rs \<Longrightarrow> k x = k r \<Longrightarrow> x = r"
  by (induction rs) (auto simp: rev_image_eqI)

lemma set_update_rows: "set (update_rows p f rs) = (\<lambda>r. if p r then f r else r) ` set rs"
  by (simp add: update_rows_def)

lemma length_update_rows [simp]: "length (update_rows p f rs) = length rs"
  by (simp add: update_rows_def)

lemma map_update_rows: "(\<And>r. g (f r) = g r) \<Longrightarrow> map g (update_rows p f rs) = map g rs"
  by (simp add: update_rows_def)

lemma update_rows_none: "\<forall>r\<in>set rs. \<not> p r \<Longrightarrow> update_rows p f rs = rs"
  by (simp add: update_rows_def map_idI)

lemma find_Some_set: "find p xs = Some x \<Longrightarrow> x \<in> set xs \<and> p x"
  by (induction xs) (auto split: if_splits)

lemma find_update_rows_same:
  assumes "\<And>r. q (f r) = q r" "find q rs = Some r" "\<forall>r'\<in>set rs. q r' \<longrightarrow> p r'"
  shows "find q (update_rows p f rs) = Some (f r)"
  using assms(2,3) by (induction rs) (auto simp: update_rows_def assms(1) split: if_splits)

text \<open>Rows with distinct keys: a lookup by key finds the row that carries it.\<close>

lemma find_key:
  assumes "distinct (map k rs)" "r \<in> set rs"
  shows "find (\<lambda>x. k x = k r) rs = Some r"
  using assms by (induction rs) (auto simp: rev_image_eqI)

lemma find_key_unique:
  assumes "distinct (map k rs)" "r \<in> set rs" "q r" "\<And>x. x \<in> set rs \<Longrightarrow> q x \<Longrightarrow> k x = k r"
  shows "find q rs = Some r"
  using assms
proof (induction rs)
  case (Cons a rs)
  show ?case
  proof (cases "q a")
    case True
    then have "k a = k r" using Cons.prems(4) [of a] by simp
    then have "a = r" using Cons.prems(1,2) by (auto simp: rev_image_eqI)
    with True show ?thesis by simp
  next
    case False
    with Cons.prems(2,3) have "r \<in> set rs" by auto
    moreover have "distinct (map k rs)" using Cons.prems(1) by simp
    ultimately have "find q rs = Some r"
      using Cons.IH Cons.prems(3,4) by (meson list.set_intros(2))
    with False show ?thesis by simp
  qed
next
  case Nil
  then show ?case by (simp only: list.set empty_iff)
qed

lemma find_unique:
  assumes "x \<in> set xs" "p x" and u: "\<And>y. y \<in> set xs \<Longrightarrow> p y \<Longrightarrow> y = x"
  shows "find p xs = Some x"
proof -
  obtain z where z: "find p xs = Some z"
    using assms(1,2) by (metis find_None_iff2 option.exhaust)
  then have "z \<in> set xs" "p z" by (auto dest: find_Some_set)
  then have "z = x" by (rule u)
  with z show ?thesis by simp
qed

text \<open>Filling a Go map in a loop over rows with distinct keys: each key gets its row's value.\<close>

lemma foldl_map_upd_notin:
  "q \<notin> k ` set rs \<Longrightarrow> foldl (\<lambda>m r. m(k r \<mapsto> v r)) m rs q = m q"
  by (induction rs arbitrary: m) auto

lemma find_None_set: "find p xs = None \<longleftrightarrow> (\<forall>x\<in>set xs. \<not> p x)"
  by (induction xs) auto

lemma foldl_map_upd:
  "distinct (map k rs) \<Longrightarrow> foldl (\<lambda>m r. m(k r \<mapsto> v r)) m rs q =
     (case find (\<lambda>r. k r = q) rs of Some r \<Rightarrow> Some (v r) | None \<Rightarrow> m q)"
proof (induction rs arbitrary: m)
  case (Cons r rs)
  have "k r = q \<Longrightarrow> find (\<lambda>r. k r = q) rs = None"
    using Cons.prems by (auto simp: find_None_set dest: sym)
  with Cons show ?case by (cases "k r = q") auto
qed simp

lemma find_filter: "find p (filter q xs) = find (\<lambda>x. q x \<and> p x) xs"
  by (induction xs) auto

lemma find_cong_set: "(\<And>x. x \<in> set xs \<Longrightarrow> p x = q x) \<Longrightarrow> find p xs = find q xs"
  by (induction xs) auto

lemma distinct_map_filter: "distinct (map k xs) \<Longrightarrow> distinct (map k (filter p xs))"
  by (induction xs) auto

end
