(* ===== verification/Models.thy ===== *)
theory Models
  imports Prelude
begin

text \<open>
  The rows of the tables the modelled services use (package \<open>models\<close>): the status enumerations,
  one record per \<open>gorm\<close> model with its columns (associations are lookups by key and have no
  field), the derivation of workspace ids and the \<open>BeforeCreate\<close> hooks that fill defaults.

  \<open>uuid.UUID\<close> values are only compared, so they are numbers with \<open>uuid.Nil\<close> as 0. A
  \<open>time.Time\<close> is the number of nanoseconds since Go's zero time, so \<open>IsZero\<close> is \<open>t = 0\<close>;
  a \<open>time.Duration\<close> is a number of nanoseconds. A nullable column is an option.
\<close>

type_synonym uuid = nat
type_synonym time = int
type_synonym duration = int

abbreviation uuid_nil :: uuid where "uuid_nil \<equiv> 0"

definition second :: duration where "second = 1000000000"
definition millisecond :: duration where "millisecond = 1000000"
definition minute :: duration where "minute = 60 * second"
definition hour :: duration where "hour = 60 * minute"

lemmas duration_defs [go_consts] = hour_def minute_def second_def millisecond_def

section \<open>Status enumerations\<close>

text \<open>
  Go keeps these as strings. Each datatype has the constants of the source and a constructor for
  the zero value (the empty string), which some functions replace by a default.
\<close>

datatype publication_status =
    PublicationStatusZero
  | PublicationStatusDraft
  | PublicationStatusSyncing
  | PublicationStatusQueued
  | PublicationStatusPublishing
  | PublicationStatusSucceeded
  | PublicationStatusFailed
  | PublicationStatusCancelled

datatype publication_draft_status =
    PublicationDraftStatusZero
  | PublicationDraftStatusUnsynced
  | PublicationDraftStatusSyncing
  | PublicationDraftStatusReady
  | PublicationDraftStatusStale

datatype publication_review_status =
    PublicationReviewStatusZero
  | PublicationReviewStatusDraft
  | PublicationReviewStatusReviewing
  | PublicationReviewStatusApproved
  | PublicationReviewStatusChangesRequested

datatype schedule_status =
    ScheduledPublicationStatusZero
  | ScheduledPublicationStatusDraft
  | ScheduledPublicationStatusPendingReview
  | ScheduledPublicationStatusApproved
  | ScheduledPublicationStatusScheduled
  | ScheduledPublicationStatusRunning
  | ScheduledPublicationStatusPublished
  | ScheduledPublicationStatusFailed
  | ScheduledPublicationStatusNeedsManualAction
  | ScheduledPublicationStatusCancelled

datatype attempt_status =
    PublishAttemptStatusZero
  | PublishAttemptStatusRunning
  | PublishAttemptStatusSucceeded
  | PublishAttemptStatusFailed
  | PublishAttemptStatusNeedsManualAction

datatype outbox_status =
    OutboxStatusZero
  | OutboxStatusPending
  | OutboxStatusProcessing
  | OutboxStatusDispatched
  | OutboxStatusFailed

datatype workspace_status =
    WorkspaceStatusZero
  | WorkspaceStatusActive
  | WorkspaceStatusArchived

datatype invite_status =
    WorkspaceInviteStatusZero
  | WorkspaceInviteStatusPending
  | WorkspaceInviteStatusAccepted
  | WorkspaceInviteStatusExpired
  | WorkspaceInviteStatusRevoked

text \<open>The text of a publication status as it is written to JSON and to messages.\<close>

fun publication_status_text :: "publication_status \<Rightarrow> string" where
  "publication_status_text PublicationStatusZero = ''''"
| "publication_status_text PublicationStatusCancelled = ''cancelled''"
| "publication_status_text PublicationStatusDraft = ''draft''"
| "publication_status_text PublicationStatusFailed = ''failed''"
| "publication_status_text PublicationStatusPublishing = ''publishing''"
| "publication_status_text PublicationStatusQueued = ''queued''"
| "publication_status_text PublicationStatusSucceeded = ''succeeded''"
| "publication_status_text PublicationStatusSyncing = ''syncing''"

fun schedule_status_text :: "schedule_status \<Rightarrow> string" where
  "schedule_status_text ScheduledPublicationStatusZero = ''''"
| "schedule_status_text ScheduledPublicationStatusDraft = ''draft''"
| "schedule_status_text ScheduledPublicationStatusPendingReview = ''pending_review''"
| "schedule_status_text ScheduledPublicationStatusApproved = ''approved''"
| "schedule_status_text ScheduledPublicationStatusScheduled = ''scheduled''"
| "schedule_status_text ScheduledPublicationStatusRunning = ''running''"
| "schedule_status_text ScheduledPublicationStatusPublished = ''published''"
| "schedule_status_text ScheduledPublicationStatusFailed = ''failed''"
| "schedule_status_text ScheduledPublicationStatusNeedsManualAction = ''needs_manual_action''"
| "schedule_status_text ScheduledPublicationStatusCancelled = ''cancelled''"

text \<open>Roles come from requests and from rows, so they stay strings.\<close>

abbreviation "ProjectRoleOwner \<equiv> ''owner''"
abbreviation "ProjectRoleEditor \<equiv> ''editor''"
abbreviation "ProjectRoleViewer \<equiv> ''viewer''"
abbreviation "WorkspaceRoleOwner \<equiv> ''owner''"
abbreviation "WorkspaceRoleAdmin \<equiv> ''admin''"
abbreviation "WorkspaceRoleMember \<equiv> ''member''"
abbreviation "WorkspaceRoleViewer \<equiv> ''viewer''"

datatype access_source =
    ProjectAccessSourceOwner
  | ProjectAccessSourceDirectShare
  | ProjectAccessSourceWorkspace

datatype project_activity_type =
    ProjectActivityPublishRequested
  | ProjectActivityPublishQueued
  | ProjectActivityPublishCompleted
  | ProjectActivityOther string

datatype workspace_activity_type =
    WorkspaceActivityWorkspaceCreated
  | WorkspaceActivityWorkspaceUpdated
  | WorkspaceActivityMemberAdded
  | WorkspaceActivityMemberRoleChanged
  | WorkspaceActivityMemberRemoved
  | WorkspaceActivityInviteCreated
  | WorkspaceActivityInviteAccepted
  | WorkspaceActivityInviteRevoked

section \<open>Rows\<close>

record user =
  user_ID :: uuid
  user_Username :: string
  user_Email :: string

record project =
  proj_ID :: uuid
  proj_UserID :: uuid
  proj_WorkspaceID :: "uuid option"
  proj_CollabDocumentID :: "uuid option"
  proj_Title :: string
  proj_SourceContent :: string
  proj_Status :: string
  proj_CreatedAt :: time
  proj_UpdatedAt :: time

record project_list_summary =
  pls_ProjectID :: uuid
  pls_UserID :: uuid
  pls_WorkspaceID :: uuid
  pls_CollabDocumentID :: "uuid option"
  pls_Title :: string
  pls_Status :: string
  pls_Publications :: string
  pls_CreatedAt :: time
  pls_UpdatedAt :: time
  pls_RefreshedAt :: time

record project_collaborator =
  collab_ProjectID :: uuid
  collab_UserID :: uuid
  collab_Role :: string
  collab_CreatedBy :: uuid
  collab_CreatedAt :: time

record project_version =
  ver_ID :: uuid
  ver_WorkspaceID :: uuid
  ver_ProjectID :: uuid
  ver_CreatedBy :: uuid
  ver_VersionNumber :: int
  ver_Title :: string
  ver_SourceContent :: string
  ver_CollabDocumentID :: "uuid option"
  ver_CollabSeq :: int
  ver_Source :: string
  ver_CreatedAt :: time

record project_share_link =
  shl_ID :: uuid
  shl_WorkspaceID :: uuid
  shl_ProjectID :: uuid
  shl_CreatedBy :: uuid
  shl_TokenHash :: string
  shl_Role :: string
  shl_Status :: string
  shl_ExpiresAt :: "time option"
  shl_CreatedAt :: time
  shl_RevokedAt :: "time option"

text \<open>A \<open>metadata\<close> JSON object is the list of its members.\<close>

type_synonym metadata = "(string \<times> string) list"

record project_activity =
  pact_ID :: uuid
  pact_WorkspaceID :: uuid
  pact_ProjectID :: uuid
  pact_ActorUserID :: uuid
  pact_TargetUserID :: "uuid option"
  pact_EventType :: project_activity_type
  pact_Metadata :: metadata
  pact_CreatedAt :: time

record project_comment =
  cmt_ID :: uuid
  cmt_WorkspaceID :: uuid
  cmt_ProjectID :: uuid
  cmt_AuthorID :: uuid
  cmt_Body :: string
  cmt_AnchorText :: string
  cmt_Status :: string
  cmt_Metadata :: metadata
  cmt_CreatedAt :: time
  cmt_ResolvedAt :: "time option"

text \<open>\<open>ws_Deleted\<close> is whether the soft delete column is set: \<open>gorm\<close> leaves such rows out.\<close>

record workspace =
  ws_ID :: uuid
  ws_OwnerUserID :: uuid
  ws_Name :: string
  ws_Slug :: string
  ws_Status :: workspace_status
  ws_CreatedAt :: time
  ws_UpdatedAt :: time
  ws_Deleted :: bool

record workspace_member =
  mem_WorkspaceID :: uuid
  mem_UserID :: uuid
  mem_Role :: string
  mem_InvitedBy :: "uuid option"
  mem_JoinedAt :: "time option"
  mem_CreatedAt :: time

record workspace_invite =
  inv_ID :: uuid
  inv_WorkspaceID :: uuid
  inv_Email :: string
  inv_Role :: string
  inv_InvitedBy :: uuid
  inv_AcceptedBy :: "uuid option"
  inv_Status :: invite_status
  inv_TokenHash :: string
  inv_ExpiresAt :: time
  inv_AcceptedAt :: "time option"
  inv_RevokedAt :: "time option"
  inv_CreatedAt :: time
  inv_UpdatedAt :: time

record workspace_activity =
  wact_ID :: uuid
  wact_WorkspaceID :: uuid
  wact_ActorUserID :: uuid
  wact_TargetUserID :: "uuid option"
  wact_EventType :: workspace_activity_type
  wact_Metadata :: metadata
  wact_CreatedAt :: time

record publication =
  pub_ID :: uuid
  pub_WorkspaceID :: uuid
  pub_ProjectID :: uuid
  pub_Platform :: string
  pub_PlatformAccountID :: "uuid option"
  pub_Enabled :: bool
  pub_Status :: publication_status
  pub_DraftStatus :: publication_draft_status
  pub_ReviewStatus :: publication_review_status
  pub_SyncRequired :: bool
  pub_Config :: string
  pub_AdaptedContent :: string
  pub_RemoteID :: string
  pub_PublishURL :: string
  pub_ErrorMessage :: string
  pub_RetryCount :: int
  pub_LastAttemptAt :: "time option"
  pub_PublishedAt :: "time option"

record publish_event =
  ev_ID :: uuid
  ev_PublicationID :: uuid
  ev_WorkspaceID :: uuid
  ev_ProjectID :: uuid
  ev_UserID :: uuid
  ev_Platform :: string
  ev_JobID :: uuid
  ev_IdempotencyKey :: string
  ev_EventType :: string
  ev_Status :: publication_status
  ev_RemoteID :: string
  ev_PublishURL :: string
  ev_ErrorMessage :: string
  ev_CreatedAt :: time

record scheduled_publication =
  sch_ID :: uuid
  sch_WorkspaceID :: uuid
  sch_ProjectID :: uuid
  sch_PublicationID :: uuid
  sch_PlatformAccountID :: "uuid option"
  sch_ProjectVersionID :: "uuid option"
  sch_ScheduledAt :: time
  sch_Timezone :: string
  sch_Status :: schedule_status
  sch_IdempotencyKey :: string
  sch_CreatedBy :: uuid
  sch_CancelledBy :: "uuid option"
  sch_LastError :: string
  sch_CreatedAt :: time

record publish_attempt =
  att_ID :: uuid
  att_ScheduledPublicationID :: uuid
  att_AttemptNo :: int
  att_StartedAt :: time
  att_FinishedAt :: "time option"
  att_Status :: attempt_status
  att_RemoteID :: string
  att_PublishURL :: string
  att_ErrorCode :: attempt_status
  att_ErrorMessage :: string

text \<open>
  An account of a platform. The JSON columns are their texts, empty for \<open>NULL\<close>; the columns only
  the account pages show are left out.
\<close>

record platform_account =
  acct_ID :: uuid
  acct_UserID :: uuid
  acct_WorkspaceID :: "uuid option"
  acct_OwnerUserID :: "uuid option"
  acct_ConnectedByUserID :: "uuid option"
  acct_Platform :: string
  acct_ShareScope :: string
  acct_Status :: string
  acct_HealthStatus :: string
  acct_CredentialSecretRef :: string
  acct_Cookies :: string
  acct_Credentials :: string
  acct_Metadata :: string
  acct_Config :: string
  acct_UpdatedAt :: time

record platform_account_grant =
  gra_ID :: uuid
  gra_PlatformAccountID :: uuid
  gra_WorkspaceID :: uuid
  gra_GranteeUserID :: "uuid option"
  gra_ProjectID :: "uuid option"
  gra_Role :: string

text \<open>
  A remote browser session. The runtime reference is its JSON text; the status is a string, since it
  is also read back from the JSON of the live state.
\<close>

record remote_browser_session =
  rbs_ID :: uuid
  rbs_UserID :: uuid
  rbs_WorkspaceID :: "uuid option"
  rbs_PlatformAccountID :: "uuid option"
  rbs_Platform :: string
  rbs_Status :: string
  rbs_WorkerSessionRef :: string
  rbs_RuntimeReference :: string
  rbs_StreamEndpointRef :: string
  rbs_ConnectTokenHash :: string
  rbs_ConnectTokenExpiresAt :: time
  rbs_ErrorMessage :: string
  rbs_CreatedAt :: time
  rbs_ExpiresAt :: time
  rbs_CompletedAt :: "time option"

text \<open>The metadata of a notification is a flat JSON object.\<close>

record notification =
  ntf_ID :: uuid
  ntf_WorkspaceID :: uuid
  ntf_RecipientUserID :: uuid
  ntf_EventType :: string
  ntf_ResourceType :: string
  ntf_ResourceID :: "uuid option"
  ntf_Status :: string
  ntf_Metadata :: "(string \<times> string) list"

text \<open>
  The queue message of \<open>services/publish/queue.go\<close>; it is also what the outbox row carries. The
  unused field that only keeps old payloads decodable is left out.
\<close>

record publish_job =
  job_JobID :: uuid
  job_ProjectID :: uuid
  job_WorkspaceID :: uuid
  job_UserID :: uuid
  job_Platform :: string
  job_PublicationID :: uuid
  job_ScheduleID :: uuid
  job_IdempotencyKey :: string
  job_EnqueuedAt :: time

text \<open>
  An outbox payload is JSON: either what \<open>json.Marshal\<close> wrote for a job, which decodes to that
  job, or some other text.
\<close>

datatype outbox_payload = JobPayload publish_job | RawPayload string

record outbox_event =
  out_ID :: uuid
  out_AggregateID :: uuid
  out_EventType :: string
  out_Payload :: outbox_payload
  out_Status :: outbox_status
  out_Attempts :: int
  out_NextAttemptAt :: "time option"
  out_ProcessedAt :: "time option"
  out_ErrorMessage :: string
  out_CreatedAt :: time
  out_UpdatedAt :: time

section \<open>Workspace identity\<close>

text \<open>
  \<open>PersonalWorkspaceID\<close> is a SHA-1 name UUID of the user id: the parameter \<open>pws\<close>. What the
  code relies on is \<open>pws_ok\<close>: it never yields the nil id, and two users never share one.
\<close>

definition pws_ok :: "(uuid \<Rightarrow> uuid) \<Rightarrow> bool" where
  "pws_ok pws \<longleftrightarrow> inj pws \<and> (\<forall>u. pws u \<noteq> uuid_nil)"

definition project_workspace_id :: "(uuid \<Rightarrow> uuid) \<Rightarrow> project \<Rightarrow> uuid" where
  "project_workspace_id pws p =
     (case proj_WorkspaceID p of
        Some w \<Rightarrow> if w \<noteq> uuid_nil then w
                  else if proj_UserID p \<noteq> uuid_nil then pws (proj_UserID p) else uuid_nil
      | None \<Rightarrow> if proj_UserID p \<noteq> uuid_nil then pws (proj_UserID p) else uuid_nil)"

text \<open>
  \<open>deriveWorkspaceIDFromProject\<close>: \<open>found\<close> is what the lookup of the project gave (nothing when
  the row is missing or the query failed).
\<close>

definition derive_workspace_id_from_project ::
  "(uuid \<Rightarrow> uuid) \<Rightarrow> project option \<Rightarrow> uuid \<Rightarrow> uuid \<Rightarrow> uuid" where
  "derive_workspace_id_from_project pws found projectID fallbackUserID =
     (let fallback = (if fallbackUserID \<noteq> uuid_nil then pws fallbackUserID else uuid_nil)
      in if projectID = uuid_nil then fallback
         else case found of Some p \<Rightarrow> project_workspace_id pws p | None \<Rightarrow> fallback)"

section \<open>BeforeCreate hooks\<close>

text \<open>Each hook gets the fresh id, the derived workspace id and the time it may need.\<close>

definition publish_event_before_create :: "uuid \<Rightarrow> uuid \<Rightarrow> time \<Rightarrow> publish_event \<Rightarrow> publish_event" where
  "publish_event_before_create fresh derived now e =
     e\<lparr>ev_ID := (if ev_ID e = uuid_nil then fresh else ev_ID e),
       ev_WorkspaceID := (if ev_WorkspaceID e = uuid_nil then derived else ev_WorkspaceID e),
       ev_CreatedAt := (if ev_CreatedAt e = 0 then now else ev_CreatedAt e)\<rparr>"

definition scheduled_publication_before_create ::
  "uuid \<Rightarrow> uuid \<Rightarrow> scheduled_publication \<Rightarrow> scheduled_publication" where
  "scheduled_publication_before_create fresh derived s =
     s\<lparr>sch_ID := (if sch_ID s = uuid_nil then fresh else sch_ID s),
       sch_WorkspaceID := (if sch_WorkspaceID s = uuid_nil then derived else sch_WorkspaceID s),
       sch_Status := (if sch_Status s = ScheduledPublicationStatusZero
                      then ScheduledPublicationStatusScheduled else sch_Status s),
       sch_Timezone := (if sch_Timezone s = '''' then ''UTC'' else sch_Timezone s)\<rparr>"

definition publish_attempt_before_create :: "uuid \<Rightarrow> publish_attempt \<Rightarrow> publish_attempt" where
  "publish_attempt_before_create fresh a =
     a\<lparr>att_ID := (if att_ID a = uuid_nil then fresh else att_ID a),
       att_Status := (if att_Status a = PublishAttemptStatusZero
                      then PublishAttemptStatusRunning else att_Status a)\<rparr>"

definition outbox_event_before_create :: "uuid \<Rightarrow> outbox_event \<Rightarrow> outbox_event" where
  "outbox_event_before_create fresh e =
     e\<lparr>out_ID := (if out_ID e = uuid_nil then fresh else out_ID e),
       out_Status := (if out_Status e = OutboxStatusZero then OutboxStatusPending else out_Status e)\<rparr>"

definition workspace_before_create :: "uuid \<Rightarrow> workspace \<Rightarrow> workspace" where
  "workspace_before_create fresh w =
     w\<lparr>ws_ID := (if ws_ID w = uuid_nil then fresh else ws_ID w),
       ws_Status := (if ws_Status w = WorkspaceStatusZero then WorkspaceStatusActive else ws_Status w)\<rparr>"

definition workspace_activity_before_create ::
  "uuid \<Rightarrow> time \<Rightarrow> workspace_activity \<Rightarrow> workspace_activity" where
  "workspace_activity_before_create fresh now a =
     a\<lparr>wact_ID := (if wact_ID a = uuid_nil then fresh else wact_ID a),
       wact_CreatedAt := (if wact_CreatedAt a = 0 then now else wact_CreatedAt a)\<rparr>"

definition workspace_invite_before_create :: "uuid \<Rightarrow> workspace_invite \<Rightarrow> workspace_invite" where
  "workspace_invite_before_create fresh i =
     i\<lparr>inv_ID := (if inv_ID i = uuid_nil then fresh else inv_ID i),
       inv_Status := (if inv_Status i = WorkspaceInviteStatusZero
                      then WorkspaceInviteStatusPending else inv_Status i)\<rparr>"

definition project_activity_before_create ::
  "uuid \<Rightarrow> uuid \<Rightarrow> time \<Rightarrow> project_activity \<Rightarrow> project_activity" where
  "project_activity_before_create fresh derived now a =
     a\<lparr>pact_ID := (if pact_ID a = uuid_nil then fresh else pact_ID a),
       pact_WorkspaceID := (if pact_WorkspaceID a = uuid_nil then derived else pact_WorkspaceID a),
       pact_CreatedAt := (if pact_CreatedAt a = 0 then now else pact_CreatedAt a)\<rparr>"

definition remote_browser_session_before_create ::
  "uuid \<Rightarrow> time \<Rightarrow> remote_browser_session \<Rightarrow> remote_browser_session" where
  "remote_browser_session_before_create fresh now s =
     s\<lparr>rbs_ID := (if rbs_ID s = uuid_nil then fresh else rbs_ID s),
       rbs_CreatedAt := (if rbs_CreatedAt s = 0 then now else rbs_CreatedAt s)\<rparr>"

lemmas before_create_defs = publish_event_before_create_def scheduled_publication_before_create_def
  publish_attempt_before_create_def outbox_event_before_create_def workspace_before_create_def
  workspace_activity_before_create_def workspace_invite_before_create_def
  project_activity_before_create_def

lemma project_workspace_id_nil:
  "pws_ok pws \<Longrightarrow> project_workspace_id pws p = uuid_nil \<longleftrightarrow>
     proj_UserID p = uuid_nil \<and> (proj_WorkspaceID p = None \<or> proj_WorkspaceID p = Some uuid_nil)"
  by (auto simp: project_workspace_id_def pws_ok_def split: option.splits)

end
