(* ===== verification/Redis_Store.thy ===== *)
theory Redis_Store
  imports Models
begin

text \<open>
  The Redis server as the limiters use it: one keyspace of strings, counters and sorted sets with
  an expiry per key, the commands and Lua scripts on it, and the client call that can fail before
  the server executes it or after (the reply is lost, the effect is not). The clock of the server
  is in whole milliseconds. A command that fails inside a script ends the script and keeps what
  was written before.
\<close>

section \<open>Keyspace\<close>

datatype redis_value = RStr string | RNum int | RZset "(string \<times> int) list"

record redis_entry =
  ent_value :: redis_value
  ent_expires :: "int option"

type_synonym keyspace = "string \<Rightarrow> redis_entry option"

definition entry_live :: "int \<Rightarrow> redis_entry \<Rightarrow> bool" where
  "entry_live now e = (case ent_expires e of None \<Rightarrow> True | Some x \<Rightarrow> now < x)"

definition live_entry :: "int \<Rightarrow> keyspace \<Rightarrow> string \<Rightarrow> redis_entry option" where
  "live_entry now ks k = (case ks k of None \<Rightarrow> None | Some e \<Rightarrow> if entry_live now e then Some e else None)"

type_synonym 'a redis_cmd = "int \<Rightarrow> (keyspace, 'a) io"

definition wrong_type :: err where
  "wrong_type = ErrText ''WRONGTYPE Operation against a key holding the wrong kind of value''"

subsection \<open>Strings and counters\<close>

definition cmd_get :: "string \<Rightarrow> string redis_cmd" where
  "cmd_get k now ks = (case live_entry now ks k of
      None \<Rightarrow> (Inl ErrRedisNil, ks)
    | Some e \<Rightarrow> (case ent_value e of RStr s \<Rightarrow> (Inr s, ks) | _ \<Rightarrow> (Inl wrong_type, ks)))"

definition cmd_set :: "string \<Rightarrow> string \<Rightarrow> int \<Rightarrow> unit redis_cmd" where
  "cmd_set k s ms now ks = (Inr (), ks(k \<mapsto> \<lparr>ent_value = RStr s, ent_expires = Some (now + ms)\<rparr>))"

definition cmd_del :: "string \<Rightarrow> unit redis_cmd" where
  "cmd_del k now ks = (Inr (), ks(k := None))"

definition cmd_incr :: "string \<Rightarrow> int redis_cmd" where
  "cmd_incr k now ks = (case live_entry now ks k of
      None \<Rightarrow> (Inr 1, ks(k \<mapsto> \<lparr>ent_value = RNum 1, ent_expires = None\<rparr>))
    | Some e \<Rightarrow> (case ent_value e of
        RNum n \<Rightarrow>
          if n = 2 ^ 63 - 1 then (Inl (ErrText ''ERR increment or decrement would overflow''), ks)
          else (Inr (n + 1), ks(k \<mapsto> e\<lparr>ent_value := RNum (n + 1)\<rparr>))
      | RStr _ \<Rightarrow> (Inl (ErrText ''ERR value is not an integer or out of range''), ks)
      | RZset _ \<Rightarrow> (Inl wrong_type, ks)))"

text \<open>\<open>PEXPIRE\<close> with a time that is not positive deletes the key.\<close>

definition cmd_pexpire :: "string \<Rightarrow> int \<Rightarrow> unit redis_cmd" where
  "cmd_pexpire k ms now ks = (case live_entry now ks k of
      None \<Rightarrow> (Inr (), ks)
    | Some e \<Rightarrow> (Inr (), if ms \<le> 0 then ks(k := None) else ks(k \<mapsto> e\<lparr>ent_expires := Some (now + ms)\<rparr>)))"

definition cmd_pttl :: "string \<Rightarrow> int redis_cmd" where
  "cmd_pttl k now ks = (case live_entry now ks k of
      None \<Rightarrow> (Inr (-2), ks)
    | Some e \<Rightarrow> (Inr (case ent_expires e of None \<Rightarrow> -1 | Some x \<Rightarrow> x - now), ks))"

subsection \<open>Sorted sets\<close>

text \<open>A sorted set as the list of its members with their scores; an empty one has no key.\<close>

definition zset_put :: "string \<Rightarrow> int \<Rightarrow> (string \<times> int) list \<Rightarrow> (string \<times> int) list" where
  "zset_put m x zs = (m, x) # filter (\<lambda>p. fst p \<noteq> m) zs"

definition zset_drop :: "string \<Rightarrow> (string \<times> int) list \<Rightarrow> (string \<times> int) list" where
  "zset_drop m zs = filter (\<lambda>p. fst p \<noteq> m) zs"

definition zset_above :: "int \<Rightarrow> (string \<times> int) list \<Rightarrow> (string \<times> int) list" where
  "zset_above x zs = filter (\<lambda>p. x < snd p) zs"

definition store_zset :: "string \<Rightarrow> redis_entry \<Rightarrow> (string \<times> int) list \<Rightarrow> keyspace \<Rightarrow> keyspace" where
  "store_zset k e zs ks = (if zs = [] then ks(k := None) else ks(k \<mapsto> e\<lparr>ent_value := RZset zs\<rparr>))"

definition cmd_zadd :: "string \<Rightarrow> int \<Rightarrow> string \<Rightarrow> unit redis_cmd" where
  "cmd_zadd k x m now ks = (case live_entry now ks k of
      None \<Rightarrow> (Inr (), ks(k \<mapsto> \<lparr>ent_value = RZset [(m, x)], ent_expires = None\<rparr>))
    | Some e \<Rightarrow> (case ent_value e of
        RZset zs \<Rightarrow> (Inr (), ks(k \<mapsto> e\<lparr>ent_value := RZset (zset_put m x zs)\<rparr>))
      | _ \<Rightarrow> (Inl wrong_type, ks)))"

definition cmd_zedit :: "string \<Rightarrow> ((string \<times> int) list \<Rightarrow> (string \<times> int) list) \<Rightarrow> unit redis_cmd" where
  "cmd_zedit k f now ks = (case live_entry now ks k of
      None \<Rightarrow> (Inr (), ks)
    | Some e \<Rightarrow> (case ent_value e of
        RZset zs \<Rightarrow> (Inr (), store_zset k e (f zs) ks)
      | _ \<Rightarrow> (Inl wrong_type, ks)))"

definition cmd_zrem :: "string \<Rightarrow> string \<Rightarrow> unit redis_cmd" where
  "cmd_zrem k m = cmd_zedit k (zset_drop m)"

definition cmd_zremrangebyscore :: "string \<Rightarrow> int \<Rightarrow> unit redis_cmd" where
  "cmd_zremrangebyscore k x = cmd_zedit k (zset_above x)"

definition cmd_zcard :: "string \<Rightarrow> int redis_cmd" where
  "cmd_zcard k now ks = (case live_entry now ks k of
      None \<Rightarrow> (Inr 0, ks)
    | Some e \<Rightarrow> (case ent_value e of RZset zs \<Rightarrow> (Inr (int (length zs)), ks) | _ \<Rightarrow> (Inl wrong_type, ks)))"

text \<open>The statements of a script in order, at one instant of the server's clock.\<close>

definition then_cmd :: "'a redis_cmd \<Rightarrow> ('a \<Rightarrow> 'b redis_cmd) \<Rightarrow> 'b redis_cmd" where
  "then_cmd m f now = bindE (m now) (\<lambda>x. f x now)"

definition reply :: "'a \<Rightarrow> 'a redis_cmd" where
  "reply x now = ret x"

section \<open>Calls of a client\<close>

text \<open>
  What happens to a call: the server never executes it, or executes it and the client does not
  learn of it. The calls, readings of a clock and other effects of a run are numbered by
  \<open>rw_calls\<close>; the environment is the script of faults and clock readings by number.
\<close>

datatype redis_fault = NotExecuted err | ReplyLost err

record redis_world =
  rw_keys :: keyspace
  rw_calls :: nat
  rw_fault :: "nat \<Rightarrow> redis_fault option"
  rw_now :: "nat \<Rightarrow> time"

definition rw_tick :: "'z redis_world_scheme \<Rightarrow> 'z redis_world_scheme" where
  "rw_tick w = w\<lparr>rw_calls := Suc (rw_calls w)\<rparr>"

definition rw_ms :: "'z redis_world_scheme \<Rightarrow> int" where
  "rw_ms w = rw_now w (rw_calls w) div millisecond"

definition redis_do :: "'a redis_cmd \<Rightarrow> ('z redis_world_scheme, 'a) io" where
  "redis_do cmd w = (case rw_fault w (rw_calls w) of
      Some (NotExecuted e) \<Rightarrow> (Inl e, rw_tick w)
    | Some (ReplyLost e) \<Rightarrow> (Inl e, rw_tick (w\<lparr>rw_keys := snd (cmd (rw_ms w) (rw_keys w))\<rparr>))
    | None \<Rightarrow> (case cmd (rw_ms w) (rw_keys w) of (r, ks) \<Rightarrow> (r, rw_tick (w\<lparr>rw_keys := ks\<rparr>))))"

definition time_now :: "('z redis_world_scheme, time) io" where
  "time_now w = (Inr (rw_now w (rw_calls w)), rw_tick w)"

lemmas redis_cmd_defs = cmd_get_def cmd_set_def cmd_del_def cmd_incr_def cmd_pexpire_def cmd_pttl_def
  cmd_zadd_def cmd_zedit_def cmd_zrem_def cmd_zremrangebyscore_def cmd_zcard_def wrong_type_def

lemma rw_tick_sels [simp]:
  "rw_keys (rw_tick w) = rw_keys w" "rw_calls (rw_tick w) = Suc (rw_calls w)"
  "rw_fault (rw_tick w) = rw_fault w" "rw_now (rw_tick w) = rw_now w"
  by (simp_all add: rw_tick_def)

text \<open>Whatever becomes of the call, the keyspace is the old one or the one the command leaves.\<close>

lemma redis_do_keys:
  "rw_keys (snd (redis_do cmd w)) = rw_keys w \<or>
   rw_keys (snd (redis_do cmd w)) = snd (cmd (rw_ms w) (rw_keys w))"
  by (auto simp: redis_do_def split: option.split redis_fault.split prod.split)

lemma redis_do_ok:
  "redis_do cmd w = (Inr x, w') \<Longrightarrow>
     cmd (rw_ms w) (rw_keys w) = (Inr x, rw_keys w') \<and> rw_fault w (rw_calls w) = None"
  by (auto simp: redis_do_def split: option.splits redis_fault.splits prod.splits)

lemma redis_do_frame [simp]:
  "rw_calls (snd (redis_do cmd w)) = Suc (rw_calls w)" "rw_fault (snd (redis_do cmd w)) = rw_fault w"
  "rw_now (snd (redis_do cmd w)) = rw_now w" "redis_world.more (snd (redis_do cmd w)) = redis_world.more w"
  by (simp_all add: redis_do_def rw_tick_def split: option.split redis_fault.split prod.split)

lemma time_now_frame [simp]: "snd (time_now w) = rw_tick w" "fst (time_now w) = Inr (rw_now w (rw_calls w))"
  by (simp_all add: time_now_def)

end
