(* ===== verification/Resilience.thy ===== *)
theory Resilience
  imports Models
begin

text \<open>
  Package \<open>pkg/resilience\<close>, the parts without calls: the circuit breaker, the policies and their
  defaults, the backoff, and which failures are worth a retry. Durations are 64-bit signed
  integers here, because doubling a backoff can overflow. A breaker method takes the time the
  breaker's clock shows; the mutex makes each method one step.
\<close>

type_synonym int64 = "64 word"

section \<open>Circuit breaker\<close>

datatype circuit_state = CircuitClosed | CircuitOpen | CircuitHalfOpen

record circuit_breaker =
  cb_name :: string
  cb_failureThreshold :: int
  cb_openAfter :: int64
  cb_state :: circuit_state
  cb_failures :: int
  cb_openedAt :: time
  cb_halfOpenInFlight :: bool

definition new_circuit_breaker :: "string \<Rightarrow> int \<Rightarrow> int64 \<Rightarrow> circuit_breaker" where
  "new_circuit_breaker name failureThreshold openAfter =
     \<lparr>cb_name = name,
      cb_failureThreshold = (if failureThreshold \<le> 0 then 1 else failureThreshold),
      cb_openAfter = (if openAfter \<le>s 0 then 30 * word_of_int second else openAfter),
      cb_state = CircuitClosed, cb_failures = 0, cb_openedAt = 0, cb_halfOpenInFlight = False\<rparr>"

definition cb_allow :: "time \<Rightarrow> circuit_breaker \<Rightarrow> err option \<times> circuit_breaker" where
  "cb_allow now b =
     (if cb_state b = CircuitClosed then (None, b)
      else if cb_state b = CircuitOpen then
        (if now - cb_openedAt b \<ge> sint (cb_openAfter b)
         then (None, b\<lparr>cb_state := CircuitHalfOpen, cb_halfOpenInFlight := True\<rparr>)
         else (Some ErrCircuitOpen, b))
      else if cb_halfOpenInFlight b then (Some ErrCircuitOpen, b)
      else (None, b\<lparr>cb_halfOpenInFlight := True\<rparr>))"

definition cb_open :: "time \<Rightarrow> circuit_breaker \<Rightarrow> circuit_breaker" where
  "cb_open now b = b\<lparr>cb_state := CircuitOpen, cb_openedAt := now, cb_halfOpenInFlight := False\<rparr>"

definition cb_record :: "time \<Rightarrow> bool \<Rightarrow> circuit_breaker \<Rightarrow> circuit_breaker" where
  "cb_record now success b =
     (case cb_state b of
        CircuitHalfOpen \<Rightarrow>
          (let b = b\<lparr>cb_halfOpenInFlight := False\<rparr>
           in if success then b\<lparr>cb_state := CircuitClosed, cb_failures := 0, cb_openedAt := 0\<rparr>
              else cb_open now b)
      | CircuitOpen \<Rightarrow>
          (if success then b\<lparr>cb_state := CircuitClosed, cb_failures := 0, cb_openedAt := 0\<rparr> else b)
      | CircuitClosed \<Rightarrow>
          (if success then b\<lparr>cb_failures := 0\<rparr>
           else let b = b\<lparr>cb_failures := cb_failures b + 1\<rparr>
                in if cb_failures b \<ge> cb_failureThreshold b then cb_open now b else b))"

text \<open>
  What holds of a breaker between calls: a closed breaker is below its threshold, and a probe is
  only in flight in the half-open state.
\<close>

definition cb_ok :: "circuit_breaker \<Rightarrow> bool" where
  "cb_ok b \<longleftrightarrow> 1 \<le> cb_failureThreshold b \<and> 0 < sint (cb_openAfter b) \<and> 0 \<le> cb_failures b
     \<and> cb_failures b \<le> cb_failureThreshold b
     \<and> (cb_state b = CircuitClosed \<longrightarrow> cb_failures b < cb_failureThreshold b)
     \<and> (cb_halfOpenInFlight b \<longrightarrow> cb_state b = CircuitHalfOpen)"

lemma cb_ok_new: "cb_ok (new_circuit_breaker name n t)"
  by (auto simp: cb_ok_def new_circuit_breaker_def word_sle_eq second_def)

lemma cb_ok_allow: "cb_ok b \<Longrightarrow> cb_ok (snd (cb_allow now b))"
  by (cases "cb_state b") (auto simp: cb_ok_def cb_allow_def)

lemma cb_ok_record: "cb_ok b \<Longrightarrow> cb_ok (cb_record now s b)"
  by (auto simp: cb_ok_def cb_record_def cb_open_def Let_def split: circuit_state.splits)

text \<open>
  The calls callers make on one breaker, in the order the mutex gives them, with the time of each:
  the breaker they leave and the answers of the \<open>Allow\<close> calls.
\<close>

datatype cb_event = Allow time | Record time bool

fun cb_run :: "circuit_breaker \<Rightarrow> cb_event list \<Rightarrow> err option list \<times> circuit_breaker" where
  "cb_run b [] = ([], b)"
| "cb_run b (Allow t # es) =
     (case cb_allow t b of (r, b') \<Rightarrow> case cb_run b' es of (rs, b'') \<Rightarrow> (r # rs, b''))"
| "cb_run b (Record t s # es) = cb_run (cb_record t s b) es"

lemma cb_ok_run: "cb_ok b \<Longrightarrow> cb_ok (snd (cb_run b es))"
proof (induction b es rule: cb_run.induct)
  case (2 b t es)
  then show ?case using cb_ok_allow [of b t] by (auto split: prod.splits)
next
  case (3 b t s es)
  then show ?case using cb_ok_record by simp
qed simp

definition only_allow :: "cb_event list \<Rightarrow> bool" where
  "only_allow es \<longleftrightarrow> (\<forall>e\<in>set es. \<exists>t. e = Allow t)"

lemma only_allow_Cons [simp]: "only_allow (e # es) \<longleftrightarrow> (\<exists>t. e = Allow t) \<and> only_allow es"
  by (auto simp: only_allow_def)

lemma half_open_busy:
  assumes "cb_state b = CircuitHalfOpen" "cb_halfOpenInFlight b" "only_allow es"
  shows "fst (cb_run b es) = replicate (length es) (Some ErrCircuitOpen)"
  using assms by (induction es) (auto simp: cb_allow_def split: prod.splits)

lemma allow_admitted:
  assumes "cb_state b \<noteq> CircuitClosed" "cb_allow t b = (None, b')"
  shows "cb_state b' = CircuitHalfOpen \<and> cb_halfOpenInFlight b'"
  using assms by (cases "cb_state b") (auto simp: cb_allow_def split: if_splits)

section \<open>Policies\<close>

record http_policy =
  hp_Name :: string
  hp_MaxAttempts :: int
  hp_InitialBackoff :: int64
  hp_MaxBackoff :: int64
  hp_FailureThreshold :: int
  hp_OpenAfter :: int64
  hp_RetryUnsafeMethods :: bool

record operation_policy =
  op_Name :: string
  op_MaxAttempts :: int
  op_InitialBackoff :: int64
  op_MaxBackoff :: int64
  op_FailureThreshold :: int
  op_OpenAfter :: int64

definition default_http_policy :: "string \<Rightarrow> http_policy" where
  "default_http_policy name = \<lparr>hp_Name = name, hp_MaxAttempts = 3,
     hp_InitialBackoff = 200 * word_of_int millisecond, hp_MaxBackoff = 2 * word_of_int second,
     hp_FailureThreshold = 5, hp_OpenAfter = 30 * word_of_int second, hp_RetryUnsafeMethods = False\<rparr>"

definition default_operation_policy :: "string \<Rightarrow> operation_policy" where
  "default_operation_policy name = \<lparr>op_Name = name, op_MaxAttempts = 2,
     op_InitialBackoff = 500 * word_of_int millisecond, op_MaxBackoff = 2 * word_of_int second,
     op_FailureThreshold = 3, op_OpenAfter = 60 * word_of_int second\<rparr>"

definition normalize_http_policy :: "http_policy \<Rightarrow> http_policy" where
  "normalize_http_policy p =
     (let p = (if hp_Name p = '''' then p\<lparr>hp_Name := ''external''\<rparr> else p);
          p = (if hp_MaxAttempts p \<le> 0 then p\<lparr>hp_MaxAttempts := 1\<rparr> else p);
          p = (if hp_InitialBackoff p <s 0 then p\<lparr>hp_InitialBackoff := 0\<rparr> else p);
          p = (if hp_MaxBackoff p <s hp_InitialBackoff p
               then p\<lparr>hp_MaxBackoff := hp_InitialBackoff p\<rparr> else p);
          p = (if hp_FailureThreshold p \<le> 0 then p\<lparr>hp_FailureThreshold := 1\<rparr> else p)
      in if hp_OpenAfter p \<le>s 0 then p\<lparr>hp_OpenAfter := 30 * word_of_int second\<rparr> else p)"

definition normalize_operation_policy :: "operation_policy \<Rightarrow> operation_policy" where
  "normalize_operation_policy p =
     (let p = (if op_Name p = '''' then p\<lparr>op_Name := ''external-operation''\<rparr> else p);
          p = (if op_MaxAttempts p \<le> 0 then p\<lparr>op_MaxAttempts := 1\<rparr> else p);
          p = (if op_InitialBackoff p <s 0 then p\<lparr>op_InitialBackoff := 0\<rparr> else p);
          p = (if op_MaxBackoff p <s op_InitialBackoff p
               then p\<lparr>op_MaxBackoff := op_InitialBackoff p\<rparr> else p);
          p = (if op_FailureThreshold p \<le> 0 then p\<lparr>op_FailureThreshold := 1\<rparr> else p)
      in if op_OpenAfter p \<le>s 0 then p\<lparr>op_OpenAfter := 30 * word_of_int second\<rparr> else p)"

lemma normalize_operation_attempts: "1 \<le> op_MaxAttempts (normalize_operation_policy p)"
  by (auto simp: normalize_operation_policy_def Let_def)

lemma normalize_http_attempts: "1 \<le> hp_MaxAttempts (normalize_http_policy p)"
  by (auto simp: normalize_http_policy_def Let_def)

section \<open>Backoff\<close>

definition next_backoff :: "int64 \<Rightarrow> int64 \<Rightarrow> int64" where
  "next_backoff current limit =
     (if current \<le>s 0 then 0
      else let next = current * 2 in if limit <s next then limit else next)"

lemma sint_double:
  fixes c :: int64
  assumes "0 < sint c" "sint c < 2 ^ 62"
  shows "sint (c * 2) = 2 * sint c"
proof -
  have "sint (c * 2) = signed_take_bit 63 (sint c * sint (2 :: int64))"
    by (simp add: sint_word_ariths)
  also have "sint (2 :: int64) = 2" by simp
  also have "signed_take_bit 63 (sint c * 2) = sint c * 2"
    using assms by (intro signed_take_bit_int_eq_self) auto
  finally show ?thesis by simp
qed

text \<open>Below 2^62 ns (146 years) the doubling is exact.\<close>

lemma next_backoff_value:
  assumes "sint c < 2 ^ 62"
  shows "sint (next_backoff c l) = (if sint c \<le> 0 then 0 else min (2 * sint c) (sint l))"
  using assms sint_double [of c] by (auto simp: next_backoff_def word_sle_eq word_sless_alt Let_def)

lemma next_backoff_bounds:
  assumes "sint c \<le> sint l" "0 \<le> sint l" "sint l < 2 ^ 62"
  shows "0 \<le> sint (next_backoff c l) \<and> sint (next_backoff c l) \<le> sint l"
  using assms next_backoff_value [of c l] by auto

text \<open>At 2^62 and above it wraps: the backoff turns negative, and from then on stays 0.\<close>

lemma next_backoff_wraps: "sint (next_backoff (2 ^ 62) (2 ^ 63 - 1)) = - (2 ^ 63)"
  by (simp add: next_backoff_def Let_def word_sle_eq word_sless_alt)

section \<open>Which failures are retried\<close>

definition retryable_fragments :: "string list" where
  "retryable_fragments = [''timeout'', ''timed out'', ''temporary'', ''connection refused'',
     ''connection reset'', ''bad gateway'', ''service unavailable'', ''gateway timeout'',
     ''too many requests'', ''returned 429'', ''returned 500'', ''returned 502'', ''returned 503'',
     ''returned 504'', ''status 429'', ''status 500'', ''status 502'', ''status 503'', ''status 504'']"

definition retryable_error :: "(string \<Rightarrow> string) \<Rightarrow> err \<Rightarrow> bool" where
  "retryable_error ulow e =
     (if err_is e ErrContextCanceled \<or> err_is e ErrCircuitOpen then False
      else if err_is e ErrDeadlineExceeded then True
      else \<exists>fragment\<in>set retryable_fragments. contains (to_lower ulow (err_text e)) fragment)"

record http_request =
  req_Method :: string
  req_Body :: bool
  req_GetBody :: "err option option"

record http_response =
  resp_StatusCode :: int

definition method_allows_retry :: "string \<Rightarrow> http_policy \<Rightarrow> bool" where
  "method_allows_retry method p =
     (if hp_RetryUnsafeMethods p then True
      else method \<in> set [''GET'', ''HEAD'', ''OPTIONS'', ''TRACE''])"

definition failed_http_attempt :: "http_response option \<Rightarrow> err option \<Rightarrow> bool" where
  "failed_http_attempt resp e =
     (if e \<noteq> None then True
      else case resp of None \<Rightarrow> True
        | Some r \<Rightarrow> resp_StatusCode r = 429 \<or> resp_StatusCode r \<ge> 500)"

definition retryable_http_failure ::
  "http_request \<Rightarrow> http_response option \<Rightarrow> err option \<Rightarrow> http_policy \<Rightarrow> bool" where
  "retryable_http_failure req resp e p =
     (if \<not> method_allows_retry (req_Method req) p then False else failed_http_attempt resp e)"

text \<open>
  The request of an attempt: the first uses the request itself, a retry a clone whose body has to
  be produced again. \<open>req_Body\<close> says whether there is a body, \<open>req_GetBody\<close> whether it can be
  replayed and with which error.
\<close>

definition clone_request_for_attempt :: "http_request \<Rightarrow> int \<Rightarrow> err + http_request" where
  "clone_request_for_attempt req attempt =
     (if attempt = 1 then Inr req
      else if \<not> req_Body req then Inr req
      else case req_GetBody req of
        None \<Rightarrow> Inl (ErrText ''request body cannot be replayed for retry'')
      | Some (Some e) \<Rightarrow> Inl e
      | Some None \<Rightarrow> Inr req)"

section \<open>Properties\<close>

text \<open>
  A breaker that is not closed admits at most one call until that call reports back: in any
  sequence of \<open>Allow\<close> calls with no \<open>Record\<close> between them, at most one is let through, and every
  other one is answered with \<open>ErrCircuitOpen\<close>.
\<close>

theorem circuit_breaker_single_probe:
  assumes "cb_state b \<noteq> CircuitClosed" "only_allow es"
  shows "length (filter (\<lambda>r. r = None) (fst (cb_run b es))) \<le> 1
    \<and> set (fst (cb_run b es)) \<subseteq> {None, Some ErrCircuitOpen}"
  using assms
proof (induction es arbitrary: b)
  case (Cons e es)
  then obtain t where e: "e = Allow t" by auto
  obtain r b' where a: "cb_allow t b = (r, b')" by fastforce
  show ?case
  proof (cases r)
    case None
    with a Cons.prems(1) have "cb_state b' = CircuitHalfOpen" "cb_halfOpenInFlight b'"
      using allow_admitted by auto
    with half_open_busy [of b' es] Cons.prems(2)
    have "fst (cb_run b' es) = replicate (length es) (Some ErrCircuitOpen)" by simp
    with a e None show ?thesis by (auto split: prod.splits)
  next
    case (Some x)
    with a have "b' = b" "x = ErrCircuitOpen" by (auto simp: cb_allow_def split: if_splits)
    with Some a e Cons.IH [OF Cons.prems(1)] Cons.prems(2) show ?thesis
      by (auto split: prod.splits)
  qed
qed simp

theorem circuit_breaker_single_probe_witness:
  "length (filter (\<lambda>r. r = None) (fst (cb_run
     (cb_open 0 (new_circuit_breaker ''x'' 3 5)) [Allow 1, Allow 7, Allow 8]))) \<le> 1
   \<and> fst (cb_run (cb_open 0 (new_circuit_breaker ''x'' 3 5)) [Allow 1, Allow 7, Allow 8])
       = [Some ErrCircuitOpen, None, Some ErrCircuitOpen]"
  using circuit_breaker_single_probe [of "cb_open 0 (new_circuit_breaker ''x'' 3 5)"
      "[Allow 1, Allow 7, Allow 8]"]
  by (simp add: cb_open_def only_allow_def cb_allow_def new_circuit_breaker_def word_sle_eq)

definition effective_threshold :: "int \<Rightarrow> nat" where
  "effective_threshold n = (if n \<le> 0 then 1 else nat n)"

lemma cb_failures_run:
  assumes "cb_state b = CircuitClosed" "0 \<le> cb_failures b" "cb_failures b < cb_failureThreshold b"
  shows "let b' = snd (cb_run b (map (\<lambda>t. Record t False) ts)) in
     (cb_state b' = CircuitOpen \<longleftrightarrow> cb_failureThreshold b \<le> cb_failures b + int (length ts)) \<and>
     (cb_failures b + int (length ts) < cb_failureThreshold b \<longrightarrow>
        cb_state b' = CircuitClosed \<and> cb_failures b' = cb_failures b + int (length ts))"
  using assms
proof (induction ts arbitrary: b)
  case (Cons t ts)
  have opened: "cb_state x = CircuitOpen \<Longrightarrow> cb_state (snd (cb_run x (map (\<lambda>t. Record t False) ts))) = CircuitOpen" for x
    by (induction ts) (simp_all add: cb_record_def)
  show ?case
  proof (cases "cb_failureThreshold b \<le> cb_failures b + 1")
    case True
    then have "cb_state (cb_record t False b) = CircuitOpen"
      using Cons.prems by (simp add: cb_record_def cb_open_def)
    from opened [OF this] True show ?thesis by (simp add: Let_def)
  next
    case False
    then have "cb_record t False b = b\<lparr>cb_failures := cb_failures b + 1\<rparr>"
      using Cons.prems by (simp add: cb_record_def)
    with Cons.IH [of "b\<lparr>cb_failures := cb_failures b + 1\<rparr>"] False Cons.prems show ?thesis
      by (simp add: Let_def add.commute add.left_commute)
  qed
qed simp

text \<open>
  A breaker trips exactly at its threshold. Starting from a new breaker, after any sequence of
  \<open>k\<close> failures with no success between them it is open if and only if \<open>k\<close> has reached the
  (normalised) threshold, and until then it is closed with \<open>k\<close> failures counted.
\<close>

theorem circuit_breaker_trips_at_threshold:
  "cb_state (snd (cb_run (new_circuit_breaker name n t) (map (\<lambda>s. Record s False) ts)))
     = (if length ts < effective_threshold n then CircuitClosed else CircuitOpen)"
  using cb_failures_run [of "new_circuit_breaker name n t" ts]
  by (cases "n \<le> 0"; cases ts)
    (auto simp: Let_def new_circuit_breaker_def effective_threshold_def nat_le_iff le_nat_iff
      nat_less_iff zless_nat_eq_int_zless)

end
