(* ===== verification/Redis_Degrade.thy ===== *)
theory Redis_Degrade
  imports Redis_Store Resilience
begin

text \<open>
  Package \<open>pkg/redisdegrade\<close>: a guard around Redis operations that stops calling Redis while it is
  down. A guard is an object shared by pointer: its address in the table \<open>dw_guards\<close>, \<open>None\<close> for a
  nil pointer. A call is the sequence Allow, operation, Record; the mutex of the breaker makes each
  of its methods one step. The metrics observer is the list of what it was told.
\<close>

section \<open>Guards\<close>

record guard =
  gd_group :: string
  gd_enabled :: bool
  gd_breaker :: "circuit_breaker option"
  gd_lastState :: nat

datatype metric =
    ObserveOperation string string bool "err option"
  | ObserveStateChange string circuit_state

record degrade_world = redis_world +
  dw_guards :: "nat \<Rightarrow> guard option"
  dw_observer :: bool
  dw_metrics :: "metric list"

type_synonym guard_ref = "nat option"

definition state_to_int :: "circuit_state \<Rightarrow> nat" where
  "state_to_int s = (case s of CircuitOpen \<Rightarrow> 1 | CircuitHalfOpen \<Rightarrow> 2 | CircuitClosed \<Rightarrow> 0)"

subsection \<open>Configuration\<close>

text \<open>\<open>strconv.Atoi\<close>: an optional sign and decimal digits, in the range of 64-bit integers.\<close>

definition is_digit :: "char \<Rightarrow> bool" where
  "is_digit c = (48 \<le> byte_of c \<and> byte_of c \<le> 57)"

fun digits_value :: "int \<Rightarrow> string \<Rightarrow> int" where
  "digits_value n [] = n"
| "digits_value n (c # s) = digits_value (10 * n + (int (byte_of c) - 48)) s"

definition parse_int :: "string \<Rightarrow> int option" where
  "parse_int s =
     (let neg = has_prefix s ''-'';
          s = (if neg \<or> has_prefix s ''+'' then tl s else s);
          n = (if neg then - digits_value 0 s else digits_value 0 s)
      in if s = [] \<or> (\<exists>c\<in>set s. \<not> is_digit c) \<or> n < - (2 ^ 63) \<or> 2 ^ 63 \<le> n then None else Some n)"

definition upper_byte :: "char \<Rightarrow> char" where
  "upper_byte c = (if 97 \<le> byte_of c \<and> byte_of c \<le> 122 then char_of (byte_of c - 32) else c)"

text \<open>
  \<open>strings.ToUpper\<close> with Go's Unicode tables as a parameter, like \<open>to_lower\<close>; the environment is
  the function \<open>getenv\<close>, empty for an unset variable. \<open>parse_duration\<close> is \<open>time.ParseDuration\<close>.
\<close>

definition to_upper :: "(string \<Rightarrow> string) \<Rightarrow> string \<Rightarrow> string" where
  "to_upper uup s = (if is_ascii s then map upper_byte s else uup s)"

definition env_bool :: "(string \<Rightarrow> string) \<Rightarrow> (string \<Rightarrow> string) \<Rightarrow> string \<Rightarrow> bool \<Rightarrow> bool" where
  "env_bool ulow getenv name fallback =
     (let raw = to_lower ulow (trim_space (getenv name)) in
      if raw = [] then fallback
      else if raw \<in> set [''1'', ''true'', ''yes'', ''y'', ''on''] then True
      else if raw \<in> set [''0'', ''false'', ''no'', ''n'', ''off''] then False
      else fallback)"

definition env_duration :: "(string \<Rightarrow> int64 option) \<Rightarrow> (string \<Rightarrow> string) \<Rightarrow> string \<Rightarrow> int64 \<Rightarrow> int64" where
  "env_duration parse_duration getenv name fallback =
     (let raw = trim_space (getenv name);
          by_seconds = (case parse_int raw of
            None \<Rightarrow> fallback
          | Some n \<Rightarrow> if n < 0 then fallback else word_of_int n * word_of_int second)
      in if raw = [] then fallback
         else case parse_duration raw of
           None \<Rightarrow> by_seconds
         | Some d \<Rightarrow> if 0 \<le>s d then d else by_seconds)"

definition int_env :: "(string \<Rightarrow> string) \<Rightarrow> string \<Rightarrow> int \<Rightarrow> int" where
  "int_env getenv name fallback =
     (let raw = trim_space (getenv name) in
      if raw = [] then fallback
      else case parse_int raw of None \<Rightarrow> fallback | Some n \<Rightarrow> if n \<le> 0 then fallback else n)"

definition env_base :: "(string \<Rightarrow> string) \<Rightarrow> string \<Rightarrow> string" where
  "env_base uup grp = ''REDIS_DEGRADE_'' @
     map (\<lambda>c. if c = CHR ''-'' \<or> c = CHR ''.'' then CHR ''_'' else c) (to_upper uup grp)"

record degrade_config =
  dc_Enabled :: bool
  dc_FailureThreshold :: int
  dc_CoolDown :: int64

definition config_from_env ::
  "(string \<Rightarrow> string) \<Rightarrow> (string \<Rightarrow> string) \<Rightarrow> (string \<Rightarrow> int64 option) \<Rightarrow> (string \<Rightarrow> string) \<Rightarrow> string \<Rightarrow> degrade_config" where
  "config_from_env ulow uup parse_duration getenv grp =
     (let base = env_base uup grp in
      \<lparr>dc_Enabled = env_bool ulow getenv (base @ ''_ENABLED'') (env_bool ulow getenv ''REDIS_DEGRADE_ENABLED'' True),
       dc_FailureThreshold = int_env getenv (base @ ''_FAILURE_THRESHOLD'')
         (int_env getenv ''REDIS_DEGRADE_FAILURE_THRESHOLD'' 3),
       dc_CoolDown = env_duration parse_duration getenv (base @ ''_COOLDOWN'')
         (env_duration parse_duration getenv ''REDIS_DEGRADE_COOLDOWN'' (30 * word_of_int second))\<rparr>)"

definition new_guard :: "degrade_config \<Rightarrow> string \<Rightarrow> guard" where
  "new_guard config grp =
     \<lparr>gd_group = grp, gd_enabled = dc_Enabled config,
      gd_breaker = (if \<not> dc_Enabled config then None
        else Some (new_circuit_breaker (''redis:'' @ grp) (dc_FailureThreshold config) (dc_CoolDown config))),
      gd_lastState = state_to_int CircuitClosed\<rparr>"

subsection \<open>Failures that count\<close>

definition redis_fragments :: "string list" where
  "redis_fragments = [''loading redis is loading the dataset in memory'', ''masterdown'', ''readonly'',
     ''timeout'', ''timed out'', ''pool timeout'', ''connection refused'', ''connection reset'',
     ''connection closed'', ''broken pipe'', ''no route to host'', ''network is unreachable'', ''eof'',
     ''i/o timeout'']"

definition retryable_redis_error :: "(string \<Rightarrow> string) \<Rightarrow> err \<Rightarrow> bool" where
  "retryable_redis_error ulow e =
     (if err_is e ErrRedisNil \<or> err_is e ErrCircuitOpen then False
      else if err_is e ErrContextCanceled then False
      else if err_is e ErrDeadlineExceeded then True
      else \<exists>fragment\<in>set redis_fragments. contains (to_lower ulow (err_text e)) fragment)"

definition should_degrade :: "(string \<Rightarrow> string) \<Rightarrow> err \<Rightarrow> bool" where
  "should_degrade ulow e = (if err_is e ErrCircuitOpen then True else retryable_redis_error ulow e)"

section \<open>Calls through a guard\<close>

definition guard_at :: "'z degrade_world_scheme \<Rightarrow> guard_ref \<Rightarrow> guard option" where
  "guard_at w g = (case g of None \<Rightarrow> None | Some a \<Rightarrow> dw_guards w a)"

definition guard_enabled :: "'z degrade_world_scheme \<Rightarrow> guard_ref \<Rightarrow> bool" where
  "guard_enabled w g = (case guard_at w g of None \<Rightarrow> False | Some gd \<Rightarrow> gd_enabled gd)"

definition guard_state :: "'z degrade_world_scheme \<Rightarrow> guard_ref \<Rightarrow> circuit_state" where
  "guard_state w g = (case guard_at w g of
      None \<Rightarrow> CircuitClosed
    | Some gd \<Rightarrow> (case gd_breaker gd of None \<Rightarrow> CircuitClosed | Some b \<Rightarrow> cb_state b))"

definition set_guard :: "guard_ref \<Rightarrow> guard \<Rightarrow> 'z degrade_world_scheme \<Rightarrow> 'z degrade_world_scheme" where
  "set_guard g gd w = (case g of None \<Rightarrow> w | Some a \<Rightarrow> w\<lparr>dw_guards := (dw_guards w)(a \<mapsto> gd)\<rparr>)"

definition emit_metrics :: "guard_ref \<Rightarrow> string \<Rightarrow> bool \<Rightarrow> err option \<Rightarrow> 'z degrade_world_scheme \<Rightarrow> 'z degrade_world_scheme" where
  "emit_metrics g workload degraded e w = (case guard_at w g of
      None \<Rightarrow> w
    | Some gd \<Rightarrow> if \<not> dw_observer w then w
        else w\<lparr>dw_metrics := dw_metrics w @ [ObserveOperation (gd_group gd) workload degraded e]\<rparr>)"

text \<open>The compare-and-swap loop ends in its first round when no other goroutine swaps.\<close>

definition check_state_transition :: "guard_ref \<Rightarrow> 'z degrade_world_scheme \<Rightarrow> 'z degrade_world_scheme" where
  "check_state_transition g w = (case guard_at w g of
      None \<Rightarrow> w
    | Some gd \<Rightarrow>
        if \<not> dw_observer w then w
        else let current = guard_state w g; cur = state_to_int current in
          if cur = gd_lastState gd then w
          else let w = set_guard g (gd\<lparr>gd_lastState := cur\<rparr>) w
            in w\<lparr>dw_metrics := dw_metrics w @ [ObserveStateChange (gd_group gd) current]\<rparr>)"

text \<open>Each method of the breaker reads the clock once.\<close>

definition guard_allow :: "guard_ref \<Rightarrow> ('z degrade_world_scheme, err option) io" where
  "guard_allow g w = (case guard_at w g of
      None \<Rightarrow> (Inr None, w)
    | Some gd \<Rightarrow> (case gd_breaker gd of
        None \<Rightarrow> (Inr None, w)
      | Some b \<Rightarrow> (case cb_allow (rw_now w (rw_calls w)) b of
          (r, b') \<Rightarrow> (Inr r, set_guard g (gd\<lparr>gd_breaker := Some b'\<rparr>) (rw_tick w)))))"

definition record_outcome :: "(string \<Rightarrow> string) \<Rightarrow> err option \<Rightarrow> bool" where
  "record_outcome ulow e = (case e of
      None \<Rightarrow> True
    | Some e \<Rightarrow> if err_is e ErrRedisNil then True
        else if retryable_redis_error ulow e then False else True)"

definition guard_record :: "(string \<Rightarrow> string) \<Rightarrow> guard_ref \<Rightarrow> err option \<Rightarrow> 'z degrade_world_scheme \<Rightarrow> 'z degrade_world_scheme" where
  "guard_record ulow g e w = (case guard_at w g of
      None \<Rightarrow> w
    | Some gd \<Rightarrow> (case gd_breaker gd of
        None \<Rightarrow> w
      | Some b \<Rightarrow> check_state_transition g
          (set_guard g (gd\<lparr>gd_breaker := Some (cb_record (rw_now w (rw_calls w)) (record_outcome ulow e) b)\<rparr>)
            (rw_tick w))))"

definition error_of :: "err + 'a \<Rightarrow> err option" where
  "error_of r = (case r of Inl e \<Rightarrow> Some e | Inr _ \<Rightarrow> None)"

text \<open>\<open>operation\<close> is \<open>None\<close> for a nil function.\<close>

definition call_work ::
  "(string \<Rightarrow> string) \<Rightarrow> guard_ref \<Rightarrow> string \<Rightarrow> ('z degrade_world_scheme, 'a) io option \<Rightarrow> ('z degrade_world_scheme, 'a) io" where
  "call_work ulow g workload operation w = (case operation of
      None \<Rightarrow> (Inl (ErrText ''redis degrade operation is nil''), w)
    | Some operation \<Rightarrow>
        if \<not> guard_enabled w g then operation w
        else case guard_allow g w of
          (Inr (Some e), w) \<Rightarrow>
            (Inl (ErrWrap (''redis degraded for '' @ gd_group (the (guard_at w g))) e),
             emit_metrics g workload True (Some e) w)
        | (_, w) \<Rightarrow> (case operation w of
            (r, w) \<Rightarrow> (r, emit_metrics g workload False (error_of r) (guard_record ulow g (error_of r) w))))"

definition guard_call ::
  "(string \<Rightarrow> string) \<Rightarrow> guard_ref \<Rightarrow> ('z degrade_world_scheme, 'a) io option \<Rightarrow> ('z degrade_world_scheme, 'a) io" where
  "guard_call ulow g operation = call_work ulow g '''' operation"

definition guard_do_work ::
  "(string \<Rightarrow> string) \<Rightarrow> guard_ref \<Rightarrow> string \<Rightarrow> ('z degrade_world_scheme, unit) io option \<Rightarrow> ('z degrade_world_scheme, unit) io" where
  "guard_do_work ulow g workload operation = call_work ulow g workload operation"

section \<open>What a call does to the guard\<close>

text \<open>The guard behind a pointer is enabled and has the breaker \<open>b\<close>.\<close>

definition guarded :: "'z degrade_world_scheme \<Rightarrow> nat \<Rightarrow> circuit_breaker \<Rightarrow> bool" where
  "guarded w a b \<longleftrightarrow> (\<exists>gd. dw_guards w a = Some gd \<and> gd_enabled gd \<and> gd_breaker gd = Some b)"

lemma guarded_enabled: "guarded w a b \<Longrightarrow> guard_enabled w (Some a)"
  by (auto simp: guarded_def guard_enabled_def guard_at_def)

lemma guarded_state: "guarded w a b \<Longrightarrow> guard_state w (Some a) = cb_state b"
  by (auto simp: guarded_def guard_state_def guard_at_def)

lemma guarded_cong: "dw_guards w' a = dw_guards w a \<Longrightarrow> guarded w' a b = guarded w a b"
  by (simp add: guarded_def)

lemma set_guard_sels [simp]:
  "dw_guards (set_guard (Some a) gd w) = (dw_guards w)(a \<mapsto> gd)" "rw_keys (set_guard g gd w) = rw_keys w"
  "rw_calls (set_guard g gd w) = rw_calls w" "rw_now (set_guard g gd w) = rw_now w"
  "rw_fault (set_guard g gd w) = rw_fault w" "dw_observer (set_guard g gd w) = dw_observer w"
  by (simp_all add: set_guard_def split: option.split)

lemma emit_metrics_sels [simp]:
  "dw_guards (emit_metrics g wl d e w) = dw_guards w" "rw_keys (emit_metrics g wl d e w) = rw_keys w"
  "rw_calls (emit_metrics g wl d e w) = rw_calls w" "rw_now (emit_metrics g wl d e w) = rw_now w"
  "rw_fault (emit_metrics g wl d e w) = rw_fault w"
  by (simp_all add: emit_metrics_def split: option.split)

lemma check_state_transition_sels [simp]:
  "rw_keys (check_state_transition g w) = rw_keys w" "rw_calls (check_state_transition g w) = rw_calls w"
  "rw_now (check_state_transition g w) = rw_now w" "rw_fault (check_state_transition g w) = rw_fault w"
  by (simp_all add: check_state_transition_def Let_def split: option.split)

lemma guarded_check [simp]: "guarded (check_state_transition (Some a) w) a b = guarded w a b"
  by (simp add: guarded_def check_state_transition_def Let_def guard_at_def split: option.split)

lemma rw_tick_degrade [simp]: "dw_guards (rw_tick w) = dw_guards w"
  by (simp add: rw_tick_def)

lemma redis_do_degrade [simp]: "dw_guards (snd (redis_do cmd w)) = dw_guards w"
  by (simp add: redis_do_def rw_tick_def split: option.split redis_fault.split prod.split)

lemma guard_record_sels [simp]:
  "rw_keys (guard_record ulow g e w) = rw_keys w" "rw_fault (guard_record ulow g e w) = rw_fault w"
  "rw_now (guard_record ulow g e w) = rw_now w"
  by (simp_all add: guard_record_def split: option.split)

lemma guard_record_guarded:
  assumes "guarded w a b"
  shows "guarded (guard_record ulow (Some a) e w) a (cb_record (rw_now w (rw_calls w)) (record_outcome ulow e) b)"
    and "rw_calls (guard_record ulow (Some a) e w) = Suc (rw_calls w)"
proof -
  obtain gd where gd: "dw_guards w a = Some gd" "gd_enabled gd" "gd_breaker gd = Some b"
    using assms by (auto simp: guarded_def)
  then have "guard_record ulow (Some a) e w = check_state_transition (Some a)
      (set_guard (Some a) (gd\<lparr>gd_breaker := Some (cb_record (rw_now w (rw_calls w)) (record_outcome ulow e) b)\<rparr>)
        (rw_tick w))"
    by (simp add: guard_record_def guard_at_def)
  then show "guarded (guard_record ulow (Some a) e w) a (cb_record (rw_now w (rw_calls w)) (record_outcome ulow e) b)"
    and "rw_calls (guard_record ulow (Some a) e w) = Suc (rw_calls w)"
    using gd by (simp_all add: guarded_def [of "set_guard _ _ _"])
qed

text \<open>The world the operation starts in: the clock has been read and the breaker has answered.\<close>

lemma guard_allow_guarded:
  assumes "guarded w a b"
  obtains w1 where "guard_allow (Some a) w = (Inr (fst (cb_allow (rw_now w (rw_calls w)) b)), w1)"
    "guarded w1 a (snd (cb_allow (rw_now w (rw_calls w)) b))" "rw_keys w1 = rw_keys w"
    "rw_calls w1 = Suc (rw_calls w)" "rw_now w1 = rw_now w" "rw_fault w1 = rw_fault w"
proof -
  obtain gd where gd: "dw_guards w a = Some gd" "gd_enabled gd" "gd_breaker gd = Some b"
    using assms by (auto simp: guarded_def)
  obtain r b' where c: "cb_allow (rw_now w (rw_calls w)) b = (r, b')" by fastforce
  show thesis
    by (rule that [of "set_guard (Some a) (gd\<lparr>gd_breaker := Some b'\<rparr>) (rw_tick w)"])
      (simp_all add: guard_allow_def guard_at_def gd c guarded_def)
qed

lemma call_refused:
  assumes "guarded w a b" "cb_allow (rw_now w (rw_calls w)) b = (Some e, b')"
  obtains s w' where "\<And>operation. call_work ulow (Some a) wl (Some operation) w = (Inl (ErrWrap s e), w')"
    "rw_keys w' = rw_keys w" "guarded w' a b'" "rw_calls w' = Suc (rw_calls w)" "rw_now w' = rw_now w"
    "rw_fault w' = rw_fault w"
proof -
  obtain w1 where w1: "guard_allow (Some a) w = (Inr (Some e), w1)" "guarded w1 a b'" "rw_keys w1 = rw_keys w"
    "rw_calls w1 = Suc (rw_calls w)" "rw_now w1 = rw_now w" "rw_fault w1 = rw_fault w"
    using guard_allow_guarded [OF assms(1)] assms(2) by (metis fst_conv snd_conv)
  let ?w' = "emit_metrics (Some a) wl True (Some e) w1"
  have "guarded ?w' a b'" using w1(2) guarded_cong by (metis emit_metrics_sels(1))
  moreover have "call_work ulow (Some a) wl (Some operation) w =
      (Inl (ErrWrap (''redis degraded for '' @ gd_group (the (guard_at w1 (Some a)))) e), ?w')" for operation
    using w1(1) guarded_enabled [OF assms(1)] by (simp add: call_work_def)
  ultimately show thesis by (intro that [where w' = ?w']) (use w1 in simp_all)
qed

lemma call_admitted:
  assumes "guarded w a b" "cb_allow (rw_now w (rw_calls w)) b = (None, b')"
    and op: "\<And>w. dw_guards (snd (operation w)) = dw_guards w"
  obtains w1 w' where "call_work ulow (Some a) wl (Some operation) w = (fst (operation w1), w')"
    "rw_keys w1 = rw_keys w" "rw_calls w1 = Suc (rw_calls w)" "rw_now w1 = rw_now w" "rw_fault w1 = rw_fault w"
    "rw_keys w' = rw_keys (snd (operation w1))" "rw_calls w' = Suc (rw_calls (snd (operation w1)))"
    "rw_now w' = rw_now (snd (operation w1))" "rw_fault w' = rw_fault (snd (operation w1))"
    "guarded w' a (cb_record (rw_now w' (rw_calls w' - 1)) (record_outcome ulow (error_of (fst (operation w1)))) b')"
proof -
  obtain w1 where w1: "guard_allow (Some a) w = (Inr None, w1)" "guarded w1 a b'" "rw_keys w1 = rw_keys w"
    "rw_calls w1 = Suc (rw_calls w)" "rw_now w1 = rw_now w" "rw_fault w1 = rw_fault w"
    using guard_allow_guarded [OF assms(1)] assms(2) by (metis fst_conv snd_conv)
  obtain r w2 where r: "operation w1 = (r, w2)" by fastforce
  let ?w3 = "guard_record ulow (Some a) (error_of r) w2"
  let ?w' = "emit_metrics (Some a) wl False (error_of r) ?w3"
  have "guarded w2 a b'" using op [of w1] w1(2) r guarded_cong by (metis snd_conv)
  note rec = guard_record_guarded [OF this, where ulow = ulow and e = "error_of r"]
  have "guarded ?w' a (cb_record (rw_now w2 (rw_calls w2)) (record_outcome ulow (error_of r)) b')"
    using rec(1) guarded_cong by (metis emit_metrics_sels(1))
  then show thesis
    using that [where w' = ?w' and ?w1.0 = w1] w1 r rec(2) guarded_enabled [OF assms(1)]
    by (simp add: call_work_def)
qed

section \<open>Properties\<close>

text \<open>An operation that fails as it does while Redis is down, and leaves the guards alone.\<close>

definition outage :: "(string \<Rightarrow> string) \<Rightarrow> ('z degrade_world_scheme, 'a) io \<Rightarrow> bool" where
  "outage ulow operation \<longleftrightarrow> (\<forall>w. (\<exists>e. fst (operation w) = Inl e \<and> retryable_redis_error ulow e)
     \<and> dw_guards (snd (operation w)) = dw_guards w)"

text \<open>The calls a process makes through one guard, one after the other.\<close>

fun guard_calls ::
  "(string \<Rightarrow> string) \<Rightarrow> guard_ref \<Rightarrow> string \<Rightarrow> ('z degrade_world_scheme, 'a) io list \<Rightarrow> 'z degrade_world_scheme \<Rightarrow>
     (err + 'a) list \<times> 'z degrade_world_scheme" where
  "guard_calls ulow g wl [] w = ([], w)"
| "guard_calls ulow g wl (op # ops) w = (case call_work ulow g wl (Some op) w of (r, w) \<Rightarrow>
     (case guard_calls ulow g wl ops w of (rs, w) \<Rightarrow> (r # rs, w)))"

lemma outage_outcome:
  assumes "outage ulow operation"
  shows "record_outcome ulow (error_of (fst (operation w))) = False"
proof -
  obtain e where e: "fst (operation w) = Inl e" "retryable_redis_error ulow e"
    using assms by (auto simp: outage_def)
  then have "\<not> err_is e ErrRedisNil" by (simp add: retryable_redis_error_def split: if_splits)
  with e show ?thesis by (simp add: record_outcome_def error_of_def)
qed


definition outage_example :: "(unit degrade_world_scheme, unit) io" where
  "outage_example = throw ErrDeadlineExceeded"

definition degrade_start :: degrade_world where
  "degrade_start = \<lparr>rw_keys = (\<lambda>_. None), rw_calls = 0, rw_fault = (\<lambda>_. None), rw_now = (\<lambda>n. int n * second),
     dw_guards = (\<lambda>_. None)(0 \<mapsto> new_guard \<lparr>dc_Enabled = True, dc_FailureThreshold = 2, dc_CoolDown = 30 * word_of_int second\<rparr> ''rate_limit''),
     dw_observer = True, dw_metrics = []\<rparr>"

lemma guarded_start:
  "guarded degrade_start 0 (new_circuit_breaker ''redis:rate_limit'' 2 (30 * word_of_int second))"
  by (simp add: guarded_def degrade_start_def new_guard_def)

lemma outage_outage_example: "outage id outage_example"
  by (simp add: outage_def outage_example_def retryable_redis_error_def)




end
