(* ===== verification/Redis_Keys.thy ===== *)
theory Redis_Keys
  imports Prelude
begin

text \<open>
  Package \<open>pkg/rediskey\<close>: the normalised parts of Redis keys and the hash tags that keep keys
  which one script touches in the same cluster slot. \<open>ulow\<close> is \<open>strings.ToLower\<close> on strings that
  are not ASCII.
\<close>

definition unknown_part :: string where
  "unknown_part = ''unknown''"

definition key_char :: "char \<Rightarrow> bool" where
  "key_char c = ((97 \<le> byte_of c \<and> byte_of c \<le> 122) \<or> (48 \<le> byte_of c \<and> byte_of c \<le> 57)
     \<or> byte_of c = 45 \<or> byte_of c = 95 \<or> byte_of c = 58 \<or> byte_of c = 46)"

text \<open>The loop over the runes: a run of runes that may not stand in a key becomes one dash.\<close>

function key_loop :: "bool \<Rightarrow> string \<Rightarrow> string" where
  "key_loop lastDash [] = []"
| "key_loop lastDash (c # t) =
     (if key_char c then c # key_loop False t
      else (if lastDash then [] else [CHR ''-'']) @ key_loop True (drop (rune_width (c # t)) (c # t)))"
  by pat_completeness auto
termination
proof (relation "measure (length \<circ> snd)")
  fix lastDash :: bool and c :: char and t :: string
  have "length (drop (rune_width (c # t)) (c # t)) < length (c # t)"
    unfolding length_drop by (rule diff_less) simp_all
  then show "((True, drop (rune_width (c # t)) (c # t)), lastDash, c # t) \<in> measure (length \<circ> snd)"
    by simp
qed simp_all

definition trim_dashes :: "string \<Rightarrow> string" where
  "trim_dashes s = rev (dropWhile (\<lambda>c. c = CHR ''-'') (rev (dropWhile (\<lambda>c. c = CHR ''-'') s)))"

definition key_part :: "(string \<Rightarrow> string) \<Rightarrow> string \<Rightarrow> string" where
  "key_part ulow value =
     (let value = to_lower ulow (trim_space value) in
      if value = [] then unknown_part
      else let result = trim_dashes (key_loop False value) in
        if result = [] then unknown_part else result)"

definition key_tag :: "(string \<Rightarrow> string) \<Rightarrow> string \<Rightarrow> string \<Rightarrow> string" where
  "key_tag ulow scope value = ''{'' @ key_part ulow scope @ '':'' @ key_part ulow value @ ''}''"

text \<open>\<open>strings.IndexByte\<close>: what precedes the first occurrence of a byte and what follows it.\<close>

fun split_at :: "char \<Rightarrow> string \<Rightarrow> (string \<times> string) option" where
  "split_at c [] = None"
| "split_at c (x # xs) = (if x = c then Some ([], xs)
     else map_option (\<lambda>(u, v). (x # u, v)) (split_at c xs))"

definition extract_tag :: "string \<Rightarrow> string option" where
  "extract_tag key = (case split_at CHR ''{'' key of
      None \<Rightarrow> None
    | Some (_, rest) \<Rightarrow> (case split_at CHR ''}'' rest of
        None \<Rightarrow> None
      | Some (tag, _) \<Rightarrow> if tag = [] then None else Some tag))"

fun share_tag :: "string list \<Rightarrow> bool" where
  "share_tag [] = True"
| "share_tag (k # ks) = (case extract_tag k of
      None \<Rightarrow> False
    | Some expected \<Rightarrow> \<forall>key\<in>set ks. extract_tag key = Some expected)"

section \<open>Shape of a part\<close>

lemma key_loop_chars: "c \<in> set (key_loop d s) \<Longrightarrow> key_char c"
  by (induction d s rule: key_loop.induct)
    (auto simp: key_char_def byte_of_def split: if_splits)

lemma trim_dashes_set: "set (trim_dashes s) \<subseteq> set s"
  unfolding trim_dashes_def by (auto dest!: set_dropWhileD)

lemma key_part_chars: "c \<in> set (key_part ulow v) \<Longrightarrow> key_char c"
  using trim_dashes_set key_loop_chars
  by (fastforce simp: key_part_def Let_def unknown_part_def key_char_def byte_of_def split: if_splits)

lemma key_part_nonempty [simp]: "key_part ulow v \<noteq> []"
  by (simp add: key_part_def Let_def unknown_part_def)

lemma key_loop_id: "\<forall>c\<in>set s. key_char c \<Longrightarrow> key_loop d s = s"
  by (induction s arbitrary: d) simp_all

lemma dropWhile_idem': "dropWhile P (dropWhile P xs) = dropWhile P xs"
  by (induction xs) auto

lemma dropWhile_rev_keep:
  "dropWhile P xs = xs \<Longrightarrow> dropWhile P (rev (dropWhile P (rev xs))) = rev (dropWhile P (rev xs))"
proof -
  assume "dropWhile P xs = xs"
  then have h: "xs = [] \<or> \<not> P (hd xs)" using hd_dropWhile [of P xs] by metis
  define ys where "ys = rev (dropWhile P (rev xs))"
  have "xs = ys @ rev (takeWhile P (rev xs))"
    by (metis rev_append rev_rev_ident takeWhile_dropWhile_id ys_def)
  then have "ys = [] \<or> hd xs = hd ys" by (metis hd_append2)
  moreover have "xs = [] \<longrightarrow> ys = []" by (simp add: ys_def)
  ultimately have "ys = [] \<or> \<not> P (hd ys)" using h by auto
  then show "dropWhile P ys = ys" by (cases ys) auto
qed

lemma trim_dashes_idem: "trim_dashes (trim_dashes s) = trim_dashes s"
  unfolding trim_dashes_def
  by (subst dropWhile_rev_keep [OF dropWhile_idem']) (simp add: dropWhile_idem')

lemma key_chars_ascii: "\<forall>c\<in>set s. key_char c \<Longrightarrow> to_lower ulow s = s"
proof -
  assume a: "\<forall>c\<in>set s. key_char c"
  have low: "lower_byte c = c" if "key_char c" for c
    using that by (auto simp: key_char_def lower_byte_def)
  from a have "is_ascii s" by (auto simp: is_ascii_def key_char_def)
  moreover have "map lower_byte s = s" using a low by (simp add: map_idI)
  ultimately show ?thesis by (simp add: to_lower_def)
qed

lemma no_space_rune: "\<forall>c\<in>set s. key_char c \<Longrightarrow> \<not> is_space_rune s"
  by (auto simp: is_space_rune_def key_char_def split: list.splits)

lemma key_chars_trim: "\<forall>c\<in>set s. key_char c \<Longrightarrow> trim_space s = s"
proof -
  assume a: "\<forall>c\<in>set s. key_char c"
  have "\<not> is_space_rune (take n s)" "\<not> is_space_rune (drop n s)" for n
    using a no_space_rune by (meson in_set_takeD in_set_dropD)+
  then have "lead_space s = 0" "trail_space s = 0" by (simp_all add: lead_space_def trail_space_def)
  then show ?thesis by (simp add: trim_space_def trim_left.simps trim_right.simps)
qed

lemma unknown_part_id: "key_part ulow unknown_part = unknown_part"
proof -
  have a: "\<forall>c\<in>set unknown_part. key_char c" by (simp add: unknown_part_def key_char_def byte_of_def)
  then show ?thesis
    unfolding key_part_def Let_def key_chars_trim [OF a] key_chars_ascii [OF a] key_loop_id [OF a]
    by (simp add: unknown_part_def trim_dashes_def)
qed

section \<open>Properties\<close>

text \<open>
  A key part is a normal form: it is never empty, consists of lower case letters, digits and
  \<open>-\<close>, \<open>_\<close>, \<open>:\<close>, \<open>.\<close> only, and normalising it again changes nothing.
\<close>

theorem key_part_normal_form:
  "key_part ulow v \<noteq> [] \<and> list_all key_char (key_part ulow v)
   \<and> key_part ulow (key_part ulow v) = key_part ulow v"
proof -
  let ?p = "key_part ulow v"
  have chars: "\<forall>c\<in>set ?p. key_char c" using key_part_chars by blast
  have "key_part ulow ?p = ?p"
  proof (cases "?p = unknown_part")
    case True
    then show ?thesis by (simp add: unknown_part_id)
  next
    case False
    then have "?p = trim_dashes (key_loop False (to_lower ulow (trim_space v)))"
      by (simp add: key_part_def Let_def split: if_splits)
    then have "trim_dashes ?p = ?p" by (metis trim_dashes_idem)
    then show ?thesis
      unfolding key_part_def [of ulow ?p] Let_def key_chars_trim [OF chars] key_chars_ascii [OF chars]
        key_loop_id [OF chars] by simp
  qed
  with chars show ?thesis by (simp add: list_all_iff)
qed

lemma split_at_skip: "c \<notin> set u \<Longrightarrow> split_at c (u @ c # v) = Some (u, v)"
  by (induction u) auto

lemma braces_not_key: "CHR ''{'' \<notin> set (key_part ulow v)" "CHR ''}'' \<notin> set (key_part ulow v)"
  using key_part_chars [of _ ulow v] by (fastforce simp: key_char_def byte_of_def)+

text \<open>
  The hash tag of a key can be read back: whatever precedes (without an opening brace) and
  follows a tag, \<open>ExtractTag\<close> returns the text between its braces, so keys built on the same
  scope and value share their tag.
\<close>

theorem extract_tag_of_tag:
  assumes "CHR ''{'' \<notin> set u"
  shows "extract_tag (u @ key_tag ulow scope value @ rest)
     = Some (key_part ulow scope @ '':'' @ key_part ulow value)
   \<and> share_tag [u @ key_tag ulow scope value @ rest, u @ key_tag ulow scope value @ rest2]"
proof -
  let ?t = "key_part ulow scope @ '':'' @ key_part ulow value"
  have e: "extract_tag (u @ key_tag ulow scope value @ r) = Some ?t" for r
  proof -
    have "u @ key_tag ulow scope value @ r = u @ CHR ''{'' # (?t @ CHR ''}'' # r)"
      by (simp add: key_tag_def)
    moreover have "split_at CHR ''}'' (?t @ CHR ''}'' # r) = Some (?t, r)"
      by (rule split_at_skip) (simp add: braces_not_key)
    ultimately show ?thesis using split_at_skip [OF assms] by (simp add: extract_tag_def)
  qed
  then show ?thesis by simp
qed

theorem extract_tag_of_tag_witness:
  "extract_tag (''mpp:publish:lock:'' @ key_tag id ''project'' ''p1'' @ '':x'') = Some ''project:p1''"
proof -
  have "key_part id ''project'' = ''project''" "key_part id ''p1'' = ''p1''"
    by (simp_all add: key_part_def Let_def trim_space_def trim_left.simps trim_right.simps
        lead_space_def trail_space_def is_space_rune_def byte_of_def to_lower_def is_ascii_def
        lower_byte_def key_char_def trim_dashes_def)
  then show ?thesis
    using extract_tag_of_tag [of "''mpp:publish:lock:''" id "''project''" "''p1''" "'':x''" "[]"] by simp
qed

end
