(* ===== verification/Database.thy ===== *)
theory Database
  imports Models Resilience
begin

text \<open>
  The state the services share and the statements they run on it. \<open>db\<close> holds the tables as row
  lists in insertion order, \<open>world\<close> adds the Redis keys that hold publish locks, the job queue, the
  process's circuit breakers (by name), the two variables the publishing closure assigns
  (\<open>published\<close>) and the environment: the outcome of each external call is read from a script indexed by the number of
  calls made so far, so every statement can fail (\<open>env_fault\<close>), every \<open>time.Now()\<close> reads its own
  time and every \<open>uuid.New()\<close> its own id. A statement is a function on the tables; the SQL text
  of the source is the \<open>WHERE\<close> predicate and the assignment handed to it. A transaction restores
  the tables when its body or the commit fails.
\<close>

record db =
  users :: "user list"
  projects :: "project list"
  collaborators :: "project_collaborator list"
  workspaces :: "workspace list"
  members :: "workspace_member list"
  invites :: "workspace_invite list"
  workspace_activities :: "workspace_activity list"
  versions :: "project_version list"
  project_activities :: "project_activity list"
  publications :: "publication list"
  publish_events :: "publish_event list"
  schedules :: "scheduled_publication list"
  attempts :: "publish_attempt list"
  outbox :: "outbox_event list"
  accounts :: "platform_account list"
  grants :: "platform_account_grant list"
  notifications :: "notification list"
  share_links :: "project_share_link list"
  comments :: "project_comment list"
  list_summaries :: "project_list_summary list"
  browser_sessions :: "remote_browser_session list"

text \<open>A lock key of Redis: its value and the time it expires.\<close>

record lock_entry =
  lk_value :: string
  lk_expires :: time

record env =
  env_fault :: "nat \<Rightarrow> err option"
  env_now :: "nat \<Rightarrow> time"
  env_uuid :: "nat \<Rightarrow> uuid"
  env_personal_workspace :: "uuid \<Rightarrow> uuid"
  env_has_table :: "string \<Rightarrow> bool"

record world =
  db :: db
  locks :: "string \<Rightarrow> lock_entry option"
  breakers :: "string \<Rightarrow> circuit_breaker option"
  queue :: "publish_job list"
  published :: "string \<times> string"
  calls :: nat
  env :: env

type_synonym 'a mpp = "(world, 'a) io"

definition empty_db :: db where
  "empty_db = \<lparr>users = [], projects = [], collaborators = [], workspaces = [], members = [],
     invites = [], workspace_activities = [], versions = [], project_activities = [],
     publications = [], publish_events = [], schedules = [], attempts = [], outbox = [],
     accounts = [], grants = [], notifications = [], share_links = [], comments = [],
     list_summaries = [], browser_sessions = []\<rparr>"

section \<open>External calls\<close>

definition tick :: "world \<Rightarrow> world" where
  "tick w = w\<lparr>calls := Suc (calls w)\<rparr>"

definition now_utc :: "time mpp" where
  "now_utc w = (Inr (env_now (env w) (calls w)), tick w)"

definition uuid_new :: "uuid mpp" where
  "uuid_new w = (Inr (env_uuid (env w) (calls w)), tick w)"

definition personal_workspace_id :: "world \<Rightarrow> uuid \<Rightarrow> uuid" where
  "personal_workspace_id w = env_personal_workspace (env w)"

text \<open>A read of the environment or of the state that makes no call.\<close>

definition asks :: "(world \<Rightarrow> 'a) \<Rightarrow> 'a mpp" where
  "asks f w = (Inr (f w), w)"

text \<open>An external call that fails when the script says so and otherwise acts on the state.\<close>

definition external :: "(world \<Rightarrow> 'a \<times> world) \<Rightarrow> 'a mpp" where
  "external f w = (case env_fault (env w) (calls w) of
      Some e \<Rightarrow> (Inl e, tick w)
    | None \<Rightarrow> (case f (tick w) of (x, w') \<Rightarrow> (Inr x, w')))"

definition sql :: "(db \<Rightarrow> 'a \<times> db) \<Rightarrow> 'a mpp" where
  "sql f = external (\<lambda>w. case f (db w) of (x, d) \<Rightarrow> (x, w\<lparr>db := d\<rparr>))"

definition select :: "(db \<Rightarrow> 'a) \<Rightarrow> 'a mpp" where
  "select q = sql (\<lambda>d. (q d, d))"

text \<open>\<open>First\<close>: the row the query selects, or \<open>gorm.ErrRecordNotFound\<close>.\<close>

definition first_row :: "(db \<Rightarrow> 'a option) \<Rightarrow> 'a mpp" where
  "first_row q = bindE (select q) (\<lambda>r. case r of Some x \<Rightarrow> ret x | None \<Rightarrow> throw ErrRecordNotFound)"

text \<open>\<open>Updates\<close> and \<open>Delete\<close>: the number of rows affected and the new tables.\<close>

definition exec :: "(db \<Rightarrow> nat \<times> db) \<Rightarrow> nat mpp" where
  "exec f = sql f"

text \<open>
  \<open>Create\<close>: the row is appended unless it clashes with a stored row on a primary key or a unique
  index (\<open>clash\<close>), which \<open>gorm\<close> reports as \<open>ErrDuplicatedKey\<close>.
\<close>

definition create_row :: "(db \<Rightarrow> 'r list) \<Rightarrow> ('r list \<Rightarrow> db \<Rightarrow> db) \<Rightarrow> ('r \<Rightarrow> 'r \<Rightarrow> bool) \<Rightarrow> 'r \<Rightarrow> unit mpp" where
  "create_row rows put clash r =
     bindE (sql (\<lambda>d. if \<exists>x\<in>set (rows d). clash r x then (False, d) else (True, put (rows d @ [r]) d)))
       (\<lambda>ok. if ok then ret () else throw ErrDuplicatedKey)"

definition transaction :: "'a mpp \<Rightarrow> 'a mpp" where
  "transaction m w = (case m w of
      (Inl e, w') \<Rightarrow> (Inl e, w'\<lparr>db := db w\<rparr>)
    | (Inr x, w') \<Rightarrow> (case env_fault (env w') (calls w') of
        Some e \<Rightarrow> (Inl e, (tick w')\<lparr>db := db w\<rparr>)
      | None \<Rightarrow> (Inr x, tick w')))"

lemmas world_defs = now_utc_def uuid_new_def asks_def external_def sql_def select_def first_row_def
  exec_def tick_def

lemma bindE_asks_app [simp]: "bindE (asks f) g w = g (f w) w"
  by (simp add: bindE_def asks_def)

section \<open>What the primitives keep\<close>

lemma keeps_asks [keeps_intros]: "keeps I (asks f)"
  by (simp add: keeps_def asks_def)

lemma keeps_now_utc: "(\<And>w. I w \<Longrightarrow> I (tick w)) \<Longrightarrow> keeps I now_utc"
  by (simp add: keeps_def now_utc_def)

lemma keeps_uuid_new: "(\<And>w. I w \<Longrightarrow> I (tick w)) \<Longrightarrow> keeps I uuid_new"
  by (simp add: keeps_def uuid_new_def)

lemma keeps_external:
  assumes "\<And>w. I w \<Longrightarrow> I (tick w)" and "\<And>w. I w \<Longrightarrow> I (snd (f w))"
  shows "keeps I (external f)"
  using assms by (auto simp: keeps_def external_def split: option.splits prod.splits)
    (metis snd_conv)

text \<open>
  Invariants of the tables alone: a call changes nothing, a select changes nothing, an update has
  to keep the invariant, a transaction keeps what its body keeps.
\<close>

definition on_db :: "(db \<Rightarrow> bool) \<Rightarrow> world \<Rightarrow> bool" where
  "on_db J w = J (db w)"

lemma on_db_tick [simp]: "on_db J (tick w) = on_db J w"
  by (simp add: on_db_def tick_def)

lemma keeps_dbD: "keeps (on_db J) m \<Longrightarrow> m w = (r, w') \<Longrightarrow> J (db w) \<Longrightarrow> J (db w')"
  unfolding on_db_def using keepsD2 by metis

lemma db_kept: "(\<And>J. keeps (on_db J) m) \<Longrightarrow> m w = (r, w') \<Longrightarrow> db w' = db w"
  using keeps_dbD [of "\<lambda>d. d = db w" m w r w'] by simp

lemma db_tick [simp]: "db (tick w) = db w" "locks (tick w) = locks w" "env (tick w) = env w"
  "queue (tick w) = queue w" "breakers (tick w) = breakers w"
  "published (tick w) = published w" "calls (tick w) = Suc (calls w)"
  by (simp_all add: tick_def)

lemma keeps_db_now_utc [keeps_intros]: "keeps (on_db J) now_utc"
  by (rule keeps_now_utc) simp

lemma keeps_db_uuid_new [keeps_intros]: "keeps (on_db J) uuid_new"
  by (rule keeps_uuid_new) simp

lemma keeps_db_sql: "(\<And>d. J d \<Longrightarrow> J (snd (f d))) \<Longrightarrow> keeps (on_db J) (sql f)"
  unfolding sql_def by (rule keeps_external) (auto simp: on_db_def split: prod.splits, metis snd_conv)

lemma keeps_db_select [keeps_intros]: "keeps (on_db J) (select q)"
  unfolding select_def by (rule keeps_db_sql) simp

lemma keeps_db_first_row [keeps_intros]: "keeps (on_db J) (first_row q)"
  unfolding first_row_def by (intro keeps_intros)

lemma keeps_db_exec [keeps_intros]: "(\<And>d. J d \<Longrightarrow> J (snd (f d))) \<Longrightarrow> keeps (on_db J) (exec f)"
  unfolding exec_def by (rule keeps_db_sql)

lemma keeps_db_create_row [keeps_intros]:
  assumes "\<And>d. J d \<Longrightarrow> \<forall>x\<in>set (rows d). \<not> clash r x \<Longrightarrow> J (put (rows d @ [r]) d)"
  shows "keeps (on_db J) (create_row rows put clash r)"
  unfolding create_row_def by (intro keeps_intros keeps_db_sql) (auto intro: assms)

lemma keeps_db_transaction [keeps_intros]:
  assumes "keeps (on_db J) m" shows "keeps (on_db J) (transaction m)"
  unfolding keeps_def
proof (intro allI impI)
  fix w assume w: "on_db J w"
  obtain r w' where m: "m w = (r, w')" by fastforce
  with assms w have "on_db J w'" by (metis keepsD snd_conv)
  with w m show "on_db J (snd (transaction m w))"
    by (auto simp: transaction_def on_db_def split: sum.splits option.splits)
qed

text \<open>The script never changes, and calls are only ever added to its count.\<close>

definition env_is :: "env \<Rightarrow> world \<Rightarrow> bool" where
  "env_is e w = (env w = e)"

lemma env_is_tick [simp]: "env_is e (tick w) = env_is e w"
  by (simp add: env_is_def)

lemma keeps_env_prims [keeps_intros]:
  "keeps (env_is e) now_utc" "keeps (env_is e) uuid_new" "keeps (env_is e) (sql f)"
  "keeps (env_is e) (select q)" "keeps (env_is e) (first_row q')" "keeps (env_is e) (exec f')"
  "keeps (env_is e) (create_row rows put clash r)"
proof -
  show s: "keeps (env_is e) (sql f)" for f :: "db \<Rightarrow> 'x \<times> db"
    unfolding sql_def by (rule keeps_external) (auto simp: env_is_def split: prod.splits)
  show "keeps (env_is e) now_utc" "keeps (env_is e) uuid_new"
    by (auto intro: keeps_now_utc keeps_uuid_new)
  show sel: "keeps (env_is e) (select q)" for q :: "db \<Rightarrow> 'x" by (simp add: select_def s)
  show "keeps (env_is e) (exec f')" by (simp add: exec_def s)
  show "keeps (env_is e) (first_row q')" unfolding first_row_def by (intro keeps_intros sel)
  show "keeps (env_is e) (create_row rows put clash r)"
    unfolding create_row_def by (intro keeps_intros s)
qed

lemma keeps_env_transaction [keeps_intros]: "keeps (env_is e) m \<Longrightarrow> keeps (env_is e) (transaction m)"
  unfolding keeps_def transaction_def
  by (auto simp: env_is_def tick_def split: prod.splits sum.splits option.splits)

lemma transaction_Inl_db: "transaction m w = (Inl e, w') \<Longrightarrow> db w' = db w"
  by (auto simp: transaction_def split: prod.splits sum.splits option.splits)

lemma transaction_Inr: "transaction m w = (Inr x, w') \<Longrightarrow>
    \<exists>w1. m w = (Inr x, w1) \<and> w' = tick w1"
  by (auto simp: transaction_def split: prod.splits sum.splits option.splits)

section \<open>The fault-free environment\<close>

text \<open>For concrete runs: no call fails.\<close>

definition no_fault :: "world \<Rightarrow> bool" where
  "no_fault w \<longleftrightarrow> (\<forall>n. env_fault (env w) n = None)"

lemma no_fault_tick [simp]: "no_fault (tick w) = no_fault w"
  by (simp add: no_fault_def)

lemma no_fault_db_update [simp]: "no_fault (w\<lparr>db := d\<rparr>) = no_fault w"
  by (simp add: no_fault_def)

lemma sql_ok: "no_fault w \<Longrightarrow> sql f w = (Inr (fst (f (db w))), (tick w)\<lparr>db := snd (f (db w))\<rparr>)"
  by (simp add: no_fault_def sql_def external_def split: prod.splits)

lemma select_ok: "no_fault w \<Longrightarrow> select q w = (Inr (q (db w)), tick w)"
  by (simp add: select_def sql_ok)

lemma first_row_ok: "no_fault w \<Longrightarrow>
    first_row q w = (case q (db w) of Some x \<Rightarrow> Inr x | None \<Rightarrow> Inl ErrRecordNotFound, tick w)"
  by (simp add: first_row_def bindE_def select_ok split: option.splits)

lemma exec_ok: "no_fault w \<Longrightarrow> exec f w = (Inr (fst (f (db w))), (tick w)\<lparr>db := snd (f (db w))\<rparr>)"
  by (simp add: exec_def sql_ok)

lemmas db_ok = sql_ok select_ok first_row_ok exec_ok

text \<open>Running a computation step by step when no call fails.\<close>

lemma bindE_app: "m w = (Inr x, w') \<Longrightarrow> bindE m f w = f x w'"
  by (simp add: bindE_def)

lemma bindE_now_utc_app [simp]: "bindE now_utc f w = f (env_now (env w) (calls w)) (tick w)"
  by (simp add: bindE_def now_utc_def)

lemma bindE_uuid_new_app [simp]: "bindE uuid_new f w = f (env_uuid (env w) (calls w)) (tick w)"
  by (simp add: bindE_def uuid_new_def)

lemma bindE_select_ok: "no_fault w \<Longrightarrow> bindE (select q) f w = f (q (db w)) (tick w)"
  by (rule bindE_app) (rule select_ok)

lemma bindE_first_row_ok: "no_fault w \<Longrightarrow> q (db w) = Some x \<Longrightarrow> bindE (first_row q) f w = f x (tick w)"
  by (rule bindE_app) (simp add: first_row_ok)

lemma bindE_first_row_missing:
  "no_fault w \<Longrightarrow> q (db w) = None \<Longrightarrow> bindE (first_row q) f w = (Inl ErrRecordNotFound, tick w)"
  by (simp add: bindE_def first_row_ok)

lemma bindE_exec_ok: "no_fault w \<Longrightarrow>
    bindE (exec g) f w = f (fst (g (db w))) ((tick w)\<lparr>db := snd (g (db w))\<rparr>)"
  by (rule bindE_app) (rule exec_ok)

lemma bindE_create_row_ok: "no_fault w \<Longrightarrow> \<forall>x\<in>set (rows (db w)). \<not> clash r x \<Longrightarrow>
    bindE (create_row rows put clash r) f w = f () ((tick w)\<lparr>db := put (rows (db w) @ [r]) (db w)\<rparr>)"
  by (rule bindE_app) (auto simp: create_row_def bindE_def sql_ok)

lemma bindE_bindE_app: "bindE (bindE m f) g w = bindE m (\<lambda>x. bindE (f x) g) w"
  by (simp add: bindE_def split: prod.splits sum.splits)

lemmas run_ok = bindE_select_ok bindE_first_row_ok bindE_exec_ok bindE_create_row_ok

text \<open>What a single statement can return when calls may fail.\<close>

lemma select_cases:
  obtains (fault) e where "select q w = (Inl e, tick w)" "env_fault (env w) (calls w) = Some e"
  | (ok) "select q w = (Inr (q (db w)), tick w)"
  by (cases "env_fault (env w) (calls w)") (auto simp: select_def sql_def external_def)

lemma select_Inr: "select q w = (Inr x, w') \<Longrightarrow> x = q (db w) \<and> w' = tick w"
  by (auto simp: select_def sql_def external_def split: option.splits)

lemma first_row_Inr: "first_row q w = (Inr x, w') \<Longrightarrow> q (db w) = Some x \<and> w' = tick w"
  unfolding first_row_def bindE_Inr
  by (elim exE conjE, drule select_Inr) (simp add: throw_def split: option.splits)

lemma first_row_Inl: "first_row q w = (Inl e, w') \<Longrightarrow>
    w' = tick w \<and> (env_fault (env w) (calls w) = Some e \<or> e = ErrRecordNotFound \<and> q (db w) = None)"
  by (auto simp: first_row_def select_def sql_def external_def bindE_def
      split: option.splits if_splits)

lemma exec_Inr: "exec f w = (Inr n, w') \<Longrightarrow>
    n = fst (f (db w)) \<and> w' = (tick w)\<lparr>db := snd (f (db w))\<rparr>"
  by (auto simp: exec_def sql_def external_def split: option.splits prod.splits)

lemma sql_Inr: "sql f w = (Inr x, w') \<Longrightarrow> x = fst (f (db w)) \<and> w' = (tick w)\<lparr>db := snd (f (db w))\<rparr>"
  by (auto simp: sql_def external_def split: option.splits prod.splits)

lemma create_row_Inr: "create_row rows put clash r w = (Inr u, w') \<Longrightarrow>
    (\<forall>x\<in>set (rows (db w)). \<not> clash r x) \<and> w' = (tick w)\<lparr>db := put (rows (db w) @ [r]) (db w)\<rparr>"
  by (auto simp: create_row_def bindE_Inr dest!: sql_Inr split: if_splits)

text \<open>A row that was read is known to be in the table when the rest runs.\<close>

lemma keeps_wp_first_row:
  assumes "\<And>x w. I w \<Longrightarrow> q (db w) = Some x \<Longrightarrow> keeps I (f x)" "\<And>w. I w \<Longrightarrow> I (tick w)"
  shows "keeps I (bindE (first_row q) f)"
  unfolding keeps_def
proof (intro allI impI)
  fix w assume w: "I w"
  obtain r w1 where r: "first_row q w = (r, w1)" by fastforce
  show "I (snd (bindE (first_row q) f w))"
  proof (cases r)
    case (Inl e)
    with first_row_Inl [OF r [unfolded Inl]] r w assms(2) show ?thesis by (simp add: bindE_def)
  next
    case (Inr x)
    with first_row_Inr [OF r [unfolded Inr]] r w assms show ?thesis by (simp add: bindE_app keepsD)
  qed
qed

lemma keeps_liftS_bind: "(\<And>x. r = Inr x \<Longrightarrow> keeps I (f x)) \<Longrightarrow> keeps I (bindE (liftS r) f)"
  by (cases r) (simp_all add: keeps_def bindE_def liftS_def)

lemma create_row_ok: "no_fault w \<Longrightarrow> create_row rows put clash r w =
    (if \<exists>x\<in>set (rows (db w)). clash r x then (Inl ErrDuplicatedKey, tick w)
     else (Inr (), (tick w)\<lparr>db := put (rows (db w) @ [r]) (db w)\<rparr>))"
  by (auto simp: create_row_def bindE_def sql_ok)

lemma now_utc_Inr: "now_utc w = (r, w') \<longleftrightarrow> r = Inr (env_now (env w) (calls w)) \<and> w' = tick w"
  by (auto simp: now_utc_def)

lemma uuid_new_Inr: "uuid_new w = (r, w') \<longleftrightarrow> r = Inr (env_uuid (env w) (calls w)) \<and> w' = tick w"
  by (auto simp: uuid_new_def)

lemma exec_Inl: "exec f w = (Inl e, w') \<Longrightarrow> w' = tick w"
  by (auto simp: exec_def sql_def external_def split: option.splits prod.splits)


subsection \<open>Weakest preconditions of the statements\<close>

text \<open>A fault is a premise of the error case, so the rules serve runs with and without faults.\<close>

lemma db_same [simp]: "(tick w)\<lparr>db := db w\<rparr> = tick w" "w\<lparr>db := db w\<rparr> = w"
  by (simp_all add: tick_def)

definition fault_at :: "world \<Rightarrow> err \<Rightarrow> bool" where
  "fault_at w e = (env_fault (env w) (calls w) = Some e)"

lemma no_fault_fault_at: "no_fault w \<Longrightarrow> \<not> fault_at w e"
  by (simp add: no_fault_def fault_at_def)

lemma wp_asks [wp_intros]: "Q (f w) w \<Longrightarrow> wp (asks f) Q E w"
  by (simp add: wp_def asks_def)

lemma wp_now_utc [wp_intros]: "Q (env_now (env w) (calls w)) (tick w) \<Longrightarrow> wp now_utc Q E w"
  by (simp add: wp_def now_utc_def)

lemma wp_uuid_new [wp_intros]: "Q (env_uuid (env w) (calls w)) (tick w) \<Longrightarrow> wp uuid_new Q E w"
  by (simp add: wp_def uuid_new_def)

lemma wp_sql: "(\<And>e. fault_at w e \<Longrightarrow> E e (tick w)) \<Longrightarrow>
    Q (fst (f (db w))) ((tick w)\<lparr>db := snd (f (db w))\<rparr>) \<Longrightarrow> wp (sql f) Q E w"
  by (cases "env_fault (env w) (calls w)"; cases "f (db w)")
    (simp_all add: wp_def sql_def external_def fault_at_def)

lemma wp_select [wp_intros]: "(\<And>e. fault_at w e \<Longrightarrow> E e (tick w)) \<Longrightarrow> Q (q (db w)) (tick w) \<Longrightarrow>
    wp (select q) Q E w"
  unfolding select_def by (rule wp_sql) simp_all

lemma wp_first_row [wp_intros]: "(\<And>e. fault_at w e \<Longrightarrow> E e (tick w)) \<Longrightarrow>
    (q (db w) = None \<Longrightarrow> E ErrRecordNotFound (tick w)) \<Longrightarrow>
    (\<And>x. q (db w) = Some x \<Longrightarrow> Q x (tick w)) \<Longrightarrow> wp (first_row q) Q E w"
  unfolding first_row_def by (intro wp_intros) simp_all

lemma wp_exec [wp_intros]: "(\<And>e. fault_at w e \<Longrightarrow> E e (tick w)) \<Longrightarrow>
    Q (fst (f (db w))) ((tick w)\<lparr>db := snd (f (db w))\<rparr>) \<Longrightarrow> wp (exec f) Q E w"
  unfolding exec_def by (rule wp_sql)

lemma wp_create_row [wp_intros]: "(\<And>e. fault_at w e \<Longrightarrow> E e (tick w)) \<Longrightarrow>
    (\<exists>x\<in>set (rows (db w)). clash r x \<Longrightarrow> E ErrDuplicatedKey (tick w)) \<Longrightarrow>
    (\<forall>x\<in>set (rows (db w)). \<not> clash r x \<Longrightarrow> Q () ((tick w)\<lparr>db := put (rows (db w) @ [r]) (db w)\<rparr>)) \<Longrightarrow>
    wp (create_row rows put clash r) Q E w"
  unfolding create_row_def
  by (rule wp_bindE, rule wp_sql, simp, cases "\<exists>x\<in>set (rows (db w)). clash r x") (simp_all add: wp_def)

lemma wp_transaction: "wp m (\<lambda>x w1. (\<forall>e. fault_at w1 e \<longrightarrow> E e ((tick w1)\<lparr>db := db w\<rparr>)) \<and> Q x (tick w1))
    (\<lambda>e w1. E e (w1\<lparr>db := db w\<rparr>)) w \<Longrightarrow> wp (transaction m) Q E w"
  by (cases "m w"; cases "fst (m w)"; cases "env_fault (env (snd (m w))) (calls (snd (m w)))")
    (simp_all add: wp_def transaction_def fault_at_def)

text \<open>
  A fault-free environment for concrete runs: the clock shows the number of calls made, ids are
  fresh from 1000 on, and a user's personal workspace has the user's id plus 1000000.
\<close>

definition calm_env :: env where
  "calm_env = \<lparr>env_fault = (\<lambda>_. None), env_now = int, env_uuid = (\<lambda>n. n + 1000),
     env_personal_workspace = (\<lambda>u. u + 1000000), env_has_table = (\<lambda>_. True)\<rparr>"

definition start_world :: "db \<Rightarrow> world" where
  "start_world d = \<lparr>db = d, locks = (\<lambda>_. None), breakers = (\<lambda>_. None), queue = [], published = ([], []), calls = 0,
     env = calm_env\<rparr>"

definition sample_job :: publish_job where
  "sample_job = \<lparr>job_JobID = 1, job_ProjectID = 2, job_WorkspaceID = 3, job_UserID = 4,
     job_Platform = ''x'', job_PublicationID = 5, job_ScheduleID = 0, job_IdempotencyKey = ''k'',
     job_EnqueuedAt = 6\<rparr>"

lemma start_world_db [simp]: "db (start_world d) = d" by (simp add: start_world_def)
lemma start_world_locks [simp]: "locks (start_world d) k = None" by (simp add: start_world_def)
lemma start_world_breakers [simp]: "breakers (start_world d) n = None" by (simp add: start_world_def)
lemma start_world_queue [simp]: "queue (start_world d) = []" by (simp add: start_world_def)
lemma start_world_calls [simp]: "calls (start_world d) = 0" by (simp add: start_world_def)
lemma start_world_env [simp]: "env (start_world d) = calm_env" by (simp add: start_world_def)

lemma calm_env_simps [simp]:
  "env_fault calm_env n = None" "env_now calm_env n = int n" "env_uuid calm_env n = n + 1000"
  "env_personal_workspace calm_env u = u + 1000000" "env_has_table calm_env t"
  by (simp_all add: calm_env_def)

lemma start_world_no_fault [simp]: "no_fault (start_world d)"
  by (simp add: no_fault_def)

end
