(* ===== verification/Redis_Queue.thy ===== *)
theory Redis_Queue
  imports Database Redis_Keys
begin

text \<open>
  \<open>RedisPublishQueue\<close> of \<open>services/publish/queue.go\<close>: the publish lock (\<open>SET NX\<close>, \<open>GET\<close> and the
  two Lua scripts, each one atomic step on the Redis keys) and \<open>Enqueue\<close> on the task queue. Redis
  and asynq themselves are given by their documented behaviour: an expired key reads as absent; a
  task whose id is still stored is refused with \<open>ErrTaskIDConflict\<close>. The locale \<open>lease\<close> states
  what the services rely on; its interpretation shows that the Redis commands provide it.
\<close>

section \<open>Keys\<close>

text \<open>\<open>uuid.UUID.String()\<close>: 32 hexadecimal digits in five groups.\<close>

definition hex_digit :: "nat \<Rightarrow> char" where
  "hex_digit d = (if d < 10 then char_of (48 + d) else char_of (87 + d))"

fun hex_digits :: "nat \<Rightarrow> nat \<Rightarrow> string" where
  "hex_digits 0 n = []"
| "hex_digits (Suc k) n = hex_digits k (n div 16) @ [hex_digit (n mod 16)]"

definition uuid_text :: "uuid \<Rightarrow> string" where
  "uuid_text u = (let h = hex_digits 32 u in
     take 8 h @ ''-'' @ take 4 (drop 8 h) @ ''-'' @ take 4 (drop 12 h) @ ''-'' @
     take 4 (drop 16 h) @ ''-'' @ drop 20 h)"

definition publish_lock_key :: "(string \<Rightarrow> string) \<Rightarrow> uuid \<Rightarrow> string \<Rightarrow> string" where
  "publish_lock_key ulow projectID platform =
     ''mpp:publish:lock:'' @ key_tag ulow ''project'' (uuid_text projectID) @ '':'' @ key_part ulow platform"

definition publish_lock_ttl :: duration where
  "publish_lock_ttl = 30 * minute"

section \<open>Redis commands\<close>

type_synonym lock_store = "string \<Rightarrow> lock_entry option"

definition lock_live :: "lock_store \<Rightarrow> time \<Rightarrow> string \<Rightarrow> string option" where
  "lock_live l now key = (case l key of
      None \<Rightarrow> None
    | Some e \<Rightarrow> if now < lk_expires e then Some (lk_value e) else None)"

definition redis_set_nx :: "time \<Rightarrow> string \<Rightarrow> string \<Rightarrow> duration \<Rightarrow> lock_store \<Rightarrow> bool \<times> lock_store" where
  "redis_set_nx now key val ttl l = (case lock_live l now key of
      Some _ \<Rightarrow> (False, l)
    | None \<Rightarrow> (True, l(key \<mapsto> \<lparr>lk_value = val, lk_expires = now + ttl\<rparr>)))"

text \<open>\<open>PEXPIRE\<close> takes whole milliseconds and deletes the key when they are not positive.\<close>

definition refresh_lock_script :: "time \<Rightarrow> string \<Rightarrow> string \<Rightarrow> duration \<Rightarrow> lock_store \<Rightarrow> bool \<times> lock_store" where
  "refresh_lock_script now key val ttl l =
     (if lock_live l now key = Some val
      then let ms = ttl div millisecond in
        (True, if ms \<le> 0 then l(key := None)
               else l(key \<mapsto> \<lparr>lk_value = val, lk_expires = now + ms * millisecond\<rparr>))
      else (False, l))"

definition release_lock_script :: "time \<Rightarrow> string \<Rightarrow> string \<Rightarrow> lock_store \<Rightarrow> bool \<times> lock_store" where
  "release_lock_script now key val l =
     (if lock_live l now key = Some val then (True, l(key := None)) else (False, l))"

text \<open>A command is an external call; Redis reads its own clock.\<close>

definition redis :: "(time \<Rightarrow> lock_store \<Rightarrow> 'a \<times> lock_store) \<Rightarrow> 'a mpp" where
  "redis f w = external (\<lambda>w'. case f (env_now (env w) (calls w)) (locks w') of
      (x, l) \<Rightarrow> (x, w'\<lparr>locks := l\<rparr>)) w"

definition acquire_lock :: "string \<Rightarrow> string \<Rightarrow> duration \<Rightarrow> bool mpp" where
  "acquire_lock key val ttl = redis (\<lambda>now. redis_set_nx now key val ttl)"

definition lock_value :: "string \<Rightarrow> string mpp" where
  "lock_value key = bindE (redis (\<lambda>now l. (lock_live l now key, l))) (\<lambda>r. case r of
      None \<Rightarrow> ret '''' | Some v \<Rightarrow> ret v)"

definition refresh_lock :: "string \<Rightarrow> string \<Rightarrow> duration \<Rightarrow> bool mpp" where
  "refresh_lock key val ttl = redis (\<lambda>now. refresh_lock_script now key val ttl)"

definition release_lock :: "string \<Rightarrow> string \<Rightarrow> unit mpp" where
  "release_lock key val = bindE (redis (\<lambda>now. release_lock_script now key val)) (\<lambda>_. ret ())"

section \<open>Task queue\<close>

definition asynq_enqueue :: "publish_job \<Rightarrow> unit mpp" where
  "asynq_enqueue job = bindE (external (\<lambda>w.
       if job_JobID job \<in> job_JobID ` set (queue w) then (False, w)
       else (True, w\<lparr>queue := queue w @ [job]\<rparr>)))
     (\<lambda>ok. if ok then ret () else throw ErrTaskIDConflict)"

definition enqueue :: "publish_job \<Rightarrow> unit mpp" where
  "enqueue job = bindE (tryE (asynq_enqueue job)) (\<lambda>r. case r of
      Inl e \<Rightarrow> if err_is e ErrTaskIDConflict then ret () else throw e
    | Inr _ \<Rightarrow> ret ())"

section \<open>The lease interface\<close>

text \<open>The calls the processes make on the locks, in the order Redis executes them.\<close>

datatype lock_op =
    OpAcquire time string string duration
  | OpRefresh time string string duration
  | OpRelease time string string

fun op_time :: "lock_op \<Rightarrow> time" where
  "op_time (OpAcquire t k v d) = t"
| "op_time (OpRefresh t k v d) = t"
| "op_time (OpRelease t k v) = t"

text \<open>An operation on another key, or on this key for another owner.\<close>

fun foreign_op :: "string \<Rightarrow> string \<Rightarrow> lock_op \<Rightarrow> bool" where
  "foreign_op k v (OpAcquire t k' v' d) = (k' \<noteq> k \<or> v' \<noteq> v)"
| "foreign_op k v (OpRefresh t k' v' d) = (k' \<noteq> k \<or> v' \<noteq> v)"
| "foreign_op k v (OpRelease t k' v') = (k' \<noteq> k \<or> v' \<noteq> v)"

fun run_lock_op ::
  "(time \<Rightarrow> string \<Rightarrow> string \<Rightarrow> duration \<Rightarrow> 's \<Rightarrow> bool \<times> 's) \<Rightarrow> (time \<Rightarrow> string \<Rightarrow> string \<Rightarrow> duration \<Rightarrow> 's \<Rightarrow> bool \<times> 's) \<Rightarrow>
   (time \<Rightarrow> string \<Rightarrow> string \<Rightarrow> 's \<Rightarrow> bool \<times> 's) \<Rightarrow> lock_op \<Rightarrow> 's \<Rightarrow> bool \<times> 's" where
  "run_lock_op acq ref rel (OpAcquire t k v d) s = acq t k v d s"
| "run_lock_op acq ref rel (OpRefresh t k v d) s = ref t k v d s"
| "run_lock_op acq ref rel (OpRelease t k v) s = rel t k v s"

fun run_lock_ops ::
  "(time \<Rightarrow> string \<Rightarrow> string \<Rightarrow> duration \<Rightarrow> 's \<Rightarrow> bool \<times> 's) \<Rightarrow> (time \<Rightarrow> string \<Rightarrow> string \<Rightarrow> duration \<Rightarrow> 's \<Rightarrow> bool \<times> 's) \<Rightarrow>
   (time \<Rightarrow> string \<Rightarrow> string \<Rightarrow> 's \<Rightarrow> bool \<times> 's) \<Rightarrow> lock_op list \<Rightarrow> 's \<Rightarrow> bool list \<times> 's" where
  "run_lock_ops acq ref rel [] s = ([], s)"
| "run_lock_ops acq ref rel (x # xs) s = (case run_lock_op acq ref rel x s of (b, s1) \<Rightarrow>
     (case run_lock_ops acq ref rel xs s1 of (bs, s2) \<Rightarrow> (b # bs, s2)))"

text \<open>
  The laws of a lease: it is granted exactly when nobody holds the key, it lasts for its time to
  live, and while it lasts no operation of another owner ends it.
\<close>

locale lease =
  fixes holder :: "'s \<Rightarrow> time \<Rightarrow> string \<Rightarrow> string option"
    and acq :: "time \<Rightarrow> string \<Rightarrow> string \<Rightarrow> duration \<Rightarrow> 's \<Rightarrow> bool \<times> 's"
    and ref :: "time \<Rightarrow> string \<Rightarrow> string \<Rightarrow> duration \<Rightarrow> 's \<Rightarrow> bool \<times> 's"
    and rel :: "time \<Rightarrow> string \<Rightarrow> string \<Rightarrow> 's \<Rightarrow> bool \<times> 's"
  assumes granted: "fst (acq t k v d s) \<longleftrightarrow> holder s t k = None"
    and lasts: "fst (acq t k v d s) \<Longrightarrow> u < t + d \<Longrightarrow> holder (snd (acq t k v d s)) u k = Some v"
    and earlier: "holder s u k = Some v \<Longrightarrow> t \<le> u \<Longrightarrow> holder s t k = Some v"
    and undisturbed: "foreign_op k v x \<Longrightarrow> holder s (op_time x) k = Some v \<Longrightarrow> holder s u k = Some v \<Longrightarrow>
      holder (snd (run_lock_op acq ref rel x s)) u k = Some v"
begin

lemma undisturbed_run:
  assumes "\<forall>x\<in>set xs. op_time x \<le> u \<and> foreign_op k v x" "holder s u k = Some v"
  shows "holder (snd (run_lock_ops acq ref rel xs s)) u k = Some v"
  using assms
proof (induction xs arbitrary: s)
  case (Cons x xs)
  then have "holder s (op_time x) k = Some v" by (meson earlier list.set_intros(1))
  with Cons.prems have "holder (snd (run_lock_op acq ref rel x s)) u k = Some v"
    by (meson undisturbed list.set_intros(1))
  with Cons show ?case by (simp add: case_prod_unfold)
qed simp

lemma exclusive:
  assumes "fst (acq t0 k v d s)" "\<forall>x\<in>set xs. op_time x < t0 + d \<and> foreign_op k v x" "t < t0 + d"
  shows "holder (snd (run_lock_ops acq ref rel xs (snd (acq t0 k v d s)))) t k = Some v"
proof -
  define u where "u = t0 + d - 1"
  have "holder (snd (acq t0 k v d s)) u k = Some v" using lasts [OF assms(1)] by (simp add: u_def)
  moreover have "\<forall>x\<in>set xs. op_time x \<le> u \<and> foreign_op k v x"
    using assms(2) by (simp add: u_def zle_diff1_eq)
  ultimately have "holder (snd (run_lock_ops acq ref rel xs (snd (acq t0 k v d s)))) u k = Some v"
    by (rule undisturbed_run [rotated])
  moreover have "t \<le> u" using assms(3) by (simp add: u_def)
  ultimately show ?thesis using earlier by blast
qed

lemma excluded:
  assumes "fst (acq t0 k v d s)" "\<forall>x\<in>set xs. op_time x < t0 + d \<and> foreign_op k v x" "t < t0 + d"
  shows "\<not> fst (acq t k v' d' (snd (run_lock_ops acq ref rel xs (snd (acq t0 k v d s)))))"
  using exclusive [OF assms] granted by simp

end

interpretation redis_lease: lease lock_live redis_set_nx refresh_lock_script release_lock_script
proof
  fix t k v d and l :: lock_store
  show "fst (redis_set_nx t k v d l) \<longleftrightarrow> lock_live l t k = None"
    by (simp add: redis_set_nx_def split: option.split)
next
  fix t k v d u and l :: lock_store
  assume "fst (redis_set_nx t k v d l)" "u < t + d"
  then show "lock_live (snd (redis_set_nx t k v d l)) u k = Some v"
    by (cases "l k") (auto simp: redis_set_nx_def lock_live_def)
next
  fix l :: lock_store and u k v t
  assume "lock_live l u k = Some v" "t \<le> u"
  then show "lock_live l t k = Some v" by (auto simp: lock_live_def split: option.splits if_splits)
next
  fix k v x u and l :: lock_store
  assume "foreign_op k v x" "lock_live l (op_time x) k = Some v" "lock_live l u k = Some v"
  then show "lock_live (snd (run_lock_op redis_set_nx refresh_lock_script release_lock_script x l)) u k = Some v"
    by (cases x) (auto simp: redis_set_nx_def refresh_lock_script_def release_lock_script_def
        lock_live_def Let_def split: option.splits if_splits)
qed

section \<open>Lock keys\<close>

lemma length_hex_digits [simp]: "length (hex_digits k n) = k"
  by (induction k arbitrary: n) simp_all

lemma hex_digit_inj:
  assumes "a < 16" "b < 16" "hex_digit a = hex_digit b" shows "a = b"
proof -
  have inv: "(if byte_of (hex_digit d) < 58 then byte_of (hex_digit d) - 48
      else byte_of (hex_digit d) - 87) = d" if "d < 16" for d
    using that by (simp add: hex_digit_def byte_of_def)
  show ?thesis using inv [OF assms(1), unfolded assms(3)] inv [OF assms(2)] by (rule trans [OF sym])
qed

lemma hex_digits_inj: "n < 16 ^ k \<Longrightarrow> m < 16 ^ k \<Longrightarrow> hex_digits k n = hex_digits k m \<Longrightarrow> n = m"
proof (induction k arbitrary: n m)
  case (Suc k)
  then have "n div 16 = m div 16" "n mod 16 = m mod 16"
    using hex_digit_inj [of "n mod 16" "m mod 16"] by (simp_all add: less_mult_imp_div_less mult.commute)
  then show ?case by (metis div_mult_mod_eq)
qed simp

lemma uuid_text_groups: "take 8 (uuid_text u) @ take 4 (drop 9 (uuid_text u)) @ take 4 (drop 14 (uuid_text u))
    @ take 4 (drop 19 (uuid_text u)) @ drop 24 (uuid_text u) = hex_digits 32 u"
proof -
  define h where "h = hex_digits 32 u"
  have l: "length h = 32" by (simp add: h_def)
  have "take 4 (drop 16 h) @ drop 20 h = drop 16 h" "take 4 (drop 12 h) @ drop 16 h = drop 12 h"
    "take 4 (drop 8 h) @ drop 12 h = drop 8 h" "take 8 h @ drop 8 h = h"
    using append_take_drop_id [of 4 "drop 16 h"] append_take_drop_id [of 4 "drop 12 h"]
      append_take_drop_id [of 4 "drop 8 h"] by simp_all
  then have "take 8 h @ take 4 (drop 8 h) @ take 4 (drop 12 h) @ take 4 (drop 16 h) @ drop 20 h = h"
    by (simp only:)
  then show ?thesis using l by (simp add: uuid_text_def Let_def h_def [symmetric])
qed

lemma uuid_text_inj: "u < 2 ^ 128 \<Longrightarrow> v < 2 ^ 128 \<Longrightarrow> uuid_text u = uuid_text v \<Longrightarrow> u = v"
  using uuid_text_groups [of u] uuid_text_groups [of v] hex_digits_inj [of u 32 v] by simp

lemma length_uuid_text [simp]: "length (uuid_text u) = 36"
  by (simp add: uuid_text_def Let_def)

lemma hex_digit_chars: "d < 16 \<Longrightarrow> key_char (hex_digit d) \<and> hex_digit d \<noteq> CHR ''-''"
proof -
  assume "d < 16"
  then have "byte_of (hex_digit d) = (if d < 10 then 48 + d else 87 + d)"
    by (simp add: hex_digit_def byte_of_def)
  with \<open>d < 16\<close> show ?thesis
    by (cases "d < 10") (auto simp: key_char_def, simp_all add: byte_of_def)
qed

lemma set_hex_digits: "x \<in> set (hex_digits k n) \<Longrightarrow> key_char x \<and> x \<noteq> CHR ''-''"
proof (induction k arbitrary: n)
  case (Suc k)
  have "n mod 16 < 16" by simp
  then have "key_char (hex_digit (n mod 16)) \<and> hex_digit (n mod 16) \<noteq> CHR ''-''" by (rule hex_digit_chars)
  with Suc show ?case by fastforce
qed simp

lemma uuid_text_chars: "c \<in> set (uuid_text u) \<Longrightarrow> key_char c"
proof -
  have "set (uuid_text u) \<subseteq> insert CHR ''-'' (set (hex_digits 32 u))"
    by (auto simp: uuid_text_def Let_def dest: in_set_takeD in_set_dropD)
  then show "c \<in> set (uuid_text u) \<Longrightarrow> key_char c"
    using set_hex_digits [of c 32 u] by (auto simp: key_char_def byte_of_def)
qed

lemma uuid_text_not_dash: "hd (uuid_text u) \<noteq> CHR ''-''" "last (uuid_text u) \<noteq> CHR ''-''"
proof -
  define h where "h = hex_digits 32 u"
  have l: "length h = 32" by (simp add: h_def)
  have t: "uuid_text u = take 8 h @ ''-'' @ take 4 (drop 8 h) @ ''-'' @ take 4 (drop 12 h) @ ''-'' @
     take 4 (drop 16 h) @ ''-'' @ drop 20 h" by (simp add: uuid_text_def Let_def h_def)
  have "take 8 h \<noteq> []" "drop 20 h \<noteq> []" using l by auto
  then have "hd (uuid_text u) = hd (take 8 h)" "last (uuid_text u) = last (drop 20 h)"
    "hd (take 8 h) \<in> set h" "last (drop 20 h) \<in> set h"
    unfolding t by (simp_all add: hd_append) 
  then show "hd (uuid_text u) \<noteq> CHR ''-''" "last (uuid_text u) \<noteq> CHR ''-''"
    using set_hex_digits [of _ 32 u] by (auto simp: h_def)
qed

lemma trim_dashes_id: "s \<noteq> [] \<Longrightarrow> hd s \<noteq> CHR ''-'' \<Longrightarrow> last s \<noteq> CHR ''-'' \<Longrightarrow> trim_dashes s = s"
  by (simp add: trim_dashes_def dropWhile_eq_self_iff [THEN iffD2] hd_rev)

lemma key_part_uuid: "key_part ulow (uuid_text u) = uuid_text u"
proof -
  have chars: "\<forall>c\<in>set (uuid_text u). key_char c" using uuid_text_chars by blast
  have "uuid_text u \<noteq> []" using length_uuid_text [of u] by (metis list.size(3) zero_neq_numeral)
  with trim_dashes_id [OF this uuid_text_not_dash] show ?thesis
    unfolding key_part_def Let_def key_chars_trim [OF chars] key_chars_ascii [OF chars]
      key_loop_id [OF chars] by simp
qed

section \<open>Properties\<close>

text \<open>
  C2: The publish lock is a lease. Once a job has acquired a key at \<open>t0\<close> with time to live \<open>d\<close>,
  then whatever the other jobs do on the locks before \<open>t0 + d\<close> (acquire, refresh, release, on any
  key, in any order), at every time before \<open>t0 + d\<close> the job is the holder and nobody can acquire
  the key.
\<close>

theorem publish_lock_lease:
  assumes "fst (redis_set_nx t0 key val d l)"
    and "\<forall>x\<in>set xs. op_time x < t0 + d \<and> foreign_op key val x" and "t < t0 + d"
  shows "lock_live (snd (run_lock_ops redis_set_nx refresh_lock_script release_lock_script xs
           (snd (redis_set_nx t0 key val d l)))) t key = Some val
    \<and> \<not> fst (redis_set_nx t key val' d' (snd (run_lock_ops redis_set_nx refresh_lock_script
           release_lock_script xs (snd (redis_set_nx t0 key val d l)))))"
  using redis_lease.exclusive [OF assms] redis_lease.excluded [OF assms] by blast

theorem publish_lock_lease_witness:
  "\<not> fst (redis_set_nx 50 ''k'' ''b'' 99 (snd (run_lock_ops redis_set_nx refresh_lock_script
      release_lock_script [OpAcquire 20 ''k'' ''b'' 99, OpRelease 30 ''k'' ''b''] (snd (redis_set_nx 10 ''k'' ''a'' 90 (\<lambda>_. None))))))"
  using publish_lock_lease [of 10 "''k''" "''a''" 90 "\<lambda>_. None"
      "[OpAcquire 20 ''k'' ''b'' 99, OpRelease 30 ''k'' ''b'']" 50 "''b''" 99]
  by (simp add: redis_set_nx_def [of 10] lock_live_def [of "\<lambda>_. None"])

text \<open>
  Locks of different projects never collide: equal lock keys belong to the same project id and
  to platforms with the same normalised name.
\<close>

theorem publish_lock_key_inj:
  assumes "p < 2 ^ 128" "q < 2 ^ 128" "publish_lock_key ulow p a = publish_lock_key ulow q b"
  shows "p = q \<and> key_part ulow a = key_part ulow b"
proof -
  have "uuid_text p @ ''}:'' @ key_part ulow a = uuid_text q @ ''}:'' @ key_part ulow b"
    using assms(3) by (simp add: publish_lock_key_def key_tag_def key_part_uuid)
  then have "uuid_text p = uuid_text q \<and> ''}:'' @ key_part ulow a = ''}:'' @ key_part ulow b"
    by (rule append_eq_append_conv [THEN iffD1, rotated]) simp
  with assms(1,2) show ?thesis using uuid_text_inj by simp
qed

theorem publish_lock_key_inj_witness: "key_part id ''x'' = key_part id '' x ''"
proof -
  have "publish_lock_key id 1 ''x'' = publish_lock_key id 1 '' x ''"
    by (simp add: publish_lock_key_def key_part_def [of _ "''x''"] key_part_def [of _ "'' x ''"]
      Let_def trim_space_def trim_left.simps trim_right.simps
        lead_space_def trail_space_def is_space_rune_def byte_of_def to_lower_def is_ascii_def
        lower_byte_def key_char_def trim_dashes_def)
  then show ?thesis using publish_lock_key_inj [of 1 1 id "''x''" "'' x ''"] by simp
qed

text \<open>
  Handing the same job to the queue again is harmless: it succeeds and leaves one task with
  the job's id.
\<close>

theorem enqueue_idempotent:
  assumes "enqueue job w = (Inr (), w1)" "no_fault w1" "distinct (map job_JobID (queue w))"
  shows "fst (enqueue job w1) = Inr () \<and> queue (snd (enqueue job w1)) = queue w1
    \<and> distinct (map job_JobID (queue w1)) \<and> job_JobID job \<in> job_JobID ` set (queue w1)"
proof -
  have q: "queue w1 = queue w \<and> job_JobID job \<in> job_JobID ` set (queue w)
      \<or> queue w1 = queue w @ [job] \<and> job_JobID job \<notin> job_JobID ` set (queue w)"
    using assms(1,2)
    by (cases "env_fault (env w) (calls w)")
      (auto simp: enqueue_def asynq_enqueue_def bindE_def external_def tryE_def no_fault_def
        split: if_splits)
  then have "job_JobID job \<in> job_JobID ` set (queue w1)" by auto
  moreover from this have "enqueue job w1 = (Inr (), tick w1)"
    using assms(2)
    by (simp add: enqueue_def asynq_enqueue_def bindE_def external_def tryE_def no_fault_def)
  moreover have "distinct (map job_JobID (queue w1))" using q assms(3) by auto
  ultimately show ?thesis by simp
qed

theorem enqueue_idempotent_witness:
  "queue (snd (enqueue sample_job (snd (enqueue sample_job (start_world empty_db))))) = [sample_job]"
proof -
  let ?w = "start_world empty_db"
  have e: "enqueue sample_job ?w = (Inr (), (tick ?w)\<lparr>queue := [sample_job]\<rparr>)"
    by (simp add: enqueue_def asynq_enqueue_def bindE_def external_def tryE_def)
  have "no_fault ((tick ?w)\<lparr>queue := [sample_job]\<rparr>)" by (simp add: no_fault_def)
  from enqueue_idempotent [OF e this] show ?thesis by (simp add: e)
qed

end
