(* ===== verification/Rate_Limit.thy ===== *)
theory Rate_Limit
  imports Redis_Degrade Redis_Keys Redis_Queue
begin

text \<open>
  The request rate limiter of \<open>middleware/rate_limit.go\<close> and the part of \<open>middleware/auth.go\<close> it
  reads its identities from: the policy, the buckets of a request, the counter script, the check of
  the buckets through the degrade guard and the middleware's answer. Limits and counters are
  integers: a limit is positive where it is used and a counter stays in the range of 64 bits by the
  overflow check of \<open>INCR\<close>.
\<close>

section \<open>Identities\<close>

record jwt_claims =
  jc_UserID :: uuid
  jc_TenantID :: string
  jc_Role :: string

text \<open>What \<open>c.Get("user")\<close> can hold.\<close>

datatype ctx_user = NoUser | NotToken | OtherClaims | TokenClaims jwt_claims

record http_context =
  hc_user :: ctx_user
  hc_Method :: string
  hc_Path :: string
  hc_URLPath :: string

definition jwt_claims_from_context :: "http_context \<Rightarrow> err + jwt_claims" where
  "jwt_claims_from_context c = (case hc_user c of
      NoUser \<Rightarrow> Inl (ErrText ''user context not found'')
    | NotToken \<Rightarrow> Inl (ErrText ''invalid jwt token format in context'')
    | OtherClaims \<Rightarrow> Inl (ErrText ''invalid jwt claims format'')
    | TokenClaims claims \<Rightarrow> Inr claims)"

definition get_user_id_from_context :: "http_context \<Rightarrow> err + uuid" where
  "get_user_id_from_context c = (case jwt_claims_from_context c of
      Inl e \<Rightarrow> Inl e | Inr claims \<Rightarrow> Inr (jc_UserID claims))"

definition get_tenant_id_from_context :: "http_context \<Rightarrow> err + string" where
  "get_tenant_id_from_context c = (case jwt_claims_from_context c of
      Inl e \<Rightarrow> Inl e
    | Inr claims \<Rightarrow> (let tenantID = trim_space (jc_TenantID claims)
        in Inr (if tenantID = [] then ''default'' else tenantID)))"

text \<open>\<open>RequireAdmin\<close>: the status and message it answers with, or \<open>None\<close> when the request goes on.\<close>

definition require_admin :: "(string \<Rightarrow> string) \<Rightarrow> http_context \<Rightarrow> (int \<times> string) option" where
  "require_admin ulow c = (case jwt_claims_from_context c of
      Inl e \<Rightarrow> Some (401, ''unauthorized'')
    | Inr claims \<Rightarrow> if to_lower ulow (trim_space (jc_Role claims)) \<noteq> ''admin''
        then Some (403, ''admin role required'') else None)"

section \<open>Policy and configuration\<close>

record rate_limit_policy_quota =
  rq_UserPerMinute :: int
  rq_TenantPerMinute :: int
  rq_UserPerDay :: int
  rq_TenantPerDay :: int

record rate_limit_policy =
  rp_General :: rate_limit_policy_quota
  rp_Interface :: rate_limit_policy_quota
  rp_AI :: rate_limit_policy_quota
  rp_Publish :: rate_limit_policy_quota
  rp_BrowserSession :: rate_limit_policy_quota

definition policy_quota :: "rate_limit_policy \<Rightarrow> string \<Rightarrow> rate_limit_policy_quota" where
  "policy_quota p name =
     (if name = ''general'' then rp_General p else if name = ''interface'' then rp_Interface p
      else if name = ''ai'' then rp_AI p else if name = ''publish'' then rp_Publish p
      else rp_BrowserSession p)"

text \<open>
  The quotas are checked in the order a Go map is iterated, any order of the five names: the
  argument \<open>names\<close>.
\<close>

fun validate_rate_limit_policy :: "string list \<Rightarrow> rate_limit_policy \<Rightarrow> err option" where
  "validate_rate_limit_policy [] p = None"
| "validate_rate_limit_policy (name # names) p =
     (let quota = policy_quota p name in
      if rq_UserPerMinute quota < 0 \<or> rq_TenantPerMinute quota < 0 \<or> rq_UserPerDay quota < 0
         \<or> rq_TenantPerDay quota < 0
      then Some (ErrText (''invalid rate limit policy: '' @ name @ '' quota values must be non-negative''))
      else validate_rate_limit_policy names p)"

record rate_limit_config =
  rl_Enabled :: bool
  rl_RedisClient :: bool
  rl_KeyPrefix :: string
  rl_FailOpen :: bool
  rl_guard :: guard_ref
  rl_GeneralUserPerMinute :: int
  rl_GeneralTenantPerMinute :: int
  rl_InterfaceUserPerMinute :: int
  rl_InterfaceTenantPerMinute :: int
  rl_AIUserPerMinute :: int
  rl_AITenantPerMinute :: int
  rl_AIUserPerDay :: int
  rl_AITenantPerDay :: int
  rl_PublishUserPerMinute :: int
  rl_PublishTenantPerMinute :: int
  rl_PublishUserPerDay :: int
  rl_PublishTenantPerDay :: int
  rl_BrowserSessionUserPerMinute :: int
  rl_BrowserSessionTenantPerMinute :: int
  rl_BrowserSessionUserPerDay :: int
  rl_BrowserSessionTenantPerDay :: int

definition rate_limit_config_from_policy :: "bool \<Rightarrow> guard_ref \<Rightarrow> rate_limit_policy \<Rightarrow> rate_limit_config" where
  "rate_limit_config_from_policy client g p =
     \<lparr>rl_Enabled = client, rl_RedisClient = client, rl_KeyPrefix = ''mpp:ratelimit'', rl_FailOpen = True,
      rl_guard = g,
      rl_GeneralUserPerMinute = rq_UserPerMinute (rp_General p),
      rl_GeneralTenantPerMinute = rq_TenantPerMinute (rp_General p),
      rl_InterfaceUserPerMinute = rq_UserPerMinute (rp_Interface p),
      rl_InterfaceTenantPerMinute = rq_TenantPerMinute (rp_Interface p),
      rl_AIUserPerMinute = rq_UserPerMinute (rp_AI p), rl_AITenantPerMinute = rq_TenantPerMinute (rp_AI p),
      rl_AIUserPerDay = rq_UserPerDay (rp_AI p), rl_AITenantPerDay = rq_TenantPerDay (rp_AI p),
      rl_PublishUserPerMinute = rq_UserPerMinute (rp_Publish p),
      rl_PublishTenantPerMinute = rq_TenantPerMinute (rp_Publish p),
      rl_PublishUserPerDay = rq_UserPerDay (rp_Publish p), rl_PublishTenantPerDay = rq_TenantPerDay (rp_Publish p),
      rl_BrowserSessionUserPerMinute = rq_UserPerMinute (rp_BrowserSession p),
      rl_BrowserSessionTenantPerMinute = rq_TenantPerMinute (rp_BrowserSession p),
      rl_BrowserSessionUserPerDay = rq_UserPerDay (rp_BrowserSession p),
      rl_BrowserSessionTenantPerDay = rq_TenantPerDay (rp_BrowserSession p)\<rparr>"

text \<open>The environment overrides the embedded policy; \<open>policy\<close> is what the YAML decoder makes of it.\<close>

definition rate_limit_config_from_env ::
  "(string \<Rightarrow> string) \<Rightarrow> (string \<Rightarrow> string) \<Rightarrow> string list \<Rightarrow> (err + rate_limit_policy) \<Rightarrow> bool \<Rightarrow> guard_ref \<Rightarrow> err + rate_limit_config" where
  "rate_limit_config_from_env ulow getenv names policy client g =
     (case policy of
        Inl e \<Rightarrow> Inl (ErrWrap ''parse rate limit policy'' e)
      | Inr p \<Rightarrow> (case validate_rate_limit_policy names p of
          Some e \<Rightarrow> Inl e
        | None \<Rightarrow>
            (let config = rate_limit_config_from_policy client g p;
                 prefix = trim_space (getenv ''APP_RATE_LIMIT_KEY_PREFIX'')
             in Inr (config\<lparr>rl_Enabled := client \<and> env_bool ulow getenv ''APP_RATE_LIMIT_ENABLED'' True,
                  rl_KeyPrefix := (if prefix \<noteq> [] then prefix else rl_KeyPrefix config),
                  rl_FailOpen := env_bool ulow getenv ''APP_RATE_LIMIT_FAIL_OPEN'' True\<rparr>))))"

section \<open>Buckets of a request\<close>

record rate_limit_bucket =
  rb_Name :: string
  rb_Scope :: string
  rb_Identifier :: string
  rb_Category :: string
  rb_Limit :: int
  rb_Window :: duration

definition new_rate_limit_bucket :: "string \<Rightarrow> string \<Rightarrow> string \<Rightarrow> string \<Rightarrow> int \<Rightarrow> duration \<Rightarrow> rate_limit_bucket" where
  "new_rate_limit_bucket name scope identifier category limit window =
     \<lparr>rb_Name = name, rb_Scope = scope, rb_Identifier = identifier, rb_Category = category,
      rb_Limit = limit, rb_Window = window\<rparr>"

definition enabled_rate_limit_buckets :: "rate_limit_bucket list \<Rightarrow> rate_limit_bucket list" where
  "enabled_rate_limit_buckets buckets = filter (\<lambda>b. 0 < rb_Limit b \<and> 0 < rb_Window b) buckets"

definition rate_limit_category :: "(string \<Rightarrow> string) \<Rightarrow> string \<Rightarrow> string \<Rightarrow> string" where
  "rate_limit_category ulow method route =
     (let route = to_lower ulow route in
      if contains route ''/ai/'' then ''ai''
      else if method = ''POST'' \<and> has_suffix route ''/publish'' then ''publish''
      else if method = ''POST'' \<and> contains route ''/browser-session'' then ''browser_session''
      else ''general'')"

text \<open>The four buckets of a category: user and tenant, by minute and by day.\<close>

definition category_buckets ::
  "string \<Rightarrow> string \<Rightarrow> string \<Rightarrow> string \<Rightarrow> int \<Rightarrow> int \<Rightarrow> int \<Rightarrow> int \<Rightarrow> rate_limit_bucket list" where
  "category_buckets name category userID tenantID userMinute tenantMinute userDay tenantDay =
     [new_rate_limit_bucket (name @ '':minute:user'') ''user'' userID category userMinute minute,
      new_rate_limit_bucket (name @ '':minute:tenant'') ''tenant'' tenantID category tenantMinute minute,
      new_rate_limit_bucket (name @ '':day:user'') ''user'' userID category userDay (24 * hour),
      new_rate_limit_bucket (name @ '':day:tenant'') ''tenant'' tenantID category tenantDay (24 * hour)]"

definition rate_limit_buckets_for ::
  "(string \<Rightarrow> string) \<Rightarrow> (string \<Rightarrow> string) \<Rightarrow> http_context \<Rightarrow> rate_limit_config \<Rightarrow> err + rate_limit_bucket list" where
  "rate_limit_buckets_for ulow uup c config = (case jwt_claims_from_context c of
      Inl e \<Rightarrow> Inl e
    | Inr claims \<Rightarrow>
      (let userID = uuid_text (jc_UserID claims);
           tenantID = trim_space (jc_TenantID claims);
           tenantID = (if tenantID = [] then ''default'' else tenantID);
           method = to_upper uup (hc_Method c);
           route = (if hc_Path c = [] then hc_URLPath c else hc_Path c);
           interfaceID = method @ '':'' @ route;
           category = rate_limit_category ulow method route;
           buckets =
             [new_rate_limit_bucket ''general:minute:user'' ''user'' userID ''general''
                (rl_GeneralUserPerMinute config) minute,
              new_rate_limit_bucket ''general:minute:tenant'' ''tenant'' tenantID ''general''
                (rl_GeneralTenantPerMinute config) minute,
              new_rate_limit_bucket (''interface:minute:user:'' @ interfaceID) ''user'' userID ''interface''
                (rl_InterfaceUserPerMinute config) minute,
              new_rate_limit_bucket (''interface:minute:tenant:'' @ interfaceID) ''tenant'' tenantID ''interface''
                (rl_InterfaceTenantPerMinute config) minute]
             @ (if category = ''ai'' then category_buckets ''ai'' category userID tenantID
                  (rl_AIUserPerMinute config) (rl_AITenantPerMinute config)
                  (rl_AIUserPerDay config) (rl_AITenantPerDay config)
                else if category = ''publish'' then category_buckets ''publish'' category userID tenantID
                  (rl_PublishUserPerMinute config) (rl_PublishTenantPerMinute config)
                  (rl_PublishUserPerDay config) (rl_PublishTenantPerDay config)
                else if category = ''browser_session'' then category_buckets ''browser-session'' category userID tenantID
                  (rl_BrowserSessionUserPerMinute config) (rl_BrowserSessionTenantPerMinute config)
                  (rl_BrowserSessionUserPerDay config) (rl_BrowserSessionTenantPerDay config)
                else [])
       in Inr (enabled_rate_limit_buckets buckets)))"

section \<open>Counters\<close>

definition sanitize_rate_limit_key_part :: "(string \<Rightarrow> string) \<Rightarrow> string \<Rightarrow> string" where
  "sanitize_rate_limit_key_part ulow value = key_part ulow value"

definition trim_right_colons :: "string \<Rightarrow> string" where
  "trim_right_colons s = rev (dropWhile (\<lambda>c. c = CHR '':'') (rev s))"

definition rate_limit_redis_key :: "(string \<Rightarrow> string) \<Rightarrow> string \<Rightarrow> rate_limit_bucket \<Rightarrow> string" where
  "rate_limit_redis_key ulow prefix b =
     trim_right_colons prefix @ '':'' @ sanitize_rate_limit_key_part ulow (rb_Scope b)
       @ '':'' @ sanitize_rate_limit_key_part ulow (rb_Identifier b)
       @ '':'' @ sanitize_rate_limit_key_part ulow (rb_Category b)
       @ '':'' @ sanitize_rate_limit_key_part ulow (rb_Name b)"

text \<open>The values a Redis reply is made of, and the script with the list it returns.\<close>

datatype redis_any = AnyInt int | AnyStr string | AnyList "redis_any list" | AnyNil

definition redis_rate_limit_script :: "string \<Rightarrow> int \<Rightarrow> redis_any redis_cmd" where
  "redis_rate_limit_script key ms =
     then_cmd (cmd_incr key) (\<lambda>current.
     then_cmd (if current = 1 then cmd_pexpire key ms else reply ()) (\<lambda>_.
     then_cmd (cmd_pttl key) (\<lambda>ttl. reply (AnyList [AnyInt current, AnyInt ttl]))))"

definition redis_int64 :: "redis_any \<Rightarrow> int option" where
  "redis_int64 v = (case v of AnyInt n \<Rightarrow> Some n | AnyStr s \<Rightarrow> parse_int s | _ \<Rightarrow> None)"

definition decode_counter :: "duration \<Rightarrow> redis_any \<Rightarrow> err + int \<times> duration" where
  "decode_counter window raw = (case raw of
      AnyList [c, t] \<Rightarrow> (case redis_int64 c of
        None \<Rightarrow> Inl (ErrText ''unexpected redis rate limit count'')
      | Some current \<Rightarrow> (case redis_int64 t of
          None \<Rightarrow> Inl (ErrText ''unexpected redis rate limit ttl'')
        | Some ttlMillis \<Rightarrow>
            Inr (current, (if ttlMillis < 0 then window div millisecond else ttlMillis) * millisecond)))
    | _ \<Rightarrow> Inl (ErrText ''unexpected redis rate limit response''))"

definition increment_rate_limit_bucket ::
  "(string \<Rightarrow> string) \<Rightarrow> guard_ref \<Rightarrow> string \<Rightarrow> duration \<Rightarrow> ('z degrade_world_scheme, int \<times> duration) io" where
  "increment_rate_limit_bucket ulow g key window =
     bindE (call_work ulow g ''rate_limit'' (Some (redis_do (redis_rate_limit_script key (window div millisecond)))))
       (\<lambda>raw. liftS (decode_counter window raw))"

record rate_limit_result =
  rr_Bucket :: rate_limit_bucket
  rr_Current :: int
  rr_Remaining :: int
  rr_RetryAfter :: duration
  rr_Exceeded :: bool

definition zero_bucket :: rate_limit_bucket where
  "zero_bucket = \<lparr>rb_Name = '''', rb_Scope = '''', rb_Identifier = '''', rb_Category = '''', rb_Limit = 0, rb_Window = 0\<rparr>"

definition zero_result :: rate_limit_result where
  "zero_result = \<lparr>rr_Bucket = zero_bucket, rr_Current = 0, rr_Remaining = 0, rr_RetryAfter = 0, rr_Exceeded = False\<rparr>"

definition bucket_result :: "rate_limit_bucket \<Rightarrow> int \<Rightarrow> duration \<Rightarrow> rate_limit_result" where
  "bucket_result b current ttl =
     \<lparr>rr_Bucket = b, rr_Current = current, rr_Remaining = max (rb_Limit b - current) 0, rr_RetryAfter = ttl,
      rr_Exceeded = (rb_Limit b < current)\<rparr>"

text \<open>The loop over the buckets; \<open>selected\<close> is the tightest bucket so far.\<close>

fun check_buckets_loop ::
  "(string \<Rightarrow> string) \<Rightarrow> string \<Rightarrow> guard_ref \<Rightarrow> rate_limit_bucket list \<Rightarrow> rate_limit_result \<Rightarrow>
     ('z degrade_world_scheme, rate_limit_result) io" where
  "check_buckets_loop ulow prefix g [] selected = ret selected"
| "check_buckets_loop ulow prefix g (b # bs) selected =
     bindE (increment_rate_limit_bucket ulow g (rate_limit_redis_key ulow prefix b) (rb_Window b)) (\<lambda>(current, ttl).
       let result = bucket_result b current ttl in
       if rr_Exceeded result then ret result
       else check_buckets_loop ulow prefix g bs
         (if rb_Limit (rr_Bucket selected) = 0 \<or> rr_Remaining result < rr_Remaining selected then result else selected))"

definition check_rate_limit_buckets ::
  "(string \<Rightarrow> string) \<Rightarrow> string \<Rightarrow> guard_ref \<Rightarrow> rate_limit_bucket list \<Rightarrow> ('z degrade_world_scheme, rate_limit_result) io" where
  "check_rate_limit_buckets ulow prefix g bs = check_buckets_loop ulow prefix g bs zero_result"

section \<open>The middleware\<close>

record rate_limit_headers =
  rh_Limit :: int
  rh_Remaining :: int
  rh_Reset :: int
  rh_Bucket :: string
  rh_RetryAfter :: "int option"

record rate_limit_error_body =
  re_Code :: string
  re_Message :: string
  re_Limit :: int
  re_Remaining :: int
  re_ResetAfterSeconds :: int

text \<open>
  The answer of the middleware: the request goes on to the handler, with the rate limit headers
  and whether the degraded header is set, or it is answered with a status and a body.
\<close>

datatype rate_limit_reply =
    RlNext "rate_limit_headers option" bool
  | RlJSON int rate_limit_error_body "rate_limit_headers option"

definition reset_after_seconds :: "duration \<Rightarrow> int" where
  "reset_after_seconds d = (let seconds = - (- d div second) in if seconds < 1 then 1 else seconds)"

definition write_rate_limit_headers ::
  "rate_limit_result \<Rightarrow> ('z redis_world_scheme, rate_limit_headers option) io" where
  "write_rate_limit_headers r =
     (if rb_Limit (rr_Bucket r) = 0 then ret None
      else bindE time_now (\<lambda>now. ret (Some
        \<lparr>rh_Limit = rb_Limit (rr_Bucket r), rh_Remaining = rr_Remaining r,
         rh_Reset = (now + rr_RetryAfter r) div second, rh_Bucket = rb_Category (rr_Bucket r),
         rh_RetryAfter = (if rr_Exceeded r then Some (reset_after_seconds (rr_RetryAfter r)) else None)\<rparr>)))"

definition rate_limit_exceeded_body :: "rate_limit_result \<Rightarrow> rate_limit_error_body" where
  "rate_limit_exceeded_body r =
     \<lparr>re_Code = ''rate_limited'', re_Message = ''rate limit exceeded'', re_Limit = rb_Limit (rr_Bucket r),
      re_Remaining = 0, re_ResetAfterSeconds = reset_after_seconds (rr_RetryAfter r)\<rparr>"

definition error_body :: "string \<Rightarrow> string \<Rightarrow> rate_limit_error_body" where
  "error_body code message =
     \<lparr>re_Code = code, re_Message = message, re_Limit = 0, re_Remaining = 0, re_ResetAfterSeconds = 0\<rparr>"

text \<open>A check that fails returns the zero result, which is not exceeded.\<close>

definition application_rate_limiter ::
  "(string \<Rightarrow> string) \<Rightarrow> (string \<Rightarrow> string) \<Rightarrow> rate_limit_config \<Rightarrow> http_context \<Rightarrow>
     ('z degrade_world_scheme, rate_limit_reply) io" where
  "application_rate_limiter ulow uup config c =
     (if \<not> rl_Enabled config \<or> \<not> rl_RedisClient config then ret (RlNext None False)
      else
        let prefix = (if trim_space (rl_KeyPrefix config) = [] then ''mpp:ratelimit'' else rl_KeyPrefix config) in
        case rate_limit_buckets_for ulow uup c config of
          Inl e \<Rightarrow> ret (RlJSON 401 (error_body ''unauthorized'' (err_text e)) None)
        | Inr buckets \<Rightarrow>
            if buckets = [] then ret (RlNext None False)
            else bindE (tryE (check_rate_limit_buckets ulow prefix (rl_guard config) buckets)) (\<lambda>r. case r of
                Inr result \<Rightarrow> bindE (write_rate_limit_headers result) (\<lambda>headers.
                  ret (if rr_Exceeded result then RlJSON 429 (rate_limit_exceeded_body result) headers
                       else RlNext headers False))
              | Inl e \<Rightarrow>
                  if rl_FailOpen config \<and> should_degrade ulow e then ret (RlNext None True)
                  else ret (RlJSON 503 (error_body ''rate_limit_unavailable'' ''rate limiter is unavailable'') None)))"

section \<open>What a counter remembers\<close>

text \<open>
  In the period from \<open>t0\<close> to \<open>T\<close> (milliseconds) the counter \<open>k\<close> stands at \<open>n\<close> or more and does not
  expire, or \<open>n\<close> is 0 and nothing has been counted since \<open>t0\<close>.
\<close>

definition counted :: "int \<Rightarrow> int \<Rightarrow> string \<Rightarrow> nat \<Rightarrow> keyspace \<Rightarrow> bool" where
  "counted t0 T k n ks = (case ks k of
      None \<Rightarrow> n = 0
    | Some e \<Rightarrow> n = 0 \<and> \<not> entry_live t0 e \<or>
        (case ent_value e of RNum m \<Rightarrow> int n \<le> m | _ \<Rightarrow> False) \<and>
        (case ent_expires e of None \<Rightarrow> True | Some x \<Rightarrow> T \<le> x))"

lemma entry_live_later: "\<not> entry_live t e \<Longrightarrow> t \<le> t' \<Longrightarrow> \<not> entry_live t' e"
  by (auto simp: entry_live_def split: option.splits)

text \<open>The two states a counted key can be in at a time of the period.\<close>

lemma counted_cases:
  assumes "counted t0 T k n ks" "t0 \<le> now" "now < T"
  obtains "live_entry now ks k = None" "n = 0"
  | e m where "live_entry now ks k = Some e" "ks k = Some e" "ent_value e = RNum m" "int n \<le> m"
      "\<And>x. ent_expires e = Some x \<Longrightarrow> T \<le> x"
proof (cases "ks k")
  case None
  then show thesis using assms that by (simp add: counted_def live_entry_def)
next
  case (Some e)
  consider "n = 0" "\<not> entry_live t0 e"
    | m where "ent_value e = RNum m" "int n \<le> m" "\<And>x. ent_expires e = Some x \<Longrightarrow> T \<le> x"
    using assms(1) Some by (auto simp: counted_def split: option.splits redis_value.splits)
  then show thesis
  proof cases
    case 1
    have "\<not> entry_live now e" using 1(2) assms(2) by (rule entry_live_later)
    then show thesis using that(1) 1(1) Some by (simp add: live_entry_def)
  next
    case 2
    then have "entry_live now e" using assms(3) by (fastforce simp: entry_live_def split: option.split)
    then show thesis using that(2) [of e] 2 Some by (simp add: live_entry_def)
  qed
qed

lemma keeps_then_cmd [keeps_intros]:
  "keeps I (m now) \<Longrightarrow> (\<And>x. keeps I (f x now)) \<Longrightarrow> keeps I (then_cmd m f now)"
  unfolding then_cmd_def by (rule keeps_bindE)

lemma keeps_reply [keeps_intros]: "keeps I (reply x now)"
  by (simp add: reply_def keeps_ret)

lemma cmd_other_key:
  assumes "k' \<noteq> k"
  shows "keeps (\<lambda>ks. ks k = v) (cmd_incr k' now)" "keeps (\<lambda>ks. ks k = v) (cmd_pexpire k' ms now)"
    "keeps (\<lambda>ks. ks k = v) (cmd_pttl k' now)"
  using assms by (auto simp: keeps_def cmd_incr_def cmd_pexpire_def cmd_pttl_def wrong_type_def
      split: option.split redis_value.split)

lemma script_other_key:
  assumes "k' \<noteq> k"
  shows "snd (redis_rate_limit_script k' ms now ks) k = ks k"
proof -
  have "keeps (\<lambda>ks'. ks' k = ks k) (redis_rate_limit_script k' ms now)"
    unfolding redis_rate_limit_script_def
    by (intro keeps_intros cmd_other_key [OF assms]) (auto intro: keeps_intros cmd_other_key [OF assms])
  then show ?thesis by (rule keepsD) simp
qed

text \<open>One run of the script: a counted key stays counted, and counts one more when it is the script's key.\<close>

lemma script_first:
  assumes "live_entry now ks k = None" "0 < ms"
  shows "redis_rate_limit_script k ms now ks = (Inr (AnyList [AnyInt 1, AnyInt ms]),
    ks(k \<mapsto> \<lparr>ent_value = RNum 1, ent_expires = Some (now + ms)\<rparr>))"
  using assms
  by (simp add: redis_rate_limit_script_def then_cmd_def bindE_def reply_def cmd_incr_def cmd_pexpire_def
      cmd_pttl_def live_entry_def entry_live_def)

lemma script_again:
  assumes "live_entry now ks k = Some e" "ent_value e = RNum m" "0 \<le> m" "0 < ms"
  shows "redis_rate_limit_script k ms now ks =
    (if m = 2 ^ 63 - 1 then (Inl (ErrText ''ERR increment or decrement would overflow''), ks)
     else let e = e\<lparr>ent_value := RNum (m + 1), ent_expires := (if m = 0 then Some (now + ms) else ent_expires e)\<rparr> in
       (Inr (AnyList [AnyInt (m + 1), AnyInt (case ent_expires e of None \<Rightarrow> - 1 | Some x \<Rightarrow> x - now)]), ks(k \<mapsto> e)))"
proof -
  have live: "entry_live now e" using assms(1) by (auto simp: live_entry_def split: option.splits if_splits)
  then have live': "entry_live now (e\<lparr>ent_value := v\<rparr>)" "entry_live now (e\<lparr>ent_value := v, ent_expires := Some (now + ms)\<rparr>)" for v
    using assms(4) by (simp_all add: entry_live_def)
  show ?thesis
    using assms live'
    by (auto simp: redis_rate_limit_script_def then_cmd_def bindE_def reply_def cmd_incr_def cmd_pexpire_def
        cmd_pttl_def live_entry_def Let_def)
qed

lemma counted_script:
  assumes c: "counted t0 T k n ks" and t: "t0 \<le> now" "now < T" "T \<le> t0 + ms" "0 < ms"
    and run: "redis_rate_limit_script k' ms now ks = (r, ks')"
  shows "counted t0 T k n ks'"
    and "k' = k \<Longrightarrow> r = Inr v \<Longrightarrow> counted t0 T k (Suc n) ks' \<and> (\<exists>current ttl. v = AnyList [AnyInt current, AnyInt ttl] \<and> int n < current)"
proof -
  have "counted t0 T k n ks' \<and> (r = Inr v \<longrightarrow> counted t0 T k (Suc n) ks' \<and>
      (\<exists>current ttl. v = AnyList [AnyInt current, AnyInt ttl] \<and> int n < current))" if k: "k' = k"
    using c t(1,2)
  proof (cases rule: counted_cases)
    case 1
    then show ?thesis using run k t script_first [of now ks k ms] by (auto simp: counted_def)
  next
    case (2 e m)
    then have "0 \<le> m" by simp
    with 2 run k t script_again [of now ks k e m ms] show ?thesis
      by (auto simp: counted_def Let_def split: if_splits option.split)
  qed
  moreover have "counted t0 T k n ks'" if "k' \<noteq> k"
    using script_other_key [OF that, of ms now ks] run c by (simp add: counted_def)
  ultimately show "counted t0 T k n ks'"
    and "k' = k \<Longrightarrow> r = Inr v \<Longrightarrow> counted t0 T k (Suc n) ks' \<and> (\<exists>current ttl. v = AnyList [AnyInt current, AnyInt ttl] \<and> int n < current)"
    by blast+
qed

section \<open>Counting through the guard\<close>

text \<open>All readings of the server's clock from now on are in the period.\<close>

definition period :: "int \<Rightarrow> int \<Rightarrow> 'z redis_world_scheme \<Rightarrow> bool" where
  "period t0 T w \<longleftrightarrow> (\<forall>i\<ge>rw_calls w. t0 \<le> rw_now w i div millisecond \<and> rw_now w i div millisecond < T)"

definition counting :: "int \<Rightarrow> int \<Rightarrow> string \<Rightarrow> nat \<Rightarrow> 'z redis_world_scheme \<Rightarrow> bool" where
  "counting t0 T k n w \<longleftrightarrow> counted t0 T k n (rw_keys w) \<and> period t0 T w"

lemma period_later: "period t0 T w \<Longrightarrow> rw_now w' = rw_now w \<Longrightarrow> rw_calls w \<le> rw_calls w' \<Longrightarrow> period t0 T w'"
  by (simp add: period_def)

lemma period_ms: "period t0 T w \<Longrightarrow> t0 \<le> rw_ms w \<and> rw_ms w < T"
  by (simp add: period_def rw_ms_def)

text \<open>A call through any guard, nil or dangling ones included, either does not run or runs once.\<close>

lemma guard_allow_frame:
  "guard_allow g w = (r, w1) \<Longrightarrow> rw_keys w1 = rw_keys w \<and> rw_now w1 = rw_now w \<and> rw_calls w \<le> rw_calls w1
     \<and> rw_fault w1 = rw_fault w \<and> (\<exists>x. r = Inr x)"
  by (auto simp: guard_allow_def split: option.splits prod.splits)

lemma guard_record_calls: "rw_calls w \<le> rw_calls (guard_record ulow g e w)"
  by (simp add: guard_record_def split: option.split)

lemma call_work_cases:
  assumes "call_work ulow g wl (Some operation) w = (r, w')"
  obtains e where "r = Inl e" "rw_keys w' = rw_keys w" "rw_now w' = rw_now w" "rw_calls w \<le> rw_calls w'"
  | w1 where "r = fst (operation w1)" "rw_keys w1 = rw_keys w" "rw_now w1 = rw_now w" "rw_calls w \<le> rw_calls w1"
      "rw_keys w' = rw_keys (snd (operation w1))" "rw_now w' = rw_now (snd (operation w1))"
      "rw_calls (snd (operation w1)) \<le> rw_calls w'"
proof (cases "guard_enabled w g")
  case False
  then show thesis using assms that(2) [of w] by (auto simp: call_work_def)
next
  case True
  obtain x w1 where a: "guard_allow g w = (Inr x, w1)" using guard_allow_frame [of g w] by (metis surj_pair)
  note f = guard_allow_frame [OF a]
  show thesis
  proof (cases x)
    case None
    then show thesis using assms a f True that(2) [of w1]
      by (auto simp: call_work_def guard_record_calls split: prod.splits)
  next
    case (Some e)
    then show thesis using assms a f True that(1) by (auto simp: call_work_def)
  qed
qed

text \<open>What the script leaves when it is called as a Redis command.\<close>

lemma counting_redis_do:
  assumes c: "counting t0 T k n w" and ms: "T \<le> t0 + ms" "0 < ms"
    and run: "redis_do (redis_rate_limit_script k' ms) w = (r, w')"
  shows "counting t0 T k n w'"
    and "k' = k \<Longrightarrow> r = Inr v \<Longrightarrow> counting t0 T k (Suc n) w' \<and> (\<exists>current ttl. v = AnyList [AnyInt current, AnyInt ttl] \<and> int n < current)"
proof -
  have t: "t0 \<le> rw_ms w" "rw_ms w < T" using c period_ms by (auto simp: counting_def)
  have w': "w' = snd (redis_do (redis_rate_limit_script k' ms) w)" using run by simp
  have p: "period t0 T w'" using c by (auto simp: counting_def w' intro: period_later)
  obtain r' ks' where s: "redis_rate_limit_script k' ms (rw_ms w) (rw_keys w) = (r', ks')" by fastforce
  have cc: "counted t0 T k n (rw_keys w)" using c by (simp add: counting_def)
  note step = counted_script [OF cc t ms s]
  show "counting t0 T k n w'"
    using redis_do_keys [of "redis_rate_limit_script k' ms" w] step(1) cc p s by (auto simp: counting_def w')
  show "counting t0 T k (Suc n) w' \<and> (\<exists>current ttl. v = AnyList [AnyInt current, AnyInt ttl] \<and> int n < current)"
    if "k' = k" "r = Inr v"
  proof -
    have "redis_rate_limit_script k' ms (rw_ms w) (rw_keys w) = (Inr v, rw_keys w')"
      using redis_do_ok [of _ w v w'] run that(2) by simp
    with s have "r' = Inr v" "ks' = rw_keys w'" by simp_all
    with step(2) that(1) p show ?thesis by (simp add: counting_def)
  qed
qed

lemma counting_moved:
  "counting t0 T k m w1 \<Longrightarrow> rw_keys w2 = rw_keys w1 \<Longrightarrow> rw_now w2 = rw_now w1 \<Longrightarrow> rw_calls w1 \<le> rw_calls w2 \<Longrightarrow>
    counting t0 T k m w2"
  using period_later by (auto simp: counting_def)

text \<open>What one call of the script may leave.\<close>

definition counts_one :: "int \<Rightarrow> int \<Rightarrow> string \<Rightarrow> nat \<Rightarrow> bool \<Rightarrow> err + redis_any \<Rightarrow> 'z redis_world_scheme \<Rightarrow> bool" where
  "counts_one t0 T k n own r w' \<longleftrightarrow> counting t0 T k n w' \<and> (own \<longrightarrow> (\<forall>v. r = Inr v \<longrightarrow> counting t0 T k (Suc n) w' \<and>
     (\<exists>current ttl. v = AnyList [AnyInt current, AnyInt ttl] \<and> int n < current)))"

lemma counts_one_moved:
  assumes "counts_one t0 T k n own r w1" "rw_keys w2 = rw_keys w1" "rw_now w2 = rw_now w1" "rw_calls w1 \<le> rw_calls w2"
  shows "counts_one t0 T k n own r w2"
  using assms counting_moved [OF _ assms(2-4)] by (auto simp: counts_one_def)

lemma counting_call:
  assumes c: "counting t0 T k n w" and win: "T \<le> t0 + ms" "0 < ms"
    and call: "call_work ulow g wl (Some (redis_do (redis_rate_limit_script k' ms))) w = (r, w')"
  shows "counts_one t0 T k n (k' = k) r w'"
  using call
proof (cases rule: call_work_cases)
  case (1 e)
  have "counting t0 T k n w'" by (rule counting_moved [OF c]) (simp_all add: 1)
  then show ?thesis by (simp add: counts_one_def 1)
next
  case (2 w1)
  obtain r2 w2 where op: "redis_do (redis_rate_limit_script k' ms) w1 = (r2, w2)" by fastforce
  have "counting t0 T k n w1" by (rule counting_moved [OF c]) (simp_all add: 2)
  note step = counting_redis_do [OF this win op]
  have "counts_one t0 T k n (k' = k) r w2" using step 2(1) op by (auto simp: counts_one_def)
  then show ?thesis by (rule counts_one_moved) (use 2 op in simp_all)
qed

lemma counting_increment:
  assumes c: "counting t0 T k n w" and win: "T \<le> t0 + window div millisecond" "0 < window div millisecond"
  shows "wp (increment_rate_limit_bucket ulow g k' window)
    (\<lambda>(current, ttl) w'. counting t0 T k n w' \<and> (k' = k \<longrightarrow> counting t0 T k (Suc n) w' \<and> int n < current))
    (\<lambda>e w'. counting t0 T k n w') w"
  unfolding increment_rate_limit_bucket_def
proof (rule wp_bindE, rule wpI)
  fix raw w'
  assume call: "call_work ulow g ''rate_limit'' (Some (redis_do (redis_rate_limit_script k' (window div millisecond)))) w = (Inr raw, w')"
  have one: "counts_one t0 T k n (k' = k) (Inr raw) w'" by (rule counting_call [OF c win call])
  show "wp (liftS (decode_counter window raw))
    (\<lambda>(current, ttl) w'. counting t0 T k n w' \<and> (k' = k \<longrightarrow> counting t0 T k (Suc n) w' \<and> int n < current))
    (\<lambda>e w'. counting t0 T k n w') w'"
  proof (cases "k' = k")
    case True
    with one show ?thesis by (auto simp: counts_one_def wp_def liftS_def decode_counter_def redis_int64_def)
  next
    case False
    with one show ?thesis by (auto simp: counts_one_def wp_def liftS_def split: sum.split)
  qed
next
  fix e w'
  assume "call_work ulow g ''rate_limit'' (Some (redis_do (redis_rate_limit_script k' (window div millisecond)))) w = (Inl e, w')"
  from counting_call [OF c win this] show "counting t0 T k n w'" by (simp add: counts_one_def)
qed

lemma bucket_result_exceeded [simp]: "rr_Exceeded (bucket_result b current ttl) \<longleftrightarrow> rb_Limit b < current"
  by (simp add: bucket_result_def)

lemma counting_less: "counting t0 T k (Suc n) w \<Longrightarrow> counting t0 T k n w"
  by (auto simp: counting_def counted_def split: option.splits redis_value.splits)

text \<open>The loop: unless it stops at a bucket that is exceeded, it counts every bucket, each below its limit.\<close>

lemma counting_loop:
  assumes "counting t0 T k n w" "\<forall>b\<in>set bs. T \<le> t0 + rb_Window b div millisecond \<and> 0 < rb_Window b div millisecond"
    and "\<not> rr_Exceeded selected"
  shows "wp (check_buckets_loop ulow prefix g bs selected)
    (\<lambda>res w'. counting t0 T k n w' \<and> (\<not> rr_Exceeded res \<longrightarrow>
        (\<forall>b\<in>set bs. rate_limit_redis_key ulow prefix b = k \<longrightarrow> counting t0 T k (Suc n) w' \<and> int n < rb_Limit b)))
    (\<lambda>e w'. counting t0 T k n w') w"
  using assms
proof (induction bs arbitrary: w n selected)
  case (Cons b bs)
  let ?key = "rate_limit_redis_key ulow prefix b"
  note inc = counting_increment [OF Cons.prems(1), of "rb_Window b" ulow g ?key]
  show ?case
    unfolding check_buckets_loop.simps
  proof (rule wp_bindE, rule wp_conseq [OF inc])
    show "T \<le> t0 + rb_Window b div millisecond" "0 < rb_Window b div millisecond" using Cons.prems(2) by simp_all
  next
    fix x :: "int \<times> duration" and w' :: "'a degrade_world_scheme"
    assume "(case x of (current, ttl) \<Rightarrow> \<lambda>w'. counting t0 T k n w' \<and>
      (?key = k \<longrightarrow> counting t0 T k (Suc n) w' \<and> int n < current)) w'"
    then obtain current ttl where x: "x = (current, ttl)" and J: "counting t0 T k n w'"
      and J1: "?key = k \<Longrightarrow> counting t0 T k (Suc n) w' \<and> int n < current" by (cases x) auto
    show "wp (case x of (current, ttl) \<Rightarrow>
        let result = bucket_result b current ttl
        in if rr_Exceeded result then ret result
           else check_buckets_loop ulow prefix g bs
             (if rb_Limit (rr_Bucket selected) = 0 \<or> rr_Remaining result < rr_Remaining selected then result else selected))
      (\<lambda>res w'. counting t0 T k n w' \<and> (\<not> rr_Exceeded res \<longrightarrow>
        (\<forall>b\<in>set (b # bs). rate_limit_redis_key ulow prefix b = k \<longrightarrow> counting t0 T k (Suc n) w' \<and> int n < rb_Limit b)))
      (\<lambda>e w'. counting t0 T k n w') w'"
    proof (cases "rb_Limit b < current")
      case True
      with J x show ?thesis by (simp add: Let_def wp_ret)
    next
      case False
      let ?sel = "if rb_Limit (rr_Bucket selected) = 0 \<or> rr_Remaining (bucket_result b current ttl) < rr_Remaining selected
        then bucket_result b current ttl else selected"
      have sel: "\<not> rr_Exceeded ?sel" using Cons.prems(3) False by simp
      have win: "\<forall>b\<in>set bs. T \<le> t0 + rb_Window b div millisecond \<and> 0 < rb_Window b div millisecond"
        using Cons.prems(2) by simp
      note here = Cons.IH [OF J win sel]
      have rest: "wp (check_buckets_loop ulow prefix g bs ?sel)
        (\<lambda>res w'. counting t0 T k n w' \<and> (\<not> rr_Exceeded res \<longrightarrow>
          (\<forall>b\<in>set (b # bs). rate_limit_redis_key ulow prefix b = k \<longrightarrow> counting t0 T k (Suc n) w' \<and> int n < rb_Limit b)))
        (\<lambda>e w'. counting t0 T k n w') w'"
      proof (cases "?key = k")
        case True
        have "wp (check_buckets_loop ulow prefix g bs ?sel)
          (\<lambda>res. counting t0 T k (Suc n)) (\<lambda>e. counting t0 T k (Suc n)) w'"
          by (rule wp_conseq [OF Cons.IH [OF conjunct1 [OF J1 [OF True]] win sel]]) simp_all
        then show ?thesis
          by (rule wp_conseq [OF wp_conj [OF _ here]]) (use J1 [OF True] False in auto)
      next
        case other: False
        show ?thesis by (rule wp_conseq [OF here]) (use other in auto)
      qed
      then show ?thesis using False by (simp add: x Let_def)
    qed
  qed
qed (simp add: wp_ret)

section \<open>Requests\<close>

definition effective_prefix :: "rate_limit_config \<Rightarrow> string" where
  "effective_prefix config = (if trim_space (rl_KeyPrefix config) = [] then ''mpp:ratelimit'' else rl_KeyPrefix config)"

text \<open>The request goes on to its handler after a check that worked.\<close>

fun admitted :: "rate_limit_reply \<Rightarrow> bool" where
  "admitted (RlNext headers degraded) = (\<not> degraded)"
| "admitted (RlJSON status body headers) = False"

fun rate_limit_requests ::
  "(string \<Rightarrow> string) \<Rightarrow> (string \<Rightarrow> string) \<Rightarrow> rate_limit_config \<Rightarrow> http_context list \<Rightarrow> 'z degrade_world_scheme \<Rightarrow>
     (err + rate_limit_reply) list \<times> 'z degrade_world_scheme" where
  "rate_limit_requests ulow uup config [] w = ([], w)"
| "rate_limit_requests ulow uup config (c # cs) w = (case application_rate_limiter ulow uup config c w of
     (r, w) \<Rightarrow> (case rate_limit_requests ulow uup config cs w of (rs, w) \<Rightarrow> (r # rs, w)))"

text \<open>Every bucket of a request has a positive limit and a window of a minute or a day.\<close>

definition regular_windows :: "rate_limit_bucket list \<Rightarrow> bool" where
  "regular_windows bs \<longleftrightarrow> (\<forall>b\<in>set bs. rb_Window b \<in> {minute, 24 * hour})"

lemma regular_windows_simps [simp]:
  "regular_windows []" "regular_windows (b # bs) \<longleftrightarrow> rb_Window b \<in> {minute, 24 * hour} \<and> regular_windows bs"
  "regular_windows (bs @ cs) \<longleftrightarrow> regular_windows bs \<and> regular_windows cs"
  "rb_Window (new_rate_limit_bucket name scope identifier category limit window) = window"
  by (auto simp: regular_windows_def new_rate_limit_bucket_def)

lemma regular_category: "regular_windows (category_buckets name category u t a b c d)"
  by (simp add: category_buckets_def)

lemma regular_buckets:
  assumes "rate_limit_buckets_for ulow uup c config = Inr bs"
  obtains all where "bs = enabled_rate_limit_buckets all" "regular_windows all"
proof (cases "jwt_claims_from_context c")
  case (Inr claims)
  note eq = assms [unfolded rate_limit_buckets_for_def Inr sum.case Let_def sum.inject]
  show thesis by (rule that [OF eq [symmetric]]) (simp add: regular_category)
qed (use assms in \<open>simp add: rate_limit_buckets_for_def\<close>)

lemma bucket_windows:
  assumes "rate_limit_buckets_for ulow uup c config = Inr bs" "b \<in> set bs"
  shows "60000 \<le> rb_Window b div millisecond \<and> 0 < rb_Limit b"
proof -
  obtain all where "bs = enabled_rate_limit_buckets all" "regular_windows all"
    using regular_buckets [OF assms(1)] .
  with assms(2) have "rb_Window b \<in> {minute, 24 * hour}" "0 < rb_Limit b"
    by (auto simp: enabled_rate_limit_buckets_def regular_windows_def)
  then show ?thesis by (auto simp: go_consts)
qed

lemma counting_headers:
  "counting t0 T k n w \<Longrightarrow> wp (write_rate_limit_headers r) (\<lambda>h. counting t0 T k n) (\<lambda>e w'. False) w"
  by (auto simp: write_rate_limit_headers_def wp_def bindE_def time_now_def counting_def rw_tick_def period_def)

lemma counting_limiter:
  assumes "rl_Enabled config" "rl_RedisClient config" "rate_limit_buckets_for ulow uup c config = Inr bs" "b \<in> set bs"
    and k: "k = rate_limit_redis_key ulow (effective_prefix config) b"
    and J: "counting t0 (t0 + 60000) k n w"
  shows "wp (application_rate_limiter ulow uup config c)
    (\<lambda>r w'. counting t0 (t0 + 60000) k n w' \<and>
       (admitted r \<longrightarrow> counting t0 (t0 + 60000) k (Suc n) w' \<and> int n < rb_Limit b))
    (\<lambda>e w'. False) w"
proof -
  have win: "\<forall>b\<in>set bs. t0 + 60000 \<le> t0 + rb_Window b div millisecond \<and> 0 < rb_Window b div millisecond"
    using bucket_windows [OF assms(3)] by fastforce
  have ne: "bs \<noteq> []" using assms(4) by auto
  have z: "\<not> rr_Exceeded zero_result" by (simp add: zero_result_def)
  note loop = counting_loop [OF J win z, of ulow "effective_prefix config" "rl_guard config"]
  let ?cont = "\<lambda>r. case r of
      Inr result \<Rightarrow> bindE (write_rate_limit_headers result) (\<lambda>headers.
        ret (if rr_Exceeded result then RlJSON 429 (rate_limit_exceeded_body result) headers else RlNext headers False))
    | Inl e \<Rightarrow> if rl_FailOpen config \<and> should_degrade ulow e then ret (RlNext None True)
        else ret (RlJSON 503 (error_body ''rate_limit_unavailable'' ''rate limiter is unavailable'') None)"
  let ?Q = "\<lambda>r w'. counting t0 (t0 + 60000) k n w' \<and>
       (admitted r \<longrightarrow> counting t0 (t0 + 60000) k (Suc n) w' \<and> int n < rb_Limit b)"
  have "wp (bindE (tryE (check_rate_limit_buckets ulow (effective_prefix config) (rl_guard config) bs)) ?cont) ?Q (\<lambda>e w'. False) w"
  proof (rule wp_bindE, rule wp_tryE, unfold check_rate_limit_buckets_def, rule wp_conseq [OF loop])
    fix res :: rate_limit_result and w' :: "'a degrade_world_scheme"
    assume h: "counting t0 (t0 + 60000) k n w' \<and> (\<not> rr_Exceeded res \<longrightarrow> (\<forall>b\<in>set bs.
      rate_limit_redis_key ulow (effective_prefix config) b = k \<longrightarrow>
      counting t0 (t0 + 60000) k (Suc n) w' \<and> int n < rb_Limit b))"
    show "wp (?cont (Inr res)) ?Q (\<lambda>e w'. False) w'"
    proof (cases "rr_Exceeded res")
      case True
      have "counting t0 (t0 + 60000) k n w'" using h by blast
      then show ?thesis
        unfolding sum.case by (intro wp_bindE wp_conseq [OF counting_headers]) (simp_all add: True wp_def)
    next
      case False
      then have "counting t0 (t0 + 60000) k (Suc n) w'" "int n < rb_Limit b" using h assms(4) k by blast+
      then show ?thesis
        unfolding sum.case
        by (intro wp_bindE wp_conseq [OF counting_headers]) (auto simp: False wp_def intro: counting_less)
    qed
  next
    fix e and w' :: "'a degrade_world_scheme"
    assume "counting t0 (t0 + 60000) k n w'"
    then show "wp (?cont (Inl e)) ?Q (\<lambda>e w'. False) w'" by (simp add: wp_ret)
  qed
  then show ?thesis
    using assms(1-3) ne by (simp add: application_rate_limiter_def effective_prefix_def Let_def)
qed

section \<open>A limit that is used up\<close>

text \<open>The keys hold counters, with room for \<open>N\<close> more increments.\<close>

definition roomy :: "int \<Rightarrow> redis_entry option \<Rightarrow> bool" where
  "roomy N e \<longleftrightarrow> N < 2 ^ 63 \<and> (case e of None \<Rightarrow> True
     | Some e \<Rightarrow> (case ent_value e of RNum m \<Rightarrow> 0 \<le> m \<and> m + N < 2 ^ 63 | _ \<Rightarrow> False))"

definition numeric :: "string set \<Rightarrow> int \<Rightarrow> keyspace \<Rightarrow> bool" where
  "numeric K N ks \<longleftrightarrow> (\<forall>k\<in>K. roomy N (ks k))"

lemma roomy_less: "roomy N e \<Longrightarrow> roomy (N - 1) e"
  by (auto simp: roomy_def split: option.splits redis_value.splits)

lemma numeric_upd: "numeric K N ks \<Longrightarrow> roomy (N - 1) (Some e) \<Longrightarrow> numeric K (N - 1) (ks(k \<mapsto> e))"
  using roomy_less by (auto simp: numeric_def)

lemma script_numeric:
  assumes "numeric K N ks" "k \<in> K" "1 \<le> N" "0 < ms"
  obtains current ttl ks' where
    "redis_rate_limit_script k ms now ks = (Inr (AnyList [AnyInt current, AnyInt ttl]), ks')" "numeric K (N - 1) ks'"
proof (cases "live_entry now ks k")
  case None
  have "N < 2 ^ 63" using assms(1,2) unfolding numeric_def roomy_def by blast
  then have "roomy (N - 1) (Some \<lparr>ent_value = RNum 1, ent_expires = Some (now + ms)\<rparr>)"
    by (simp add: roomy_def)
  from numeric_upd [OF assms(1) this] show thesis using that script_first [OF None assms(4)] by blast
next
  case (Some e)
  then have "ks k = Some e" by (auto simp: live_entry_def split: option.splits if_splits)
  then have "roomy N (Some e)" using assms(1,2) by (auto simp: numeric_def)
  then obtain m where m: "ent_value e = RNum m" "0 \<le> m" "m + N < 2 ^ 63" "N < 2 ^ 63"
    by (cases "ent_value e") (simp_all add: roomy_def)
  define e' where "e' = e\<lparr>ent_value := RNum (m + 1), ent_expires := (if m = 0 then Some (now + ms) else ent_expires e)\<rparr>"
  have "roomy (N - 1) (Some e')" using m by (simp add: roomy_def e'_def)
  from numeric_upd [OF assms(1) this] show thesis
    using that script_again [OF Some m(1,2) assms(4)] m assms(3) by (fastforce simp: Let_def e'_def)
qed

text \<open>A call that reaches Redis through a nil guard.\<close>

lemma increment_works:
  assumes "numeric K N (rw_keys w)" "k \<in> K" "1 \<le> N" "0 < window div millisecond" "rw_fault w (rw_calls w) = None"
  obtains current ttl w' where "increment_rate_limit_bucket ulow None k window w = (Inr (current, ttl), w')"
    "numeric K (N - 1) (rw_keys w')" "rw_calls w' = Suc (rw_calls w)" "rw_fault w' = rw_fault w"
proof -
  obtain c t ks' where s: "redis_rate_limit_script k (window div millisecond) (rw_ms w) (rw_keys w)
      = (Inr (AnyList [AnyInt c, AnyInt t]), ks')" "numeric K (N - 1) ks'"
    using script_numeric [OF assms(1-4)] .
  have "increment_rate_limit_bucket ulow None k window w =
    (Inr (c, (if t < 0 then window div millisecond else t) * millisecond), rw_tick (w\<lparr>rw_keys := ks'\<rparr>))"
    using s(1) assms(5)
    by (simp add: increment_rate_limit_bucket_def bindE_def call_work_def guard_enabled_def guard_at_def redis_do_def
        liftS_def decode_counter_def redis_int64_def)
  then show thesis using that s(2) by simp
qed

lemma exceeded_loop:
  assumes "counting t0 T k n w" "rate_limit_redis_key ulow prefix b = k" "rb_Limit b \<le> int n"
    and "\<forall>b\<in>set (pre @ [b]). T \<le> t0 + rb_Window b div millisecond \<and> 0 < rb_Window b div millisecond"
    and "\<forall>i\<le>length pre. rw_fault w (rw_calls w + i) = None"
    and "numeric (rate_limit_redis_key ulow prefix ` set (pre @ [b])) (int (length pre) + 1) (rw_keys w)"
  shows "\<exists>res w'. check_buckets_loop ulow prefix None (pre @ b # post) selected w = (Inr res, w') \<and> rr_Exceeded res
    \<and> rr_Bucket res \<in> set (pre @ [b])"
  using assms
proof (induction pre arbitrary: w selected)
  case Nil
  obtain c t w' where inc: "increment_rate_limit_bucket ulow None k (rb_Window b) w = (Inr (c, t), w')"
    by (rule increment_works [OF Nil.prems(6), of k "rb_Window b" ulow]) (use Nil.prems(2,4,5) in auto)
  from wpD [OF counting_increment [OF Nil.prems(1), of "rb_Window b"] inc] Nil.prems(4)
  have "int n < c" by simp
  then show ?case using inc Nil.prems(2,3) by (simp add: bindE_def Let_def bucket_result_def)
next
  case (Cons a pre)
  let ?a = "rate_limit_redis_key ulow prefix a"
  let ?K = "rate_limit_redis_key ulow prefix ` set ((a # pre) @ [b])"
  have f0: "rw_fault w (rw_calls w) = None" using Cons.prems(5) by force
  obtain c t w' where inc: "increment_rate_limit_bucket ulow None ?a (rb_Window a) w = (Inr (c, t), w')"
    "numeric ?K (int (length pre) + 1) (rw_keys w')" "rw_calls w' = Suc (rw_calls w)" "rw_fault w' = rw_fault w"
    by (rule increment_works [OF Cons.prems(6) _ _ _ f0, of ?a "rb_Window a" ulow])
      (use Cons.prems(4) in \<open>simp_all add: algebra_simps\<close>)
  from wpD [OF counting_increment [OF Cons.prems(1), of "rb_Window a"] inc(1)] Cons.prems(4)
  have J: "counting t0 T k n w'" by simp
  show ?case
  proof (cases "rb_Limit a < c")
    case True
    then show ?thesis using inc by (simp add: bindE_def Let_def bucket_result_def)
  next
    case False
    have "\<forall>i\<le>length pre. rw_fault w' (rw_calls w' + i) = None" using Cons.prems(5) inc(3,4) by fastforce
    moreover have "numeric (rate_limit_redis_key ulow prefix ` set (pre @ [b])) (int (length pre) + 1) (rw_keys w')"
      using inc(2) by (simp add: numeric_def)
    ultimately show ?thesis
      using Cons.IH [OF J Cons.prems(2,3)] Cons.prems(4) inc(1) False by (fastforce simp: bindE_def Let_def)
  qed
qed

section \<open>Properties\<close>

lemma counting_requests:
  assumes "rl_Enabled config" "rl_RedisClient config"
    and "\<forall>c\<in>set cs. \<exists>bs. rate_limit_buckets_for ulow uup c config = Inr bs \<and> b \<in> set bs"
    and "counting t0 (t0 + 60000) (rate_limit_redis_key ulow (effective_prefix config) b) n w"
    and "int n \<le> rb_Limit b"
  shows "int n + int (length (filter (\<lambda>r. \<exists>a. r = Inr a \<and> admitted a)
    (fst (rate_limit_requests ulow uup config cs w)))) \<le> rb_Limit b"
  using assms(3-5)
proof (induction cs arbitrary: n w)
  case (Cons c cs)
  obtain bs where bs: "rate_limit_buckets_for ulow uup c config = Inr bs" "b \<in> set bs"
    using Cons.prems(1) by auto
  obtain x w' where run: "application_rate_limiter ulow uup config c w = (x, w')" by fastforce
  from wpD [OF counting_limiter [OF assms(1,2) bs refl Cons.prems(2)] run]
  obtain r where r: "x = Inr r" "counting t0 (t0 + 60000) (rate_limit_redis_key ulow (effective_prefix config) b) n w'"
    "admitted r \<Longrightarrow> counting t0 (t0 + 60000) (rate_limit_redis_key ulow (effective_prefix config) b) (Suc n) w' \<and> int n < rb_Limit b"
    by (auto split: sum.splits)
  have cs: "\<forall>c\<in>set cs. \<exists>bs. rate_limit_buckets_for ulow uup c config = Inr bs \<and> b \<in> set bs"
    using Cons.prems(1) by simp
  show ?case
  proof (cases "admitted r")
    case True
    from r(3) [OF True] Cons.IH [OF cs, of "Suc n" w'] show ?thesis
      using True r(1) run by (simp add: split_def)
  next
    case False
    from Cons.IH [OF cs r(2) Cons.prems(3)] show ?thesis using False r(1) run by (simp add: split_def)
  qed
qed simp


definition tight_policy :: rate_limit_policy where
  "tight_policy = (let none = \<lparr>rq_UserPerMinute = 0, rq_TenantPerMinute = 0, rq_UserPerDay = 0, rq_TenantPerDay = 0\<rparr> in
     \<lparr>rp_General = none\<lparr>rq_UserPerMinute := 1, rq_TenantPerMinute := 5\<rparr>, rp_Interface = none, rp_AI = none,
      rp_Publish = none, rp_BrowserSession = none\<rparr>)"

definition tight_config :: "guard_ref \<Rightarrow> rate_limit_config" where
  "tight_config g = rate_limit_config_from_policy True g tight_policy"

definition sample_context :: http_context where
  "sample_context = \<lparr>hc_user = TokenClaims \<lparr>jc_UserID = 7, jc_TenantID = '''', jc_Role = ''user''\<rparr>,
     hc_Method = ''GET'', hc_Path = ''/p'', hc_URLPath = ''/p''\<rparr>"

definition sample_user_bucket :: rate_limit_bucket where
  "sample_user_bucket = new_rate_limit_bucket ''general:minute:user'' ''user'' (uuid_text 7) ''general'' 1 minute"

definition sample_tenant_bucket :: rate_limit_bucket where
  "sample_tenant_bucket = new_rate_limit_bucket ''general:minute:tenant'' ''tenant'' ''default'' ''general'' 5 minute"

lemma sample_category: "rate_limit_category id ''GET'' ''/p'' = ''general''"
  by code_simp

lemma sample_method: "to_upper id ''GET'' = ''GET''"
  by code_simp

lemma sample_buckets:
  "rate_limit_buckets_for id id sample_context (tight_config g) = Inr [sample_user_bucket, sample_tenant_bucket]"
proof -
  have "jwt_claims_from_context sample_context = Inr \<lparr>jc_UserID = 7, jc_TenantID = '''', jc_Role = ''user''\<rparr>"
    "hc_Method sample_context = ''GET''" "hc_Path sample_context = ''/p''"
    by (simp_all add: jwt_claims_from_context_def sample_context_def)
  moreover have "rl_GeneralUserPerMinute (tight_config g) = 1" "rl_GeneralTenantPerMinute (tight_config g) = 5"
    "rl_InterfaceUserPerMinute (tight_config g) = 0" "rl_InterfaceTenantPerMinute (tight_config g) = 0"
    by (simp_all add: tight_config_def rate_limit_config_from_policy_def tight_policy_def Let_def)
  moreover have "0 < minute" by (simp add: go_consts)
  ultimately show ?thesis
    by (simp add: rate_limit_buckets_for_def sample_method sample_category enabled_rate_limit_buckets_def
        new_rate_limit_bucket_def sample_user_bucket_def sample_tenant_bucket_def Let_def)
qed

definition limiter_start :: "(nat \<Rightarrow> redis_fault option) \<Rightarrow> keyspace \<Rightarrow> degrade_world" where
  "limiter_start faults ks = \<lparr>rw_keys = ks, rw_calls = 0, rw_fault = faults, rw_now = (\<lambda>_. second),
     dw_guards = (\<lambda>_. None), dw_observer = False, dw_metrics = []\<rparr>"


text \<open>
  A limit that is used up refuses: when the counter of one of the request's buckets stands at
  its limit for the period and Redis answers up to that bucket, the request is answered with 429,
  whatever happens to the calls for the buckets after it and although the limiter fails open.
\<close>

theorem exceeded_bucket_refuses:
  assumes "rl_Enabled config" "rl_RedisClient config" "rl_guard config = None"
    and "rate_limit_buckets_for ulow uup c config = Inr (pre @ b # post)"
    and "period t0 (t0 + 60000) w"
    and "rw_keys w (rate_limit_redis_key ulow (effective_prefix config) b) = Some e"
    and "ent_value e = RNum m" "rb_Limit b \<le> m" "\<And>x. ent_expires e = Some x \<Longrightarrow> t0 + 60000 \<le> x"
    and "\<forall>i\<le>length pre. rw_fault w (rw_calls w + i) = None"
    and "numeric (rate_limit_redis_key ulow (effective_prefix config) ` set (pre @ [b])) (int (length pre) + 1) (rw_keys w)"
  shows "\<exists>body headers w'. application_rate_limiter ulow uup config c w = (Inr (RlJSON 429 body headers), w')"
proof -
  let ?p = "effective_prefix config"
  have win: "\<forall>b\<in>set (pre @ [b]). t0 + 60000 \<le> t0 + rb_Window b div millisecond \<and> 0 < rb_Window b div millisecond"
    using bucket_windows [OF assms(4)] by fastforce
  have pos: "0 < rb_Limit b" using bucket_windows [OF assms(4), of b] by simp
  then have "counting t0 (t0 + 60000) (rate_limit_redis_key ulow ?p b) (nat m) w"
    using assms(5-9) by (auto simp: counting_def counted_def split: option.split)
  moreover have "rb_Limit b \<le> int (nat m)" using assms(8) by simp
  ultimately obtain res w1 where loop:
    "check_buckets_loop ulow ?p None (pre @ b # post) zero_result w = (Inr res, w1)" "rr_Exceeded res"
    using exceeded_loop [OF _ refl _ win assms(10,11), of "nat m" post zero_result] by blast
  obtain h w2 where "write_rate_limit_headers res w1 = (Inr h, w2)"
    by (cases "rb_Limit (rr_Bucket res) = 0") (simp_all add: write_rate_limit_headers_def bindE_def time_now_def)
  then have answer: "bindE (write_rate_limit_headers res) f w1 = f h w2"
    for f :: "rate_limit_headers option \<Rightarrow> ('a degrade_world_scheme, rate_limit_reply) io"
    by (simp add: bindE_def)
  show ?thesis
    using assms(1-4) loop unfolding effective_prefix_def
    by (simp add: application_rate_limiter_def Let_def check_rate_limit_buckets_def answer)
qed

theorem exceeded_bucket_refuses_witness:
  "\<exists>body headers w'. application_rate_limiter id id (tight_config None) sample_context
     (limiter_start (\<lambda>i. if i = 0 then None else Some (NotExecuted ErrDeadlineExceeded))
       ((\<lambda>_. None)(rate_limit_redis_key id (effective_prefix (tight_config None)) sample_user_bucket \<mapsto>
         \<lparr>ent_value = RNum 1, ent_expires = Some 90000\<rparr>))) = (Inr (RlJSON 429 body headers), w')"
proof (rule exceeded_bucket_refuses [where pre = "[]" and b = sample_user_bucket and post = "[sample_tenant_bucket]"
      and ?t0.0 = 1000 and m = 1 and e = "\<lparr>ent_value = RNum 1, ent_expires = Some 90000\<rparr>"])
  show "rate_limit_buckets_for id id sample_context (tight_config None) = Inr ([] @ sample_user_bucket # [sample_tenant_bucket])"
    by (simp add: sample_buckets)
qed (simp_all add: tight_config_def rate_limit_config_from_policy_def limiter_start_def period_def numeric_def roomy_def
    sample_user_bucket_def new_rate_limit_bucket_def second_def millisecond_def)

text \<open>
  While Redis is down the limiter steps aside: with its guard open and before the cool-down has
  passed, a request that would be counted goes on to its handler marked as degraded when the
  limiter fails open, and is answered with 503 when it fails closed; in both cases Redis is not
  called.
\<close>

theorem open_guard_bypasses_limiter:
  assumes "rl_Enabled config" "rl_RedisClient config" "rl_guard config = Some a"
    and "rate_limit_buckets_for ulow uup c config = Inr buckets" "buckets \<noteq> []"
    and "guarded w a b" "cb_state b = CircuitOpen" "rw_now w (rw_calls w) < cb_openedAt b + sint (cb_openAfter b)"
  shows "\<exists>w'. application_rate_limiter ulow uup config c w =
      (Inr (if rl_FailOpen config then RlNext None True
        else RlJSON 503 (error_body ''rate_limit_unavailable'' ''rate limiter is unavailable'') None), w')
    \<and> rw_keys w' = rw_keys w"
proof -
  obtain bk bs where bs: "buckets = bk # bs" using assms(5) by (cases buckets) auto
  have "cb_allow (rw_now w (rw_calls w)) b = (Some ErrCircuitOpen, b)"
    using assms(7,8) by (simp add: cb_allow_def)
  then obtain s w' where call: "\<And>operation :: ('a degrade_world_scheme, redis_any) io.
      call_work ulow (Some a) ''rate_limit'' (Some operation) w = (Inl (ErrWrap s ErrCircuitOpen), w')"
    and keys: "rw_keys w' = rw_keys w" by (rule call_refused [OF assms(6)]) blast
  have "check_rate_limit_buckets ulow p (Some a) buckets w = (Inl (ErrWrap s ErrCircuitOpen), w')" for p
    by (simp add: check_rate_limit_buckets_def bs increment_rate_limit_bucket_def call bindE_def)
  then show ?thesis
    using assms(1-5) keys
    by (simp add: application_rate_limiter_def Let_def tryE_def bindE_def should_degrade_def)
qed

theorem open_guard_bypasses_limiter_witness:
  fixes b :: circuit_breaker
  defines "b \<equiv> cb_open 0 (new_circuit_breaker ''redis:rate_limit'' 3 (30 * word_of_int second))"
  defines "w \<equiv> set_guard (Some 0) \<lparr>gd_group = ''rate_limit'', gd_enabled = True, gd_breaker = Some b,
    gd_lastState = 1\<rparr> (limiter_start (\<lambda>_. None) (\<lambda>_. None))"
  shows "\<exists>w'. application_rate_limiter id id (tight_config (Some 0)) sample_context w
    = (Inr (RlNext None True), w') \<and> rw_keys w' = rw_keys w"
proof -
  have "guarded w 0 b" by (simp add: w_def guarded_def)
  moreover have "cb_state b = CircuitOpen" by (simp add: b_def cb_open_def)
  moreover have "rw_now w (rw_calls w) < cb_openedAt b + sint (cb_openAfter b)"
    by (simp add: b_def w_def limiter_start_def cb_open_def new_circuit_breaker_def second_def word_sle_eq)
  ultimately have "\<exists>w'. application_rate_limiter id id (tight_config (Some 0)) sample_context w =
      (Inr (if rl_FailOpen (tight_config (Some 0)) then RlNext None True
        else RlJSON 503 (error_body ''rate_limit_unavailable'' ''rate limiter is unavailable'') None), w')
    \<and> rw_keys w' = rw_keys w"
    by (intro open_guard_bypasses_limiter [OF _ _ _ sample_buckets]) (simp_all add: tight_config_def rate_limit_config_from_policy_def)
  then show ?thesis by (simp add: tight_config_def rate_limit_config_from_policy_def)
qed

end
