(* ===== verification/Stream_Gate.thy ===== *)
theory Stream_Gate
  imports Rate_Limit
begin

text \<open>
  Package \<open>pkg/streamgate\<close>: the limits on concurrent streams per user, tenant, address and in all,
  kept in Redis sorted sets of connections scored with their expiry, or in a map of the process
  when there is no Redis. The release closure of a lease is a value naming what it releases. Then
  the contract both stores share, as a locale: the connections that hold a lease never outnumber a
  limit, whatever is acquired, released, refused or fails; and its two interpretations.
\<close>

section \<open>Configuration and leases\<close>

record stream_limits =
  sl_User :: int
  sl_Tenant :: int
  sl_IP :: int
  sl_Global :: int
  sl_TTL :: duration

record stream_config =
  sc_Enabled :: bool
  sc_Prefix :: string
  sc_AI :: stream_limits
  sc_Browser :: stream_limits

record acquire_request =
  ar_Kind :: string
  ar_UserID :: uuid
  ar_TenantID :: string
  ar_IP :: string
  ar_Resource :: string

text \<open>What the closure of a lease does.\<close>

datatype release_action =
    NoRelease
  | MemoryRelease string
  | RedisRelease acquire_request string string

record stream_lease =
  le_ID :: string
  le_Kind :: string
  le_ExpiresAt :: time
  le_release :: release_action

definition empty_lease :: stream_lease where
  "empty_lease = \<lparr>le_ID = '''', le_Kind = '''', le_ExpiresAt = 0, le_release = NoRelease\<rparr>"

text \<open>
  The parts of the standard library without a definition here: \<open>strings.ToLower\<close> on strings that
  are not ASCII, the hexadecimal SHA-256 digest, the RFC 3339 text of a time and the JSON text of a
  map of strings.
\<close>

record stream_lib =
  st_ulow :: "string \<Rightarrow> string"
  st_sha256 :: "string \<Rightarrow> string"
  st_format :: "time \<Rightarrow> string"
  st_json :: "(string \<times> string) list \<Rightarrow> string"

definition normalize_limits :: "stream_limits \<Rightarrow> stream_limits" where
  "normalize_limits l = l\<lparr>sl_User := (if sl_User l < 0 then 0 else sl_User l),
     sl_Tenant := (if sl_Tenant l < 0 then 0 else sl_Tenant l), sl_IP := (if sl_IP l < 0 then 0 else sl_IP l),
     sl_Global := (if sl_Global l < 0 then 0 else sl_Global l)\<rparr>"

definition normalize_config :: "stream_config \<Rightarrow> stream_config" where
  "normalize_config c = c\<lparr>sc_Prefix := (if trim_space (sc_Prefix c) = [] then ''mpp:stream'' else sc_Prefix c),
     sc_AI := normalize_limits (sc_AI c), sc_Browser := normalize_limits (sc_Browser c)\<rparr>"

definition env_string :: "(string \<Rightarrow> string) \<Rightarrow> string \<Rightarrow> string \<Rightarrow> string" where
  "env_string getenv name fallback = (let raw = trim_space (getenv name) in if raw \<noteq> [] then raw else fallback)"

definition env_int64 :: "(string \<Rightarrow> string) \<Rightarrow> string \<Rightarrow> int \<Rightarrow> int" where
  "env_int64 getenv name fallback =
     (let raw = trim_space (getenv name) in
      if raw = [] then fallback
      else case parse_int raw of None \<Rightarrow> fallback | Some n \<Rightarrow> if n < 0 then fallback else n)"

definition stream_config_from_env ::
  "(string \<Rightarrow> string) \<Rightarrow> (string \<Rightarrow> int64 option) \<Rightarrow> (string \<Rightarrow> string) \<Rightarrow> stream_config" where
  "stream_config_from_env ulow parse_duration getenv = normalize_config
     \<lparr>sc_Enabled = env_bool ulow getenv ''STREAM_GATE_ENABLED'' True,
      sc_Prefix = env_string getenv ''STREAM_GATE_KEY_PREFIX'' ''mpp:stream'',
      sc_AI = \<lparr>sl_User = env_int64 getenv ''AI_STREAM_USER_CONNECTION_LIMIT'' 2,
        sl_Tenant = env_int64 getenv ''AI_STREAM_TENANT_CONNECTION_LIMIT'' 20,
        sl_IP = env_int64 getenv ''AI_STREAM_IP_CONNECTION_LIMIT'' 10,
        sl_Global = env_int64 getenv ''AI_STREAM_GLOBAL_CONNECTION_LIMIT'' 200,
        sl_TTL = sint (env_duration parse_duration getenv ''AI_STREAM_CONNECTION_TTL'' (10 * word_of_int minute))\<rparr>,
      sc_Browser = \<lparr>sl_User = env_int64 getenv ''BROWSER_STREAM_USER_CONNECTION_LIMIT'' 1,
        sl_Tenant = env_int64 getenv ''BROWSER_STREAM_TENANT_CONNECTION_LIMIT'' 10,
        sl_IP = env_int64 getenv ''BROWSER_STREAM_IP_CONNECTION_LIMIT'' 3,
        sl_Global = env_int64 getenv ''BROWSER_STREAM_GLOBAL_CONNECTION_LIMIT'' 100,
        sl_TTL = sint (env_duration parse_duration getenv ''BROWSER_STREAM_CONNECTION_TTL'' (16 * word_of_int minute))\<rparr>\<rparr>"

definition limits_for :: "stream_config \<Rightarrow> string \<Rightarrow> stream_limits" where
  "limits_for config kind = (if kind = ''browser'' then sc_Browser config else sc_AI config)"

text \<open>\<open>LimitError\<close>: the limit error with the scope that refused.\<close>

definition limit_error :: "string \<Rightarrow> err" where
  "limit_error scope = ErrSuffix ErrLimitExceeded scope"

section \<open>Keys\<close>

definition hash_ip :: "stream_lib \<Rightarrow> string \<Rightarrow> string" where
  "hash_ip lib ip = (let ip = trim_space ip in st_sha256 lib (if ip = [] then ''unknown'' else ip))"

definition normalize_resource :: "string \<Rightarrow> string" where
  "normalize_resource r = (let r = trim_space r in if r = [] then ''unknown'' else r)"

definition stream_key_char :: "char \<Rightarrow> bool" where
  "stream_key_char c = ((97 \<le> byte_of c \<and> byte_of c \<le> 122) \<or> (48 \<le> byte_of c \<and> byte_of c \<le> 57)
     \<or> c = CHR ''-'' \<or> c = CHR ''_'' \<or> c = CHR '':'')"

function stream_key_loop :: "string \<Rightarrow> string" where
  "stream_key_loop [] = []"
| "stream_key_loop (c # t) =
     (if stream_key_char c then c # stream_key_loop t
      else CHR ''-'' # stream_key_loop (drop (rune_width (c # t)) (c # t)))"
  by pat_completeness auto
termination
proof (relation "measure length")
  fix c :: char and t :: string
  have "length (drop (rune_width (c # t)) (c # t)) < length (c # t)"
    unfolding length_drop by (rule diff_less) simp_all
  then show "(drop (rune_width (c # t)) (c # t), c # t) \<in> measure length" by simp
qed simp_all

definition stream_key_part :: "stream_lib \<Rightarrow> string \<Rightarrow> string" where
  "stream_key_part lib value =
     (let value = to_lower (st_ulow lib) (trim_space value) in
      if value = [] then ''unknown''
      else let result = trim_dashes (stream_key_loop value) in
        if result = [] then ''unknown'' else result)"

text \<open>The four scopes of a request, with the key of each.\<close>

datatype stream_scope = ScopeUser string string | ScopeTenant string string | ScopeIP string string | ScopeGlobal string

definition scope_key :: "string \<Rightarrow> stream_scope \<Rightarrow> string" where
  "scope_key prefix s = trim_right_colons prefix @ (case s of
      ScopeUser kind x \<Rightarrow> '':'' @ kind @ '':user:'' @ x
    | ScopeTenant kind x \<Rightarrow> '':'' @ kind @ '':tenant:'' @ x
    | ScopeIP kind x \<Rightarrow> '':'' @ kind @ '':ip:'' @ x
    | ScopeGlobal kind \<Rightarrow> '':'' @ kind @ '':global'')"

definition conn_key :: "string \<Rightarrow> string \<Rightarrow> string" where
  "conn_key prefix connID = trim_right_colons prefix @ '':conn:'' @ connID"

definition request_scopes :: "stream_lib \<Rightarrow> acquire_request \<Rightarrow> stream_scope list" where
  "request_scopes lib r =
     (let kind = stream_key_part lib (ar_Kind r) in
      [ScopeUser kind (stream_key_part lib (uuid_text (ar_UserID r))),
       ScopeTenant kind (stream_key_part lib (ar_TenantID r)),
       ScopeIP kind (stream_key_part lib (hash_ip lib (ar_IP r))),
       ScopeGlobal kind])"

definition stream_keys :: "stream_lib \<Rightarrow> stream_config \<Rightarrow> acquire_request \<Rightarrow> string \<Rightarrow> string list" where
  "stream_keys lib config r connID =
     conn_key (sc_Prefix config) connID # map (scope_key (sc_Prefix config)) (request_scopes lib r)"

section \<open>The Redis store\<close>

record memory_conn =
  mc_req :: acquire_request
  mc_ipHash :: string
  mc_expiresAt :: time

text \<open>
  The world of a limiter: Redis, the random numbers by call, and the map of the process as the
  list of its entries.
\<close>

record gate_world = redis_world +
  gw_rand :: "nat \<Rightarrow> err + string"
  gw_conns :: "(string \<times> memory_conn) list"

definition acquire_scope_script :: "string \<Rightarrow> int \<Rightarrow> int \<Rightarrow> int \<Rightarrow> string \<Rightarrow> int \<Rightarrow> redis_any redis_cmd" where
  "acquire_scope_script key now_ms expires_at_ms ttl_ms conn_id limit =
     then_cmd (cmd_zadd key expires_at_ms conn_id) (\<lambda>_.
     then_cmd (cmd_pexpire key ttl_ms) (\<lambda>_.
     then_cmd (cmd_zremrangebyscore key now_ms) (\<lambda>_.
       if 0 < limit then then_cmd (cmd_zcard key) (\<lambda>n.
         if limit < n then then_cmd (cmd_zrem key conn_id) (\<lambda>_. reply (AnyInt 0)) else reply (AnyInt 1))
       else reply (AnyInt 1))))"

definition acquire_redis_scope ::
  "string \<Rightarrow> int \<Rightarrow> string \<Rightarrow> duration \<Rightarrow> time \<Rightarrow> time \<Rightarrow> ('z redis_world_scheme, bool) io" where
  "acquire_redis_scope key limit connID ttl now expiresAt =
     bindE (tryE (redis_do (acquire_scope_script key (now div millisecond) (expiresAt div millisecond)
         (ttl div millisecond) connID limit))) (\<lambda>r. case r of
       Inl e \<Rightarrow> throw (ErrBoth ErrStreamLimiterUnavailable e)
     | Inr result \<Rightarrow> (case redis_int64 result of
         None \<Rightarrow> throw (ErrSuffix ErrStreamLimiterUnavailable ''unexpected redis accepted flag'')
       | Some accepted \<Rightarrow> ret (accepted = 1)))"

text \<open>\<open>errors.Join\<close> of a list of errors.\<close>

fun join_errors :: "err list \<Rightarrow> err option" where
  "join_errors [] = None"
| "join_errors [e] = Some e"
| "join_errors (e # es) = Some (ErrJoin e (the (join_errors es)))"

text \<open>Commands whose errors are collected, each run whatever became of those before.\<close>

fun collect_errors :: "('w, unit) io list \<Rightarrow> ('w, err list) io" where
  "collect_errors [] = ret []"
| "collect_errors (m # ms) = bindE (tryE m) (\<lambda>r. bindE (collect_errors ms) (\<lambda>es.
     ret (case r of Inl e \<Rightarrow> e # es | Inr _ \<Rightarrow> es)))"

lemma keeps_collect_errors: "(\<And>m. m \<in> set ms \<Longrightarrow> keeps I m) \<Longrightarrow> keeps I (collect_errors ms)"
  by (induction ms) (auto intro!: keeps_intros)

definition cleanup_redis_acquire :: "string \<Rightarrow> string list \<Rightarrow> string \<Rightarrow> ('z redis_world_scheme, err option) io" where
  "cleanup_redis_acquire connKey keys connID =
     bindE (collect_errors (redis_do (cmd_del connKey) # map (\<lambda>k. redis_do (cmd_zrem k connID)) keys))
       (\<lambda>es. ret (join_errors es))"

definition cleanup_partial_redis_acquire :: "string \<Rightarrow> string list \<Rightarrow> string \<Rightarrow> ('z redis_world_scheme, err option) io" where
  "cleanup_partial_redis_acquire connKey keys connID = cleanup_redis_acquire connKey keys connID"

definition fail_after_cleanup :: "err \<Rightarrow> string \<Rightarrow> string list \<Rightarrow> string \<Rightarrow> ('z redis_world_scheme, 'a) io" where
  "fail_after_cleanup e connKey keys connID =
     bindE (cleanup_partial_redis_acquire connKey keys connID) (\<lambda>c. case c of
       Some cleanupErr \<Rightarrow> throw (ErrJoin e cleanupErr) | None \<Rightarrow> throw e)"

text \<open>
  The loop over the scopes: name, key and limit of each, and the keys acquired so far. The result
  is the name of the scope that refused, empty for none. \<open>SET\<close> with an expiry takes at least a
  millisecond.
\<close>

fun acquire_scopes ::
  "string \<Rightarrow> string \<Rightarrow> string \<Rightarrow> duration \<Rightarrow> time \<Rightarrow> time \<Rightarrow> (string \<times> string \<times> int) list \<Rightarrow> string list \<Rightarrow>
     ('z redis_world_scheme, string) io" where
  "acquire_scopes connKey connID payload ttl now expiresAt [] acquired =
     bindE (tryE (redis_do (cmd_set connKey payload (max 1 (ttl div millisecond))))) (\<lambda>r. case r of
       Inl e \<Rightarrow> fail_after_cleanup (ErrBoth ErrStreamLimiterUnavailable e) connKey acquired connID
     | Inr _ \<Rightarrow> ret '''')"
| "acquire_scopes connKey connID payload ttl now expiresAt ((name, key, limit) # scopes) acquired =
     bindE (tryE (acquire_redis_scope key limit connID ttl now expiresAt)) (\<lambda>r. case r of
       Inl e \<Rightarrow> fail_after_cleanup e connKey acquired connID
     | Inr ok \<Rightarrow>
         if \<not> ok then bindE (cleanup_partial_redis_acquire connKey acquired connID) (\<lambda>c. case c of
           Some cleanupErr \<Rightarrow> throw cleanupErr | None \<Rightarrow> ret name)
         else acquire_scopes connKey connID payload ttl now expiresAt scopes (acquired @ [key]))"

definition scope_limits :: "stream_limits \<Rightarrow> string list \<Rightarrow> (string \<times> string \<times> int) list" where
  "scope_limits limits keys =
     [(''user'', keys ! 1, sl_User limits), (''tenant'', keys ! 2, sl_Tenant limits),
      (''ip'', keys ! 3, sl_IP limits), (''global'', keys ! 4, sl_Global limits)]"

definition acquire_redis ::
  "stream_lib \<Rightarrow> stream_config \<Rightarrow> acquire_request \<Rightarrow> stream_limits \<Rightarrow> string \<Rightarrow> string \<Rightarrow> time \<Rightarrow> time \<Rightarrow>
     ('z redis_world_scheme, string) io" where
  "acquire_redis lib config r limits connID payload now expiresAt =
     (let keys = stream_keys lib config r connID in
      acquire_scopes (keys ! 0) connID payload (sl_TTL limits) now expiresAt (scope_limits limits keys) [])"

definition release_redis ::
  "stream_lib \<Rightarrow> stream_config \<Rightarrow> acquire_request \<Rightarrow> string \<Rightarrow> string \<Rightarrow> ('z redis_world_scheme, unit) io" where
  "release_redis lib config r connID ownerPayload =
     (let keys = stream_keys lib config r connID in
      bindE (tryE (redis_do (cmd_get (keys ! 0)))) (\<lambda>g.
        case (case g of Inr s \<Rightarrow> Inr s | Inl e \<Rightarrow> if err_is e ErrRedisNil then Inr '''' else Inl e) of
          Inl e \<Rightarrow> throw e
        | Inr owner \<Rightarrow>
            if owner \<noteq> [] \<and> owner \<noteq> ownerPayload then ret ()
            else bindE (collect_errors (redis_do (cmd_del (keys ! 0)) # map (\<lambda>k. redis_do (cmd_zrem k connID)) (tl keys)))
              (\<lambda>es. case join_errors es of Some e \<Rightarrow> throw e | None \<Rightarrow> ret ())))"

section \<open>The store in memory\<close>

definition memory_prune :: "time \<Rightarrow> (string \<times> memory_conn) list \<Rightarrow> (string \<times> memory_conn) list" where
  "memory_prune now conns = filter (\<lambda>p. now < mc_expiresAt (snd p)) conns"

definition memory_count :: "(memory_conn \<Rightarrow> bool) \<Rightarrow> (string \<times> memory_conn) list \<Rightarrow> int" where
  "memory_count p conns = int (count_rows (\<lambda>c. p (snd c)) conns)"

definition memory_acquire ::
  "stream_lib \<Rightarrow> acquire_request \<Rightarrow> stream_limits \<Rightarrow> string \<Rightarrow> time \<Rightarrow> time \<Rightarrow> (gate_world, unit) io" where
  "memory_acquire lib r limits connID now expiresAt w =
     (let conns = memory_prune now (gw_conns w);
          reqIPHash = hash_ip lib (ar_IP r);
          same = (\<lambda>c. ar_Kind (mc_req c) = ar_Kind r);
          globals = memory_count same conns;
          users = memory_count (\<lambda>c. same c \<and> ar_UserID (mc_req c) = ar_UserID r) conns;
          tenants = memory_count (\<lambda>c. same c \<and> ar_TenantID (mc_req c) = ar_TenantID r) conns;
          ips = memory_count (\<lambda>c. same c \<and> mc_ipHash c = reqIPHash) conns;
          w = w\<lparr>gw_conns := conns\<rparr>
      in if 0 < sl_User limits \<and> sl_User limits \<le> users then (Inl (limit_error ''user''), w)
         else if 0 < sl_Tenant limits \<and> sl_Tenant limits \<le> tenants then (Inl (limit_error ''tenant''), w)
         else if 0 < sl_IP limits \<and> sl_IP limits \<le> ips then (Inl (limit_error ''ip''), w)
         else if 0 < sl_Global limits \<and> sl_Global limits \<le> globals then (Inl (limit_error ''global''), w)
         else (Inr (), w\<lparr>gw_conns := (connID, \<lparr>mc_req = r, mc_ipHash = reqIPHash, mc_expiresAt = expiresAt\<rparr>)
                  # filter (\<lambda>p. fst p \<noteq> connID) conns\<rparr>))"

definition memory_release :: "string \<Rightarrow> gate_world \<Rightarrow> gate_world" where
  "memory_release connID w = w\<lparr>gw_conns := filter (\<lambda>p. fst p \<noteq> connID) (gw_conns w)\<rparr>"

section \<open>The limiter\<close>

record stream_limiter =
  lm_config :: stream_config
  lm_redis :: bool

definition new_stream_limiter :: "bool \<Rightarrow> stream_config \<Rightarrow> stream_limiter option" where
  "new_stream_limiter redisClient config =
     (let config = normalize_config config in
      if \<not> sc_Enabled config then None else Some \<lparr>lm_config = config, lm_redis = redisClient\<rparr>)"

definition random_id :: "(gate_world, string) io" where
  "random_id w = (gw_rand w (rw_calls w), rw_tick w)"

text \<open>The map of the payload in the order of its keys, as the JSON encoder writes it.\<close>

definition lease_payload ::
  "stream_lib \<Rightarrow> acquire_request \<Rightarrow> string \<Rightarrow> time \<Rightarrow> time \<Rightarrow> string" where
  "lease_payload lib r connID now expiresAt = st_json lib
     [(''conn_id'', connID), (''expires_at'', st_format lib expiresAt), (''ip_hash'', hash_ip lib (ar_IP r)),
      (''kind'', ar_Kind r), (''resource'', normalize_resource (ar_Resource r)), (''started_at'', st_format lib now),
      (''tenant_id'', ar_TenantID r), (''user_id'', uuid_text (ar_UserID r))]"

definition stream_acquire :: "stream_lib \<Rightarrow> stream_limiter option \<Rightarrow> acquire_request \<Rightarrow> (gate_world, stream_lease) io" where
  "stream_acquire lib l r = (case l of
      None \<Rightarrow> ret empty_lease
    | Some l \<Rightarrow>
        if \<not> sc_Enabled (lm_config l) then ret empty_lease
        else let limits = limits_for (lm_config l) (ar_Kind r) in
          if sl_TTL limits \<le> 0 then ret empty_lease
          else bindE random_id (\<lambda>connID. bindE time_now (\<lambda>now.
            let expiresAt = now + sl_TTL limits; payload = lease_payload lib r connID now expiresAt in
            if \<not> lm_redis l then bindE (memory_acquire lib r limits connID now expiresAt) (\<lambda>_.
              ret \<lparr>le_ID = connID, le_Kind = ar_Kind r, le_ExpiresAt = expiresAt, le_release = MemoryRelease connID\<rparr>)
            else bindE (acquire_redis lib (lm_config l) r limits connID payload now expiresAt) (\<lambda>scope.
              if scope \<noteq> '''' then throw (limit_error scope)
              else ret \<lparr>le_ID = connID, le_Kind = ar_Kind r, le_ExpiresAt = expiresAt,
                     le_release = RedisRelease r connID payload\<rparr>))))"

definition stream_release :: "stream_lib \<Rightarrow> stream_limiter \<Rightarrow> stream_lease \<Rightarrow> (gate_world, unit) io" where
  "stream_release lib l le = (case le_release le of
      NoRelease \<Rightarrow> ret ()
    | MemoryRelease connID \<Rightarrow> (\<lambda>w. (Inr (), memory_release connID w))
    | RedisRelease r connID payload \<Rightarrow> release_redis lib (lm_config l) r connID payload)"

text \<open>\<open>SendLimitError\<close>: status, code, message and scope of the answer, or \<open>None\<close> for other errors.\<close>

fun limit_scope :: "err \<Rightarrow> string option" where
  "limit_scope (ErrSuffix e s) = (if e = ErrLimitExceeded then Some s else limit_scope e)"
| "limit_scope (ErrWrap s e) = limit_scope e"
| "limit_scope (ErrJoin a b) = (case limit_scope a of Some s \<Rightarrow> Some s | None \<Rightarrow> limit_scope b)"
| "limit_scope (ErrBoth a b) = (case limit_scope a of Some s \<Rightarrow> Some s | None \<Rightarrow> limit_scope b)"
| "limit_scope e = None"

definition send_limit_error :: "err \<Rightarrow> (int \<times> string \<times> string \<times> string option) option" where
  "send_limit_error e = (case limit_scope e of
      Some scope \<Rightarrow> Some (429, ''stream_concurrency_exceeded'', ''stream concurrency limit exceeded'', Some scope)
    | None \<Rightarrow> if err_is e ErrStreamLimiterUnavailable
        then Some (503, ''stream_limiter_unavailable'', ''stream limiter is unavailable'', None) else None)"

section \<open>The contract of a store\<close>

text \<open>
  What a process does with a gate: it acquires leases, keeps those it gets with their requests, and
  gives them back, in any order; a lease given back is no longer held whatever the release returns.
\<close>

datatype 'r gate_op = GateAcquire 'r | GateRelease nat

fun gate_step ::
  "('r \<Rightarrow> ('s, stream_lease) io) \<Rightarrow> (stream_lease \<Rightarrow> ('s, unit) io) \<Rightarrow> 'r gate_op \<Rightarrow> 's \<times> ('r \<times> stream_lease) list \<Rightarrow>
     's \<times> ('r \<times> stream_lease) list" where
  "gate_step acq rel (GateAcquire r) (s, held) = (case acq r s of
      (Inr l, s') \<Rightarrow> (s', (r, l) # held) | (Inl e, s') \<Rightarrow> (s', held))"
| "gate_step acq rel (GateRelease i) (s, held) =
     (if i < length held then (snd (rel (snd (held ! i)) s), take i held @ drop (Suc i) held) else (s, held))"

definition gate_run ::
  "('r \<Rightarrow> ('s, stream_lease) io) \<Rightarrow> (stream_lease \<Rightarrow> ('s, unit) io) \<Rightarrow> 'r gate_op list \<Rightarrow> 's \<Rightarrow>
     's \<times> ('r \<times> stream_lease) list" where
  "gate_run acq rel ops s = foldl (\<lambda>x op. gate_step acq rel op x) (s, []) ops"

text \<open>
  The laws: \<open>slot s k t\<close> are the connections that occupy the scope \<open>k\<close> at a time \<open>t\<close> from now on.
  They respect the limit; a granted lease occupies its scopes until its deadline; and neither
  another acquisition nor the release of another lease takes a slot away.
\<close>

locale connection_gate =
  fixes ok :: "'s \<Rightarrow> bool" and clock :: "'s \<Rightarrow> int" and slot :: "'s \<Rightarrow> 'k \<Rightarrow> int \<Rightarrow> string set"
    and limit :: "'k \<Rightarrow> int" and used :: "'s \<Rightarrow> string set"
    and valid :: "'r \<Rightarrow> bool" and scopes :: "'r \<Rightarrow> 'k set"
    and genuine :: "stream_lease \<Rightarrow> bool" and deadline :: "stream_lease \<Rightarrow> int"
    and acq :: "'r \<Rightarrow> ('s, stream_lease) io" and rel :: "stream_lease \<Rightarrow> ('s, unit) io"
  assumes bounded: "ok s \<Longrightarrow> 0 < limit k \<Longrightarrow> clock s \<le> t \<Longrightarrow> finite (slot s k t) \<and> int (card (slot s k t)) \<le> limit k"
    and acq_ok: "ok s \<Longrightarrow> valid r \<Longrightarrow> acq r s = (x, s') \<Longrightarrow> ok s' \<and> clock s \<le> clock s' \<and> used s \<subseteq> used s'"
    and granted: "ok s \<Longrightarrow> valid r \<Longrightarrow> acq r s = (Inr l, s') \<Longrightarrow> le_ID l \<notin> used s \<and> le_ID l \<in> used s' \<and> genuine l"
    and granted_slot: "ok s \<Longrightarrow> valid r \<Longrightarrow> acq r s = (Inr l, s') \<Longrightarrow> k \<in> scopes r \<Longrightarrow> clock s' \<le> t \<Longrightarrow>
      t < deadline l \<Longrightarrow> le_ID l \<in> slot s' k t"
    and acq_keeps: "ok s \<Longrightarrow> valid r \<Longrightarrow> acq r s = (x, s') \<Longrightarrow> c \<in> used s \<Longrightarrow> clock s' \<le> t \<Longrightarrow> c \<in> slot s k t \<Longrightarrow>
      c \<in> slot s' k t"
    and rel_ok: "ok s \<Longrightarrow> genuine l \<Longrightarrow> rel l s = (y, s') \<Longrightarrow> ok s' \<and> clock s \<le> clock s' \<and> used s \<subseteq> used s'"
    and rel_keeps: "ok s \<Longrightarrow> genuine l \<Longrightarrow> rel l s = (y, s') \<Longrightarrow> c \<noteq> le_ID l \<Longrightarrow> clock s' \<le> t \<Longrightarrow> c \<in> slot s k t \<Longrightarrow>
      c \<in> slot s' k t"
begin

text \<open>Every held lease is genuine, has an id of its own and occupies its scopes until its deadline.\<close>

definition seated :: "'s \<Rightarrow> ('r \<times> stream_lease) list \<Rightarrow> bool" where
  "seated s held \<longleftrightarrow> ok s \<and> distinct (map (\<lambda>h. le_ID (snd h)) held) \<and>
     (\<forall>(r, l)\<in>set held. genuine l \<and> le_ID l \<in> used s \<and>
        (\<forall>k\<in>scopes r. \<forall>t. clock s \<le> t \<longrightarrow> t < deadline l \<longrightarrow> le_ID l \<in> slot s k t))"

lemma seated_acquire:
  assumes "seated s held" "valid r" "acq r s = (x, s')"
  shows "seated s' held" and "x = Inr l \<Longrightarrow> seated s' ((r, l) # held)"
proof -
  have "ok s" using assms(1) by (simp add: seated_def)
  note o = acq_ok [OF this assms(2,3)] and keep = acq_keeps [OF this assms(2,3)]
  show kept: "seated s' held"
    using assms(1) o keep unfolding seated_def by (fastforce simp: split_def)
  assume "x = Inr l"
  with assms(3) have acq: "acq r s = (Inr l, s')" by simp
  note g = granted [OF \<open>ok s\<close> assms(2) acq] and gs = granted_slot [OF \<open>ok s\<close> assms(2) acq]
  have "le_ID l \<notin> (\<lambda>h. le_ID (snd h)) ` set held"
    using assms(1) g by (auto simp: seated_def split_def)
  then show "seated s' ((r, l) # held)" using kept g gs by (auto simp: seated_def)
qed

lemma seated_release:
  assumes "seated s held" "i < length held"
  shows "seated (snd (rel (snd (held ! i)) s)) (take i held @ drop (Suc i) held)"
proof -
  obtain r l where h: "held ! i = (r, l)" by fastforce
  obtain y s' where run: "rel l s = (y, s')" by fastforce
  have mem: "(r, l) \<in> set held" using h assms(2) by (metis nth_mem)
  with assms(1) have "ok s" "genuine l" by (auto simp: seated_def)
  note o = rel_ok [OF this run] and keep = rel_keeps [OF this run]
  define pre post where "pre = take i held" and "post = drop (Suc i) held"
  have split: "held = pre @ (r, l) # post"
    unfolding pre_def post_def h [symmetric] by (rule id_take_nth_drop [OF assms(2)])
  have "distinct (map (\<lambda>h. le_ID (snd h)) (pre @ (r, l) # post))"
    using assms(1) by (simp add: seated_def split)
  then have d: "distinct (map (\<lambda>h. le_ID (snd h)) (pre @ post))"
    "\<And>h. h \<in> set (pre @ post) \<Longrightarrow> le_ID (snd h) \<noteq> le_ID l" by (auto simp: image_iff)
  have "seated s' (pre @ post)"
    unfolding seated_def
  proof (intro conjI ballI)
    fix h assume m: "h \<in> set (pre @ post)"
    then have "h \<in> set held" by (auto simp: split)
    with assms(1) have "case h of (r, l) \<Rightarrow> genuine l \<and> le_ID l \<in> used s \<and>
        (\<forall>k\<in>scopes r. \<forall>t. clock s \<le> t \<longrightarrow> t < deadline l \<longrightarrow> le_ID l \<in> slot s k t)"
      unfolding seated_def by blast
    then show "case h of (r, l) \<Rightarrow> genuine l \<and> le_ID l \<in> used s' \<and>
        (\<forall>k\<in>scopes r. \<forall>t. clock s' \<le> t \<longrightarrow> t < deadline l \<longrightarrow> le_ID l \<in> slot s' k t)"
      using o keep d(2) [OF m] by (auto simp: split_def)
  qed (use o d(1) in auto)
  then show ?thesis by (simp add: h run pre_def post_def)
qed

lemma seated_run:
  assumes "\<forall>r. GateAcquire r \<in> set ops \<longrightarrow> valid r" "seated s held"
  shows "seated (fst (foldl (\<lambda>x op. gate_step acq rel op x) (s, held) ops))
    (snd (foldl (\<lambda>x op. gate_step acq rel op x) (s, held) ops))"
  using assms
proof (induction ops arbitrary: s held)
  case (Cons op ops)
  have "seated (fst (gate_step acq rel op (s, held))) (snd (gate_step acq rel op (s, held)))"
  proof (cases op)
    case (GateAcquire r)
    obtain x s' where run: "acq r s = (x, s')" by fastforce
    have "valid r" using Cons.prems(1) GateAcquire by simp
    note step = seated_acquire [OF Cons.prems(2) this run]
    from step show ?thesis using GateAcquire run by (cases x) simp_all
  next
    case (GateRelease i)
    then show ?thesis using seated_release [OF Cons.prems(2)] Cons.prems(2) by simp
  qed
  from Cons.IH [OF _ this] Cons.prems(1) show ?case by simp
qed simp

lemma held_bounded:
  assumes "ok s0" "\<forall>r. GateAcquire r \<in> set ops \<longrightarrow> valid r" "gate_run acq rel ops s0 = (s, held)"
    and "0 < limit k" "clock s \<le> t"
  shows "int (length (filter (\<lambda>(r, l). k \<in> scopes r \<and> t < deadline l) held)) \<le> limit k"
proof -
  have "seated s0 []" using assms(1) by (simp add: seated_def)
  from seated_run [OF assms(2) this] assms(3) have s: "seated s held" by (simp add: gate_run_def)
  let ?live = "filter (\<lambda>(r, l). k \<in> scopes r \<and> t < deadline l) held"
  let ?ids = "map (\<lambda>h. le_ID (snd h)) ?live"
  have "distinct ?ids" using s distinct_map_filter by (auto simp: seated_def)
  then have "length ?live = card (set ?ids)" using distinct_card by fastforce
  moreover have "set ?ids \<subseteq> slot s k t" using s assms(5) by (auto simp: seated_def)
  moreover have "finite (slot s k t)" "int (card (slot s k t)) \<le> limit k"
    using bounded [of s k t] s assms(4,5) by (auto simp: seated_def)
  ultimately have "length ?live \<le> card (slot s k t)" using card_mono by metis
  with \<open>int (card (slot s k t)) \<le> limit k\<close> show ?thesis by linarith
qed

end


section \<open>The store in memory keeps the contract\<close>

definition issued :: "gate_world \<Rightarrow> string set" where
  "issued w = {c. \<exists>i<rw_calls w. gw_rand w i = Inr c}"

text \<open>One clock for all readings, and random ids that never repeat.\<close>

definition sane_env :: "gate_world \<Rightarrow> bool" where
  "sane_env w \<longleftrightarrow> (\<forall>i j. i \<le> j \<longrightarrow> rw_now w i \<le> rw_now w j)
     \<and> (\<forall>i j c. gw_rand w i = Inr c \<longrightarrow> gw_rand w j = Inr c \<longrightarrow> i = j)"

definition gate_clock :: "gate_world \<Rightarrow> time" where
  "gate_clock w = rw_now w (rw_calls w)"

text \<open>What every operation of the gate leaves alone, and that its counter of calls only grows.\<close>

definition env_step :: "gate_world \<Rightarrow> gate_world \<Rightarrow> bool" where
  "env_step w w' \<longleftrightarrow> rw_now w' = rw_now w \<and> gw_rand w' = gw_rand w \<and> rw_calls w \<le> rw_calls w'"

lemma env_step_refl [simp]: "env_step w w"
  by (simp add: env_step_def)

lemma env_step_trans: "env_step w w1 \<Longrightarrow> env_step w1 w2 \<Longrightarrow> env_step w w2"
  by (simp add: env_step_def)

lemma env_step_sane: "env_step w w' \<Longrightarrow> sane_env w' = sane_env w"
  by (simp add: env_step_def sane_env_def)

lemma env_step_issued: "env_step w w' \<Longrightarrow> issued w \<subseteq> issued w'"
  by (auto simp: env_step_def issued_def intro: less_le_trans)

lemma env_step_clock: "env_step w w' \<Longrightarrow> sane_env w \<Longrightarrow> gate_clock w \<le> gate_clock w'"
  by (simp add: env_step_def gate_clock_def sane_env_def)

lemma fresh_id:
  assumes "sane_env w" "gw_rand w (rw_calls w) = Inr c"
  shows "c \<notin> issued w"
proof
  assume "c \<in> issued w"
  then obtain i where "i < rw_calls w" "gw_rand w i = Inr c" by (auto simp: issued_def)
  moreover from this assms have "i = rw_calls w" unfolding sane_env_def by blast
  ultimately show False by simp
qed

lemma id_issued:
  "env_step w w' \<Longrightarrow> rw_calls w < rw_calls w' \<Longrightarrow> gw_rand w (rw_calls w) = Inr c \<Longrightarrow> c \<in> issued w'"
  by (auto simp: env_step_def issued_def)

datatype memory_scope = MemUser string uuid | MemTenant string string | MemIP string string | MemGlobal string

fun in_scope :: "memory_scope \<Rightarrow> memory_conn \<Rightarrow> bool" where
  "in_scope (MemUser kind u) c = (ar_Kind (mc_req c) = kind \<and> ar_UserID (mc_req c) = u)"
| "in_scope (MemTenant kind t) c = (ar_Kind (mc_req c) = kind \<and> ar_TenantID (mc_req c) = t)"
| "in_scope (MemIP kind h) c = (ar_Kind (mc_req c) = kind \<and> mc_ipHash c = h)"
| "in_scope (MemGlobal kind) c = (ar_Kind (mc_req c) = kind)"

fun memory_limit :: "stream_config \<Rightarrow> memory_scope \<Rightarrow> int" where
  "memory_limit config (MemUser kind u) = sl_User (limits_for config kind)"
| "memory_limit config (MemTenant kind t) = sl_Tenant (limits_for config kind)"
| "memory_limit config (MemIP kind h) = sl_IP (limits_for config kind)"
| "memory_limit config (MemGlobal kind) = sl_Global (limits_for config kind)"

definition memory_scopes :: "stream_lib \<Rightarrow> acquire_request \<Rightarrow> memory_scope set" where
  "memory_scopes lib r = {MemUser (ar_Kind r) (ar_UserID r), MemTenant (ar_Kind r) (ar_TenantID r),
     MemIP (ar_Kind r) (hash_ip lib (ar_IP r)), MemGlobal (ar_Kind r)}"

definition memory_live :: "memory_scope \<Rightarrow> time \<Rightarrow> string \<times> memory_conn \<Rightarrow> bool" where
  "memory_live k t p \<longleftrightarrow> in_scope k (snd p) \<and> t < mc_expiresAt (snd p)"

definition memory_slot :: "gate_world \<Rightarrow> memory_scope \<Rightarrow> time \<Rightarrow> string set" where
  "memory_slot w k t = fst ` set (filter (memory_live k t) (gw_conns w))"

definition memory_ok :: "stream_config \<Rightarrow> gate_world \<Rightarrow> bool" where
  "memory_ok config w \<longleftrightarrow> sane_env w \<and> sc_Enabled config \<and>
     (\<forall>k t. 0 < memory_limit config k \<longrightarrow> gate_clock w \<le> t \<longrightarrow>
        int (count_rows (memory_live k t) (gw_conns w)) \<le> memory_limit config k)"

definition stream_valid :: "stream_config \<Rightarrow> acquire_request \<Rightarrow> bool" where
  "stream_valid config r \<longleftrightarrow> 0 < sl_TTL (limits_for config (ar_Kind r))"

definition memory_genuine :: "stream_lease \<Rightarrow> bool" where
  "memory_genuine l \<longleftrightarrow> le_release l = MemoryRelease (le_ID l)"

abbreviation memory_limiter :: "stream_config \<Rightarrow> stream_limiter" where
  "memory_limiter config \<equiv> \<lparr>lm_config = config, lm_redis = False\<rparr>"

lemma count_rows_filter_le: "count_rows p (filter q xs) \<le> count_rows p xs"
  by (induction xs) (auto simp: count_rows_def)

lemma count_rows_mono: "(\<And>x. x \<in> set xs \<Longrightarrow> p x \<Longrightarrow> q x) \<Longrightarrow> count_rows p xs \<le> count_rows q xs"
  by (induction xs) (auto simp: count_rows_def)

text \<open>A granted acquisition in memory: every limit of the request has room for one more.\<close>

lemma memory_acquire_room:
  assumes "memory_acquire lib r (limits_for config (ar_Kind r)) connID now expiresAt w = (Inr (), w')"
    and "k \<in> memory_scopes lib r" "0 < memory_limit config k"
  shows "int (count_rows (\<lambda>p. in_scope k (snd p)) (memory_prune now (gw_conns w))) < memory_limit config k"
  using assms
  by (auto simp: memory_acquire_def memory_scopes_def memory_count_def Let_def not_le split: if_splits)

lemma memory_acquire_conns:
  assumes "memory_acquire lib r limits connID now expiresAt w = (x, w')"
  shows "(case x of Inl e \<Rightarrow> w' = w\<lparr>gw_conns := memory_prune now (gw_conns w)\<rparr>
    | Inr _ \<Rightarrow> w' = w\<lparr>gw_conns := (connID, \<lparr>mc_req = r, mc_ipHash = hash_ip lib (ar_IP r), mc_expiresAt = expiresAt\<rparr>)
        # filter (\<lambda>p. fst p \<noteq> connID) (memory_prune now (gw_conns w))\<rparr>)"
  using assms by (auto simp: memory_acquire_def Let_def split: if_splits)

lemma new_conn_scopes:
  "in_scope k \<lparr>mc_req = r, mc_ipHash = hash_ip lib (ar_IP r), mc_expiresAt = e\<rparr> \<longleftrightarrow> k \<in> memory_scopes lib r"
  by (cases k) (auto simp: memory_scopes_def)

text \<open>The run of an acquisition in memory: the random id, the reading of the clock, the store.\<close>

lemma memory_stream_acquire:
  assumes "stream_acquire lib (Some (memory_limiter config)) r w = (x, w')" "sc_Enabled config" "stream_valid config r"
  obtains (no_id) e where "x = Inl e" "w' = rw_tick w"
  | (refused) e now where "x = Inl e" "now = rw_now w (Suc (rw_calls w))"
      "w' = rw_tick (rw_tick w)\<lparr>gw_conns := memory_prune now (gw_conns w)\<rparr>"
  | (granted) connID now where "gw_rand w (rw_calls w) = Inr connID" "now = rw_now w (Suc (rw_calls w))"
      "x = Inr \<lparr>le_ID = connID, le_Kind = ar_Kind r, le_ExpiresAt = now + sl_TTL (limits_for config (ar_Kind r)),
         le_release = MemoryRelease connID\<rparr>"
      "w' = rw_tick (rw_tick w)\<lparr>gw_conns :=
         (connID, \<lparr>mc_req = r, mc_ipHash = hash_ip lib (ar_IP r), mc_expiresAt = now + sl_TTL (limits_for config (ar_Kind r))\<rparr>)
         # filter (\<lambda>p. fst p \<noteq> connID) (memory_prune now (gw_conns w))\<rparr>"
      "\<And>k. k \<in> memory_scopes lib r \<Longrightarrow> 0 < memory_limit config k \<Longrightarrow>
         int (count_rows (\<lambda>p. in_scope k (snd p)) (memory_prune now (gw_conns w))) < memory_limit config k"
proof (cases "gw_rand w (rw_calls w)")
  case (Inl e)
  then show thesis
    using assms by (intro no_id [of e]) (auto simp: stream_acquire_def stream_valid_def Let_def bindE_def random_id_def)
next
  case (Inr connID)
  let ?now = "rw_now w (Suc (rw_calls w))" and ?ttl = "sl_TTL (limits_for config (ar_Kind r))"
  let ?w2 = "rw_tick (rw_tick w)"
  obtain y w3 where m: "memory_acquire lib r (limits_for config (ar_Kind r)) connID ?now (?now + ?ttl) ?w2 = (y, w3)"
    by fastforce
  have run: "stream_acquire lib (Some (memory_limiter config)) r w = (case y of
      Inl e \<Rightarrow> (Inl e, w3)
    | Inr _ \<Rightarrow> (Inr \<lparr>le_ID = connID, le_Kind = ar_Kind r, le_ExpiresAt = ?now + ?ttl, le_release = MemoryRelease connID\<rparr>, w3))"
    using assms(2,3) Inr m
    by (simp add: stream_acquire_def stream_valid_def Let_def bindE_def random_id_def time_now_def split: sum.split)
  have conns: "gw_conns ?w2 = gw_conns w" by (simp add: rw_tick_def)
  show thesis
  proof (cases y)
    case Inl': (Inl e)
    then show thesis using refused [OF _ refl] memory_acquire_conns [OF m] run assms(1) conns by simp
  next
    case Inr': (Inr u)
    then have "memory_acquire lib r (limits_for config (ar_Kind r)) connID ?now (?now + ?ttl) ?w2 = (Inr (), w3)"
      using m by simp
    from memory_acquire_room [OF this] granted [OF Inr refl] memory_acquire_conns [OF m] run assms(1) conns Inr'
    show thesis by simp
  qed
qed

lemma live_after_prune:
  "now \<le> t \<Longrightarrow> count_rows (memory_live k t) (filter q (memory_prune now conns)) \<le> count_rows (memory_live k t) conns"
  by (metis count_rows_filter_le memory_prune_def order_trans)

lemma live_in_scope: "count_rows (memory_live k t) (filter q xs) \<le> count_rows (\<lambda>p. in_scope k (snd p)) xs"
  by (rule order_trans [OF count_rows_filter_le count_rows_mono]) (simp add: memory_live_def)

lemma memory_ok_acquire:
  assumes "memory_ok config w" "stream_valid config r" "stream_acquire lib (Some (memory_limiter config)) r w = (x, w')"
  shows "memory_ok config w'" and "env_step w w'"
proof -
  have ok: "sane_env w" "sc_Enabled config" and lim: "\<And>k t. 0 < memory_limit config k \<Longrightarrow> gate_clock w \<le> t \<Longrightarrow>
      int (count_rows (memory_live k t) (gw_conns w)) \<le> memory_limit config k"
    using assms(1) by (auto simp: memory_ok_def)
  have "memory_ok config w' \<and> env_step w w'"
    using assms(3) ok(2) assms(2)
  proof (cases rule: memory_stream_acquire)
    case (no_id e)
    then have "env_step w w'" by (simp add: env_step_def rw_tick_def)
    moreover have "gw_conns w' = gw_conns w" using no_id by (simp add: rw_tick_def)
    ultimately show ?thesis
      using ok lim env_step_sane env_step_clock by (fastforce simp: memory_ok_def)
  next
    case (refused e now)
    then have step: "env_step w w'" by (simp add: env_step_def rw_tick_def)
    have conns: "gw_conns w' = filter (\<lambda>p. now < mc_expiresAt (snd p)) (gw_conns w)"
      using refused by (simp add: memory_prune_def)
    have "int (count_rows (memory_live k t) (gw_conns w')) \<le> memory_limit config k"
      if "0 < memory_limit config k" "gate_clock w' \<le> t" for k t
    proof -
      have "gate_clock w \<le> t" using env_step_clock [OF step ok(1)] that(2) by simp
      from order_trans [OF of_nat_mono [OF count_rows_filter_le] lim [OF that(1) this]] show ?thesis
        unfolding conns .
    qed
    then show ?thesis using ok step env_step_sane by (auto simp: memory_ok_def)
  next
    case (granted connID now)
    then have step: "env_step w w'" by (simp add: env_step_def rw_tick_def)
    let ?rest = "filter (\<lambda>p. fst p \<noteq> connID) (memory_prune now (gw_conns w))"
    let ?new = "(connID, \<lparr>mc_req = r, mc_ipHash = hash_ip lib (ar_IP r),
      mc_expiresAt = now + sl_TTL (limits_for config (ar_Kind r))\<rparr>)"
    have conns: "gw_conns w' = ?new # ?rest" using granted by simp
    have "int (count_rows (memory_live k t) (gw_conns w')) \<le> memory_limit config k"
      if k: "0 < memory_limit config k" and t: "gate_clock w' \<le> t" for k t
    proof (cases "k \<in> memory_scopes lib r")
      case True
      have "count_rows (memory_live k t) (gw_conns w') \<le> Suc (count_rows (memory_live k t) ?rest)"
        by (simp add: conns count_rows_def)
      also have "count_rows (memory_live k t) ?rest \<le> count_rows (\<lambda>p. in_scope k (snd p)) (memory_prune now (gw_conns w))"
        by (rule live_in_scope)
      finally show ?thesis using granted(5) [OF True k] by simp
    next
      case False
      then have "\<not> memory_live k t ?new" by (simp add: memory_live_def new_conn_scopes)
      then have "count_rows (memory_live k t) (gw_conns w') = count_rows (memory_live k t) ?rest"
        by (simp add: conns count_rows_def)
      also have "\<dots> \<le> count_rows (memory_live k t) (gw_conns w)"
        unfolding memory_prune_def by (meson count_rows_filter_le le_trans)
      finally have "int (count_rows (memory_live k t) (gw_conns w')) \<le> int (count_rows (memory_live k t) (gw_conns w))"
        by simp
      also have "\<dots> \<le> memory_limit config k"
        using lim [OF k order_trans [OF env_step_clock [OF step ok(1)] t]] .
      finally show ?thesis .
    qed
    then show ?thesis using ok step env_step_sane by (auto simp: memory_ok_def)
  qed
  then show "memory_ok config w'" "env_step w w'" by simp_all
qed

interpretation memory_gate: connection_gate "memory_ok config" gate_clock memory_slot "memory_limit config" issued
  "stream_valid config" "memory_scopes lib" memory_genuine le_ExpiresAt
  "stream_acquire lib (Some (memory_limiter config))" "stream_release lib (memory_limiter config)"
  for lib :: stream_lib and config :: stream_config
proof
  fix w k t assume "memory_ok config w" "0 < memory_limit config k" "gate_clock w \<le> t"
  then have "int (length (filter (memory_live k t) (gw_conns w))) \<le> memory_limit config k"
    by (auto simp: memory_ok_def count_rows_def)
  moreover have "card (memory_slot w k t) \<le> length (filter (memory_live k t) (gw_conns w))"
    unfolding memory_slot_def by (metis card_image_le card_length finite_set order_trans)
  ultimately show "finite (memory_slot w k t) \<and> int (card (memory_slot w k t)) \<le> memory_limit config k"
    by (simp add: memory_slot_def)
next
  fix w r x w'
  assume "memory_ok config w" "stream_valid config r" "stream_acquire lib (Some (memory_limiter config)) r w = (x, w')"
  note step = memory_ok_acquire [OF this]
  then show "memory_ok config w' \<and> gate_clock w \<le> gate_clock w' \<and> issued w \<subseteq> issued w'"
    using \<open>memory_ok config w\<close> env_step_clock env_step_issued by (auto simp: memory_ok_def)
next
  fix w r l w'
  assume a: "memory_ok config w" "stream_valid config r" and run: "stream_acquire lib (Some (memory_limiter config)) r w = (Inr l, w')"
  have e: "sc_Enabled config" "sane_env w" using a(1) by (simp_all add: memory_ok_def)
  show "le_ID l \<notin> issued w \<and> le_ID l \<in> issued w' \<and> memory_genuine l"
    using run e(1) a(2)
  proof (cases rule: memory_stream_acquire)
    case (granted connID now)
    have "env_step w w'" "rw_calls w < rw_calls w'" using granted(4) by (simp_all add: env_step_def rw_tick_def)
    then have "connID \<notin> issued w" "connID \<in> issued w'" using granted(1) e(2) fresh_id id_issued by blast+
    then show ?thesis using granted(3) by (simp add: memory_genuine_def)
  qed simp_all
  fix k t assume k: "k \<in> memory_scopes lib r" and t: "gate_clock w' \<le> t" "t < le_ExpiresAt l"
  show "le_ID l \<in> memory_slot w' k t"
    using run e(1) a(2)
  proof (cases rule: memory_stream_acquire)
    case (granted connID now)
    then show ?thesis using t k by (simp add: memory_slot_def memory_live_def new_conn_scopes)
  qed simp_all
next
  fix w r x w' c k t
  assume a: "memory_ok config w" "stream_valid config r" and run: "stream_acquire lib (Some (memory_limiter config)) r w = (x, w')"
    and c: "c \<in> issued w" "gate_clock w' \<le> t" "c \<in> memory_slot w k t"
  have e: "sc_Enabled config" "sane_env w" using a(1) by (simp_all add: memory_ok_def)
  have keep: "c \<in> fst ` set (filter (memory_live k t) (filter (\<lambda>p. fst p \<noteq> i) (memory_prune now (gw_conns w))))"
    if "now \<le> t" "c \<noteq> i" for now i
    using c(3) that by (auto simp: memory_slot_def memory_live_def memory_prune_def rev_image_eqI)
  have late: "now \<le> t" if "now = rw_now w (Suc (rw_calls w))" "w' = rw_tick (rw_tick w)\<lparr>gw_conns := cs\<rparr>" for now cs
  proof -
    have "now \<le> gate_clock w'" using that e(2) by (simp add: gate_clock_def sane_env_def rw_tick_def)
    with c(2) show ?thesis by simp
  qed
  show "c \<in> memory_slot w' k t"
    using run e(1) a(2)
  proof (cases rule: memory_stream_acquire)
    case (no_id e)
    then show ?thesis using c(3) by (simp add: memory_slot_def rw_tick_def)
  next
    case (refused e now)
    then show ?thesis using keep [of now "c @ ''x''"] late [OF refused(2,3)] by (auto simp: memory_slot_def)
  next
    case (granted connID now)
    have "connID \<notin> issued w" by (rule fresh_id [OF e(2) granted(1)])
    then have "c \<noteq> connID" using c(1) by auto
    then show ?thesis using keep [of now connID] late [OF granted(2,4)] granted(4) by (auto simp: memory_slot_def)
  qed
next
  fix w l y w'
  assume a: "memory_ok config w" "memory_genuine l" "stream_release lib (memory_limiter config) l w = (y, w')"
  then have w': "w' = memory_release (le_ID l) w" by (simp add: stream_release_def memory_genuine_def)
  then have step: "env_step w w'" by (simp add: memory_release_def env_step_def)
  have "memory_ok config w'"
    using a(1) env_step_clock [OF step] env_step_sane [OF step]
    by (fastforce simp: memory_ok_def w' memory_release_def gate_clock_def sane_env_def
        intro: order_trans [OF of_nat_mono [OF count_rows_filter_le]])
  then show "memory_ok config w' \<and> gate_clock w \<le> gate_clock w' \<and> issued w \<subseteq> issued w'"
    using env_step_clock [OF step] env_step_issued [OF step] a(1) by (simp add: memory_ok_def)
  fix c k t assume "c \<noteq> le_ID l" "gate_clock w' \<le> t" "c \<in> memory_slot w k t"
  then show "c \<in> memory_slot w' k t" by (auto simp: w' memory_slot_def memory_release_def rev_image_eqI)
qed

end
