(* ===== verification/Stream_Gate_Redis.thy ===== *)
theory Stream_Gate_Redis
  imports Stream_Gate
begin

text \<open>
  The Redis store of the stream gate keeps the contract of \<open>connection_gate\<close> under any faults: the
  keys of the scopes are distinct, each script leaves a sorted set within its limit, and no command
  takes the slot of a connection it is not about. Times are milliseconds of the server's clock.
\<close>

section \<open>Keys\<close>

fun scope_kind :: "stream_scope \<Rightarrow> string" where
  "scope_kind (ScopeUser kind x) = kind"
| "scope_kind (ScopeTenant kind x) = kind"
| "scope_kind (ScopeIP kind x) = kind"
| "scope_kind (ScopeGlobal kind) = kind"

definition stream_kind :: "string \<Rightarrow> bool" where
  "stream_kind kind \<longleftrightarrow> kind = ''ai'' \<or> kind = ''browser''"

lemma stream_key_loop_id: "\<forall>c\<in>set s. stream_key_char c \<Longrightarrow> stream_key_loop s = s"
  by (induction s) simp_all

lemma stream_kind_key_part:
  assumes "stream_kind kind"
  shows "stream_key_part lib kind = kind"
proof -
  have a: "\<forall>c\<in>set kind. key_char c" "\<forall>c\<in>set kind. stream_key_char c"
    using assms by (auto simp: stream_kind_def key_char_def stream_key_char_def byte_of_def)
  have d: "trim_dashes kind = kind" "kind \<noteq> []"
    using assms by (auto simp: stream_kind_def trim_dashes_def)
  show ?thesis
    by (simp only: stream_key_part_def Let_def key_chars_trim [OF a(1)] key_chars_ascii [OF a(1)]
        stream_key_loop_id [OF a(2)] d if_False)
qed

lemma scope_key_eq:
  "stream_kind (scope_kind s) \<Longrightarrow> stream_kind (scope_kind s') \<Longrightarrow> scope_key p s = scope_key p s' \<Longrightarrow> s = s'"
  by (cases s; cases s') (auto simp: scope_key_def stream_kind_def)

lemma scope_key_conn: "stream_kind (scope_kind s) \<Longrightarrow> scope_key p s \<noteq> conn_key p c"
  by (cases s) (auto simp: scope_key_def conn_key_def stream_kind_def)

lemma request_scope_kind:
  "stream_kind (ar_Kind r) \<Longrightarrow> s \<in> set (request_scopes lib r) \<Longrightarrow> scope_kind s = ar_Kind r"
  by (auto simp: request_scopes_def Let_def stream_kind_key_part)

section \<open>Slots of a keyspace\<close>

fun redis_limit :: "stream_config \<Rightarrow> stream_scope \<Rightarrow> int" where
  "redis_limit config (ScopeUser kind x) = sl_User (limits_for config kind)"
| "redis_limit config (ScopeTenant kind x) = sl_Tenant (limits_for config kind)"
| "redis_limit config (ScopeIP kind x) = sl_IP (limits_for config kind)"
| "redis_limit config (ScopeGlobal kind) = sl_Global (limits_for config kind)"

definition known_limit :: "stream_config \<Rightarrow> stream_scope \<Rightarrow> int" where
  "known_limit config s = (if stream_kind (scope_kind s) then redis_limit config s else 0)"

definition occupies :: "redis_entry option \<Rightarrow> int \<Rightarrow> string \<Rightarrow> bool" where
  "occupies entry t c \<longleftrightarrow> (case entry of None \<Rightarrow> False
     | Some e \<Rightarrow> entry_live t e \<and> (case ent_value e of RZset zs \<Rightarrow> (\<exists>x. (c, x) \<in> set zs \<and> t < x) | _ \<Rightarrow> False))"

text \<open>A scope's entry is within its limit, and no member outlives a lease taken now.\<close>

definition entry_ok :: "int \<Rightarrow> int \<Rightarrow> redis_entry option \<Rightarrow> bool" where
  "entry_ok limit latest entry \<longleftrightarrow> (case entry of None \<Rightarrow> True
     | Some e \<Rightarrow> (case ent_value e of
         RZset zs \<Rightarrow> (0 < limit \<longrightarrow> int (length zs) \<le> limit) \<and> (\<forall>(c, x)\<in>set zs. x \<le> latest)
       | _ \<Rightarrow> True))"

definition ttl_ms :: "stream_config \<Rightarrow> string \<Rightarrow> int" where
  "ttl_ms config kind = sl_TTL (limits_for config kind) div millisecond"

definition good_space :: "stream_config \<Rightarrow> int \<Rightarrow> keyspace \<Rightarrow> bool" where
  "good_space config ms ks \<longleftrightarrow> (\<forall>s. stream_kind (scope_kind s) \<longrightarrow>
     entry_ok (redis_limit config s) (ms + ttl_ms config (scope_kind s)) (ks (scope_key (sc_Prefix config) s)))"

text \<open>A command about the connection \<open>c\<close> keeps the space good and the slots of the others.\<close>

definition harmless :: "stream_config \<Rightarrow> string \<Rightarrow> int \<Rightarrow> keyspace \<Rightarrow> keyspace \<Rightarrow> bool" where
  "harmless config c ms ks ks' \<longleftrightarrow> (good_space config ms ks \<longrightarrow> good_space config ms ks' \<and>
     (\<forall>s c' t. stream_kind (scope_kind s) \<longrightarrow> c' \<noteq> c \<longrightarrow> ms \<le> t \<longrightarrow>
        occupies (ks (scope_key (sc_Prefix config) s)) t c' \<longrightarrow> occupies (ks' (scope_key (sc_Prefix config) s)) t c'))"

lemma harmless_refl [simp]: "harmless config c ms ks ks"
  by (simp add: harmless_def)

lemma entry_ok_later: "entry_ok limit a entry \<Longrightarrow> a \<le> b \<Longrightarrow> entry_ok limit b entry"
  by (fastforce simp: entry_ok_def split: option.splits redis_value.splits)

lemma good_space_later: "good_space config a ks \<Longrightarrow> a \<le> b \<Longrightarrow> good_space config b ks"
  unfolding good_space_def by (auto intro: entry_ok_later)

text \<open>A change of one scope's entry.\<close>

lemma harmless_upd:
  assumes "stream_kind (scope_kind s)" "k = scope_key (sc_Prefix config) s"
    and "\<And>k'. k' \<noteq> k \<Longrightarrow> ks' k' = ks k'"
    and "entry_ok (redis_limit config s) (ms + ttl_ms config (scope_kind s)) (ks k) \<Longrightarrow>
      entry_ok (redis_limit config s) (ms + ttl_ms config (scope_kind s)) (ks' k)"
    and "\<And>c' t. entry_ok (redis_limit config s) (ms + ttl_ms config (scope_kind s)) (ks k) \<Longrightarrow> c' \<noteq> c \<Longrightarrow> ms \<le> t \<Longrightarrow>
      occupies (ks k) t c' \<Longrightarrow> occupies (ks' k) t c'"
  shows "harmless config c ms ks ks'"
proof -
  have "scope_key (sc_Prefix config) s' = k \<longleftrightarrow> s' = s" if "stream_kind (scope_kind s')" for s'
    using scope_key_eq [OF that assms(1)] assms(2) by auto
  then show ?thesis
    using assms(1,3-5) unfolding harmless_def good_space_def by metis
qed

lemma harmless_conn:
  assumes "\<And>k'. k' \<noteq> conn_key (sc_Prefix config) i \<Longrightarrow> ks' k' = ks k'"
  shows "harmless config c ms ks ks'"
  using assms scope_key_conn by (simp add: harmless_def good_space_def)

section \<open>The script of a scope\<close>

text \<open>The members the script leaves, and whether it refuses.\<close>

definition members_of :: "redis_entry option \<Rightarrow> (string \<times> int) list" where
  "members_of live = (case live of None \<Rightarrow> [] | Some e \<Rightarrow> (case ent_value e of RZset zs \<Rightarrow> zs | _ \<Rightarrow> []))"

definition offered :: "int \<Rightarrow> int \<Rightarrow> string \<Rightarrow> redis_entry option \<Rightarrow> (string \<times> int) list" where
  "offered now_ms expires_at_ms c live = zset_above now_ms (zset_put c expires_at_ms (members_of live))"

lemma members_of_live:
  assumes "p \<in> set (members_of (live_entry ms ks key))"
  obtains e zs where "ks key = Some e" "entry_live ms e" "ent_value e = RZset zs" "p \<in> set zs"
proof (cases "live_entry ms ks key")
  case (Some e)
  then show thesis
    using assms that by (cases "ent_value e") (auto simp: members_of_def live_entry_def split: option.splits if_splits)
qed (use assms in \<open>simp add: members_of_def\<close>)

lemma offered_member: "now_ms < x \<Longrightarrow> (c, x) \<in> set (offered now_ms x c live)"
  by (simp add: offered_def zset_above_def zset_put_def)

definition refuses :: "int \<Rightarrow> (string \<times> int) list \<Rightarrow> bool" where
  "refuses limit zs \<longleftrightarrow> 0 < limit \<and> limit < int (length zs)"

definition zset_entry :: "int \<Rightarrow> (string \<times> int) list \<Rightarrow> redis_entry option" where
  "zset_entry expires zs = (if zs = [] then None else Some \<lparr>ent_value = RZset zs, ent_expires = Some expires\<rparr>)"

lemma store_zset_upd:
  "store_zset k \<lparr>ent_value = v, ent_expires = Some x\<rparr> zs ks = ks(k := zset_entry x zs)"
  by (simp add: store_zset_def zset_entry_def)

lemma entry_upd: "e\<lparr>ent_value := v\<rparr> = \<lparr>ent_value = v, ent_expires = ent_expires e\<rparr>"
  by (cases e) simp

lemma acquire_scope_script_effect:
  fixes c :: string
  assumes "0 < ttl" "now_ms < expires_at_ms"
    and "case live_entry ms ks key of None \<Rightarrow> True | Some e \<Rightarrow> (\<exists>zs. ent_value e = RZset zs)"
  defines "zs \<equiv> offered now_ms expires_at_ms c (live_entry ms ks key)"
  shows "acquire_scope_script key now_ms expires_at_ms ttl c limit ms ks =
    (if refuses limit zs then (Inr (AnyInt 0), ks(key := zset_entry (ms + ttl) (zset_drop c zs)))
     else (Inr (AnyInt 1), ks(key := zset_entry (ms + ttl) zs)))"
proof -
  have ne: "zs \<noteq> []" using offered_member [OF assms(2)] unfolding zs_def by (metis empty_iff list.set(1))
  define old where "old = members_of (live_entry ms ks key)"
  define x where "x = (case live_entry ms ks key of None \<Rightarrow> None | Some e \<Rightarrow> ent_expires e)"
  let ?e1 = "\<lparr>ent_value = RZset (zset_put c expires_at_ms old), ent_expires = x\<rparr>"
  let ?e2 = "\<lparr>ent_value = RZset (zset_put c expires_at_ms old), ent_expires = Some (ms + ttl)\<rparr>"
  have live1: "entry_live ms ?e1"
    by (auto simp: x_def entry_live_def live_entry_def split: option.splits if_splits)
  have 1: "cmd_zadd key expires_at_ms c ms ks = (Inr (), ks(key \<mapsto> ?e1))"
    using assms(3) by (auto simp: cmd_zadd_def old_def members_of_def x_def zset_put_def entry_upd split: option.splits)
  have 2: "cmd_pexpire key ttl ms (ks(key \<mapsto> ?e1)) = (Inr (), ks(key \<mapsto> ?e2))"
    using live1 assms(1) by (simp add: cmd_pexpire_def live_entry_def)
  have live2: "entry_live ms \<lparr>ent_value = v, ent_expires = Some (ms + ttl)\<rparr>" for v
    using assms(1) by (simp add: entry_live_def)
  have zs: "zs = zset_above now_ms (zset_put c expires_at_ms old)"
    by (simp add: zs_def offered_def old_def)
  have 3: "cmd_zremrangebyscore key now_ms ms (ks(key \<mapsto> ?e2))
      = (Inr (), ks(key := zset_entry (ms + ttl) zs))"
    using live2 by (simp add: cmd_zremrangebyscore_def cmd_zedit_def live_entry_def store_zset_upd zs)
  have 4: "cmd_zcard key ms (ks(key := zset_entry (ms + ttl) zs)) = (Inr (int (length zs)), ks(key := zset_entry (ms + ttl) zs))"
    using live2 ne by (simp add: cmd_zcard_def live_entry_def zset_entry_def)
  have 5: "cmd_zrem key c ms (ks(key := zset_entry (ms + ttl) zs)) = (Inr (), ks(key := zset_entry (ms + ttl) (zset_drop c zs)))"
    using live2 ne by (simp add: cmd_zrem_def cmd_zedit_def live_entry_def zset_entry_def store_zset_def)
  show ?thesis
    unfolding acquire_scope_script_def then_cmd_def
    by (simp add: bindE_def 1 2 3 4 5 reply_def refuses_def ret_def)
qed

lemma acquire_scope_script_wrong:
  assumes "live_entry ms ks key = Some e" "\<And>zs. ent_value e \<noteq> RZset zs"
  shows "acquire_scope_script key now_ms expires_at_ms ttl c limit ms ks = (Inl wrong_type, ks)"
proof -
  have "cmd_zadd key expires_at_ms c ms ks = (Inl wrong_type, ks)"
    using assms by (simp add: cmd_zadd_def split: redis_value.split)
  then show ?thesis by (simp add: acquire_scope_script_def then_cmd_def bindE_def)
qed

text \<open>What is left of an entry's members while it lives.\<close>

lemma offered_keeps:
  assumes "occupies (ks key) t c'" "c' \<noteq> c" "ms \<le> t" "now_ms \<le> t"
  obtains x where "(c', x) \<in> set (offered now_ms y c (live_entry ms ks key))" "t < x"
proof -
  obtain e zs x where e: "ks key = Some e" "entry_live t e" "ent_value e = RZset zs" "(c', x) \<in> set zs" "t < x"
    using assms(1) by (auto simp: occupies_def split: option.splits redis_value.splits)
  then have "entry_live ms e" using entry_live_later assms(3) by blast
  with e assms(2,4) show thesis
    by (intro that [of x]) (auto simp: offered_def members_of_def live_entry_def zset_above_def zset_put_def)
qed

lemma occupies_zset_entry: "(c, x) \<in> set zs \<Longrightarrow> t < x \<Longrightarrow> t < expires \<Longrightarrow> occupies (zset_entry expires zs) t c"
  by (auto simp: occupies_def zset_entry_def entry_live_def)

lemma length_offered:
  "int (length (offered now_ms y c live)) \<le> 1 + int (length (members_of live))"
  unfolding offered_def zset_above_def zset_put_def
  by (rule order_trans [OF of_nat_mono [OF length_filter_le]]) (simp add: le_trans [OF length_filter_le])

lemma zset_drop_shorter: "(c, x) \<in> set zs \<Longrightarrow> length (zset_drop c zs) < length zs"
  unfolding zset_drop_def by (rule length_filter_less [of "(c, x)"]) simp_all

section \<open>Every command is harmless to the others\<close>

lemma offered_cases:
  assumes "(c', x) \<in> set (offered now_ms y c (live_entry ms ks key))"
  obtains "c' = c" "x = y" | e zs where "ks key = Some e" "ent_value e = RZset zs" "(c', x) \<in> set zs"
proof (cases "c' = c \<and> x = y")
  case False
  then have "(c', x) \<in> set (members_of (live_entry ms ks key))"
    using assms by (auto simp: offered_def zset_above_def zset_put_def split: if_splits)
  then show thesis by (rule members_of_live) (rule that(2))
qed (use that(1) in simp)

lemma harmless_script:
  assumes s: "stream_kind (scope_kind s)" and k: "k = scope_key (sc_Prefix config) s"
    and ttl: "0 < ttl_ms config (scope_kind s)" and now: "now_ms \<le> ms"
  shows "harmless config c ms ks (snd (acquire_scope_script k now_ms (now_ms + ttl_ms config (scope_kind s))
    (ttl_ms config (scope_kind s)) c (redis_limit config s) ms ks))"
proof (cases "case live_entry ms ks k of None \<Rightarrow> True | Some e \<Rightarrow> (\<exists>zs. ent_value e = RZset zs)")
  case False
  then obtain e where "live_entry ms ks k = Some e" "\<And>zs. ent_value e \<noteq> RZset zs"
    by (auto split: option.splits)
  from acquire_scope_script_wrong [OF this] show ?thesis by simp
next
  case True
  let ?ttl = "ttl_ms config (scope_kind s)" and ?limit = "redis_limit config s"
  define zs where "zs = offered now_ms (now_ms + ?ttl) c (live_entry ms ks k)"
  define left where "left = (if refuses ?limit zs then zset_drop c zs else zs)"
  have ks': "snd (acquire_scope_script k now_ms (now_ms + ?ttl) ?ttl c ?limit ms ks) = ks(k := zset_entry (ms + ?ttl) left)"
    using acquire_scope_script_effect [OF ttl _ True, of now_ms "now_ms + ?ttl" c ?limit] ttl
    by (simp add: zs_def left_def)
  have mem: "(c, now_ms + ?ttl) \<in> set zs" unfolding zs_def by (rule offered_member) (use ttl in simp)
  have scores: "x \<le> ms + ?ttl" if "entry_ok ?limit (ms + ?ttl) (ks k)" "(c', x) \<in> set zs" for c' x
    using that(2) unfolding zs_def
    by (cases rule: offered_cases) (use that(1) now in \<open>auto simp: entry_ok_def\<close>)
  show ?thesis
    unfolding ks'
  proof (rule harmless_upd [OF s k])
    assume ok: "entry_ok ?limit (ms + ?ttl) (ks k)"
    have old: "int (length (members_of (live_entry ms ks k))) \<le> ?limit" if "0 < ?limit"
      using ok that by (auto simp: entry_ok_def members_of_def live_entry_def split: option.splits redis_value.splits)
    have "int (length left) \<le> ?limit" if "0 < ?limit"
    proof (cases "refuses ?limit zs")
      case False
      then show ?thesis using that by (simp add: refuses_def left_def)
    next
      case True
      have "length left < length zs" using zset_drop_shorter [OF mem] True by (simp add: left_def)
      moreover have "int (length zs) \<le> 1 + ?limit"
        using order_trans [OF length_offered add_left_mono [OF old [OF that]]] unfolding zs_def .
      ultimately show ?thesis by simp
    qed
    moreover have "set left \<subseteq> set zs" by (auto simp: left_def zset_drop_def)
    ultimately show "entry_ok ?limit (ms + ?ttl) ((ks(k := zset_entry (ms + ?ttl) left)) k)"
      using scores [OF ok] by (auto simp: entry_ok_def zset_entry_def)
  next
    fix c' t assume ok: "entry_ok ?limit (ms + ?ttl) (ks k)" and c': "c' \<noteq> c" "ms \<le> t" "occupies (ks k) t c'"
    have "now_ms \<le> t" using c'(2) now by simp
    then obtain x where x: "(c', x) \<in> set zs" "t < x"
      unfolding zs_def
      by (rule offered_keeps [where ks = ks and key = k and y = "now_ms + ?ttl", OF c'(3) c'(1) c'(2)]) blast
    then have "(c', x) \<in> set left" using c'(1) by (simp add: left_def zset_drop_def)
    then show "occupies ((ks(k := zset_entry (ms + ?ttl) left)) k) t c'"
      using occupies_zset_entry x scores [OF ok x(1)] by fastforce
  qed simp
qed

lemma harmless_zrem:
  assumes s: "stream_kind (scope_kind s)" and k: "k = scope_key (sc_Prefix config) s"
  shows "harmless config c ms ks (snd (cmd_zrem k c ms ks))"
proof (cases "\<exists>e zs. live_entry ms ks k = Some e \<and> ent_value e = RZset zs")
  case False
  then have "snd (cmd_zrem k c ms ks) = ks"
    by (auto simp: cmd_zrem_def cmd_zedit_def split: option.split redis_value.split)
  then show ?thesis by simp
next
  case True
  then obtain e zs where e: "live_entry ms ks k = Some e" "ent_value e = RZset zs" by auto
  then have e': "ks k = Some e" by (auto simp: live_entry_def split: option.splits if_splits)
  have ks': "snd (cmd_zrem k c ms ks) = ks(k := if zset_drop c zs = [] then None else Some (e\<lparr>ent_value := RZset (zset_drop c zs)\<rparr>))"
    using e by (simp add: cmd_zrem_def cmd_zedit_def store_zset_def)
  have sub: "set (zset_drop c zs) \<subseteq> set zs" "length (zset_drop c zs) \<le> length zs" by (auto simp: zset_drop_def)
  show ?thesis
    unfolding ks'
  proof (rule harmless_upd [OF s k])
    assume "entry_ok (redis_limit config s) (ms + ttl_ms config (scope_kind s)) (ks k)"
    then show "entry_ok (redis_limit config s) (ms + ttl_ms config (scope_kind s))
      ((ks(k := if zset_drop c zs = [] then None else Some (e\<lparr>ent_value := RZset (zset_drop c zs)\<rparr>))) k)"
      using e(2) e' sub by (fastforce simp: entry_ok_def)
  next
    fix c' t assume c': "c' \<noteq> c" "occupies (ks k) t c'"
    then obtain x where "(c', x) \<in> set (zset_drop c zs)" "t < x" "entry_live t e"
      using e(2) e' by (auto simp: occupies_def zset_drop_def)
    then show "occupies ((ks(k := if zset_drop c zs = [] then None else Some (e\<lparr>ent_value := RZset (zset_drop c zs)\<rparr>))) k) t c'"
      by (auto simp: occupies_def entry_live_def)
  qed simp
qed

section \<open>Worlds\<close>

definition gate_ms :: "gate_world \<Rightarrow> int" where
  "gate_ms w = gate_clock w div millisecond"

definition whole_ttls :: "stream_config \<Rightarrow> bool" where
  "whole_ttls config \<longleftrightarrow> (\<forall>kind. stream_kind kind \<longrightarrow>
     0 < ttl_ms config kind \<and> sl_TTL (limits_for config kind) = ttl_ms config kind * millisecond)"

definition redis_ok :: "stream_config \<Rightarrow> gate_world \<Rightarrow> bool" where
  "redis_ok config w \<longleftrightarrow> sane_env w \<and> sc_Enabled config \<and> whole_ttls config \<and> good_space config (gate_ms w) (rw_keys w)"

text \<open>
  Since the world \<open>w0\<close> the calls were about the connection \<open>c\<close>: the slots of all others are still
  taken.
\<close>

definition undisturbed :: "stream_config \<Rightarrow> string \<Rightarrow> gate_world \<Rightarrow> gate_world \<Rightarrow> bool" where
  "undisturbed config c w0 w \<longleftrightarrow> redis_ok config w \<and> env_step w0 w \<and>
     (\<forall>s c' t. stream_kind (scope_kind s) \<longrightarrow> c' \<noteq> c \<longrightarrow> gate_ms w \<le> t \<longrightarrow>
        occupies (rw_keys w0 (scope_key (sc_Prefix config) s)) t c' \<longrightarrow>
        occupies (rw_keys w (scope_key (sc_Prefix config) s)) t c')"

lemma undisturbed_start: "redis_ok config w \<Longrightarrow> undisturbed config c w w"
  by (simp add: undisturbed_def)

lemma env_step_ms: "env_step w w' \<Longrightarrow> sane_env w \<Longrightarrow> gate_ms w \<le> gate_ms w'"
  unfolding gate_ms_def using env_step_clock by (simp add: zdiv_mono1 millisecond_def)

lemma gw_rand_more: "redis_world.more w' = redis_world.more w \<Longrightarrow> gw_rand w' = gw_rand w"
  by (cases w; cases w') simp

lemma redis_do_step: "env_step w (snd (redis_do cmd w))"
  unfolding env_step_def by (simp add: gw_rand_more [OF redis_do_frame(4)])

lemma undisturbed_redis_do:
  assumes "\<And>ms ks. gate_ms w0 \<le> ms \<Longrightarrow> harmless config c ms ks (snd (cmd ms ks))"
  shows "keeps (undisturbed config c w0) (redis_do cmd)"
  unfolding keeps_def
proof (intro allI impI)
  fix w assume u: "undisturbed config c w0 w"
  let ?w' = "snd (redis_do cmd w)"
  have ok: "redis_ok config w" "sane_env w" "env_step w0 w" using u by (auto simp: undisturbed_def redis_ok_def)
  have s0: "sane_env w0" using env_step_sane [OF ok(3)] ok(2) by simp
  have ms: "rw_ms w = gate_ms w" by (simp add: rw_ms_def gate_ms_def gate_clock_def)
  have later: "gate_ms w \<le> gate_ms ?w'" by (rule env_step_ms [OF redis_do_step ok(2)])
  have "harmless config c (gate_ms w) (rw_keys w) (rw_keys ?w')"
    using redis_do_keys [of cmd w] assms [OF env_step_ms [OF ok(3) s0]] by (auto simp: ms)
  then have h: "good_space config (gate_ms w) (rw_keys ?w')"
    "\<And>s c' t. stream_kind (scope_kind s) \<Longrightarrow> c' \<noteq> c \<Longrightarrow> gate_ms w \<le> t \<Longrightarrow>
       occupies (rw_keys w (scope_key (sc_Prefix config) s)) t c' \<Longrightarrow>
       occupies (rw_keys ?w' (scope_key (sc_Prefix config) s)) t c'"
    using ok(1) by (auto simp: harmless_def redis_ok_def)
  have "redis_ok config ?w'"
    using ok(1) good_space_later [OF h(1) later] env_step_sane [OF redis_do_step [of w cmd]] by (simp add: redis_ok_def)
  moreover have "env_step w0 ?w'" by (rule env_step_trans [OF ok(3) redis_do_step])
  ultimately show "undisturbed config c w0 ?w'"
    using u h(2) later unfolding undisturbed_def by fastforce
qed

lemma undisturbed_conn:
  "keeps (undisturbed config c w0) (redis_do (cmd_del (conn_key (sc_Prefix config) i)))"
  "keeps (undisturbed config c w0) (redis_do (cmd_set (conn_key (sc_Prefix config) i) v ms))"
  "keeps (undisturbed config c w0) (redis_do (cmd_get k))"
  by (rule undisturbed_redis_do, rule harmless_conn [of config i], simp add: cmd_del_def cmd_set_def)+
    (rule undisturbed_redis_do, simp add: cmd_get_def split: option.split redis_value.split)

lemma undisturbed_zrem:
  assumes "\<exists>s. stream_kind (scope_kind s) \<and> k = scope_key (sc_Prefix config) s"
  shows "keeps (undisturbed config c w0) (redis_do (cmd_zrem k c))"
  using assms harmless_zrem by (blast intro: undisturbed_redis_do)

lemma undisturbed_script:
  assumes "stream_kind (scope_kind s)" "k = scope_key (sc_Prefix config) s" "whole_ttls config" "now_ms \<le> gate_ms w0"
  shows "keeps (undisturbed config c w0) (redis_do (acquire_scope_script k now_ms (now_ms + ttl_ms config (scope_kind s))
    (ttl_ms config (scope_kind s)) c (redis_limit config s)))"
proof (rule undisturbed_redis_do)
  fix ms ks assume "gate_ms w0 \<le> ms"
  moreover have "0 < ttl_ms config (scope_kind s)" using assms(1,3) by (simp add: whole_ttls_def)
  ultimately show "harmless config c ms ks (snd (acquire_scope_script k now_ms (now_ms + ttl_ms config (scope_kind s))
    (ttl_ms config (scope_kind s)) c (redis_limit config s) ms ks))"
    using harmless_script [OF assms(1,2)] assms(4) by simp
qed

definition scope_keys :: "stream_config \<Rightarrow> string list \<Rightarrow> bool" where
  "scope_keys config keys \<longleftrightarrow> (\<forall>k\<in>set keys. \<exists>s. stream_kind (scope_kind s) \<and> k = scope_key (sc_Prefix config) s)"

lemma undisturbed_cleanup:
  assumes "scope_keys config keys"
  shows "keeps (undisturbed config c w0) (cleanup_partial_redis_acquire (conn_key (sc_Prefix config) i) keys c)"
proof -
  have "keeps (undisturbed config c w0) m"
    if "m \<in> set (redis_do (cmd_del (conn_key (sc_Prefix config) i)) # map (\<lambda>k. redis_do (cmd_zrem k c)) keys)" for m
    using that assms undisturbed_conn undisturbed_zrem by (fastforce simp: scope_keys_def)
  from keeps_collect_errors [OF this] show ?thesis
    unfolding cleanup_partial_redis_acquire_def cleanup_redis_acquire_def by (intro keeps_intros)
qed

section \<open>Acquiring and releasing\<close>

text \<open>The connection \<open>c\<close> has its slot in the scope \<open>s\<close> until \<open>x\<close>.\<close>

definition seat :: "stream_config \<Rightarrow> string \<Rightarrow> int \<Rightarrow> gate_world \<Rightarrow> stream_scope \<Rightarrow> bool" where
  "seat config c x w s \<longleftrightarrow> (\<forall>t. gate_ms w \<le> t \<longrightarrow> t < x \<longrightarrow> occupies (rw_keys w (scope_key (sc_Prefix config) s)) t c)"

lemma wp_fail_after_cleanup:
  assumes "scope_keys config keys" "undisturbed config c w0 w"
  shows "wp (fail_after_cleanup e (conn_key (sc_Prefix config) i) keys c) Q (\<lambda>e. undisturbed config c w0) w"
  unfolding fail_after_cleanup_def
  by (rule wp_bindE, rule wp_keeps [OF undisturbed_cleanup [OF assms(1)] assms(2)])
    (auto intro: wp_throw split: option.split)

lemma keeps_acquire_redis_scope:
  assumes "stream_kind (scope_kind s)" "k = scope_key (sc_Prefix config) s" "whole_ttls config"
    and "now div millisecond \<le> gate_ms w0" "ttl = sl_TTL (limits_for config (scope_kind s))"
  shows "keeps (undisturbed config c w0) (acquire_redis_scope k (redis_limit config s) c ttl now (now + ttl))"
proof -
  have ttl: "ttl = ttl_ms config (scope_kind s) * millisecond" using assms(1,3,5) by (simp add: whole_ttls_def)
  then have "(now + ttl) div millisecond = now div millisecond + ttl_ms config (scope_kind s)"
    "ttl div millisecond = ttl_ms config (scope_kind s)" by (simp_all add: millisecond_def)
  then show ?thesis
    unfolding acquire_redis_scope_def
    using undisturbed_script [OF assms(1-4), of c] by (auto intro!: keeps_intros)
qed

text \<open>A scope that accepted the connection has a slot for it, and the slots it had elsewhere are kept.\<close>

lemma acquire_redis_scope_seat:
  assumes run: "acquire_redis_scope k (redis_limit config s) c ttl now (now + ttl) w = (Inr True, w')"
    and s: "stream_kind (scope_kind s)" "k = scope_key (sc_Prefix config) s" "whole_ttls config"
    and now: "now div millisecond \<le> gate_ms w" and ttl: "ttl = sl_TTL (limits_for config (scope_kind s))"
    and sane: "sane_env w"
  shows "seat config c (now div millisecond + ttl_ms config (scope_kind s)) w' s"
    and "\<And>s'. stream_kind (scope_kind s') \<Longrightarrow> seat config c x w s' \<Longrightarrow> s' \<noteq> s \<Longrightarrow> seat config c x w' s'"
    and "env_step w w'"
proof -
  let ?ttl = "ttl_ms config (scope_kind s)" and ?now = "now div millisecond" and ?limit = "redis_limit config s"
  have pos: "0 < ?ttl" using s(1,3) by (simp add: whole_ttls_def)
  have "ttl = ?ttl * millisecond" using s(1,3) ttl by (simp add: whole_ttls_def)
  then have div: "(now + ttl) div millisecond = ?now + ?ttl" "ttl div millisecond = ?ttl"
    by (simp_all add: millisecond_def)
  obtain v where do: "redis_do (acquire_scope_script k ?now (?now + ?ttl) ?ttl c ?limit) w = (Inr v, w')"
    and v: "redis_int64 v = Some 1"
    using run unfolding acquire_redis_scope_def div
    by (auto simp: bindE_def tryE_def throw_def ret_def split: prod.splits sum.splits option.splits)
  have w': "w' = snd (redis_do (acquire_scope_script k ?now (?now + ?ttl) ?ttl c ?limit) w)" using do by simp
  show step: "env_step w w'" unfolding w' by (rule redis_do_step)
  have cmd: "acquire_scope_script k ?now (?now + ?ttl) ?ttl c ?limit (rw_ms w) (rw_keys w) = (Inr v, rw_keys w')"
    using redis_do_ok [OF do] by simp
  let ?zs = "offered ?now (?now + ?ttl) c (live_entry (rw_ms w) (rw_keys w) k)"
  have "case live_entry (rw_ms w) (rw_keys w) k of None \<Rightarrow> True | Some e \<Rightarrow> (\<exists>zs. ent_value e = RZset zs)"
    using acquire_scope_script_wrong cmd by (fastforce split: option.split)
  from acquire_scope_script_effect [OF pos _ this, of ?now "?now + ?ttl" c ?limit] pos cmd v
  have keys: "rw_keys w' = (rw_keys w)(k := zset_entry (rw_ms w + ?ttl) ?zs)"
    by (auto simp: redis_int64_def split: if_splits)
  have ms: "rw_ms w = gate_ms w" by (simp add: rw_ms_def gate_ms_def gate_clock_def)
  have "(c, ?now + ?ttl) \<in> set ?zs" by (rule offered_member) (use pos in simp)
  then show "seat config c (?now + ?ttl) w' s"
    using now by (auto simp: seat_def keys s(2) ms intro: occupies_zset_entry)
  fix s' assume s': "stream_kind (scope_kind s')" "seat config c x w s'" "s' \<noteq> s"
  then have "scope_key (sc_Prefix config) s' \<noteq> k" using scope_key_eq s(1,2) by metis
  then show "seat config c x w' s'"
    using s'(2) env_step_ms [OF step sane] by (auto simp: seat_def keys)
qed

lemma redis_do_set_seat:
  assumes "redis_do (cmd_set (conn_key (sc_Prefix config) i) v ms) w = (y, w')" "stream_kind (scope_kind s)"
    and "seat config c x w s" "sane_env w"
  shows "seat config c x w' s"
proof -
  let ?k = "scope_key (sc_Prefix config) s"
  have w': "w' = snd (redis_do (cmd_set (conn_key (sc_Prefix config) i) v ms) w)" using assms(1) by simp
  have "rw_keys w' ?k = rw_keys w ?k"
    using redis_do_keys [of "cmd_set (conn_key (sc_Prefix config) i) v ms" w] scope_key_conn [OF assms(2)]
    by (auto simp: cmd_set_def w')
  moreover have "gate_ms w \<le> gate_ms w'" unfolding w' by (rule env_step_ms [OF redis_do_step assms(4)])
  ultimately show ?thesis using assms(3) by (auto simp: seat_def)
qed

lemma acquire_scopes_wp:
  assumes "undisturbed config c w0 w" "\<forall>s\<in>set ss \<union> done. stream_kind (scope_kind (snd s)) \<and> scope_kind (snd s) = kind \<and> fst s \<noteq> ''''"
    and "scope_keys config acquired" "now div millisecond \<le> gate_ms w0" "ttl = sl_TTL (limits_for config kind)"
    and "\<forall>s\<in>done. seat config c (now div millisecond + ttl_ms config kind) w (snd s)"
  shows "wp (acquire_scopes (conn_key (sc_Prefix config) c) c payload ttl now (now + ttl)
      (map (\<lambda>s. (fst s, scope_key (sc_Prefix config) (snd s), redis_limit config (snd s))) ss) acquired)
    (\<lambda>name w'. undisturbed config c w0 w' \<and> (name = '''' \<longrightarrow>
        (\<forall>s\<in>set ss \<union> done. seat config c (now div millisecond + ttl_ms config kind) w' (snd s))))
    (\<lambda>e. undisturbed config c w0) w"
  using assms
proof (induction ss arbitrary: w acquired "done")
  case Nil
  let ?set = "redis_do (cmd_set (conn_key (sc_Prefix config) c) payload (max 1 (ttl div millisecond)))"
  have u: "undisturbed config c w0 w'" if "?set w = (r, w')" for r w'
    using keepsD2 [OF undisturbed_conn(2) that Nil.prems(1)] .
  have sane: "sane_env w" using Nil.prems(1) by (simp add: undisturbed_def redis_ok_def)
  show ?case
    unfolding list.map acquire_scopes.simps
  proof (rule wp_bindE, rule wp_tryE, rule wpI, goal_cases)
    case (1 x w')
    have "\<forall>s\<in>done. seat config c (now div millisecond + ttl_ms config kind) w' (snd s)"
      using redis_do_set_seat [OF 1 _ _ sane] Nil.prems(2,6) by blast
    with u [OF 1] show ?case by (simp add: wp_def)
  next
    case (2 e w')
    from wp_fail_after_cleanup [OF Nil.prems(3) u [OF 2]] show ?case by simp
  qed
next
  case (Cons s ss)
  let ?k = "scope_key (sc_Prefix config) (snd s)"
  let ?scope = "acquire_redis_scope ?k (redis_limit config (snd s)) c ttl now (now + ttl)"
  have "stream_kind (scope_kind (snd s)) \<and> scope_kind (snd s) = kind \<and> fst s \<noteq> ''''"
    by (rule bspec [OF Cons.prems(2)]) simp
  then have s: "stream_kind (scope_kind (snd s))" "scope_kind (snd s) = kind" "fst s \<noteq> ''''" by blast+
  have ok: "whole_ttls config" "sane_env w" "env_step w0 w"
    using Cons.prems(1) by (simp_all add: undisturbed_def redis_ok_def)
  have ttl: "ttl = sl_TTL (limits_for config (scope_kind (snd s)))" using s(2) Cons.prems(5) by simp
  have now: "now div millisecond \<le> gate_ms w"
    using Cons.prems(4) env_step_ms [OF ok(3)] env_step_sane [OF ok(3)] ok(2) by simp
  have u: "undisturbed config c w0 w'" if "?scope w = (r, w')" for r w'
    using keepsD2 [OF keeps_acquire_redis_scope [OF s(1) refl ok(1) Cons.prems(4) ttl] that Cons.prems(1)] .
  show ?case
    unfolding list.map acquire_scopes.simps
  proof (rule wp_bindE, rule wp_tryE, rule wpI, goal_cases)
    case (1 accepted w')
    show ?case
    proof (cases accepted)
      case False
      show ?thesis
        unfolding sum.case if_P [OF False]
        by (rule wp_bindE, rule wp_keeps [OF undisturbed_cleanup [OF Cons.prems(3)] u [OF 1]])
          (auto simp: s(3) intro: wp_throw wp_ret split: option.split)
    next
      case True
      have run: "?scope w = (Inr True, w')" using 1 True by simp
      note seats = acquire_redis_scope_seat [OF run s(1) refl ok(1) now ttl ok(2)]
      have "\<forall>s'\<in>insert s done. seat config c (now div millisecond + ttl_ms config kind) w' (snd s')"
      proof
        fix s' assume s': "s' \<in> insert s done"
        show "seat config c (now div millisecond + ttl_ms config kind) w' (snd s')"
        proof (cases "snd s' = snd s")
          case True
          show ?thesis using seats(1) unfolding True s(2) .
        next
          case False
          then have d: "s' \<in> done" using s' by auto
          have "stream_kind (scope_kind (snd s'))" using bspec [OF Cons.prems(2), of s'] d by blast
          from seats(2) [OF this bspec [OF Cons.prems(6) d] False] show ?thesis .
        qed
      qed
      moreover have "scope_keys config (acquired @ [?k])" using Cons.prems(3) s(1) by (auto simp: scope_keys_def)
      moreover have "\<forall>s'\<in>set ss \<union> insert s done. stream_kind (scope_kind (snd s')) \<and> scope_kind (snd s') = kind \<and> fst s' \<noteq> ''''"
      proof
        fix s' assume "s' \<in> set ss \<union> insert s done"
        then have "s' \<in> set (s # ss) \<union> done" by auto
        then show "stream_kind (scope_kind (snd s')) \<and> scope_kind (snd s') = kind \<and> fst s' \<noteq> ''''"
          by (rule bspec [OF Cons.prems(2)])
      qed
      ultimately have "wp (acquire_scopes (conn_key (sc_Prefix config) c) c payload ttl now (now + ttl)
          (map (\<lambda>s. (fst s, scope_key (sc_Prefix config) (snd s), redis_limit config (snd s))) ss) (acquired @ [?k]))
        (\<lambda>name w'. undisturbed config c w0 w' \<and> (name = '''' \<longrightarrow>
            (\<forall>s'\<in>set ss \<union> insert s done. seat config c (now div millisecond + ttl_ms config kind) w' (snd s'))))
        (\<lambda>e. undisturbed config c w0) w'"
        by (intro Cons.IH [OF u [OF 1] _ _ Cons.prems(4,5)])
      then show ?thesis using True by simp
    qed
  next
    case (2 e w')
    from wp_fail_after_cleanup [OF Cons.prems(3) u [OF 2]] show ?case by simp
  qed
qed

section \<open>The Redis store keeps the contract\<close>

definition named_scopes :: "stream_lib \<Rightarrow> acquire_request \<Rightarrow> (string \<times> stream_scope) list" where
  "named_scopes lib r = zip [''user'', ''tenant'', ''ip'', ''global''] (request_scopes lib r)"

lemma acquire_redis_eq:
  assumes "stream_kind (ar_Kind r)"
  shows "acquire_redis lib config r (limits_for config (ar_Kind r)) c payload now expiresAt =
    acquire_scopes (conn_key (sc_Prefix config) c) c payload (sl_TTL (limits_for config (ar_Kind r))) now expiresAt
      (map (\<lambda>s. (fst s, scope_key (sc_Prefix config) (snd s), redis_limit config (snd s))) (named_scopes lib r)) []"
proof -
  have "scope_limits (limits_for config (ar_Kind r)) (stream_keys lib config r c) =
    map (\<lambda>s. (fst s, scope_key (sc_Prefix config) (snd s), redis_limit config (snd s))) (named_scopes lib r)"
    using stream_kind_key_part [OF assms]
    by (simp add: scope_limits_def stream_keys_def request_scopes_def named_scopes_def Let_def nth_Cons')
  moreover have "stream_keys lib config r c ! 0 = conn_key (sc_Prefix config) c" by (simp add: stream_keys_def)
  ultimately show ?thesis unfolding acquire_redis_def Let_def by (simp only:)
qed

lemma named_scopes_kind:
  assumes "stream_kind (ar_Kind r)" "s \<in> set (named_scopes lib r)"
  shows "stream_kind (scope_kind (snd s)) \<and> scope_kind (snd s) = ar_Kind r \<and> fst s \<noteq> ''''"
  using assms stream_kind_key_part [OF assms(1)] by (auto simp: named_scopes_def request_scopes_def Let_def)

lemma named_scopes_set: "snd ` set (named_scopes lib r) = set (request_scopes lib r)"
  by (simp add: named_scopes_def request_scopes_def Let_def)

lemma keeps_release_redis:
  assumes "stream_kind (ar_Kind r)"
  shows "keeps (undisturbed config c w0) (release_redis lib config r c payload)"
proof -
  have keys: "stream_keys lib config r c ! 0 = conn_key (sc_Prefix config) c"
    "tl (stream_keys lib config r c) = map (scope_key (sc_Prefix config)) (request_scopes lib r)"
    by (simp_all add: stream_keys_def)
  have "keeps (undisturbed config c w0) (redis_do (cmd_zrem k c))"
    if k: "k \<in> set (map (scope_key (sc_Prefix config)) (request_scopes lib r))" for k
  proof (rule undisturbed_zrem)
    obtain s where "s \<in> set (request_scopes lib r)" "k = scope_key (sc_Prefix config) s" using k by auto
    then show "\<exists>s. stream_kind (scope_kind s) \<and> k = scope_key (sc_Prefix config) s"
      using request_scope_kind [OF assms, of s lib] assms by (intro exI [of _ s]) simp
  qed
  then have "keeps (undisturbed config c w0) (collect_errors (redis_do (cmd_del (conn_key (sc_Prefix config) c))
      # map (\<lambda>k. redis_do (cmd_zrem k c)) (map (scope_key (sc_Prefix config)) (request_scopes lib r))))"
    by (intro keeps_collect_errors) (auto intro: undisturbed_conn)
  then show ?thesis
    unfolding release_redis_def Let_def keys by (intro keeps_intros undisturbed_conn)
qed

abbreviation redis_limiter :: "stream_config \<Rightarrow> stream_limiter" where
  "redis_limiter config \<equiv> \<lparr>lm_config = config, lm_redis = True\<rparr>"

definition redis_genuine :: "stream_lease \<Rightarrow> bool" where
  "redis_genuine l \<longleftrightarrow> (\<exists>r payload. le_release l = RedisRelease r (le_ID l) payload \<and> stream_kind (ar_Kind r))"

definition redis_valid :: "acquire_request \<Rightarrow> bool" where
  "redis_valid r \<longleftrightarrow> stream_kind (ar_Kind r)"

definition deadline_ms :: "stream_lease \<Rightarrow> int" where
  "deadline_ms l = le_ExpiresAt l div millisecond"

definition redis_slot :: "stream_config \<Rightarrow> gate_world \<Rightarrow> stream_scope \<Rightarrow> int \<Rightarrow> string set" where
  "redis_slot config w s t = (if stream_kind (scope_kind s)
     then {c. occupies (rw_keys w (scope_key (sc_Prefix config) s)) t c} else {})"

text \<open>An acquisition through Redis: whom it disturbs, and what a lease it grants comes with.\<close>

lemma redis_stream_acquire:
  assumes "redis_ok config w" "redis_valid r" "stream_acquire lib (Some (redis_limiter config)) r w = (x, w')"
  shows "redis_ok config w' \<and> env_step w w'"
    and "\<And>s c t. c \<in> issued w \<Longrightarrow> gate_ms w' \<le> t \<Longrightarrow> c \<in> redis_slot config w s t \<Longrightarrow> c \<in> redis_slot config w' s t"
    and "\<And>l. x = Inr l \<Longrightarrow> le_ID l \<notin> issued w \<and> le_ID l \<in> issued w' \<and> redis_genuine l \<and>
      (\<forall>s\<in>set (request_scopes lib r). seat config (le_ID l) (deadline_ms l) w' s)"
proof -
  let ?limits = "limits_for config (ar_Kind r)"
  have ok: "sane_env w" "sc_Enabled config" "whole_ttls config" using assms(1) by (simp_all add: redis_ok_def)
  have kind: "stream_kind (ar_Kind r)" using assms(2) by (simp add: redis_valid_def)
  then have ttl: "0 < ttl_ms config (ar_Kind r)" "sl_TTL ?limits = ttl_ms config (ar_Kind r) * millisecond"
    using ok(3) by (simp_all add: whole_ttls_def)
  then have pos: "\<not> sl_TTL ?limits \<le> 0" by (simp add: millisecond_def)
  have ticked: "redis_ok config v \<and> env_step w v" if "v = rw_tick w \<or> v = rw_tick (rw_tick w)" for v
  proof -
    have step: "env_step w v" using that by (auto simp: env_step_def rw_tick_def)
    moreover have "rw_keys v = rw_keys w" using that by auto
    ultimately show ?thesis
      using assms(1) env_step_sane [OF step] good_space_later [OF _ env_step_ms [OF step ok(1)]]
      by (auto simp: redis_ok_def)
  qed
  have same: "rw_keys (rw_tick w) = rw_keys w" "rw_keys (rw_tick (rw_tick w)) = rw_keys w" by simp_all
  have "(redis_ok config w' \<and> env_step w w') \<and>
    (\<forall>s c t. c \<in> issued w \<longrightarrow> gate_ms w' \<le> t \<longrightarrow> c \<in> redis_slot config w s t \<longrightarrow> c \<in> redis_slot config w' s t) \<and>
    (\<forall>l. x = Inr l \<longrightarrow> le_ID l \<notin> issued w \<and> le_ID l \<in> issued w' \<and> redis_genuine l \<and>
      (\<forall>s\<in>set (request_scopes lib r). seat config (le_ID l) (deadline_ms l) w' s))"
  proof (cases "gw_rand w (rw_calls w)")
    case (Inl e)
    then have "x = Inl e" "w' = rw_tick w"
      using assms(3) ok(2) pos by (simp_all add: stream_acquire_def Let_def bindE_def random_id_def)
    then show ?thesis using ticked [of w'] by (simp add: redis_slot_def)
  next
    case (Inr c)
    let ?w0 = "rw_tick (rw_tick w)" and ?now = "rw_now w (Suc (rw_calls w))" and ?ttl = "sl_TTL ?limits"
    let ?payload = "lease_payload lib r c ?now (?now + ?ttl)"
    obtain y w1 where acq: "acquire_redis lib config r ?limits c ?payload ?now (?now + ?ttl) ?w0 = (y, w1)" by fastforce
    have run: "x = (case y of Inl e \<Rightarrow> Inl e | Inr scope \<Rightarrow> if scope \<noteq> '''' then Inl (limit_error scope)
        else Inr \<lparr>le_ID = c, le_Kind = ar_Kind r, le_ExpiresAt = ?now + ?ttl, le_release = RedisRelease r c ?payload\<rparr>)" "w' = w1"
      using assms(3) ok(2) pos Inr acq
      by (auto simp: stream_acquire_def Let_def bindE_def random_id_def time_now_def split: sum.splits if_splits)
    have w0: "redis_ok config ?w0" "env_step w ?w0" using ticked [of ?w0] by simp_all
    have "?now \<le> gate_clock ?w0" using ok(1) by (simp add: gate_clock_def sane_env_def rw_tick_def)
    then have now: "?now div millisecond \<le> gate_ms ?w0" unfolding gate_ms_def by (rule zdiv_mono1) (simp add: millisecond_def)
    have scopes: "\<forall>s\<in>set (named_scopes lib r) \<union> {}. stream_kind (scope_kind (snd s)) \<and> scope_kind (snd s) = ar_Kind r \<and> fst s \<noteq> ''''"
      using named_scopes_kind [OF kind] by blast
    have none: "scope_keys config []" by (simp add: scope_keys_def)
    note wp = acquire_scopes_wp [OF undisturbed_start [OF w0(1)] scopes none now refl, of c, simplified]
    have post: "undisturbed config c ?w0 w1 \<and> (y = Inr '''' \<longrightarrow>
        (\<forall>s\<in>set (named_scopes lib r). seat config c (?now div millisecond + ttl_ms config (ar_Kind r)) w1 (snd s)))"
      using wpD [OF wp acq [unfolded acquire_redis_eq [OF kind]]] by (auto split: sum.splits)
    then have step: "env_step w w1" using env_step_trans [OF w0(2)] by (auto simp: undisturbed_def)
    have seats: "\<forall>s\<in>set (request_scopes lib r). seat config c (?now div millisecond + ttl_ms config (ar_Kind r)) w1 s"
      if "y = Inr ''''" using post that by (simp add: named_scopes_set [symmetric])
    have fresh: "c \<notin> issued w" by (rule fresh_id [OF ok(1) Inr])
    have "rw_calls ?w0 \<le> rw_calls w1" using post by (auto simp: undisturbed_def env_step_def)
    then have "c \<in> issued w1" using id_issued [OF step _ Inr] by simp
    moreover have "(?now + ?ttl) div millisecond = ?now div millisecond + ttl_ms config (ar_Kind r)"
      using ttl(2) by (simp add: millisecond_def)
    moreover have "redis_ok config w1" using post by (simp add: undisturbed_def)
    moreover have "c' \<in> redis_slot config w1 s t" if "c' \<in> issued w" "gate_ms w1 \<le> t" "c' \<in> redis_slot config w s t" for c' s t
    proof -
      have k: "stream_kind (scope_kind s)" "occupies (rw_keys ?w0 (scope_key (sc_Prefix config) s)) t c'"
        using that(3) unfolding redis_slot_def same(2) by (simp_all split: if_splits)
      moreover have "c' \<noteq> c" using that(1) fresh by auto
      ultimately have "occupies (rw_keys w1 (scope_key (sc_Prefix config) s)) t c'"
        using post that(2) unfolding undisturbed_def by blast
      then show ?thesis using k(1) by (simp add: redis_slot_def)
    qed
    ultimately show ?thesis
      using step fresh seats kind unfolding run
      by (auto simp: redis_genuine_def deadline_ms_def split: sum.splits if_splits)
  qed
  then show "redis_ok config w' \<and> env_step w w'"
    and "\<And>s c t. c \<in> issued w \<Longrightarrow> gate_ms w' \<le> t \<Longrightarrow> c \<in> redis_slot config w s t \<Longrightarrow> c \<in> redis_slot config w' s t"
    and "\<And>l. x = Inr l \<Longrightarrow> le_ID l \<notin> issued w \<and> le_ID l \<in> issued w' \<and> redis_genuine l \<and>
      (\<forall>s\<in>set (request_scopes lib r). seat config (le_ID l) (deadline_ms l) w' s)"
    by blast+
qed

lemma redis_slot_bounded:
  assumes "redis_ok config w" "0 < known_limit config s"
  shows "finite (redis_slot config w s t) \<and> int (card (redis_slot config w s t)) \<le> known_limit config s"
proof -
  let ?e = "rw_keys w (scope_key (sc_Prefix config) s)"
  have kind: "stream_kind (scope_kind s)" and lim: "known_limit config s = redis_limit config s"
    using assms(2) by (simp_all add: known_limit_def split: if_splits)
  then have ok: "entry_ok (redis_limit config s) (gate_ms w + ttl_ms config (scope_kind s)) ?e"
    using assms(1) by (simp add: redis_ok_def good_space_def)
  show ?thesis
  proof (cases "\<exists>e zs. ?e = Some e \<and> ent_value e = RZset zs")
    case True
    then obtain e zs where e: "?e = Some e" "ent_value e = RZset zs" by auto
    have sub: "redis_slot config w s t \<subseteq> fst ` set zs"
      using e by (auto simp: redis_slot_def occupies_def rev_image_eqI split: if_splits)
    have "card (redis_slot config w s t) \<le> length zs"
      using card_mono [OF _ sub] card_image_le [of "set zs" fst] card_length [of zs] by simp
    moreover have "int (length zs) \<le> redis_limit config s"
      using ok e assms(2) lim by (simp add: entry_ok_def)
    ultimately show ?thesis using finite_subset [OF sub] lim by simp
  next
    case False
    then have "redis_slot config w s t = {}"
      by (auto simp: redis_slot_def occupies_def split: option.splits redis_value.splits)
    then show ?thesis using assms(2) by simp
  qed
qed

lemma release_undisturbed:
  assumes "redis_ok config w" "redis_genuine l" "stream_release lib (redis_limiter config) l w = (y, w')"
  shows "undisturbed config (le_ID l) w w'"
proof -
  obtain r payload where l: "le_release l = RedisRelease r (le_ID l) payload" "stream_kind (ar_Kind r)"
    using assms(2) by (auto simp: redis_genuine_def)
  then have "release_redis lib config r (le_ID l) payload w = (y, w')"
    using assms(3) by (simp add: stream_release_def)
  then show ?thesis using keepsD2 [OF keeps_release_redis [OF l(2)] _ undisturbed_start [OF assms(1)]] by blast
qed

interpretation redis_gate: connection_gate "redis_ok config" gate_ms "redis_slot config" "known_limit config" issued
  redis_valid "\<lambda>r. set (request_scopes lib r)" redis_genuine deadline_ms
  "stream_acquire lib (Some (redis_limiter config))" "stream_release lib (redis_limiter config)"
  for lib :: stream_lib and config :: stream_config
proof
  fix w s t assume "redis_ok config w" "0 < known_limit config s" "gate_ms w \<le> t"
  then show "finite (redis_slot config w s t) \<and> int (card (redis_slot config w s t)) \<le> known_limit config s"
    using redis_slot_bounded by blast
next
  fix w r x w'
  assume a: "redis_ok config w" "redis_valid r" "stream_acquire lib (Some (redis_limiter config)) r w = (x, w')"
  from redis_stream_acquire(1) [OF a] a(1)
  show "redis_ok config w' \<and> gate_ms w \<le> gate_ms w' \<and> issued w \<subseteq> issued w'"
    using env_step_ms env_step_issued by (auto simp: redis_ok_def)
next
  fix w r l w'
  assume a: "redis_ok config w" "redis_valid r" "stream_acquire lib (Some (redis_limiter config)) r w = (Inr l, w')"
  note g = redis_stream_acquire(3) [OF a refl]
  then show "le_ID l \<notin> issued w \<and> le_ID l \<in> issued w' \<and> redis_genuine l" by blast
  fix s t assume s: "s \<in> set (request_scopes lib r)" "gate_ms w' \<le> t" "t < deadline_ms l"
  have "stream_kind (scope_kind s)"
    using request_scope_kind [OF _ s(1)] a(2) by (simp add: redis_valid_def)
  then show "le_ID l \<in> redis_slot config w' s t" using g s by (auto simp: redis_slot_def seat_def)
next
  fix w r x w' c s t
  assume "redis_ok config w" "redis_valid r" "stream_acquire lib (Some (redis_limiter config)) r w = (x, w')"
    and "c \<in> issued w" "gate_ms w' \<le> t" "c \<in> redis_slot config w s t"
  then show "c \<in> redis_slot config w' s t" by (rule redis_stream_acquire(2))
next
  fix w l y w'
  assume a: "redis_ok config w" "redis_genuine l" "stream_release lib (redis_limiter config) l w = (y, w')"
  note u = release_undisturbed [OF a]
  have step: "env_step w w'" using u by (simp add: undisturbed_def)
  have "sane_env w" using a(1) by (simp add: redis_ok_def)
  with u step show "redis_ok config w' \<and> gate_ms w \<le> gate_ms w' \<and> issued w \<subseteq> issued w'"
    using env_step_ms env_step_issued by (simp add: undisturbed_def)
  fix c s t assume "c \<noteq> le_ID l" "gate_ms w' \<le> t" "c \<in> redis_slot config w s t"
  then show "c \<in> redis_slot config w' s t"
    using u by (auto simp: undisturbed_def redis_slot_def split: if_splits)
qed

section \<open>Properties\<close>

text \<open>
  C3: The streams that hold a lease never outnumber a limit of the Redis gate: however a process
  acquires and releases, and whichever Redis calls fail before or after the server executes them,
  at any time the leases of one scope (user, tenant, address or all, by kind) that have not reached
  their deadline are at most the limit of the scope, provided that there is one clock, that random
  ids do not repeat, and that the times to live are whole milliseconds.
\<close>

theorem redis_leases_bounded:
  assumes "sane_env w0" "rw_keys w0 = (\<lambda>_. None)" "sc_Enabled config" "whole_ttls config"
    and "\<forall>r. GateAcquire r \<in> set ops \<longrightarrow> stream_kind (ar_Kind r)"
    and "gate_run (stream_acquire lib (Some (redis_limiter config))) (stream_release lib (redis_limiter config)) ops w0
      = (w, held)"
    and "stream_kind (scope_kind s)" "0 < redis_limit config s" "gate_ms w \<le> t"
  shows "int (length (filter (\<lambda>(r, l). s \<in> set (request_scopes lib r) \<and> t < deadline_ms l) held)) \<le> redis_limit config s"
proof -
  have ok: "redis_ok config w0"
    using assms(1-4) by (simp add: redis_ok_def good_space_def entry_ok_def)
  have valid: "\<forall>r. GateAcquire r \<in> set ops \<longrightarrow> redis_valid r" using assms(5) by (simp add: redis_valid_def)
  have known: "0 < known_limit config s" using assms(7,8) by (simp add: known_limit_def)
  from redis_gate.held_bounded [OF ok valid assms(6) known assms(9)] assms(7)
  show ?thesis by (simp add: known_limit_def)
qed

definition sample_stream_config :: stream_config where
  "sample_stream_config = (let l = \<lparr>sl_User = 1, sl_Tenant = 2, sl_IP = 2, sl_Global = 3, sl_TTL = minute\<rparr> in
     \<lparr>sc_Enabled = True, sc_Prefix = ''mpp:stream'', sc_AI = l, sc_Browser = l\<rparr>)"

definition sample_request :: acquire_request where
  "sample_request = \<lparr>ar_Kind = ''ai'', ar_UserID = 7, ar_TenantID = ''acme'', ar_IP = '''', ar_Resource = ''draft''\<rparr>"

definition sample_lib :: stream_lib where
  "sample_lib = \<lparr>st_ulow = id, st_sha256 = id, st_format = (\<lambda>_. ''t''), st_json = (\<lambda>_. ''{}'')\<rparr>"

definition sample_gate :: "(nat \<Rightarrow> redis_fault option) \<Rightarrow> gate_world" where
  "sample_gate faults = \<lparr>rw_keys = (\<lambda>_. None), rw_calls = 0, rw_fault = faults, rw_now = (\<lambda>_. 5 * second),
     gw_rand = (\<lambda>i. Inr (replicate i CHR ''a'')), gw_conns = []\<rparr>"

lemma sample_gate_sane: "sane_env (sample_gate faults)"
  by (auto simp: sane_env_def sample_gate_def dest: arg_cong [where f = length])

lemma sample_ttls: "whole_ttls sample_stream_config"
  by (simp add: whole_ttls_def ttl_ms_def limits_for_def sample_stream_config_def Let_def go_consts)

lemma sample_known: "stream_kind (ar_Kind sample_request)" "sc_Enabled sample_stream_config"
  "redis_limit sample_stream_config (ScopeUser ''ai'' x) = 1"
  by (simp_all add: sample_request_def sample_stream_config_def stream_kind_def limits_for_def Let_def)

theorem redis_leases_bounded_witness:
  defines "ops \<equiv> [GateAcquire sample_request, GateAcquire sample_request, GateRelease 0, GateAcquire sample_request]"
  defines "run \<equiv> gate_run (stream_acquire sample_lib (Some (redis_limiter sample_stream_config)))
      (stream_release sample_lib (redis_limiter sample_stream_config)) ops (sample_gate (\<lambda>i. if i = 9 then Some (ReplyLost ErrDeadlineExceeded) else None))"
  shows "int (length (filter (\<lambda>(r, l). ScopeUser ''ai'' (stream_key_part sample_lib (uuid_text 7)) \<in> set (request_scopes sample_lib r) \<and> gate_ms (fst run) < deadline_ms l)
    (snd run))) \<le> 1"
proof -
  have "gate_run (stream_acquire sample_lib (Some (redis_limiter sample_stream_config)))
      (stream_release sample_lib (redis_limiter sample_stream_config)) ops
      (sample_gate (\<lambda>i. if i = 9 then Some (ReplyLost ErrDeadlineExceeded) else None)) = (fst run, snd run)"
    by (simp add: run_def)
  from redis_leases_bounded [OF sample_gate_sane _ sample_known(2) sample_ttls _ this, of "ScopeUser ''ai'' (stream_key_part sample_lib (uuid_text 7))" "gate_ms (fst run)"]
  show ?thesis using sample_known by (auto simp: ops_def sample_gate_def stream_kind_def)
qed

text \<open>
  The same of the gate without Redis: the leases of one scope of the process that have not
  expired are at most the limit of the scope.
\<close>

theorem memory_leases_bounded:
  assumes "sane_env w0" "gw_conns w0 = []" "sc_Enabled config"
    and "\<forall>r. GateAcquire r \<in> set ops \<longrightarrow> 0 < sl_TTL (limits_for config (ar_Kind r))"
    and "gate_run (stream_acquire lib (Some (memory_limiter config))) (stream_release lib (memory_limiter config)) ops w0
      = (w, held)"
    and "0 < memory_limit config k" "gate_clock w \<le> t"
  shows "int (length (filter (\<lambda>(r, l). k \<in> memory_scopes lib r \<and> t < le_ExpiresAt l) held)) \<le> memory_limit config k"
proof -
  have "memory_ok config w0" using assms(1-3) by (simp add: memory_ok_def count_rows_def)
  moreover have "\<forall>r. GateAcquire r \<in> set ops \<longrightarrow> stream_valid config r" using assms(4) by (simp add: stream_valid_def)
  ultimately show ?thesis by (rule memory_gate.held_bounded [OF _ _ assms(5,6,7)])
qed

theorem memory_leases_bounded_witness:
  defines "ops \<equiv> [GateAcquire sample_request, GateAcquire sample_request]"
  defines "run \<equiv> gate_run (stream_acquire sample_lib (Some (memory_limiter sample_stream_config)))
      (stream_release sample_lib (memory_limiter sample_stream_config)) ops (sample_gate (\<lambda>_. None))"
  shows "int (length (filter (\<lambda>(r, l). MemUser ''ai'' 7 \<in> memory_scopes sample_lib r \<and> gate_clock (fst run) < le_ExpiresAt l)
    (snd run))) \<le> 1"
proof -
  have "gate_run (stream_acquire sample_lib (Some (memory_limiter sample_stream_config)))
      (stream_release sample_lib (memory_limiter sample_stream_config)) ops (sample_gate (\<lambda>_. None)) = (fst run, snd run)"
    by (simp add: run_def)
  from memory_leases_bounded [OF sample_gate_sane _ sample_known(2) _ this, of "MemUser ''ai'' 7" "gate_clock (fst run)"]
  show ?thesis
    by (auto simp: ops_def sample_gate_def sample_request_def sample_stream_config_def limits_for_def Let_def go_consts)
qed

text \<open>
  A slot leaks when the reply of a scope's script is lost. The server has entered the connection
  into the sorted set, the caller gets an error and no lease; but the scope is not yet among those
  to clean up, so the connection stays in the set and counts against the user's limit until the
  deadline of the lease that was never granted.
\<close>

theorem lost_reply_leaks_slot:
  assumes "sane_env w" "rw_keys w = (\<lambda>_. None)" "sc_Enabled config" "whole_ttls config" "stream_kind (ar_Kind r)"
    and "gw_rand w (rw_calls w) = Inr c"
    and "rw_fault w = (\<lambda>i. if i = rw_calls w + 2 then Some (ReplyLost e) else None)"
    and "stream_acquire lib (Some (redis_limiter config)) r w = (x, w')"
    and "t < rw_now w (rw_calls w + 1) div millisecond + ttl_ms config (ar_Kind r)"
  shows "x = Inl (ErrBoth ErrStreamLimiterUnavailable e) \<and> c \<in> redis_slot config w' (hd (request_scopes lib r)) t"
proof -
  let ?limits = "limits_for config (ar_Kind r)" and ?n = "rw_calls w"
  let ?s = "hd (request_scopes lib r)"
  let ?k = "scope_key (sc_Prefix config) ?s" and ?ck = "conn_key (sc_Prefix config) c"
  have ttl: "0 < ttl_ms config (ar_Kind r)" "sl_TTL ?limits = ttl_ms config (ar_Kind r) * millisecond"
    using assms(4,5) by (simp_all add: whole_ttls_def)
  then have pos: "\<not> sl_TTL ?limits \<le> 0" by (simp add: millisecond_def)
  have kind: "stream_kind (scope_kind ?s)" using request_scope_kind [OF assms(5), of ?s] assms(5)
    by (simp add: request_scopes_def Let_def stream_kind_key_part)
  define now where "now = rw_now w (Suc ?n)"
  define deadline where "deadline = (now + sl_TTL ?limits) div millisecond"
  have deadline: "deadline = now div millisecond + ttl_ms config (ar_Kind r)"
    using ttl(2) by (simp add: deadline_def millisecond_def)
  have lim: "ttl_ms config (ar_Kind r) = sl_TTL ?limits div millisecond" by (simp add: ttl_ms_def)
  let ?ms = "rw_now w (Suc (Suc ?n)) div millisecond"
  have ms: "now div millisecond \<le> ?ms"
    unfolding now_def by (rule zdiv_mono1) (use assms(1) in \<open>simp_all add: sane_env_def millisecond_def\<close>)
  have script: "acquire_scope_script ?k (now div millisecond) deadline (ttl_ms config (ar_Kind r)) c l ?ms (\<lambda>_. None)
      = (Inr (AnyInt 1), (\<lambda>_. None)(?k := zset_entry (?ms + ttl_ms config (ar_Kind r)) [(c, deadline)]))" for l
    using ttl(1) deadline
    by (subst acquire_scope_script_effect)
      (auto simp: offered_def live_entry_def members_of_def zset_put_def zset_above_def refuses_def)
  have run: "x = Inl (ErrBoth ErrStreamLimiterUnavailable e)"
    "rw_keys w' = ((\<lambda>_. None)(?k := zset_entry (?ms + ttl_ms config (ar_Kind r)) [(c, deadline)]))(?ck := None)"
    using assms(2,3,6-8) pos script
    by (auto simp: stream_acquire_def Let_def bindE_def random_id_def time_now_def acquire_redis_def
        scope_limits_def stream_keys_def tryE_def acquire_redis_scope_def redis_do_def rw_ms_def rw_tick_def
        now_def [symmetric] deadline_def [symmetric] lim [symmetric]
        fail_after_cleanup_def cleanup_partial_redis_acquire_def cleanup_redis_acquire_def ret_def throw_def cmd_del_def
        request_scopes_def)
  have "?k \<noteq> ?ck" by (rule scope_key_conn [OF kind])
  then have "rw_keys w' ?k = zset_entry (?ms + ttl_ms config (ar_Kind r)) [(c, deadline)]" by (simp add: run(2))
  moreover have "t < deadline" "t < ?ms + ttl_ms config (ar_Kind r)"
    using assms(9) ms by (simp_all add: deadline now_def)
  ultimately show ?thesis
    using run(1) kind occupies_zset_entry [of c deadline] by (simp add: redis_slot_def)
qed

theorem lost_reply_leaks_slot_witness:
  "\<exists>w'. stream_acquire sample_lib (Some (redis_limiter sample_stream_config)) sample_request
      (sample_gate (\<lambda>i. if i = 2 then Some (ReplyLost ErrDeadlineExceeded) else None))
    = (Inl (ErrBoth ErrStreamLimiterUnavailable ErrDeadlineExceeded), w') \<and>
    [] \<in> redis_slot sample_stream_config w' (hd (request_scopes sample_lib sample_request)) 5000"
proof -
  let ?w = "sample_gate (\<lambda>i. if i = 2 then Some (ReplyLost ErrDeadlineExceeded) else None)"
  obtain x w' where run: "stream_acquire sample_lib (Some (redis_limiter sample_stream_config)) sample_request ?w = (x, w')"
    by fastforce
  have t: "(5000::int) < rw_now ?w (rw_calls ?w + 1) div millisecond + ttl_ms sample_stream_config (ar_Kind sample_request)"
    by (simp add: sample_gate_def ttl_ms_def sample_request_def sample_stream_config_def limits_for_def Let_def go_consts)
  have "x = Inl (ErrBoth ErrStreamLimiterUnavailable ErrDeadlineExceeded) \<and>
      [] \<in> redis_slot sample_stream_config w' (hd (request_scopes sample_lib sample_request)) 5000"
    by (rule lost_reply_leaks_slot [OF sample_gate_sane _ sample_known(2) sample_ttls sample_known(1) _ _ run t])
      (simp_all add: sample_gate_def numeral_2_eq_2)
  with run show ?thesis by simp
qed

end
