(* ===== verification/Access_Policy.thy ===== *)
theory Access_Policy
  imports Database
begin

text \<open>
  Package \<open>services/accesspolicy\<close>: the permissions of a workspace role, the role of a user in a
  workspace and in a project, and who may publish a project. Below the code stand pure functions
  on the tables that say what each check decides (\<open>workspace_role_of\<close>, \<open>project_access_of\<close>,
  \<open>may_publish\<close>), and the lemmas that the code computes exactly these when no call fails, and
  grants nothing beyond them when calls do fail.
\<close>

section \<open>Permissions of a workspace role\<close>

datatype permission =
    PermissionManageBilling
  | PermissionManageMembers
  | PermissionAccountConnect
  | PermissionAccountManage
  | PermissionAccountUse
  | PermissionProjectCreate
  | PermissionProjectEdit
  | PermissionProjectReview
  | PermissionPublishApprove
  | PermissionPublishPublish
  | PermissionPublishSchedule

definition role_permissions :: "string \<rightharpoonup> permission list" where
  "role_permissions = [
     WorkspaceRoleOwner \<mapsto> [PermissionManageBilling, PermissionManageMembers, PermissionAccountConnect,
       PermissionAccountManage, PermissionAccountUse, PermissionProjectCreate,
       PermissionProjectEdit, PermissionProjectReview, PermissionPublishApprove,
       PermissionPublishPublish, PermissionPublishSchedule],
     WorkspaceRoleAdmin \<mapsto> [PermissionManageMembers, PermissionAccountConnect, PermissionAccountManage,
       PermissionAccountUse, PermissionProjectCreate, PermissionProjectEdit,
       PermissionProjectReview, PermissionPublishApprove, PermissionPublishPublish,
       PermissionPublishSchedule],
     WorkspaceRoleMember \<mapsto> [PermissionAccountUse, PermissionProjectCreate, PermissionProjectEdit,
       PermissionProjectReview, PermissionPublishPublish, PermissionPublishSchedule],
     WorkspaceRoleViewer \<mapsto> [PermissionProjectReview]]"

definition role_has_permission :: "string \<Rightarrow> permission \<Rightarrow> bool" where
  "role_has_permission role p =
     (case role_permissions role of None \<Rightarrow> False | Some permissions \<Rightarrow> p \<in> set permissions)"

section \<open>Roles of a user\<close>

definition find_workspace :: "uuid \<Rightarrow> db \<Rightarrow> workspace option" where
  "find_workspace wid d = find (\<lambda>w. ws_ID w = wid \<and> \<not> ws_Deleted w) (workspaces d)"

definition find_member :: "uuid \<Rightarrow> uuid \<Rightarrow> db \<Rightarrow> workspace_member option" where
  "find_member wid uid d = find (\<lambda>m. mem_WorkspaceID m = wid \<and> mem_UserID m = uid) (members d)"

definition find_collaborator :: "uuid \<Rightarrow> uuid \<Rightarrow> db \<Rightarrow> project_collaborator option" where
  "find_collaborator pid uid d =
     find (\<lambda>c. collab_ProjectID c = pid \<and> collab_UserID c = uid) (collaborators d)"

definition find_project :: "uuid \<Rightarrow> db \<Rightarrow> project option" where
  "find_project pid d = find (\<lambda>p. proj_ID p = pid) (projects d)"

definition workspace_access_role :: "uuid \<Rightarrow> uuid \<Rightarrow> string mpp" where
  "workspace_access_role wid uid =
     (if wid = uuid_nil \<or> uid = uuid_nil then throw ErrForbidden
      else bindE (first_row (find_workspace wid)) (\<lambda>ws.
        if ws_OwnerUserID ws = uid then ret WorkspaceRoleOwner
        else bindE (tryE (first_row (find_member wid uid))) (\<lambda>r. case r of
            Inl e \<Rightarrow> if err_is e ErrRecordNotFound then throw ErrForbidden else throw e
          | Inr m \<Rightarrow> ret (mem_Role m))))"

definition require_workspace_permission :: "uuid \<Rightarrow> uuid \<Rightarrow> permission \<Rightarrow> string mpp" where
  "require_workspace_permission wid uid p =
     bindE (workspace_access_role wid uid) (\<lambda>role.
       if \<not> role_has_permission role p then throw ErrForbidden else ret role)"

definition require_workspace_member :: "uuid \<Rightarrow> uuid \<Rightarrow> unit mpp" where
  "require_workspace_member wid uid =
     (if wid = uuid_nil \<or> uid = uuid_nil then throw ErrForbidden
      else bindE (asks (\<lambda>w. personal_workspace_id w uid)) (\<lambda>personal.
        if wid = personal then ret ()
        else bindE (workspace_access_role wid uid) (\<lambda>_. ret ())))"

definition require_workspace_member_record :: "uuid \<Rightarrow> uuid \<Rightarrow> unit mpp" where
  "require_workspace_member_record wid uid =
     (if wid = uuid_nil \<or> uid = uuid_nil then throw ErrForbidden
      else bindE (asks (\<lambda>w. personal_workspace_id w uid)) (\<lambda>personal.
        if wid = personal then ret ()
        else bindE (tryE (first_row (find_member wid uid))) (\<lambda>r. case r of
            Inl e \<Rightarrow> if err_is e ErrRecordNotFound then throw ErrForbidden else throw e
          | Inr m \<Rightarrow> ret ())))"

definition require_workspace_account_connect :: "uuid \<Rightarrow> uuid \<Rightarrow> unit mpp" where
  "require_workspace_account_connect wid uid =
     bindE (asks (\<lambda>w. personal_workspace_id w uid)) (\<lambda>personal.
       let wid = (if wid = uuid_nil then personal else wid)
       in if wid = personal then ret ()
          else bindE (require_workspace_permission wid uid PermissionAccountConnect) (\<lambda>_. ret ()))"

definition project_role_for_workspace_role :: "string \<Rightarrow> err + string" where
  "project_role_for_workspace_role role =
     (if role = WorkspaceRoleOwner \<or> role = WorkspaceRoleAdmin \<or> role = WorkspaceRoleMember
      then Inr ProjectRoleEditor
      else if role = WorkspaceRoleViewer then Inr ProjectRoleViewer
      else Inl ErrForbidden)"

definition workspace_project_role :: "uuid \<Rightarrow> uuid \<Rightarrow> string mpp" where
  "workspace_project_role wid uid =
     bindE (workspace_access_role wid uid) (\<lambda>role. liftS (project_role_for_workspace_role role))"

definition project_access_role_and_source ::
  "project \<Rightarrow> uuid \<Rightarrow> (string \<times> access_source) mpp" where
  "project_access_role_and_source p uid =
     (if uid = uuid_nil then throw ErrForbidden
      else if proj_UserID p = uid then ret (ProjectRoleOwner, ProjectAccessSourceOwner)
      else bindE (tryE (first_row (find_collaborator (proj_ID p) uid))) (\<lambda>r. case r of
          Inr c \<Rightarrow> ret (collab_Role c, ProjectAccessSourceDirectShare)
        | Inl e \<Rightarrow>
            if \<not> err_is e ErrRecordNotFound then throw e
            else (case proj_WorkspaceID p of
                Some wid \<Rightarrow>
                  if wid \<noteq> uuid_nil
                  then bindE (workspace_project_role wid uid) (\<lambda>role.
                         ret (role, ProjectAccessSourceWorkspace))
                  else throw ErrForbidden
              | None \<Rightarrow> throw ErrForbidden)))"

definition can_edit_project_role :: "string \<Rightarrow> bool" where
  "can_edit_project_role role = (role = ProjectRoleOwner \<or> role = ProjectRoleEditor)"

text \<open>
  \<open>ScopeAccessibleProjectsWithDB\<close>: the condition its query adds to a listing of projects.
\<close>

definition scope_accessible :: "db \<Rightarrow> uuid \<Rightarrow> project \<Rightarrow> bool" where
  "scope_accessible d uid p =
     (proj_UserID p = uid
      \<or> proj_ID p \<in> collab_ProjectID ` set (filter (\<lambda>c. collab_UserID c = uid) (collaborators d))
      \<or> (case proj_WorkspaceID p of
           None \<Rightarrow> False
         | Some wid \<Rightarrow>
             wid \<in> mem_WorkspaceID ` set (filter (\<lambda>m. mem_UserID m = uid) (members d))
             \<or> wid \<in> ws_ID ` set (filter (\<lambda>w. ws_OwnerUserID w = uid \<and> \<not> ws_Deleted w) (workspaces d))))"

section \<open>Who may publish\<close>

definition can_publish_project :: "project \<Rightarrow> uuid \<Rightarrow> bool mpp" where
  "can_publish_project p uid =
     bindE (tryE (first_row (find_collaborator (proj_ID p) uid))) (\<lambda>r. case r of
         Inr c \<Rightarrow> ret (collab_Role c = ProjectRoleOwner)
       | Inl e \<Rightarrow>
           if \<not> err_is e ErrRecordNotFound then throw e
           else (case proj_WorkspaceID p of
               None \<Rightarrow> ret False
             | Some wid \<Rightarrow>
                 if wid = uuid_nil then ret False
                 else bindE (tryE (workspace_access_role wid uid)) (\<lambda>r. case r of
                     Inl e \<Rightarrow> if err_is e ErrForbidden then ret False else throw e
                   | Inr role \<Rightarrow> ret (role = WorkspaceRoleOwner \<or> role = WorkspaceRoleAdmin))))"

definition project_for_publish :: "uuid \<Rightarrow> uuid \<Rightarrow> project mpp" where
  "project_for_publish pid uid =
     (if pid = uuid_nil \<or> uid = uuid_nil then throw ErrForbidden
      else bindE (tryE (first_row (find_project pid))) (\<lambda>r. case r of
          Inl e \<Rightarrow> if err_is e ErrRecordNotFound then throw ErrForbidden else throw e
        | Inr p \<Rightarrow>
            if proj_UserID p = uid then ret p
            else bindE (can_publish_project p uid) (\<lambda>ok.
              if \<not> ok then throw ErrForbidden else ret p)))"

lemmas access_defs = workspace_access_role_def require_workspace_permission_def
  require_workspace_member_def require_workspace_member_record_def
  require_workspace_account_connect_def workspace_project_role_def
  project_access_role_and_source_def can_publish_project_def project_for_publish_def

section \<open>What the checks decide, on the tables\<close>

definition workspace_role_of :: "db \<Rightarrow> uuid \<Rightarrow> uuid \<Rightarrow> string option" where
  "workspace_role_of d wid uid =
     (if wid = uuid_nil \<or> uid = uuid_nil then None
      else case find_workspace wid d of
        None \<Rightarrow> None
      | Some ws \<Rightarrow> if ws_OwnerUserID ws = uid then Some WorkspaceRoleOwner
                  else map_option mem_Role (find_member wid uid d))"

definition project_access_of :: "db \<Rightarrow> uuid \<Rightarrow> project \<Rightarrow> (string \<times> access_source) option" where
  "project_access_of d uid p =
     (if uid = uuid_nil then None
      else if proj_UserID p = uid then Some (ProjectRoleOwner, ProjectAccessSourceOwner)
      else case find_collaborator (proj_ID p) uid d of
        Some c \<Rightarrow> Some (collab_Role c, ProjectAccessSourceDirectShare)
      | None \<Rightarrow> (case proj_WorkspaceID p of
          None \<Rightarrow> None
        | Some wid \<Rightarrow> (case workspace_role_of d wid uid of
            None \<Rightarrow> None
          | Some role \<Rightarrow> (case project_role_for_workspace_role role of
              Inl _ \<Rightarrow> None | Inr r \<Rightarrow> Some (r, ProjectAccessSourceWorkspace)))))"

definition may_publish :: "db \<Rightarrow> uuid \<Rightarrow> project \<Rightarrow> bool" where
  "may_publish d uid p =
     (proj_UserID p = uid \<or>
      (case find_collaborator (proj_ID p) uid d of
         Some c \<Rightarrow> collab_Role c = ProjectRoleOwner
       | None \<Rightarrow> (case proj_WorkspaceID p of
           None \<Rightarrow> False
         | Some wid \<Rightarrow> workspace_role_of d wid uid \<in> {Some WorkspaceRoleOwner, Some WorkspaceRoleAdmin})))"

text \<open>
  A failing call reports a failure of its own, never one of the sentinels the checks look for:
  \<open>gorm\<close> returns \<open>ErrRecordNotFound\<close> only for a missing row, and knows no \<open>ErrForbidden\<close>.
\<close>

definition faults_opaque :: "world \<Rightarrow> bool" where
  "faults_opaque w \<longleftrightarrow> (\<forall>n e. env_fault (env w) n = Some e \<longrightarrow>
     \<not> err_is e ErrRecordNotFound \<and> \<not> err_is e ErrForbidden)"

lemma faults_opaque_tick [simp]: "faults_opaque (tick w) = faults_opaque w"
  by (simp add: faults_opaque_def)

lemma no_fault_opaque: "no_fault w \<Longrightarrow> faults_opaque w"
  by (simp add: no_fault_def faults_opaque_def)

lemma faults_opaqueD: "faults_opaque w \<Longrightarrow> env_fault (env w) n = Some e \<Longrightarrow>
    \<not> err_is e ErrRecordNotFound \<and> \<not> err_is e ErrForbidden"
  by (simp add: faults_opaque_def)

lemma find_workspace_props: "find_workspace wid d = Some ws \<Longrightarrow>
    ws \<in> set (workspaces d) \<and> ws_ID ws = wid \<and> \<not> ws_Deleted ws"
  by (auto simp: find_workspace_def dest: find_Some_set)

lemma find_project_props: "find_project pid d = Some p \<Longrightarrow> p \<in> set (projects d) \<and> proj_ID p = pid"
  by (auto simp: find_project_def dest: find_Some_set)

lemma find_member_props: "find_member wid uid d = Some m \<Longrightarrow>
    m \<in> set (members d) \<and> mem_WorkspaceID m = wid \<and> mem_UserID m = uid"
  by (auto simp: find_member_def dest: find_Some_set)

text \<open>
  The outcome of a lookup whose missing row is tested for: with opaque faults the test is true
  exactly when the row is missing.
\<close>

lemma try_first_row_cases:
  assumes "faults_opaque w"
  obtains (found) x where "q (db w) = Some x" "tryE (first_row q) w = (Inr (Inr x), tick w)"
  | (missing) "q (db w) = None" "tryE (first_row q) w = (Inr (Inl ErrRecordNotFound), tick w)"
  | (fault) e where "tryE (first_row q) w = (Inr (Inl e), tick w)"
      "\<not> err_is e ErrRecordNotFound" "\<not> err_is e ErrForbidden" "env_fault (env w) (calls w) = Some e"
proof (cases "env_fault (env w) (calls w)")
  case (Some e)
  moreover from this assms have "\<not> err_is e ErrRecordNotFound" "\<not> err_is e ErrForbidden"
    by (auto dest: faults_opaqueD)
  ultimately show thesis
    by (intro fault [of e]) (simp_all add: tryE_def first_row_def select_def sql_def external_def bindE_def)
next
  case None
  then show thesis
    by (cases "q (db w)") (auto simp: tryE_def first_row_def select_def sql_def external_def bindE_def
        intro: found missing)
qed

text \<open>Results of the checks, whatever the script of failures.\<close>

lemma workspace_access_role_sound:
  assumes "faults_opaque w" "workspace_access_role wid uid w = (Inr role, w')"
  shows "workspace_role_of (db w) wid uid = Some role"
proof -
  from assms(2) have nz: "wid \<noteq> uuid_nil" "uid \<noteq> uuid_nil"
    by (auto simp: workspace_access_role_def split: if_splits)
  with assms(2) obtain ws where ws: "find_workspace wid (db w) = Some ws"
    and rest: "(if ws_OwnerUserID ws = uid then ret WorkspaceRoleOwner
        else bindE (tryE (first_row (find_member wid uid))) (\<lambda>r. case r of
            Inl e \<Rightarrow> if err_is e ErrRecordNotFound then throw ErrForbidden else throw e
          | Inr m \<Rightarrow> ret (mem_Role m))) (tick w) = (Inr role, w')"
    by (auto simp: workspace_access_role_def bindE_Inr dest!: first_row_Inr split: if_splits)
  have op: "faults_opaque (tick w)" using assms(1) by simp
  show ?thesis
    using rest nz ws
    by (cases rule: try_first_row_cases [OF op, of "find_member wid uid"])
       (auto simp: workspace_role_of_def bindE_def split: if_splits)
qed

lemma workspace_access_role_ok:
  assumes "no_fault w" "wid \<noteq> uuid_nil" "uid \<noteq> uuid_nil"
  shows "fst (workspace_access_role wid uid w) =
    (case workspace_role_of (db w) wid uid of Some r \<Rightarrow> Inr r
     | None \<Rightarrow> Inl (if find_workspace wid (db w) = None then ErrRecordNotFound else ErrForbidden))"
  using assms
  by (auto simp: workspace_access_role_def workspace_role_of_def bindE_def tryE_def first_row_ok
      split: option.splits)

text \<open>The checks read: they leave the tables and the environment as they are.\<close>

lemma keeps_access [keeps_intros]:
  "keeps (on_db J) (workspace_access_role wid uid)"
  "keeps (on_db J) (require_workspace_permission wid uid p)"
  "keeps (on_db J) (can_publish_project pr uid)"
  "keeps (on_db J) (project_for_publish pid uid)"
  "keeps (on_db J) (project_access_role_and_source pr uid)"
  "keeps (on_db J) (require_workspace_member wid uid)"
  unfolding access_defs by (intro keeps_intros)+

lemma keeps_env_access [keeps_intros]:
  "keeps (env_is e) (workspace_access_role wid uid)"
  "keeps (env_is e) (require_workspace_permission wid uid p)"
  "keeps (env_is e) (project_for_publish pid uid)"
  unfolding access_defs by (intro keeps_intros)+

lemma can_publish_project_sound:
  assumes op: "faults_opaque w" and r: "can_publish_project p uid w = (Inr b, w')"
  shows "proj_UserID p = uid \<or> b = may_publish (db w) uid p"
  using op
proof (cases rule: try_first_row_cases [where q = "find_collaborator (proj_ID p) uid"])
  case (found c)
  with r show ?thesis by (auto simp: can_publish_project_def bindE_def may_publish_def)
next
  case (fault e)
  with r show ?thesis by (auto simp: can_publish_project_def bindE_def)
next
  case missing
  show ?thesis
  proof (cases "proj_WorkspaceID p = None \<or> proj_WorkspaceID p = Some uuid_nil")
    case True
    with r missing show ?thesis
      by (auto simp: can_publish_project_def bindE_def may_publish_def workspace_role_of_def)
  next
    case False
    then obtain wid where wid: "proj_WorkspaceID p = Some wid" "wid \<noteq> uuid_nil" by auto
    obtain s w1 where s: "workspace_access_role wid uid (tick w) = (s, w1)" by fastforce
    have op1: "faults_opaque (tick w)" using op by simp
    show ?thesis
    proof (cases s)
      case (Inr role)
      with s have "workspace_role_of (db w) wid uid = Some role"
        using workspace_access_role_sound [OF op1] by simp
      with Inr s r missing wid show ?thesis
        by (auto simp: can_publish_project_def bindE_def tryE_def may_publish_def)
    next
      case (Inl e)
      have "workspace_role_of (db w) wid uid = None" if "err_is e ErrForbidden"
      proof (cases "find_workspace wid (db w)")
        case None
        then show ?thesis by (simp add: workspace_role_of_def)
      next
        case (Some ws)
        have op2: "faults_opaque (tick (tick w))" using op by simp
        from s Inl Some that wid faults_opaqueD [OF op1] show ?thesis
          by (cases rule: try_first_row_cases [OF op2, of "find_member wid uid"])
             (auto simp: workspace_access_role_def workspace_role_of_def bindE_def
               dest!: first_row_Inr first_row_Inl split: if_splits prod.splits sum.splits)
      qed
      with Inl s r missing wid show ?thesis
        by (auto simp: can_publish_project_def bindE_def tryE_def may_publish_def split: if_splits)
    qed
  qed
qed

text \<open>The single-project check, when no call fails, is the table function.\<close>

lemma project_access_ok:
  assumes "no_fault w"
  shows "fst (project_access_role_and_source p uid w) = Inr a \<longleftrightarrow> project_access_of (db w) uid p = Some a"
proof (cases "uid = uuid_nil \<or> proj_UserID p = uid \<or> find_collaborator (proj_ID p) uid (db w) \<noteq> None
    \<or> proj_WorkspaceID p \<in> {None, Some uuid_nil}")
  case True
  then show ?thesis using assms
    by (auto simp: project_access_role_and_source_def project_access_of_def bindE_def tryE_def first_row_ok
        workspace_role_of_def split: option.splits)
next
  case False
  then obtain wid where wid: "proj_WorkspaceID p = Some wid" "wid \<noteq> uuid_nil" by auto
  have nf: "no_fault (tick w)" using assms by simp
  obtain s w1 where s: "workspace_access_role wid uid (tick w) = (s, w1)" by fastforce
  with workspace_access_role_ok [OF nf wid(2)] False
  have "s = (case workspace_role_of (db w) wid uid of Some r \<Rightarrow> Inr r
     | None \<Rightarrow> Inl (if find_workspace wid (db w) = None then ErrRecordNotFound else ErrForbidden))"
    by (metis (no_types, lifting) db_tick(1) fst_conv)
  with False wid assms s show ?thesis
    by (auto simp: project_access_role_and_source_def project_access_of_def workspace_project_role_def
        bindE_def tryE_def liftS_def first_row_ok split: option.splits sum.splits)
qed

section \<open>Properties\<close>

text \<open>
  The permissions of the four workspace roles are strictly ordered, viewer below member below
  admin below owner, and no other role string carries any permission.
\<close>

theorem role_permissions_ordered:
  "{p. role_has_permission WorkspaceRoleViewer p} \<subset> {p. role_has_permission WorkspaceRoleMember p}
   \<and> {p. role_has_permission WorkspaceRoleMember p} \<subset> {p. role_has_permission WorkspaceRoleAdmin p}
   \<and> {p. role_has_permission WorkspaceRoleAdmin p} \<subset> {p. role_has_permission WorkspaceRoleOwner p}
   \<and> {p. role_has_permission WorkspaceRoleOwner p} = UNIV
   \<and> {r. \<exists>p. role_has_permission r p}
       = {WorkspaceRoleOwner, WorkspaceRoleAdmin, WorkspaceRoleMember, WorkspaceRoleViewer}"
proof -
  have "p \<in> {p. role_has_permission WorkspaceRoleOwner p}" for p
    by (cases p) (simp_all add: role_has_permission_def role_permissions_def)
  then show ?thesis
    by (auto simp: role_has_permission_def role_permissions_def psubset_eq split: if_splits)
qed

text \<open>
  C1: The publish check fails closed. Whatever database calls fail, a project it returns is the
  stored project of that id and its user may publish it: the user created it, is a collaborator
  with the owner role, or, having no collaborator row, owns or administers its workspace. The
  tables are not changed.
\<close>

theorem project_for_publish_sound:
  assumes op: "faults_opaque w" and r: "project_for_publish pid uid w = (Inr p, w')"
  shows "find_project pid (db w) = Some p \<and> may_publish (db w) uid p \<and> db w' = db w"
proof -
  from r have nz: "pid \<noteq> uuid_nil" "uid \<noteq> uuid_nil" by (auto simp: project_for_publish_def split: if_splits)
  have "keeps (on_db (\<lambda>d. d = db w)) (project_for_publish pid uid)" by (intro keeps_intros)
  from keepsD2 [OF this r] have d: "db w' = db w" by (simp add: on_db_def)
  from r nz have "find_project pid (db w) = Some p \<and>
    (proj_UserID p = uid \<or> fst (can_publish_project p uid (tick w)) = Inr True)"
    by (cases rule: try_first_row_cases [OF op, of "find_project pid"])
       (auto simp: project_for_publish_def bindE_def split: if_splits prod.splits sum.splits)
  moreover have "may_publish (db w) uid p" if "fst (can_publish_project p uid (tick w)) = Inr True"
    using can_publish_project_sound [of "tick w" p uid True] op that
    by (cases "can_publish_project p uid (tick w)") (auto simp: may_publish_def)
  ultimately show ?thesis using d by (auto simp: may_publish_def)
qed

definition sample_project :: project where
  "sample_project = \<lparr>proj_ID = 2, proj_UserID = 4, proj_WorkspaceID = Some 3, proj_CollabDocumentID = None,
     proj_Title = ''t'', proj_SourceContent = '''', proj_Status = ''ready'', proj_CreatedAt = 0, proj_UpdatedAt = 0\<rparr>"

definition sample_workspace :: workspace where
  "sample_workspace = \<lparr>ws_ID = 3, ws_OwnerUserID = 6, ws_Name = ''w'', ws_Slug = ''w'',
     ws_Status = WorkspaceStatusActive, ws_CreatedAt = 0, ws_UpdatedAt = 0, ws_Deleted = False\<rparr>"

definition sample_member :: workspace_member where
  "sample_member = \<lparr>mem_WorkspaceID = 3, mem_UserID = 8, mem_Role = WorkspaceRoleAdmin,
     mem_InvitedBy = None, mem_JoinedAt = None, mem_CreatedAt = 0\<rparr>"

theorem project_for_publish_sound_witness:
  "may_publish (empty_db\<lparr>projects := [sample_project], workspaces := [sample_workspace],
     members := [sample_member]\<rparr>) 8 sample_project"
proof -
  let ?d = "empty_db\<lparr>projects := [sample_project], workspaces := [sample_workspace], members := [sample_member]\<rparr>"
  let ?w = "start_world ?d"
  have "fst (project_for_publish 2 8 ?w) = Inr sample_project"
    by (simp add: project_for_publish_def can_publish_project_def workspace_access_role_def bindE_def tryE_def
        first_row_ok find_project_def find_collaborator_def find_workspace_def find_member_def
        sample_project_def sample_workspace_def sample_member_def empty_db_def)
  then have "project_for_publish 2 8 ?w = (Inr sample_project, snd (project_for_publish 2 8 ?w))"
    by (simp add: prod_eq_iff)
  from project_for_publish_sound [OF no_fault_opaque [OF start_world_no_fault] this]
  show ?thesis by simp
qed

end
