(* ===== verification/Project_Access.thy ===== *)
theory Project_Access
  imports Access_Policy
begin

text \<open>
  \<open>services/project/access.go\<close>: the roles of one user in a page of projects, computed with one
  query per table instead of one per project, and the lemmas that lead to its equivalence with the
  single-project check of \<open>Access_Policy\<close>.
\<close>

type_synonym access = "string \<times> access_source"

text \<open>The first loop: own projects get their entry, the others are collected for the queries.\<close>

definition own_step ::
  "uuid \<Rightarrow> (uuid \<rightharpoonup> access) \<times> uuid list \<times> uuid list \<Rightarrow> project \<Rightarrow> (uuid \<rightharpoonup> access) \<times> uuid list \<times> uuid list" where
  "own_step uid st p = (case st of (access, shared, wids) \<Rightarrow>
     if proj_UserID p = uid
     then (access(proj_ID p \<mapsto> (ProjectRoleOwner, ProjectAccessSourceOwner)), shared, wids)
     else (access, shared @ [proj_ID p],
           (case proj_WorkspaceID p of Some wid \<Rightarrow> if wid \<noteq> uuid_nil then wids @ [wid] else wids
            | None \<Rightarrow> wids)))"

text \<open>\<open>workspaceProjectRolesForUser\<close>; the loop over the member rows stops at an unknown role.\<close>

fun member_roles_loop ::
  "(uuid \<rightharpoonup> string) \<Rightarrow> workspace_member list \<Rightarrow> err + (uuid \<rightharpoonup> string)" where
  "member_roles_loop roles [] = Inr roles"
| "member_roles_loop roles (m # ms) =
     (if roles (mem_WorkspaceID m) \<noteq> None then member_roles_loop roles ms
      else case project_role_for_workspace_role (mem_Role m) of
        Inl e \<Rightarrow> Inl e
      | Inr role \<Rightarrow> member_roles_loop (roles(mem_WorkspaceID m \<mapsto> role)) ms)"

definition workspace_project_roles_for_user :: "uuid list \<Rightarrow> uuid \<Rightarrow> (uuid \<rightharpoonup> string) mpp" where
  "workspace_project_roles_for_user wids uid =
     (if wids = [] then ret Map.empty
      else bindE (select (\<lambda>d. filter (\<lambda>w. ws_OwnerUserID w = uid \<and> ws_ID w \<in> set wids \<and> \<not> ws_Deleted w)
                                 (workspaces d))) (\<lambda>owned.
        bindE (liftS (project_role_for_workspace_role WorkspaceRoleOwner)) (\<lambda>role.
        let roles = foldl (\<lambda>m w. m(ws_ID w \<mapsto> role)) Map.empty owned
        in bindE (select (\<lambda>d. filter (\<lambda>m. mem_UserID m = uid \<and> mem_WorkspaceID m \<in> set wids)
                                 (members d))) (\<lambda>ms.
           liftS (member_roles_loop roles ms)))))"

text \<open>The last loop: projects without an entry get the role their workspace gives.\<close>

definition workspace_step ::
  "(uuid \<rightharpoonup> string) \<Rightarrow> (uuid \<rightharpoonup> access) \<Rightarrow> project \<Rightarrow> (uuid \<rightharpoonup> access)" where
  "workspace_step roles access p =
     (if access (proj_ID p) \<noteq> None then access
      else case proj_WorkspaceID p of
        None \<Rightarrow> access
      | Some wid \<Rightarrow> (case roles wid of
          None \<Rightarrow> access
        | Some role \<Rightarrow> access(proj_ID p \<mapsto> (role, ProjectAccessSourceWorkspace))))"

definition project_access_for_user :: "project list \<Rightarrow> uuid \<Rightarrow> (uuid \<rightharpoonup> access) mpp" where
  "project_access_for_user ps uid =
     (case foldl (own_step uid) (Map.empty, [], []) ps of (access, shared, wids) \<Rightarrow>
        bindE (if shared = [] then ret []
               else select (\<lambda>d. filter (\<lambda>c. collab_UserID c = uid \<and> collab_ProjectID c \<in> set shared)
                                  (collaborators d))) (\<lambda>cs.
        let access = foldl (\<lambda>m c. m(collab_ProjectID c \<mapsto> (collab_Role c, ProjectAccessSourceDirectShare)))
                       access cs
        in if wids = [] then ret access
           else bindE (workspace_project_roles_for_user wids uid) (\<lambda>roles.
             ret (foldl (workspace_step roles) access ps))))"

section \<open>What the loops compute\<close>

lemma own_loop:
  assumes "foldl (own_step uid) (a0, s0, w0) ps = (access, shared, wids)"
  shows "access q = (if \<exists>p\<in>set ps. proj_ID p = q \<and> proj_UserID p = uid
                     then Some (ProjectRoleOwner, ProjectAccessSourceOwner) else a0 q)"
    and "set shared = set s0 \<union> proj_ID ` {p \<in> set ps. proj_UserID p \<noteq> uid}"
    and "set wids = set w0 \<union> {wid. wid \<noteq> uuid_nil \<and>
           (\<exists>p\<in>set ps. proj_UserID p \<noteq> uid \<and> proj_WorkspaceID p = Some wid)}"
  using assms
proof (induction ps arbitrary: a0 s0 w0)
  case (Cons p ps)
  {
    case 1
    then show ?case by (cases "proj_UserID p = uid") (auto simp: own_step_def Cons.IH(1))
  next
    case 2
    then show ?case by (cases "proj_UserID p = uid") (auto simp: own_step_def Cons.IH(2))
  next
    case 3
    then show ?case
      by (cases "proj_UserID p = uid"; cases "proj_WorkspaceID p")
         (auto simp: own_step_def Cons.IH(3) split: if_splits)
  }
qed auto

lemma member_roles_loop_ok:
  assumes "distinct (map mem_WorkspaceID ms)"
    and "\<forall>m\<in>set ms. \<exists>r. project_role_for_workspace_role (mem_Role m) = Inr r"
  shows "\<exists>roles'. member_roles_loop roles ms = Inr roles' \<and>
    (\<forall>q. roles' q = (case roles q of Some r \<Rightarrow> Some r
       | None \<Rightarrow> (case find (\<lambda>m. mem_WorkspaceID m = q) ms of
           Some m \<Rightarrow> Some (projr (project_role_for_workspace_role (mem_Role m))) | None \<Rightarrow> None)))"
  using assms
proof (induction ms arbitrary: roles)
  case (Cons m ms)
  obtain r where r: "project_role_for_workspace_role (mem_Role m) = Inr r" using Cons.prems(2) by auto
  have nf: "find (\<lambda>m'. mem_WorkspaceID m' = mem_WorkspaceID m) ms = None"
    using Cons.prems(1) by (auto simp: find_None_set dest: sym)
  from Cons.prems have IH: "\<And>roles. \<exists>roles'. member_roles_loop roles ms = Inr roles' \<and>
    (\<forall>q. roles' q = (case roles q of Some r \<Rightarrow> Some r
       | None \<Rightarrow> (case find (\<lambda>m. mem_WorkspaceID m = q) ms of
           Some m \<Rightarrow> Some (projr (project_role_for_workspace_role (mem_Role m))) | None \<Rightarrow> None)))"
    using Cons.IH by simp
  show ?case
  proof (cases "roles (mem_WorkspaceID m)")
    case None
    with IH [of "roles(mem_WorkspaceID m \<mapsto> r)"] r nf show ?thesis
      by (force split: option.splits)
  next
    case (Some s)
    with IH [of roles] show ?thesis by (force split: option.splits)
  qed
qed (auto split: option.splits)

lemma workspace_loop_notin:
  "q \<notin> proj_ID ` set ps \<Longrightarrow> foldl (workspace_step roles) a ps q = a q"
proof (induction ps arbitrary: a)
  case (Cons p ps)
  then show ?case by (auto simp: workspace_step_def split: option.splits)
qed simp

lemma workspace_loop:
  assumes "distinct (map proj_ID ps)" "p \<in> set ps"
  shows "foldl (workspace_step roles) a ps (proj_ID p) =
    (case a (proj_ID p) of Some x \<Rightarrow> Some x
     | None \<Rightarrow> (case proj_WorkspaceID p of None \<Rightarrow> None
        | Some wid \<Rightarrow> map_option (\<lambda>role. (role, ProjectAccessSourceWorkspace)) (roles wid)))"
  using assms
proof (induction ps arbitrary: a)
  case (Cons p' ps)
  show ?case
  proof (cases "p' = p")
    case True
    then have "proj_ID p \<notin> proj_ID ` set ps" using Cons.prems(1) by auto
    then have eq: "foldl (workspace_step roles) a (p' # ps) (proj_ID p) = workspace_step roles a p (proj_ID p)"
      using True by (simp add: workspace_loop_notin)
    show ?thesis unfolding eq by (auto simp: workspace_step_def split: option.splits)
  next
    case False
    then have p: "p \<in> set ps" using Cons.prems(2) by auto
    moreover have "proj_ID p' \<noteq> proj_ID p" using Cons.prems(1) p by auto
    then have "workspace_step roles a p' (proj_ID p) = a (proj_ID p)"
      by (auto simp: workspace_step_def split: option.splits)
    ultimately show ?thesis using Cons by simp
  qed
qed simp

section \<open>Tables as the schema keeps them\<close>

text \<open>
  Primary keys are unique; every membership of the user names a workspace that exists and has one
  of the four roles.
\<close>

definition access_tables_ok :: "db \<Rightarrow> uuid \<Rightarrow> bool" where
  "access_tables_ok d uid \<longleftrightarrow>
     distinct (map ws_ID (workspaces d)) \<and>
     distinct (map (\<lambda>m. (mem_WorkspaceID m, mem_UserID m)) (members d)) \<and>
     distinct (map (\<lambda>c. (collab_ProjectID c, collab_UserID c)) (collaborators d)) \<and>
     (\<forall>w\<in>set (workspaces d). ws_ID w \<noteq> uuid_nil) \<and>
     (\<forall>m\<in>set (members d). mem_UserID m = uid \<longrightarrow>
        find_workspace (mem_WorkspaceID m) d \<noteq> None \<and>
        mem_Role m \<in> {WorkspaceRoleOwner, WorkspaceRoleAdmin, WorkspaceRoleMember, WorkspaceRoleViewer})"

lemma valid_role_maps:
  "r \<in> {WorkspaceRoleOwner, WorkspaceRoleAdmin, WorkspaceRoleMember, WorkspaceRoleViewer} \<Longrightarrow>
     \<exists>s. project_role_for_workspace_role r = Inr s"
  by (auto simp: project_role_for_workspace_role_def)

lemma distinct_fst_filter:
  assumes "distinct (map (\<lambda>x. (f x, g x)) xs)"
  shows "distinct (map f (filter (\<lambda>x. g x = c \<and> P x) xs))"
  using assms by (induction xs) auto

definition workspace_gives :: "db \<Rightarrow> uuid \<Rightarrow> uuid \<Rightarrow> string option" where
  "workspace_gives d wid uid = (case workspace_role_of d wid uid of
      None \<Rightarrow> None
    | Some r \<Rightarrow> (case project_role_for_workspace_role r of Inl _ \<Rightarrow> None | Inr s \<Rightarrow> Some s))"

lemma workspace_gives_nil [simp]: "workspace_gives d uuid_nil uid = None"
  by (simp add: workspace_gives_def workspace_role_of_def)

lemma project_access_of_gives: "uid \<noteq> uuid_nil \<Longrightarrow> project_access_of d uid p =
    (case (if proj_UserID p = uid then Some (ProjectRoleOwner, ProjectAccessSourceOwner)
           else map_option (\<lambda>c. (collab_Role c, ProjectAccessSourceDirectShare))
                  (find_collaborator (proj_ID p) uid d)) of
       Some x \<Rightarrow> Some x
     | None \<Rightarrow> (case proj_WorkspaceID p of None \<Rightarrow> None
         | Some wid \<Rightarrow> map_option (\<lambda>role. (role, ProjectAccessSourceWorkspace)) (workspace_gives d wid uid)))"
  by (auto simp: project_access_of_def workspace_gives_def split: option.splits sum.splits)

text \<open>The role a workspace gives in the batch is the one the single check computes.\<close>

lemma workspace_project_roles_ok:
  assumes nf: "no_fault w" and ok: "access_tables_ok (db w) uid" and uid: "uid \<noteq> uuid_nil"
  shows "\<exists>roles w'. workspace_project_roles_for_user wids uid w = (Inr roles, w') \<and>
    (\<forall>wid. wid \<notin> set wids \<longrightarrow> roles wid = None) \<and>
    (\<forall>wid\<in>set wids. roles wid = workspace_gives (db w) wid uid)"
proof (cases "wids = []")
  case True
  then show ?thesis by (simp add: workspace_project_roles_for_user_def)
next
  case False
  let ?d = "db w"
  let ?owned = "filter (\<lambda>w. ws_OwnerUserID w = uid \<and> ws_ID w \<in> set wids \<and> \<not> ws_Deleted w) (workspaces ?d)"
  let ?ms = "filter (\<lambda>m. mem_UserID m = uid \<and> mem_WorkspaceID m \<in> set wids) (members ?d)"
  let ?roles0 = "foldl (\<lambda>m w. m(ws_ID w \<mapsto> ProjectRoleEditor)) Map.empty ?owned"
  have dm: "distinct (map mem_WorkspaceID ?ms)"
    using ok by (intro distinct_fst_filter) (simp add: access_tables_ok_def)
  have "\<forall>m\<in>set ?ms. \<exists>r. project_role_for_workspace_role (mem_Role m) = Inr r"
    using ok valid_role_maps by (auto simp: access_tables_ok_def)
  then obtain roles where roles: "member_roles_loop ?roles0 ?ms = Inr roles"
    and rq: "\<And>q. roles q = (case ?roles0 q of Some r \<Rightarrow> Some r
       | None \<Rightarrow> (case find (\<lambda>m. mem_WorkspaceID m = q) ?ms of
           Some m \<Rightarrow> Some (projr (project_role_for_workspace_role (mem_Role m))) | None \<Rightarrow> None))"
    using member_roles_loop_ok [OF dm] by blast
  have dw: "distinct (map ws_ID ?owned)"
    using ok by (intro distinct_map_filter) (simp add: access_tables_ok_def)
  have r0: "?roles0 q = (case find (\<lambda>w. ws_ID w = q) ?owned of Some _ \<Rightarrow> Some ProjectRoleEditor | None \<Rightarrow> None)" for q
    using foldl_map_upd [OF dw, of "\<lambda>_. ProjectRoleEditor" Map.empty q] by simp
  have "roles wid = None" if "wid \<notin> set wids" for wid
  proof -
    have "find (\<lambda>w. ws_ID w = wid) ?owned = None" "find (\<lambda>m. mem_WorkspaceID m = wid) ?ms = None"
      using that by (auto simp: find_None_set)
    then show ?thesis by (simp add: rq r0)
  qed
  moreover have "roles wid = workspace_gives ?d wid uid"
    if wid: "wid \<in> set wids" for wid
  proof -
    have owned: "find (\<lambda>w. ws_ID w = wid) ?owned =
        (case find_workspace wid ?d of Some ws \<Rightarrow> if ws_OwnerUserID ws = uid then Some ws else None | None \<Rightarrow> None)"
    proof (cases "find_workspace wid ?d")
      case None
      then have "find (\<lambda>w. ws_ID w = wid) ?owned = None"
        by (auto simp: find_filter find_workspace_def find_None_set)
      with None show ?thesis by simp
    next
      case (Some ws)
      then have ws: "ws \<in> set (workspaces ?d)" "ws_ID ws = wid" "\<not> ws_Deleted ws"
        by (auto dest: find_workspace_props)
      have u: "x = ws" if "x \<in> set (workspaces ?d)" "ws_ID x = wid" for x
        using ok ws that by (auto simp: access_tables_ok_def distinct_map dest: inj_onD)
      show ?thesis
      proof (cases "ws_OwnerUserID ws = uid")
        case True
        have "find (\<lambda>w. ws_ID w = wid) ?owned = Some ws"
          unfolding find_filter 
        proof (rule find_unique)
          show "ws \<in> set (workspaces ?d)" by (rule ws(1))
          show "(ws_OwnerUserID ws = uid \<and> ws_ID ws \<in> set wids \<and> \<not> ws_Deleted ws) \<and> ws_ID ws = wid"
            using ws True wid by simp
        qed (use u in blast)
        with Some True show ?thesis by simp
      next
        case False
        with Some u show ?thesis by (auto simp: find_filter find_None_set)
      qed
    qed
    have mem: "find (\<lambda>m. mem_WorkspaceID m = wid) ?ms = find_member wid uid ?d"
      unfolding find_filter find_member_def using wid by (intro find_cong_set) auto
    have live: "find_workspace wid ?d \<noteq> None \<and> (\<exists>s. project_role_for_workspace_role (mem_Role m) = Inr s)"
      if "find_member wid uid ?d = Some m" for m
      using ok find_member_props [OF that] valid_role_maps by (auto simp: access_tables_ok_def)
    have nz: "find_workspace wid ?d \<noteq> None \<Longrightarrow> wid \<noteq> uuid_nil"
      using ok by (auto simp: access_tables_ok_def dest: find_workspace_props)
    show ?thesis
    proof (cases "find_workspace wid ?d")
      case None
      then have "find_member wid uid ?d = None" using live by (cases "find_member wid uid ?d") auto
      with None show ?thesis by (simp add: rq r0 owned mem workspace_gives_def workspace_role_of_def)
    next
      case (Some ws)
      then have "wid \<noteq> uuid_nil" using nz by simp
      with Some live uid show ?thesis
        by (auto simp: rq r0 owned mem workspace_gives_def workspace_role_of_def
            project_role_for_workspace_role_def split: option.splits)
    qed
  qed
  moreover have "workspace_project_roles_for_user wids uid w = (Inr roles, tick (tick w))"
    using False nf roles
    by (simp add: workspace_project_roles_for_user_def bindE_def select_ok liftS_def Let_def
        project_role_for_workspace_role_def)
  ultimately show ?thesis by blast
qed

section \<open>Batch and single check agree\<close>

text \<open>
  C31: For a user and a page of projects with distinct ids, on tables that respect the schema and
  when no call fails, the batched resolution gives every project the role and source that the
  single-project check \<open>ProjectAccessRoleAndSource\<close> gives it, and no entry where that check
  refuses access.
\<close>

theorem project_access_batch_equals_single:
  assumes nf: "no_fault w" and ok: "access_tables_ok (db w) uid" and uid: "uid \<noteq> uuid_nil"
    and dist: "distinct (map proj_ID ps)" and p: "p \<in> set ps"
  shows "\<exists>access w'. project_access_for_user ps uid w = (Inr access, w') \<and>
    access (proj_ID p) = (case fst (project_access_role_and_source p uid w) of
        Inr a \<Rightarrow> Some a | Inl _ \<Rightarrow> None)"
proof -
  obtain a0 shared wids where loop: "foldl (own_step uid) (Map.empty, [], []) ps = (a0, shared, wids)"
    by (metis prod_cases3)
  note own = own_loop [OF loop]
  let ?cs = "if shared = [] then [] else
    filter (\<lambda>c. collab_UserID c = uid \<and> collab_ProjectID c \<in> set shared) (collaborators (db w))"
  let ?a1 = "foldl (\<lambda>m c. m(collab_ProjectID c \<mapsto> (collab_Role c, ProjectAccessSourceDirectShare))) a0 ?cs"
  define w1 where "w1 = (if shared = [] then w else tick w)"
  have nf1: "no_fault w1" and db1: "db w1 = db w" using nf by (auto simp: w1_def)
  have sel: "(if shared = [] then ret [] else
      select (\<lambda>d. filter (\<lambda>c. collab_UserID c = uid \<and> collab_ProjectID c \<in> set shared) (collaborators d))) w
      = (Inr ?cs, w1)"
    using nf by (simp add: select_ok w1_def)
  obtain roles w2 where roles: "workspace_project_roles_for_user wids uid w1 = (Inr roles, w2)"
    and rq: "\<forall>wid\<in>set wids. roles wid = workspace_gives (db w) wid uid"
    and rn: "\<forall>wid. wid \<notin> set wids \<longrightarrow> roles wid = None"
    using workspace_project_roles_ok [OF nf1 _ uid, of wids] ok db1 by auto
  let ?res = "if wids = [] then ?a1 else foldl (workspace_step roles) ?a1 ps"
  have run: "project_access_for_user ps uid w = (Inr ?res, if wids = [] then w1 else w2)"
    using loop sel roles by (simp add: project_access_for_user_def bindE_def)
  have u: "x = p" if "x \<in> set ps" "proj_ID x = proj_ID p" for x
    using dist p that by (auto simp: distinct_map dest: inj_onD)
  have dc: "distinct (map collab_ProjectID ?cs)"
    using ok by (auto intro!: distinct_fst_filter simp: access_tables_ok_def)
  have a1: "?a1 (proj_ID p) = (if proj_UserID p = uid then Some (ProjectRoleOwner, ProjectAccessSourceOwner)
      else map_option (\<lambda>c. (collab_Role c, ProjectAccessSourceDirectShare)) (find_collaborator (proj_ID p) uid (db w)))"
  proof (cases "proj_UserID p = uid")
    case True
    then have "proj_ID p \<notin> set shared" using own(2) u by auto
    then have "find (\<lambda>c. collab_ProjectID c = proj_ID p) ?cs = None" by (auto simp: find_None_set)
    with True own(1) p show ?thesis
      by (auto simp: foldl_map_upd [OF dc, of "\<lambda>c. (collab_Role c, ProjectAccessSourceDirectShare)"])
  next
    case False
    then have sh: "proj_ID p \<in> set shared" using own(2) p by auto
    then have "find (\<lambda>c. collab_ProjectID c = proj_ID p) ?cs = find_collaborator (proj_ID p) uid (db w)"
      by (auto simp: find_filter find_collaborator_def intro!: find_cong_set)
    moreover have "a0 (proj_ID p) = None" using own(1) u False by auto
    ultimately show ?thesis using False
      by (auto simp: foldl_map_upd [OF dc, of "\<lambda>c. (collab_Role c, ProjectAccessSourceDirectShare)"]
          split: option.splits)
  qed
  have single: "fst (project_access_role_and_source p uid w) = Inr a \<longleftrightarrow> project_access_of (db w) uid p = Some a" for a
    by (rule project_access_ok [OF nf])
  have gives: "roles wid = workspace_gives (db w) wid uid"
    if "proj_UserID p \<noteq> uid" "proj_WorkspaceID p = Some wid" for wid
    using rq rn own(3) p that by (cases "wid = uuid_nil") auto
  have none: "proj_WorkspaceID p \<in> {None, Some uuid_nil}" if "wids = []" "proj_UserID p \<noteq> uid"
    using own(3) p that by (cases "proj_WorkspaceID p") auto
  have res: "?res (proj_ID p) = (if wids = [] then ?a1 (proj_ID p) else
      (case ?a1 (proj_ID p) of Some x \<Rightarrow> Some x
       | None \<Rightarrow> (case proj_WorkspaceID p of None \<Rightarrow> None
         | Some wid \<Rightarrow> map_option (\<lambda>role. (role, ProjectAccessSourceWorkspace)) (roles wid))))"
    by (simp add: workspace_loop [OF dist p])
  have entry: "?res (proj_ID p) = project_access_of (db w) uid p"
  proof (cases "proj_UserID p = uid")
    case True
    then show ?thesis unfolding res a1 project_access_of_gives [OF uid] by simp
  next
    case False
    then show ?thesis
      using gives [OF False] none [OF _ False]
      unfolding res a1 project_access_of_gives [OF uid]
      by (cases "proj_WorkspaceID p") (simp_all split: option.splits)
  qed
  have single_case: "(case fst (project_access_role_and_source p uid w) of Inr a \<Rightarrow> Some a | Inl _ \<Rightarrow> None)
      = project_access_of (db w) uid p"
  proof (cases "fst (project_access_role_and_source p uid w)")
    case (Inr a)
    then have "project_access_of (db w) uid p = Some a" by (rule single [THEN iffD1])
    with Inr show ?thesis by simp
  next
    case (Inl e)
    have "project_access_of (db w) uid p \<noteq> Some a" for a using single [of a] Inl by (metis Inl_Inr_False)
    then have "project_access_of (db w) uid p = None" by (meson not_None_eq)
    with Inl show ?thesis by simp
  qed
  define access w' where "access = ?res" and "w' = (if wids = [] then w1 else w2)"
  from run have "project_access_for_user ps uid w = (Inr access, w')" by (simp only: access_def w'_def)
  moreover from entry single_case have "access (proj_ID p) =
      (case fst (project_access_role_and_source p uid w) of Inr a \<Rightarrow> Some a | Inl _ \<Rightarrow> None)"
    by (simp only: access_def)
  ultimately show ?thesis by blast
qed

theorem project_access_batch_equals_single_witness:
  "\<exists>access w'. project_access_for_user [sample_project] 8 (start_world (empty_db\<lparr>projects := [sample_project],
       workspaces := [sample_workspace], members := [sample_member]\<rparr>)) = (Inr access, w')
    \<and> access 2 = Some (ProjectRoleEditor, ProjectAccessSourceWorkspace)"
proof -
  let ?w = "start_world (empty_db\<lparr>projects := [sample_project], workspaces := [sample_workspace],
      members := [sample_member]\<rparr>)"
  have t: "access_tables_ok (db ?w) 8"
    by (simp add: access_tables_ok_def find_workspace_def sample_workspace_def sample_member_def empty_db_def)
  have s: "fst (project_access_role_and_source sample_project 8 ?w)
      = Inr (ProjectRoleEditor, ProjectAccessSourceWorkspace)"
    by (simp add: project_access_role_and_source_def workspace_project_role_def workspace_access_role_def
        bindE_def tryE_def liftS_def first_row_ok find_collaborator_def find_workspace_def find_member_def
        project_role_for_workspace_role_def sample_project_def sample_workspace_def sample_member_def
        empty_db_def)
  show ?thesis
    using project_access_batch_equals_single [of ?w 8 "[sample_project]" sample_project] t s
    by (force simp: sample_project_def)
qed

end
