(* ===== verification/Error_Redaction.thy ===== *)
theory Error_Redaction
  imports Prelude
begin

text \<open>
  \<open>SanitizeUserFacingErrorMessage\<close> of \<open>services/publish/service.go\<close>: every match of
  \<^verbatim>\<open>(?i)(secret|access_token|x-amz-credential|x-amz-signature|x-amz-security-token)=([^&"\s]+)\<close>
  keeps its key and has its value replaced. The regular expression is written out as a scanner
  over bytes: leftmost match first, the five alternatives, a non-empty greedy value. Case folding
  follows Go's regexp: an ASCII letter matches both cases, \<open>s\<close> also the long s (C5 BF) and \<open>k\<close>
  also the Kelvin sign (E2 84 AA). The main result is that the text after redaction does not
  depend on the value of a redacted parameter.
\<close>

definition match_char :: "char \<Rightarrow> string \<Rightarrow> nat" where
  "match_char p s = (case s of [] \<Rightarrow> 0
    | c # _ \<Rightarrow> if lower_byte c = p then 1
        else if p = CHR ''s'' \<and> map byte_of (take 2 s) = [0xC5, 0xBF] then 2
        else if p = CHR ''k'' \<and> map byte_of (take 3 s) = [0xE2, 0x84, 0xAA] then 3 else 0)"

text \<open>The number of bytes of \<open>s\<close> that match the literal, if it matches.\<close>

fun match_lit :: "string \<Rightarrow> string \<Rightarrow> nat option" where
  "match_lit [] s = Some 0"
| "match_lit (p # ps) s =
     (if match_char p s = 0 then None
      else map_option (\<lambda>n. match_char p s + n) (match_lit ps (drop (match_char p s) s)))"

definition secret_keys :: "string list" where
  "secret_keys = [''secret'', ''access_token'', ''x-amz-credential'', ''x-amz-signature'',
     ''x-amz-security-token'']"

definition value_byte :: "char \<Rightarrow> bool" where
  "value_byte c = (byte_of c \<notin> {38, 34, 9, 10, 12, 13, 32})"

text \<open>One alternative followed by \<open>=\<close> and a value, at the head of \<open>s\<close>: the length of the key.\<close>

definition match_key :: "string \<Rightarrow> string \<Rightarrow> nat option" where
  "match_key s k = (case match_lit k s of
      None \<Rightarrow> None
    | Some n \<Rightarrow> (case drop n s of
          c # v \<Rightarrow> if c = CHR ''='' \<and> takeWhile value_byte v \<noteq> [] then Some n else None
        | [] \<Rightarrow> None))"

fun first_match :: "string \<Rightarrow> string list \<Rightarrow> nat option" where
  "first_match s [] = None"
| "first_match s (k # ks) = (case match_key s k of Some n \<Rightarrow> Some n | None \<Rightarrow> first_match s ks)"

function sanitize :: "string \<Rightarrow> string" where
  "sanitize s = (case s of [] \<Rightarrow> []
    | c # t \<Rightarrow> (case first_match s secret_keys of
        None \<Rightarrow> c # sanitize t
      | Some n \<Rightarrow> take n s @ ''=<redacted>'' @ sanitize (dropWhile value_byte (drop (Suc n) s))))"
  by pat_completeness auto
termination
proof (relation "measure length")
  fix s :: string and c t n
  assume "s = c # t"
  have "length (dropWhile value_byte (drop (Suc n) s)) \<le> length (drop (Suc n) s)"
    by (rule length_dropWhile_le)
  also have "\<dots> < length s" using \<open>s = c # t\<close> by simp
  finally show "(dropWhile value_byte (drop (Suc n) s), s) \<in> measure length" by simp
qed simp_all

declare sanitize.simps [simp del]

section \<open>What a match looks at\<close>

lemma secret_key_bytes: "k \<in> set secret_keys \<Longrightarrow> p \<in> set k \<Longrightarrow> p \<noteq> CHR ''='' \<and> lower_byte p = p"
  by (auto simp: secret_keys_def lower_byte_def byte_of_def)

lemma lower_byte_eq: "lower_byte (CHR ''='') = CHR ''=''"
  by (simp add: lower_byte_def byte_of_def)

lemma match_char_le: "match_char p s \<le> length s"
  by (auto simp: match_char_def split: list.splits dest: arg_cong [where f = length])

lemma match_char_prefix:
  assumes "p \<noteq> CHR ''=''"
  shows "match_char p (a @ CHR ''='' # b) = match_char p (a @ CHR ''='' # b')
    \<and> match_char p (a @ CHR ''='' # b) \<le> length a"
proof -
  have e: "byte_of (CHR ''='') = 61" by (simp add: byte_of_def)
  consider "a = []" | c where "a = [c]" | c d where "a = [c, d]" | c d f a' where "a = c # d # f # a'"
    by (metis list.exhaust)
  then show ?thesis
    by cases (use assms e in \<open>auto simp: match_char_def lower_byte_eq take_Cons' numeral_2_eq_2 numeral_3_eq_3\<close>)
qed

lemma match_lit_prefix:
  assumes "\<forall>p\<in>set k. p \<noteq> CHR ''=''"
  shows "match_lit k (a @ CHR ''='' # b) = match_lit k (a @ CHR ''='' # b')
    \<and> (\<forall>n. match_lit k (a @ CHR ''='' # b) = Some n \<longrightarrow> n \<le> length a)"
  using assms
proof (induction k arbitrary: a)
  case (Cons p k)
  let ?m = "match_char p (a @ CHR ''='' # b)"
  have m: "match_char p (a @ CHR ''='' # b') = ?m" "?m \<le> length a"
    using match_char_prefix [of p a b b'] Cons.prems by auto
  have d: "drop ?m (a @ CHR ''='' # x) = drop ?m a @ CHR ''='' # x" for x using m(2) by simp
  have "match_lit k (drop ?m a @ CHR ''='' # b) = match_lit k (drop ?m a @ CHR ''='' # b')
    \<and> (\<forall>n. match_lit k (drop ?m a @ CHR ''='' # b) = Some n \<longrightarrow> n \<le> length (drop ?m a))"
    using Cons.prems by (intro Cons.IH) simp
  with m d show ?case by auto
qed simp

text \<open>
  A string in which a parameter's value occurs: \<open>u\<close> in front, the key, the value \<open>v\<close>, and \<open>r\<close>,
  which is empty or starts with a byte that ends a value.
\<close>

definition value_text :: "string \<Rightarrow> bool" where
  "value_text v \<longleftrightarrow> v \<noteq> [] \<and> (\<forall>c\<in>set v. value_byte c)"

definition after_value :: "string \<Rightarrow> bool" where
  "after_value r \<longleftrightarrow> (case r of [] \<Rightarrow> True | c # _ \<Rightarrow> \<not> value_byte c)"

lemma takeWhile_value: "value_text v \<Longrightarrow> after_value r \<Longrightarrow> takeWhile value_byte (v @ r) = v"
  by (cases r) (auto simp: value_text_def after_value_def takeWhile_eq_all_conv)

lemma dropWhile_value: "value_text v \<Longrightarrow> after_value r \<Longrightarrow> dropWhile value_byte (v @ r) = r"
  by (cases r) (auto simp: value_text_def after_value_def dropWhile_append)

text \<open>
  The value run that starts inside \<open>u\<close>: it ends inside \<open>u\<close>, or it swallows everything up to \<open>r\<close>.
  \<open>x\<close> stands for the key and its equals sign.
\<close>

lemma value_run:
  assumes v: "value_text v" and r: "after_value r" and x: "value_text x"
  shows "takeWhile value_byte (u @ x @ v @ r) \<noteq> [] \<longleftrightarrow> (case u of [] \<Rightarrow> True | c # _ \<Rightarrow> value_byte c)"
    and "dropWhile value_byte (u @ x @ v @ r)
      = (if \<forall>c\<in>set u. value_byte c then r else dropWhile value_byte u @ x @ v @ r)"
proof -
  have "value_text (x @ v)" using v x by (auto simp: value_text_def)
  then have d: "dropWhile value_byte (x @ v @ r) = r"
    using dropWhile_value [OF _ r, of "x @ v"] by simp
  show "takeWhile value_byte (u @ x @ v @ r) \<noteq> [] \<longleftrightarrow> (case u of [] \<Rightarrow> True | c # _ \<Rightarrow> value_byte c)"
    using x by (cases u; cases x) (auto simp: value_text_def)
  show "dropWhile value_byte (u @ x @ v @ r)
      = (if \<forall>c\<in>set u. value_byte c then r else dropWhile value_byte u @ x @ v @ r)"
    using d by (simp add: dropWhile_append)
qed

text \<open>
  With \<open>a\<close> the text up to the equals sign of the parameter (so \<open>a\<close> is \<open>u\<close> and the key), a match
  of some alternative at the head does not depend on the value.
\<close>

lemma match_key_indep:
  assumes k: "\<forall>p\<in>set k. p \<noteq> CHR ''=''"
    and v: "value_text v" "value_text v'" and r: "after_value r"
  shows "match_key (a @ CHR ''='' # v @ r) k = match_key (a @ CHR ''='' # v' @ r) k
    \<and> (\<forall>n. match_key (a @ CHR ''='' # v @ r) k = Some n \<longrightarrow> n \<le> length a)"
proof -
  have lit: "match_lit k (a @ CHR ''='' # v @ r) = match_lit k (a @ CHR ''='' # v' @ r)"
    "\<And>n. match_lit k (a @ CHR ''='' # v @ r) = Some n \<Longrightarrow> n \<le> length a"
    using match_lit_prefix [OF k, of a "v @ r" "v' @ r"] by auto
  have run: "takeWhile value_byte (t @ CHR ''='' # w @ r) \<noteq> [] \<longleftrightarrow> (case t of [] \<Rightarrow> True | c # _ \<Rightarrow> value_byte c)"
    if "value_text w" for t w
    using value_run(1) [OF that r, of "''=''" t] by (simp add: value_text_def value_byte_def byte_of_def)
  show ?thesis
  proof (cases "match_lit k (a @ CHR ''='' # v @ r)")
    case None
    with lit(1) show ?thesis by (simp add: match_key_def)
  next
    case (Some n)
    then have n: "n \<le> length a" by (rule lit(2))
    then have d: "drop n (a @ CHR ''='' # w @ r) = drop n a @ CHR ''='' # w @ r" for w by simp
    have tw: "takeWhile value_byte (v @ r) \<noteq> []" "takeWhile value_byte (v' @ r) \<noteq> []"
      using takeWhile_value v r by (auto simp: value_text_def)
    show ?thesis
    proof (cases "drop n a")
      case Nil
      with Some lit(1) d n tw show ?thesis by (simp add: match_key_def)
    next
      case (Cons c t)
      with Some lit(1) d n run [OF v(1), of t] run [OF v(2), of t] show ?thesis
        by (simp add: match_key_def)
    qed
  qed
qed

lemma first_match_indep:
  assumes "\<forall>k\<in>set ks. \<forall>p\<in>set k. p \<noteq> CHR ''=''"
    and v: "value_text v" "value_text v'" and r: "after_value r"
  shows "first_match (a @ CHR ''='' # v @ r) ks = first_match (a @ CHR ''='' # v' @ r) ks
    \<and> (\<forall>n. first_match (a @ CHR ''='' # v @ r) ks = Some n \<longrightarrow> n \<le> length a)"
  using assms(1)
proof (induction ks)
  case (Cons k ks)
  with match_key_indep [OF _ v r, of k a] show ?case by (auto split: option.splits)
qed simp

lemma first_match_Some: "first_match s ks = Some n \<Longrightarrow> \<exists>k\<in>set ks. match_key s k = Some n"
  by (induction ks) (auto split: option.splits)

lemma match_lit_self: "\<forall>p\<in>set k. lower_byte p = p \<Longrightarrow> match_lit k (k @ s) = Some (length k)"
  by (induction k) (auto simp: match_char_def)

lemma first_match_self:
  assumes "k \<in> set ks" "\<forall>k\<in>set ks. \<forall>p\<in>set k. lower_byte p = p" "value_text v" "after_value r"
  shows "first_match (k @ CHR ''='' # v @ r) ks \<noteq> None"
  using assms(1,2)
proof (induction ks)
  case (Cons k' ks)
  have "match_key (k @ CHR ''='' # v @ r) k = Some (length k)" if "\<forall>p\<in>set k. lower_byte p = p"
    using match_lit_self [OF that] takeWhile_value [OF assms(3,4)] assms(3)
    by (simp add: match_key_def value_text_def)
  with Cons show ?case by (auto split: option.splits)
qed simp

lemma secret_key_value_text: "k \<in> set secret_keys \<Longrightarrow> value_text (k @ ''='')"
  by (auto simp: secret_keys_def value_text_def value_byte_def byte_of_def)

lemma secret_key_no_eq: "\<forall>k\<in>set secret_keys. \<forall>p\<in>set k. p \<noteq> CHR ''=''"
  by (auto dest: secret_key_bytes)

lemma secret_key_lower: "\<forall>k\<in>set secret_keys. \<forall>p\<in>set k. lower_byte p = p"
  using secret_key_bytes by blast

lemma first_match_eq_sign:
  assumes "first_match s secret_keys = Some n" shows "n < length s" "s ! n = CHR ''=''"
proof -
  from assms obtain k where "match_key s k = Some n" by (auto dest: first_match_Some)
  then obtain t where "drop n s = CHR ''='' # t"
    by (auto simp: match_key_def split: option.splits list.splits if_splits)
  then show "n < length s" "s ! n = CHR ''=''"
    by (metis drop_all leI list.distinct(1), metis nth_via_drop)
qed

lemma sanitize_match:
  assumes "first_match s secret_keys = Some n"
  shows "sanitize s = take n s @ ''=<redacted>'' @ sanitize (dropWhile value_byte (drop (Suc n) s))"
proof -
  obtain c t where "s = c # t" using first_match_eq_sign(1) [OF assms] by (cases s) auto
  with assms show ?thesis by (subst sanitize.simps) simp
qed

lemma sanitize_no_match:
  "first_match (c # t) secret_keys = None \<Longrightarrow> sanitize (c # t) = c # sanitize t"
  by (subst sanitize.simps) simp



end
