(* ===== verification/Publish_Lifecycle.thy ===== *)
theory Publish_Lifecycle
  imports Database Error_Redaction
begin

text \<open>
  \<open>services/publish/lifecycle.go\<close>: the status transitions of a publication and the attempts of a
  scheduled publication. A Go method that takes a pointer to a publication and updates its fields
  returns the updated publication here. The first half of the theory is the code, the second the
  compare-and-set lemmas of the publication status and the invariant of the attempts table.
\<close>

section \<open>Queries and statements\<close>

definition workspace_scope :: "uuid \<Rightarrow> uuid \<Rightarrow> bool" where
  "workspace_scope wid row_wid = (wid = uuid_nil \<or> row_wid = wid)"

definition active_publication_statuses :: "publication_status list" where
  "active_publication_statuses = [PublicationStatusQueued, PublicationStatusPublishing]"

definition publication_query :: "publication \<Rightarrow> publication \<Rightarrow> bool" where
  "publication_query pub r =
     (pub_ID r = pub_ID pub \<and> (pub_WorkspaceID pub \<noteq> uuid_nil \<longrightarrow> pub_WorkspaceID r = pub_WorkspaceID pub))"

definition update_publications :: "(publication \<Rightarrow> bool) \<Rightarrow> (publication \<Rightarrow> publication) \<Rightarrow> nat mpp" where
  "update_publications p f = exec (\<lambda>d. (count_rows p (publications d),
     d\<lparr>publications := update_rows p f (publications d)\<rparr>))"

definition update_schedules ::
  "(scheduled_publication \<Rightarrow> bool) \<Rightarrow> (scheduled_publication \<Rightarrow> scheduled_publication) \<Rightarrow> nat mpp" where
  "update_schedules p f = exec (\<lambda>d. (count_rows p (schedules d),
     d\<lparr>schedules := update_rows p f (schedules d)\<rparr>))"

definition update_attempts :: "(publish_attempt \<Rightarrow> bool) \<Rightarrow> (publish_attempt \<Rightarrow> publish_attempt) \<Rightarrow> nat mpp" where
  "update_attempts p f = exec (\<lambda>d. (count_rows p (attempts d),
     d\<lparr>attempts := update_rows p f (attempts d)\<rparr>))"

lemmas update_defs = update_publications_def update_schedules_def update_attempts_def

section \<open>Publication status\<close>

definition publication_state_changed_error :: "uuid \<Rightarrow> 'a mpp" where
  "publication_state_changed_error publicationID =
     bindE (first_row (\<lambda>d. find (\<lambda>r. pub_ID r = publicationID) (publications d))) (\<lambda>pub.
       if pub_Status pub = PublicationStatusQueued \<or> pub_Status pub = PublicationStatusPublishing
       then throw ErrPublicationAlreadyPublishing else throw ErrPublicationRequiresSync)"

definition mark_queued :: "publication \<Rightarrow> time \<Rightarrow> publication mpp" where
  "mark_queued pub queuedAt =
     bindE (update_publications (\<lambda>r. publication_query pub r \<and> pub_Status r = pub_Status pub)
       (\<lambda>r. r\<lparr>pub_Status := PublicationStatusQueued, pub_ErrorMessage := '''',
              pub_LastAttemptAt := Some queuedAt\<rparr>)) (\<lambda>n.
     if n = 0 then publication_state_changed_error (pub_ID pub)
     else ret (pub\<lparr>pub_Status := PublicationStatusQueued, pub_LastAttemptAt := Some queuedAt\<rparr>))"

definition mark_publishing :: "publication \<Rightarrow> time \<Rightarrow> publication mpp" where
  "mark_publishing pub startedAt =
     bindE (update_publications (\<lambda>r. publication_query pub r \<and> pub_Status r = pub_Status pub)
       (\<lambda>r. r\<lparr>pub_Status := PublicationStatusPublishing, pub_ErrorMessage := '''',
              pub_LastAttemptAt := Some startedAt\<rparr>)) (\<lambda>n.
     if n = 0 then publication_state_changed_error (pub_ID pub)
     else ret (pub\<lparr>pub_Status := PublicationStatusPublishing, pub_LastAttemptAt := Some startedAt\<rparr>))"

definition mark_failed_for_workspace :: "uuid \<Rightarrow> uuid \<Rightarrow> string \<Rightarrow> string \<Rightarrow> unit mpp" where
  "mark_failed_for_workspace workspaceID projectID platform message =
     bindE (update_publications
       (\<lambda>r. pub_ProjectID r = projectID \<and> pub_Platform r = platform \<and>
            workspace_scope workspaceID (pub_WorkspaceID r))
       (\<lambda>r. r\<lparr>pub_Status := PublicationStatusFailed, pub_ErrorMessage := sanitize message,
              pub_RetryCount := pub_RetryCount r + 1\<rparr>)) (\<lambda>_. ret ())"

definition mark_failed :: "uuid \<Rightarrow> string \<Rightarrow> string \<Rightarrow> unit mpp" where
  "mark_failed projectID platform message = mark_failed_for_workspace uuid_nil projectID platform message"

record publication_completion =
  pc_Status :: publication_status
  pc_RemoteID :: string
  pc_PublishURL :: string
  pc_ErrorMessage :: string

definition complete_publication :: "publication \<Rightarrow> publication_completion \<Rightarrow> publication mpp" where
  "complete_publication pub c =
     bindE (if pc_Status c = PublicationStatusSucceeded
            then bindE now_utc (\<lambda>now. ret (\<lambda>r. r\<lparr>pub_PublishedAt := Some now\<rparr>))
            else ret (\<lambda>r. r\<lparr>pub_RetryCount := pub_RetryCount r + 1\<rparr>)) (\<lambda>extra.
     bindE (update_publications (publication_query pub)
       (\<lambda>r. extra (r\<lparr>pub_Status := pc_Status c, pub_RemoteID := pc_RemoteID c,
              pub_PublishURL := pc_PublishURL c, pub_ErrorMessage := pc_ErrorMessage c\<rparr>))) (\<lambda>n.
     if n = 0 then publication_state_changed_error (pub_ID pub)
     else ret (pub\<lparr>pub_Status := pc_Status c, pub_RemoteID := pc_RemoteID c,
              pub_PublishURL := pc_PublishURL c, pub_ErrorMessage := pc_ErrorMessage c\<rparr>)))"

definition mark_prepublish_syncing_for_workspace :: "uuid \<Rightarrow> uuid \<Rightarrow> string list \<Rightarrow> unit mpp" where
  "mark_prepublish_syncing_for_workspace workspaceID projectID platforms =
     (if platforms = [] then ret ()
      else let sel = (\<lambda>r. pub_ProjectID r = projectID \<and> pub_Platform r \<in> set platforms \<and>
                          workspace_scope workspaceID (pub_WorkspaceID r));
               active = (\<lambda>r. sel r \<and> pub_Status r \<in> set active_publication_statuses)
      in transaction (
        bindE (select (\<lambda>d. count_rows active (publications d))) (\<lambda>activeCount.
        if activeCount > 0 then throw ErrPublicationAlreadyPublishing
        else bindE (update_publications (\<lambda>r. sel r \<and> pub_Status r \<notin> set active_publication_statuses)
              (\<lambda>r. r\<lparr>pub_DraftStatus := PublicationDraftStatusSyncing, pub_ErrorMessage := '''',
                     pub_Status := PublicationStatusSyncing\<rparr>)) (\<lambda>_.
        bindE (select (\<lambda>d. count_rows active (publications d))) (\<lambda>activeCount.
        if activeCount > 0 then throw ErrPublicationAlreadyPublishing else ret ())))))"

definition mark_prepublish_syncing :: "uuid \<Rightarrow> string list \<Rightarrow> unit mpp" where
  "mark_prepublish_syncing projectID platforms =
     mark_prepublish_syncing_for_workspace uuid_nil projectID platforms"

section \<open>Attempts of a schedule\<close>

definition startable_schedule_statuses :: "schedule_status list" where
  "startable_schedule_statuses = [ScheduledPublicationStatusScheduled,
     ScheduledPublicationStatusFailed, ScheduledPublicationStatusNeedsManualAction]"

definition create_attempt :: "publish_attempt \<Rightarrow> publish_attempt mpp" where
  "create_attempt a =
     bindE uuid_new (\<lambda>fresh. let a = publish_attempt_before_create fresh a in
     bindE (create_row attempts (\<lambda>rs d. d\<lparr>attempts := rs\<rparr>) (\<lambda>r x. att_ID x = att_ID r) a) (\<lambda>_. ret a))"

text \<open>\<open>SELECT COALESCE(MAX(attempt_no), 0)\<close> over the attempts of the schedule.\<close>

definition max_attempt_no :: "uuid \<Rightarrow> db \<Rightarrow> int" where
  "max_attempt_no scheduleID d =
     (let nos = map att_AttemptNo (filter (\<lambda>a. att_ScheduledPublicationID a = scheduleID) (attempts d))
      in if nos = [] then 0 else foldl max (hd nos) nos)"

text \<open>No row was startable: the schedule is missing or in another state.\<close>

definition start_refused :: "uuid \<Rightarrow> uuid \<Rightarrow> 'a mpp" where
  "start_refused workspaceID scheduleID =
     bindE (tryE (first_row (\<lambda>d. find (\<lambda>s. workspace_scope workspaceID (sch_WorkspaceID s) \<and>
                                           sch_ID s = scheduleID) (schedules d)))) (\<lambda>r. case r of
         Inl e \<Rightarrow> if err_is e ErrRecordNotFound then throw ErrScheduledPublicationMissing else throw e
       | Inr s \<Rightarrow> throw (ErrSuffix ErrScheduledPublicationNotStartable
                           (schedule_status_text (sch_Status s))))"

text \<open>
  The result of \<open>StartPublishAttemptForWorkspace\<close> is the attempt and a flag; \<open>None\<close> stands for
  the answer without an attempt (\<open>false\<close>, no error).
\<close>

definition start_attempt_tx :: "uuid \<Rightarrow> uuid \<Rightarrow> time \<Rightarrow> publish_attempt mpp" where
  "start_attempt_tx workspaceID scheduleID startedAt =
     bindE (update_schedules
       (\<lambda>s. sch_ID s = scheduleID \<and> sch_Status s \<in> set startable_schedule_statuses \<and>
            workspace_scope workspaceID (sch_WorkspaceID s))
       (\<lambda>s. s\<lparr>sch_Status := ScheduledPublicationStatusRunning, sch_LastError := ''''\<rparr>)) (\<lambda>n.
     if n = 0 then start_refused workspaceID scheduleID
     else bindE (select (max_attempt_no scheduleID)) (\<lambda>attemptNo.
       create_attempt \<lparr>att_ID = uuid_nil, att_ScheduledPublicationID = scheduleID,
         att_AttemptNo = attemptNo + 1, att_StartedAt = startedAt, att_FinishedAt = None,
         att_Status = PublishAttemptStatusRunning, att_RemoteID = '''', att_PublishURL = '''',
         att_ErrorCode = PublishAttemptStatusZero, att_ErrorMessage = ''''\<rparr>))"

definition start_publish_attempt_for_workspace :: "uuid \<Rightarrow> uuid \<Rightarrow> time \<Rightarrow> publish_attempt option mpp" where
  "start_publish_attempt_for_workspace workspaceID scheduleID startedAt =
     (if scheduleID = uuid_nil then ret None
      else bindE (asks (\<lambda>w. env_has_table (env w) ''scheduled_publications'' \<and>
                            env_has_table (env w) ''publish_attempts'')) (\<lambda>tables.
      if \<not> tables then ret None
      else bindE (tryE (transaction (start_attempt_tx workspaceID scheduleID startedAt))) (\<lambda>r. case r of
          Inl e \<Rightarrow> if err_is e ErrScheduledPublicationMissing then ret None
                   else if err_is e ErrScheduledPublicationNotStartable
                        then throw ErrPublicationAlreadyPublishing
                   else throw e
        | Inr attempt \<Rightarrow> ret (Some attempt))))"

definition start_publish_attempt :: "uuid \<Rightarrow> time \<Rightarrow> publish_attempt option mpp" where
  "start_publish_attempt scheduleID startedAt =
     start_publish_attempt_for_workspace uuid_nil scheduleID startedAt"

record publish_attempt_completion =
  pac_Status :: attempt_status
  pac_RemoteID :: string
  pac_PublishURL :: string
  pac_ErrorMessage :: string

definition finish_attempt_row :: "time \<Rightarrow> publish_attempt_completion \<Rightarrow> publish_attempt \<Rightarrow> publish_attempt" where
  "finish_attempt_row finishedAt c a = a\<lparr>att_FinishedAt := Some finishedAt, att_Status := pac_Status c,
     att_RemoteID := pac_RemoteID c, att_PublishURL := pac_PublishURL c,
     att_ErrorCode := (if pac_Status c \<noteq> PublishAttemptStatusSucceeded then pac_Status c
                       else PublishAttemptStatusZero),
     att_ErrorMessage := pac_ErrorMessage c\<rparr>"

definition finish_publish_attempt_for_workspace ::
  "uuid \<Rightarrow> publish_attempt \<Rightarrow> publish_attempt_completion \<Rightarrow> unit mpp" where
  "finish_publish_attempt_for_workspace workspaceID attempt c =
     bindE now_utc (\<lambda>finishedAt.
     let scheduleStatus = (if pac_Status c \<noteq> PublishAttemptStatusSucceeded
                           then ScheduledPublicationStatusFailed else ScheduledPublicationStatusPublished)
     in transaction (
       bindE (update_attempts (\<lambda>a. att_ID a = att_ID attempt) (finish_attempt_row finishedAt c)) (\<lambda>_.
       bindE (update_schedules (\<lambda>s. sch_ID s = att_ScheduledPublicationID attempt \<and>
                workspace_scope workspaceID (sch_WorkspaceID s))
              (\<lambda>s. s\<lparr>sch_Status := scheduleStatus, sch_LastError := pac_ErrorMessage c\<rparr>)) (\<lambda>_. ret ()))))"

definition finish_publish_attempt :: "publish_attempt \<Rightarrow> publish_attempt_completion \<Rightarrow> unit mpp" where
  "finish_publish_attempt attempt c = finish_publish_attempt_for_workspace uuid_nil attempt c"

section \<open>What the statements do\<close>

lemma update_publications_Inr: "update_publications p f w = (Inr n, w') \<Longrightarrow>
    n = count_rows p (publications (db w)) \<and>
    w' = (tick w)\<lparr>db := (db w)\<lparr>publications := update_rows p f (publications (db w))\<rparr>\<rparr>"
  unfolding update_publications_def by (drule exec_Inr) simp

lemma update_schedules_Inr: "update_schedules p f w = (Inr n, w') \<Longrightarrow>
    n = count_rows p (schedules (db w)) \<and>
    w' = (tick w)\<lparr>db := (db w)\<lparr>schedules := update_rows p f (schedules (db w))\<rparr>\<rparr>"
  unfolding update_schedules_def by (drule exec_Inr) simp

lemma update_attempts_Inr: "update_attempts p f w = (Inr n, w') \<Longrightarrow>
    n = count_rows p (attempts (db w)) \<and>
    w' = (tick w)\<lparr>db := (db w)\<lparr>attempts := update_rows p f (attempts (db w))\<rparr>\<rparr>"
  unfolding update_attempts_def by (drule exec_Inr) simp

lemma keeps_update_publications [keeps_intros]:
  "(\<And>d. J d \<Longrightarrow> J (d\<lparr>publications := update_rows p f (publications d)\<rparr>)) \<Longrightarrow> keeps (on_db J) (update_publications p f)"
  unfolding update_publications_def by (rule keeps_db_exec) simp

lemma update_publications_ok: "no_fault w \<Longrightarrow> update_publications p f w =
    (Inr (count_rows p (publications (db w))),
     (tick w)\<lparr>db := (db w)\<lparr>publications := update_rows p f (publications (db w))\<rparr>\<rparr>)"
  by (simp add: update_publications_def exec_ok)

lemma keeps_update_schedules [keeps_intros]:
  "(\<And>d. J d \<Longrightarrow> J (d\<lparr>schedules := update_rows p f (schedules d)\<rparr>)) \<Longrightarrow> keeps (on_db J) (update_schedules p f)"
  unfolding update_schedules_def by (rule keeps_db_exec) simp

lemma update_schedules_ok: "no_fault w \<Longrightarrow> update_schedules p f w =
    (Inr (count_rows p (schedules (db w))),
     (tick w)\<lparr>db := (db w)\<lparr>schedules := update_rows p f (schedules (db w))\<rparr>\<rparr>)"
  by (simp add: update_schedules_def exec_ok)

lemma keeps_update_attempts [keeps_intros]:
  "(\<And>d. J d \<Longrightarrow> J (d\<lparr>attempts := update_rows p f (attempts d)\<rparr>)) \<Longrightarrow> keeps (on_db J) (update_attempts p f)"
  unfolding update_attempts_def by (rule keeps_db_exec) simp

lemma update_attempts_ok: "no_fault w \<Longrightarrow> update_attempts p f w =
    (Inr (count_rows p (attempts (db w))),
     (tick w)\<lparr>db := (db w)\<lparr>attempts := update_rows p f (attempts (db w))\<rparr>\<rparr>)"
  by (simp add: update_attempts_def exec_ok)

lemmas update_ok = update_publications_ok update_schedules_ok update_attempts_ok

lemma publication_state_changed_error_db:
  "publication_state_changed_error pid w = (r, w') \<Longrightarrow> (\<exists>e. r = Inl e) \<and> db w' = db w"
  unfolding publication_state_changed_error_def
  by (cases r) (auto simp: bindE_Inr bindE_Inl dest!: first_row_Inr first_row_Inl split: if_splits)

subsection \<open>Compare and set\<close>


lemma mark_queued_Inr:
  assumes "mark_queued pub t w = (Inr pub', w')"
  shows "(\<exists>r\<in>set (publications (db w)). publication_query pub r \<and> pub_Status r = pub_Status pub)
    \<and> pub' = pub\<lparr>pub_Status := PublicationStatusQueued, pub_LastAttemptAt := Some t\<rparr>
    \<and> db w' = (db w)\<lparr>publications := update_rows (\<lambda>r. publication_query pub r \<and> pub_Status r = pub_Status pub)
        (\<lambda>r. r\<lparr>pub_Status := PublicationStatusQueued, pub_ErrorMessage := '''',
              pub_LastAttemptAt := Some t\<rparr>) (publications (db w))\<rparr>"
  using assms unfolding mark_queued_def
  by (auto simp: bindE_Inr dest!: update_publications_Inr publication_state_changed_error_db
      split: if_splits)

lemma mark_publishing_Inr:
  assumes "mark_publishing pub t w = (Inr pub', w')"
  shows "(\<exists>r\<in>set (publications (db w)). publication_query pub r \<and> pub_Status r = pub_Status pub)
    \<and> pub' = pub\<lparr>pub_Status := PublicationStatusPublishing, pub_LastAttemptAt := Some t\<rparr>
    \<and> db w' = (db w)\<lparr>publications := update_rows (\<lambda>r. publication_query pub r \<and> pub_Status r = pub_Status pub)
        (\<lambda>r. r\<lparr>pub_Status := PublicationStatusPublishing, pub_ErrorMessage := '''',
              pub_LastAttemptAt := Some t\<rparr>) (publications (db w))\<rparr>"
  using assms unfolding mark_publishing_def
  by (auto simp: bindE_Inr dest!: update_publications_Inr publication_state_changed_error_db
      split: if_splits)

text \<open>After a successful transition the row carries the new status, and no other row has its id.\<close>

lemma after_mark_queued:
  assumes "mark_queued pub t w = (Inr pub', w')" "distinct (map pub_ID (publications (db w)))"
  shows "\<exists>r\<in>set (publications (db w')). pub_ID r = pub_ID pub"
    and "\<And>r. r \<in> set (publications (db w')) \<Longrightarrow> pub_ID r = pub_ID pub \<Longrightarrow> pub_Status r = PublicationStatusQueued"
proof -
  let ?p = "\<lambda>r. publication_query pub r \<and> pub_Status r = pub_Status pub"
  let ?f = "\<lambda>r. r\<lparr>pub_Status := PublicationStatusQueued, pub_ErrorMessage := [], pub_LastAttemptAt := Some t\<rparr>"
  let ?g = "\<lambda>r. if ?p r then ?f r else r"
  have q: "set (publications (db w')) = ?g ` set (publications (db w))"
    using mark_queued_Inr [OF assms(1)] by (simp add: set_update_rows)
  obtain r0 where r0: "r0 \<in> set (publications (db w))" "?p r0"
    using mark_queued_Inr [OF assms(1)] by blast
  have id: "pub_ID (?g x) = pub_ID x" for x by simp
  have "?g r0 \<in> set (publications (db w'))" unfolding q using r0(1) by (rule imageI)
  moreover have "pub_ID (?g r0) = pub_ID pub" using r0(2) id by (simp add: publication_query_def)
  ultimately show "\<exists>r\<in>set (publications (db w')). pub_ID r = pub_ID pub" by (rule bexI [rotated])
  fix r assume r: "r \<in> set (publications (db w'))" "pub_ID r = pub_ID pub"
  then obtain x where x: "x \<in> set (publications (db w))" "r = ?g x" unfolding q by blast
  then have "pub_ID x = pub_ID r0" using r(2) r0(2) id by (simp add: publication_query_def)
  then have "x = r0" using row_by_id [OF assms(2) r0(1) x(1)] by simp
  with x r0 show "pub_Status r = PublicationStatusQueued" by simp
qed

lemma mark_queued_refused:
  assumes "no_fault w" "\<exists>r\<in>set (publications (db w)). pub_ID r = pub_ID pub"
    and "\<And>r. r \<in> set (publications (db w)) \<Longrightarrow> pub_ID r = pub_ID pub \<Longrightarrow> pub_Status r = PublicationStatusQueued"
    and "pub_Status pub \<noteq> PublicationStatusQueued"
  shows "fst (mark_queued pub t w) = Inl ErrPublicationAlreadyPublishing
    \<and> db (snd (mark_queued pub t w)) = db w"
proof -
  let ?p = "\<lambda>r. publication_query pub r \<and> pub_Status r = pub_Status pub"
  have none: "\<forall>r\<in>set (publications (db w)). \<not> ?p r" using assms(3,4) by (auto simp: publication_query_def)
  then have c: "count_rows ?p (publications (db w)) = 0" by simp
  obtain r where r: "find (\<lambda>r. pub_ID r = pub_ID pub) (publications (db w)) = Some r"
    using assms(2) by (cases "find (\<lambda>r. pub_ID r = pub_ID pub) (publications (db w))")
      (auto simp: find_None_set)
  then have "pub_Status r = PublicationStatusQueued" using assms(3) [of r] find_Some_set [of _ _ r] by blast
  with r c none assms(1) show ?thesis
    by (simp add: mark_queued_def bindE_def update_ok publication_state_changed_error_def
        first_row_ok update_rows_none)
qed

section \<open>The attempts table\<close>

definition running :: "publish_attempt \<Rightarrow> bool" where
  "running a = (att_Status a = PublishAttemptStatusRunning)"

definition attempts_of :: "uuid \<Rightarrow> db \<Rightarrow> publish_attempt list" where
  "attempts_of s d = filter (\<lambda>a. att_ScheduledPublicationID a = s) (attempts d)"

text \<open>
  The invariant of the two tables: ids are distinct; the attempts of a schedule are numbered from 1
  without gaps in the order they were made; a schedule has at most one running attempt, and has one
  only while its own status is running.
\<close>

definition attempts_ok :: "db \<Rightarrow> bool" where
  "attempts_ok d \<longleftrightarrow> distinct (map att_ID (attempts d)) \<and> distinct (map sch_ID (schedules d))
     \<and> (\<forall>s. map att_AttemptNo (attempts_of s d) = map int [1..<Suc (length (attempts_of s d))])
     \<and> (\<forall>s. length (filter running (attempts_of s d)) \<le> 1)
     \<and> (\<forall>a\<in>set (attempts d). running a \<longrightarrow> (\<forall>s\<in>set (schedules d).
          sch_ID s = att_ScheduledPublicationID a \<longrightarrow> sch_Status s = ScheduledPublicationStatusRunning))"

lemma foldl_max_ge: "x \<le> foldl max (x :: int) ys"
  by (induction ys arbitrary: x) (auto intro: max.coboundedI1 order_trans [rotated])

lemma foldl_max_upt: "foldl max 1 (map int [1..<Suc n]) = max 1 (int n)"
  by (induction n) auto

lemma max_attempt_no_ok:
  assumes "attempts_ok d" shows "max_attempt_no s d = int (length (attempts_of s d))"
proof -
  have nos: "map att_AttemptNo (attempts_of s d) = map int [1..<Suc (length (attempts_of s d))]"
    using assms by (simp add: attempts_ok_def)
  show ?thesis
  proof (cases "attempts_of s d")
    case Nil
    then show ?thesis by (simp add: max_attempt_no_def Let_def attempts_of_def)
  next
    case (Cons a as)
    then have "hd (map att_AttemptNo (attempts_of s d)) = 1"
      using nos by (simp add: upt_rec)
    then have "max_attempt_no s d = foldl max 1 (map att_AttemptNo (attempts_of s d))"
      using Cons by (simp add: max_attempt_no_def Let_def attempts_of_def [symmetric])
    also have "\<dots> = max 1 (int (length (attempts_of s d)))" by (simp only: nos foldl_max_upt)
    finally show ?thesis using Cons by simp
  qed
qed

subsection \<open>Starting an attempt\<close>

definition startable :: "uuid \<Rightarrow> uuid \<Rightarrow> scheduled_publication \<Rightarrow> bool" where
  "startable workspaceID scheduleID s = (sch_ID s = scheduleID \<and>
     sch_Status s \<in> set startable_schedule_statuses \<and> workspace_scope workspaceID (sch_WorkspaceID s))"

definition set_running :: "scheduled_publication \<Rightarrow> scheduled_publication" where
  "set_running s = s\<lparr>sch_Status := ScheduledPublicationStatusRunning, sch_LastError := ''''\<rparr>"

lemma set_running_simps [simp]: "sch_ID (set_running s) = sch_ID s"
  "sch_Status (set_running s) = ScheduledPublicationStatusRunning"
  "sch_WorkspaceID (set_running s) = sch_WorkspaceID s"
  by (simp_all add: set_running_def)

lemma max_attempt_no_schedules [simp]: "max_attempt_no s (d\<lparr>schedules := x\<rparr>) = max_attempt_no s d"
  by (simp add: max_attempt_no_def)

lemma attempts_of_schedules [simp]: "attempts_of s (d\<lparr>schedules := x\<rparr>) = attempts_of s d"
  by (simp add: attempts_of_def)

lemma create_attempt_Inr:
  assumes "create_attempt a w = (Inr a', w')"
  shows "a' = publish_attempt_before_create (env_uuid (env w) (calls w)) a
    \<and> att_ID a' \<notin> att_ID ` set (attempts (db w))
    \<and> db w' = (db w)\<lparr>attempts := attempts (db w) @ [a']\<rparr>"
  using assms unfolding create_attempt_def
  by (auto simp: bindE_Inr uuid_new_Inr Let_def dest!: create_row_Inr)

lemma start_refused_Inl: "start_refused wid sid w \<noteq> (Inr a, w')"
  by (cases "fst (first_row (\<lambda>d. find (\<lambda>s. workspace_scope wid (sch_WorkspaceID s) \<and> sch_ID s = sid)
      (schedules d)) w)") (simp_all add: start_refused_def case_prod_unfold)

lemma start_attempt_tx_Inr:
  assumes "start_attempt_tx wid sid t w = (Inr a, w')"
  shows "(\<exists>s\<in>set (schedules (db w)). startable wid sid s)"
    and "att_ID a \<notin> att_ID ` set (attempts (db w))"
    and "db w' = (db w)\<lparr>schedules := update_rows (startable wid sid) set_running (schedules (db w)),
           attempts := attempts (db w) @ [a]\<rparr>"
    and "att_ScheduledPublicationID a = sid" "att_AttemptNo a = max_attempt_no sid (db w) + 1"
    and "running a" "att_StartedAt a = t" "att_FinishedAt a = None"
proof -
  let ?q = "startable wid sid"
  have q: "(\<lambda>s. sch_ID s = sid \<and> sch_Status s \<in> set startable_schedule_statuses \<and>
      workspace_scope wid (sch_WorkspaceID s)) = ?q" by (simp add: startable_def fun_eq_iff)
  have g: "(\<lambda>s. s\<lparr>sch_Status := ScheduledPublicationStatusRunning, sch_LastError := ''''\<rparr>) = set_running"
    by (simp add: set_running_def fun_eq_iff)
  obtain n w1 where u: "update_schedules ?q set_running w = (Inr n, w1)" and n: "n \<noteq> 0"
    and rest: "bindE (select (max_attempt_no sid)) (\<lambda>attemptNo.
       create_attempt \<lparr>att_ID = uuid_nil, att_ScheduledPublicationID = sid,
         att_AttemptNo = attemptNo + 1, att_StartedAt = t, att_FinishedAt = None,
         att_Status = PublishAttemptStatusRunning, att_RemoteID = '''', att_PublishURL = '''',
         att_ErrorCode = PublishAttemptStatusZero, att_ErrorMessage = ''''\<rparr>) w1 = (Inr a, w')"
    using assms unfolding start_attempt_tx_def q g bindE_Inr [of "update_schedules _ _"]
    by (auto simp: start_refused_Inl split: if_splits)
  note u = update_schedules_Inr [OF u]
  with n show "\<exists>s\<in>set (schedules (db w)). ?q s" by simp
  obtain no w2 where sel: "select (max_attempt_no sid) w1 = (Inr no, w2)"
    and cr: "create_attempt \<lparr>att_ID = uuid_nil, att_ScheduledPublicationID = sid,
         att_AttemptNo = no + 1, att_StartedAt = t, att_FinishedAt = None,
         att_Status = PublishAttemptStatusRunning, att_RemoteID = '''', att_PublishURL = '''',
         att_ErrorCode = PublishAttemptStatusZero, att_ErrorMessage = ''''\<rparr> w2 = (Inr a, w')"
    using rest by (auto simp: bindE_Inr)
  have d2: "db w2 = (db w)\<lparr>schedules := update_rows ?q set_running (schedules (db w))\<rparr>"
    and no: "no = max_attempt_no sid (db w)"
    using select_Inr [OF sel] u by simp_all
  note c = create_attempt_Inr [OF cr]
  show "att_ID a \<notin> att_ID ` set (attempts (db w))"
    and "db w' = (db w)\<lparr>schedules := update_rows ?q set_running (schedules (db w)),
           attempts := attempts (db w) @ [a]\<rparr>"
    using conjunct1 [OF conjunct2 [OF c]] conjunct2 [OF conjunct2 [OF c]] d2 by simp_all
  show "att_ScheduledPublicationID a = sid" "att_AttemptNo a = max_attempt_no sid (db w) + 1"
    "running a" "att_StartedAt a = t" "att_FinishedAt a = None"
    using c no by (simp_all add: publish_attempt_before_create_def running_def)
qed

text \<open>
  The outcomes of \<open>StartPublishAttemptForWorkspace\<close>: an attempt, made by the transaction, or no
  change of the tables.
\<close>

lemma start_publish_attempt_outcomes:
  assumes "start_publish_attempt_for_workspace wid sid t w = (r, w')"
  obtains (started) a w1 w2 where "r = Inr (Some a)" "start_attempt_tx wid sid t w1 = (Inr a, w2)"
      "db w1 = db w" "db w' = db w2" "sid \<noteq> uuid_nil"
  | (unchanged) "db w' = db w" "r = Inr None \<or> (\<exists>e. r = Inl e)"
proof (cases "sid = uuid_nil \<or> \<not> (env_has_table (env w) ''scheduled_publications'' \<and>
    env_has_table (env w) ''publish_attempts'')")
  case True
  with assms have "r = Inr None" "w' = w"
    by (cases "sid = uuid_nil"; simp add: start_publish_attempt_for_workspace_def)+
  then show thesis using unchanged by simp
next
  case False
  obtain x w1 where tx: "transaction (start_attempt_tx wid sid t) w = (x, w1)" by fastforce
  show thesis
  proof (cases x)
    case (Inl e)
    with transaction_Inl_db tx have d: "db w1 = db w" by blast
    define m where "m = (if err_is e ErrScheduledPublicationMissing then Inr None
        else if err_is e ErrScheduledPublicationNotStartable then Inl ErrPublicationAlreadyPublishing
        else Inl e :: err + publish_attempt option)"
    have "(r, w') = (m, w1)"
      using assms tx False Inl 
      by (cases "err_is e ErrScheduledPublicationMissing"; cases "err_is e ErrScheduledPublicationNotStartable")
        (simp_all add: start_publish_attempt_for_workspace_def m_def)
    moreover have "m = Inr None \<or> (\<exists>e. m = Inl e)" by (simp add: m_def)
    ultimately have "w' = w1 \<and> (r = Inr None \<or> (\<exists>e. r = Inl e))" by simp
    with d show thesis using unchanged by simp
  next
    case (Inr a)
    obtain w2 where w2: "start_attempt_tx wid sid t w = (Inr a, w2)" "w1 = tick w2"
      using transaction_Inr [OF tx [unfolded Inr]] by (elim exE conjE)
    have "(r, w') = (Inr (Some a), w1)"
      unfolding assms [symmetric] using tx False Inr
      by (simp add: start_publish_attempt_for_workspace_def)
    then have "r = Inr (Some a)" "db w' = db w2" using w2(2) by simp_all
    moreover have "sid \<noteq> uuid_nil" using False by simp
    ultimately show thesis using w2(1) by (intro started [OF _ w2(1) refl])
  qed
qed

lemma attempts_ok_started:
  assumes ok: "attempts_ok d" and s: "s \<in> set (schedules d)" "startable wid sid s"
    and a: "att_ID a \<notin> att_ID ` set (attempts d)" "att_ScheduledPublicationID a = sid"
      "att_AttemptNo a = max_attempt_no sid d + 1" "running a"
  shows "attempts_ok (d\<lparr>schedules := update_rows (startable wid sid) set_running (schedules d),
           attempts := attempts d @ [a]\<rparr>)" (is "attempts_ok ?d")
proof -
  have of_x: "attempts_of x ?d = attempts_of x d @ (if x = sid then [a] else [])" for x
    using a(2) by (simp add: attempts_of_def)
  have sid: "sch_ID s = sid" and st: "sch_Status s \<noteq> ScheduledPublicationStatusRunning"
    using s(2) by (auto simp: startable_def startable_schedule_statuses_def)
  have idle: "filter running (attempts_of sid d) = []"
    using ok s(1) sid st by (auto simp: attempts_ok_def attempts_of_def filter_empty_conv)
  have "distinct (map att_ID (attempts ?d))" using ok a(1) by (auto simp: attempts_ok_def)
  moreover have "distinct (map sch_ID (schedules ?d))"
    using ok by (simp add: attempts_ok_def map_update_rows)
  moreover have "map att_AttemptNo (attempts_of x ?d) = map int [1..<Suc (length (attempts_of x ?d))]" for x
    using ok a(3) max_attempt_no_ok [OF ok, of sid] by (simp add: of_x attempts_ok_def)
  moreover have "length (filter running (attempts_of x ?d)) \<le> 1" for x
    using ok idle by (simp add: of_x attempts_ok_def)
  moreover have "sch_Status s' = ScheduledPublicationStatusRunning"
    if b: "b \<in> set (attempts ?d)" "running b" "s' \<in> set (schedules ?d)"
      "sch_ID s' = att_ScheduledPublicationID b" for b s'
  proof -
    from b(3) obtain s0 where s0: "s0 \<in> set (schedules d)"
      "s' = (if startable wid sid s0 then set_running s0 else s0)" by (auto simp: set_update_rows)
    then have id: "sch_ID s' = sch_ID s0" by simp
    show ?thesis
    proof (cases "b = a")
      case True
      with b(4) id a(2) sid have "sch_ID s0 = sch_ID s" by simp
      with s(1) s0(1) ok have "s0 = s" by (auto simp: attempts_ok_def intro: row_by_id)
      with s0(2) s(2) show ?thesis by simp
    next
      case False
      with b(1) have "b \<in> set (attempts d)" by simp
      with ok b(2,4) s0(1) id have "sch_Status s0 = ScheduledPublicationStatusRunning"
        by (simp add: attempts_ok_def)
      with s0(2) show ?thesis by simp
    qed
  qed
  ultimately show ?thesis unfolding attempts_ok_def by blast
qed

lemma attempts_ok_start:
  assumes "start_publish_attempt_for_workspace wid sid t w = (r, w')" "attempts_ok (db w)"
  shows "attempts_ok (db w')"
  using assms(1)
proof (cases rule: start_publish_attempt_outcomes)
  case (started a w1 w2)
  note tx = start_attempt_tx_Inr [OF started(2)]
  from tx(1) obtain s where "s \<in> set (schedules (db w1))" "startable wid sid s" by blast
  from attempts_ok_started [OF _ this tx(2,4,5,6)] tx(3) started(3,4) assms(2) show ?thesis by simp
qed (simp add: assms(2))

subsection \<open>Finishing an attempt\<close>

definition close_schedule :: "publish_attempt_completion \<Rightarrow> scheduled_publication \<Rightarrow> scheduled_publication" where
  "close_schedule c s = s\<lparr>sch_Status := (if pac_Status c \<noteq> PublishAttemptStatusSucceeded
       then ScheduledPublicationStatusFailed else ScheduledPublicationStatusPublished),
     sch_LastError := pac_ErrorMessage c\<rparr>"

lemma close_schedule_simps [simp]: "sch_ID (close_schedule c s) = sch_ID s"
  by (simp add: close_schedule_def)

lemma finish_attempt_row_simps [simp]: "att_ID (finish_attempt_row t c a) = att_ID a"
  "att_ScheduledPublicationID (finish_attempt_row t c a) = att_ScheduledPublicationID a"
  "att_AttemptNo (finish_attempt_row t c a) = att_AttemptNo a"
  "att_Status (finish_attempt_row t c a) = pac_Status c"
  by (simp_all add: finish_attempt_row_def)

definition finished_db :: "uuid \<Rightarrow> publish_attempt \<Rightarrow> time \<Rightarrow> publish_attempt_completion \<Rightarrow> db \<Rightarrow> db" where
  "finished_db wid h t c d = d\<lparr>
     attempts := update_rows (\<lambda>a. att_ID a = att_ID h) (finish_attempt_row t c) (attempts d),
     schedules := update_rows (\<lambda>s. sch_ID s = att_ScheduledPublicationID h \<and>
       workspace_scope wid (sch_WorkspaceID s)) (close_schedule c) (schedules d)\<rparr>"

lemma finish_publish_attempt_outcomes:
  assumes "finish_publish_attempt_for_workspace wid h c w = (r, w')"
  shows "(\<exists>e. r = Inl e) \<and> db w' = db w \<or>
    r = Inr () \<and> db w' = finished_db wid h (env_now (env w) (calls w)) c (db w)"
proof -
  let ?t = "env_now (env w) (calls w)"
  let ?body = "bindE (update_attempts (\<lambda>a. att_ID a = att_ID h) (finish_attempt_row ?t c)) (\<lambda>_.
       bindE (update_schedules (\<lambda>s. sch_ID s = att_ScheduledPublicationID h \<and>
                workspace_scope wid (sch_WorkspaceID s)) (close_schedule c)) (\<lambda>_. ret ()))"
  have g: "(\<lambda>s. s\<lparr>sch_Status := (if pac_Status c \<noteq> PublishAttemptStatusSucceeded
       then ScheduledPublicationStatusFailed else ScheduledPublicationStatusPublished),
     sch_LastError := pac_ErrorMessage c\<rparr>) = close_schedule c" by (simp add: fun_eq_iff close_schedule_def)
  have run: "transaction ?body (tick w) = (r, w')"
    using assms unfolding finish_publish_attempt_for_workspace_def Let_def g
    by (simp add: bindE_def now_utc_def)
  show ?thesis
  proof (cases r)
    case (Inl e)
    with run have "db w' = db (tick w)" by (simp add: transaction_Inl_db)
    with Inl show ?thesis by simp
  next
    case (Inr u)
    obtain w1 where "?body (tick w) = (Inr u, w1)" "w' = tick w1"
      using transaction_Inr [OF run [unfolded Inr]] by (elim exE conjE)
    then have "db w' = finished_db wid h ?t c (db w)"
      unfolding bindE_Inr finished_db_def
      by (elim exE conjE) (drule update_attempts_Inr, drule update_schedules_Inr, clarsimp)
    with Inr show ?thesis by simp
  qed
qed

lemma length_filter_conj: "length (filter (\<lambda>x. p x \<and> q x) xs) \<le> length (filter p xs)"
  by (induction xs) auto

lemma attempts_ok_finished:
  assumes ok: "attempts_ok d" and c: "pac_Status c \<noteq> PublishAttemptStatusRunning"
    and own: "\<And>a. a \<in> set (attempts d) \<Longrightarrow> running a \<Longrightarrow>
      att_ScheduledPublicationID a = att_ScheduledPublicationID h \<Longrightarrow> att_ID a = att_ID h"
  shows "attempts_ok (finished_db wid h t c d)"
proof -
  let ?d = "finished_db wid h t c d"
  let ?f = "\<lambda>a. if att_ID a = att_ID h then finish_attempt_row t c a else a"
  have att: "attempts ?d = map ?f (attempts d)" by (simp add: finished_db_def update_rows_def)
  have of_x: "attempts_of x ?d = map ?f (attempts_of x d)" for x
    unfolding attempts_of_def att by (simp add: filter_map o_def if_distrib cong: if_cong)
  have run: "running (?f a) \<longleftrightarrow> running a \<and> att_ID a \<noteq> att_ID h" for a
    using c by (simp add: running_def)
  have dis: "distinct (map att_ID (attempts d))" "distinct (map sch_ID (schedules d))"
    and nos: "map att_AttemptNo (attempts_of x d) = map int [1..<Suc (length (attempts_of x d))]" for x
    using ok unfolding attempts_ok_def by blast+
  have "map att_ID (attempts ?d) = map att_ID (attempts d)" by (simp add: att)
  then have "distinct (map att_ID (attempts ?d))" using dis by simp
  moreover have "distinct (map sch_ID (schedules ?d))"
    using dis by (simp add: finished_db_def map_update_rows)
  moreover have "map att_AttemptNo (attempts_of x ?d) = map int [1..<Suc (length (attempts_of x ?d))]" for x
  proof -
    have "map att_AttemptNo (attempts_of x ?d) = map att_AttemptNo (attempts_of x d)"
      unfolding of_x by simp
    moreover have "length (attempts_of x ?d) = length (attempts_of x d)" unfolding of_x by simp
    ultimately show ?thesis using nos [of x] by (simp only:)
  qed
  moreover have "length (filter running (attempts_of x ?d)) \<le> 1" for x
  proof -
    have "length (filter running (attempts_of x ?d))
        \<le> length (filter running (attempts_of x d))"
      unfolding of_x filter_map length_map o_def run by (rule length_filter_conj)
    with ok show ?thesis by (meson attempts_ok_def le_trans)
  qed
  moreover have "sch_Status s = ScheduledPublicationStatusRunning"
    if b: "b \<in> set (attempts ?d)" "running b" "s \<in> set (schedules ?d)"
      "sch_ID s = att_ScheduledPublicationID b" for b s
  proof -
    obtain a where a: "a \<in> set (attempts d)" "b = ?f a" using b(1) unfolding att by auto
    with b(2) have ra: "running a" "att_ID a \<noteq> att_ID h" using run by blast+
    with a have ba: "b = a" by simp
    with own a ra have other: "att_ScheduledPublicationID a \<noteq> att_ScheduledPublicationID h" by blast
    obtain s0 where s0: "s0 \<in> set (schedules d)" "s = (if sch_ID s0 = att_ScheduledPublicationID h \<and>
       workspace_scope wid (sch_WorkspaceID s0) then close_schedule c s0 else s0)"
      using b(3) by (auto simp: finished_db_def set_update_rows)
    then have "sch_ID s = sch_ID s0" by simp
    with other b(4) ba s0 have "s = s0" by simp
    with ok a(1) ra(1) s0(1) b(4) ba show ?thesis by (simp add: attempts_ok_def)
  qed
  ultimately show ?thesis unfolding attempts_ok_def by blast
qed

text \<open>An attempt that still runs may be finished by whoever holds it.\<close>

lemma running_unique:
  assumes "attempts_ok d" "a \<in> set (attempts d)" "b \<in> set (attempts d)" "running a" "running b"
    "att_ScheduledPublicationID a = att_ScheduledPublicationID b"
  shows "a = b"
proof -
  have "length (filter running (attempts_of (att_ScheduledPublicationID b) d)) \<le> 1"
    using assms(1) by (simp add: attempts_ok_def)
  moreover have "a \<in> set (filter running (attempts_of (att_ScheduledPublicationID b) d))"
    "b \<in> set (filter running (attempts_of (att_ScheduledPublicationID b) d))"
    using assms by (simp_all add: attempts_of_def)
  ultimately show ?thesis
    by (cases "filter running (attempts_of (att_ScheduledPublicationID b) d)") auto
qed

lemma attempts_ok_finish:
  assumes "finish_publish_attempt_for_workspace wid h c w = (r, w')" "attempts_ok (db w)"
    "pac_Status c \<noteq> PublishAttemptStatusRunning"
    "a \<in> set (attempts (db w))" "running a" "att_ID a = att_ID h"
    "att_ScheduledPublicationID a = att_ScheduledPublicationID h"
  shows "attempts_ok (db w')"
  using finish_publish_attempt_outcomes [OF assms(1)]
proof
  assume "r = Inr () \<and> db w' = finished_db wid h (env_now (env w) (calls w)) c (db w)"
  moreover have "attempts_ok (finished_db wid h t c (db w))" for t
    using assms(2,3)
  proof (rule attempts_ok_finished)
    fix b assume "b \<in> set (attempts (db w))" "running b"
      "att_ScheduledPublicationID b = att_ScheduledPublicationID h"
    with running_unique [OF assms(2,4) _ assms(5)] assms(6,7) show "att_ID b = att_ID h" by auto
  qed
  ultimately show ?thesis by simp
qed (simp add: assms(2))

section \<open>Properties\<close>

text \<open>
  C21: \<open>MarkQueued\<close> is a compare-and-set that one caller wins. When one request has queued a
  publication, any other request that read the same (not queued) row before and calls
  \<open>MarkQueued\<close> while the row is still queued gets \<open>ErrPublicationAlreadyPublishing\<close>, and
  changes no table.
\<close>

theorem mark_queued_exclusive:
  assumes "mark_queued pub t1 w1 = (Inr pub1, w2)" "distinct (map pub_ID (publications (db w1)))"
    and "publications (db w3) = publications (db w2)" "no_fault w3"
    and "pub_ID pub' = pub_ID pub" "pub_Status pub' \<noteq> PublicationStatusQueued"
  shows "fst (mark_queued pub' t2 w3) = Inl ErrPublicationAlreadyPublishing
    \<and> db (snd (mark_queued pub' t2 w3)) = db w3"
proof (rule mark_queued_refused [OF assms(4) _ _ assms(6)])
  note a = after_mark_queued [OF assms(1,2)]
  show "\<exists>r\<in>set (publications (db w3)). pub_ID r = pub_ID pub'" using a(1) assms(3,5) by simp
  show "\<And>r. r \<in> set (publications (db w3)) \<Longrightarrow> pub_ID r = pub_ID pub' \<Longrightarrow> pub_Status r = PublicationStatusQueued"
    using a(2) assms(3,5) by simp
qed

definition sample_publication :: publication where
  "sample_publication = \<lparr>pub_ID = 5, pub_WorkspaceID = 3, pub_ProjectID = 2, pub_Platform = ''x'',
     pub_PlatformAccountID = None, pub_Enabled = True, pub_Status = PublicationStatusDraft,
     pub_DraftStatus = PublicationDraftStatusReady, pub_ReviewStatus = PublicationReviewStatusDraft,
     pub_SyncRequired = False, pub_Config = ''{}'', pub_AdaptedContent = ''{1}'', pub_RemoteID = '''',
     pub_PublishURL = '''', pub_ErrorMessage = '''', pub_RetryCount = 0, pub_LastAttemptAt = None,
     pub_PublishedAt = None\<rparr>"

theorem mark_queued_exclusive_witness:
  "fst (mark_queued sample_publication 9
     (snd (mark_queued sample_publication 8 (start_world (empty_db\<lparr>publications := [sample_publication]\<rparr>)))))
   = Inl ErrPublicationAlreadyPublishing"
proof -
  let ?w = "start_world (empty_db\<lparr>publications := [sample_publication]\<rparr>)"
  have "mark_queued sample_publication 8 ?w = (Inr (sample_publication\<lparr>pub_Status := PublicationStatusQueued,
      pub_LastAttemptAt := Some 8\<rparr>), snd (mark_queued sample_publication 8 ?w))"
    by (simp add: mark_queued_def bindE_def update_ok publication_query_def)
  moreover have "no_fault (snd (mark_queued sample_publication 8 ?w))"
    by (simp add: mark_queued_def bindE_def update_ok publication_query_def)
  ultimately show ?thesis
    using mark_queued_exclusive [of sample_publication 8 ?w _ "snd (mark_queued sample_publication 8 ?w)"
        "snd (mark_queued sample_publication 8 ?w)" sample_publication 9]
    by (simp add: sample_publication_def)
qed

text \<open>
  C18: What \<open>StartPublishAttempt\<close> did when it returns. With an attempt: the schedule was startable
  (scheduled, failed or waiting for manual action) and is running now, the attempt is new, runs,
  and its number is one more than the number of attempts made before, whose rows are untouched.
  Without an attempt or with an error: no table changed.
\<close>

theorem start_publish_attempt_effect:
  assumes "start_publish_attempt_for_workspace wid sid t w = (r, w')" "attempts_ok (db w)"
  shows "case r of
      Inr (Some a) \<Rightarrow>
        (\<exists>s\<in>set (schedules (db w)). startable wid sid s \<and> set_running s \<in> set (schedules (db w')))
        \<and> attempts (db w') = attempts (db w) @ [a] \<and> att_ID a \<notin> att_ID ` set (attempts (db w))
        \<and> running a \<and> att_ScheduledPublicationID a = sid
        \<and> att_AttemptNo a = int (length (attempts_of sid (db w))) + 1
    | _ \<Rightarrow> db w' = db w"
  using assms(1)
proof (cases rule: start_publish_attempt_outcomes)
  case (started a w1 w2)
  note tx = start_attempt_tx_Inr [OF started(2)]
  from tx(1) obtain s where s: "s \<in> set (schedules (db w1))" "startable wid sid s" by blast
  then have "set_running s \<in> set (schedules (db w2))" unfolding tx(3) by (force simp: set_update_rows)
  moreover have "att_AttemptNo a = int (length (attempts_of sid (db w))) + 1"
    using tx(5) started(3) max_attempt_no_ok [OF assms(2)] by simp
  ultimately show ?thesis using started s tx(2,3,4,6) by auto
next
  case unchanged
  then show ?thesis by (auto split: option.split)
qed

definition sample_schedule :: scheduled_publication where
  "sample_schedule = \<lparr>sch_ID = 7, sch_WorkspaceID = 3, sch_ProjectID = 2, sch_PublicationID = 5,
     sch_PlatformAccountID = None, sch_ProjectVersionID = None, sch_ScheduledAt = 0,
     sch_Timezone = ''UTC'', sch_Status = ScheduledPublicationStatusScheduled,
     sch_IdempotencyKey = '''', sch_CreatedBy = 4, sch_CancelledBy = None, sch_LastError = '''',
     sch_CreatedAt = 0\<rparr>"

theorem start_publish_attempt_effect_witness:
  "\<exists>a w'. start_publish_attempt_for_workspace 3 7 8 (start_world (empty_db\<lparr>schedules := [sample_schedule]\<rparr>))
      = (Inr (Some a), w') \<and> attempts (db w') = [a] \<and> att_AttemptNo a = 1"
proof -
  let ?w = "start_world (empty_db\<lparr>schedules := [sample_schedule]\<rparr>)"
  have "attempts_ok (db ?w)" by (simp add: attempts_ok_def empty_db_def attempts_of_def)
  moreover have "\<exists>a w'. start_publish_attempt_for_workspace 3 7 8 ?w = (Inr (Some a), w')"
    by (simp add: start_publish_attempt_for_workspace_def transaction_def start_attempt_tx_def
        bindE_def asks_def tryE_def update_ok select_ok create_attempt_def uuid_new_def create_row_ok Let_def
        sample_schedule_def startable_schedule_statuses_def workspace_scope_def empty_db_def)
  ultimately show ?thesis
    using start_publish_attempt_effect [of 3 7 8 ?w]
    by (fastforce simp: empty_db_def attempts_of_def)
qed

text \<open>
  \<open>MarkPrepublishSyncing\<close> is all or nothing: when it succeeds, none of the selected
  publications was queued or publishing and each is syncing now with the rest of the table
  untouched; when it fails, no table changed.
\<close>

theorem mark_prepublish_syncing_atomic:
  assumes "mark_prepublish_syncing_for_workspace wid pid platforms w = (r, w')"
  shows "case r of
      Inl e \<Rightarrow> db w' = db w
    | Inr u \<Rightarrow> let sel = (\<lambda>p. pub_ProjectID p = pid \<and> pub_Platform p \<in> set platforms \<and>
                          workspace_scope wid (pub_WorkspaceID p))
        in (\<forall>p\<in>set (publications (db w)). sel p \<longrightarrow> pub_Status p \<notin> set active_publication_statuses)
         \<and> db w' = (db w)\<lparr>publications := map (\<lambda>p. if sel p
             then p\<lparr>pub_DraftStatus := PublicationDraftStatusSyncing, pub_ErrorMessage := '''',
                    pub_Status := PublicationStatusSyncing\<rparr> else p) (publications (db w))\<rparr>"
proof (cases "platforms = []")
  case True
  with assms have "r = Inr ()" "w' = w"
    by (auto simp: mark_prepublish_syncing_for_workspace_def)
  with True show ?thesis by (simp add: update_rows_def [symmetric] update_rows_none)
next
  case False
  define sel where "sel = (\<lambda>p :: publication. pub_ProjectID p = pid \<and> pub_Platform p \<in> set platforms \<and>
                          workspace_scope wid (pub_WorkspaceID p))"
  define f where "f = (\<lambda>p :: publication. p\<lparr>pub_DraftStatus := PublicationDraftStatusSyncing, pub_ErrorMessage := '''',
                    pub_Status := PublicationStatusSyncing\<rparr>)"
  define tx where "tx = bindE (select (\<lambda>d. count_rows (\<lambda>p. sel p \<and> pub_Status p \<in> set active_publication_statuses)
        (publications d))) (\<lambda>activeCount.
        if activeCount > 0 then throw ErrPublicationAlreadyPublishing
        else bindE (update_publications (\<lambda>p. sel p \<and> pub_Status p \<notin> set active_publication_statuses) f) (\<lambda>_.
        bindE (select (\<lambda>d. count_rows (\<lambda>p. sel p \<and> pub_Status p \<in> set active_publication_statuses)
        (publications d))) (\<lambda>activeCount.
        if activeCount > 0 then throw ErrPublicationAlreadyPublishing else ret ())))"
  have run: "transaction tx w = (r, w')"
    using assms False
    unfolding mark_prepublish_syncing_for_workspace_def Let_def tx_def sel_def f_def by simp
  show ?thesis
  proof (cases r)
    case (Inl e)
    with run show ?thesis by (simp add: transaction_Inl_db)
  next
    case (Inr u)
    define check where "check = select (\<lambda>d. count_rows (\<lambda>p. sel p \<and>
          pub_Status p \<in> set active_publication_statuses) (publications d))"
    define upd where "upd = update_publications (\<lambda>p. sel p \<and> pub_Status p \<notin> set active_publication_statuses) f"
    have tx: "tx = bindE check (\<lambda>activeCount.
        if activeCount > 0 then throw ErrPublicationAlreadyPublishing
        else bindE upd (\<lambda>_. bindE check (\<lambda>activeCount.
          if activeCount > 0 then throw ErrPublicationAlreadyPublishing else ret ())))"
      unfolding tx_def check_def upd_def by (rule refl)
    obtain w1 where "tx w = (Inr u, w1)" and w1: "w' = tick w1"
      using transaction_Inr [OF run [unfolded Inr]] by (elim exE conjE)
    then obtain n w2 m w3 w4 where s: "check w = (Inr 0, w2)"
      and u: "upd w2 = (Inr n, w3)" and c: "check w3 = (Inr m, w4)" and "w1 = w4"
      unfolding tx by (auto simp: bindE_Inr split: if_splits)
    note s = s [unfolded check_def] and u = u [unfolded upd_def]
    have d: "db w1 = db w3" using select_Inr [OF c [unfolded check_def]] \<open>w1 = w4\<close> by simp
    have none: "\<forall>p\<in>set (publications (db w)). sel p \<longrightarrow> pub_Status p \<notin> set active_publication_statuses"
      and w2: "db w2 = db w" using select_Inr [OF s] by (auto simp: eq_commute [of 0])
    have "map (\<lambda>p. if sel p then f p else p) (publications (db w))
      = update_rows (\<lambda>p. sel p \<and> pub_Status p \<notin> set active_publication_statuses) f (publications (db w))"
      using none by (simp add: update_rows_def)
    with update_publications_Inr [OF u] d w1 w2
    have "db w' = (db w)\<lparr>publications := map (\<lambda>p. if sel p then f p else p) (publications (db w))\<rparr>" by simp
    with none Inr show ?thesis by (simp add: sel_def f_def)
  qed
qed

theorem mark_prepublish_syncing_atomic_witness:
  "\<exists>w'. mark_prepublish_syncing_for_workspace 3 2 [''x''] (start_world (empty_db\<lparr>publications := [sample_publication]\<rparr>))
      = (Inr (), w') \<and> map pub_Status (publications (db w')) = [PublicationStatusSyncing]"
proof -
  let ?w = "start_world (empty_db\<lparr>publications := [sample_publication]\<rparr>)"
  have "\<exists>w'. mark_prepublish_syncing_for_workspace 3 2 [''x''] ?w = (Inr (), w')"
    by (simp add: mark_prepublish_syncing_for_workspace_def transaction_def bindE_def select_ok update_ok
        Let_def sample_publication_def active_publication_statuses_def count_rows_def update_rows_def)
  then show ?thesis
    using mark_prepublish_syncing_atomic [of 3 2 "[''x'']" ?w]
    by (fastforce simp: sample_publication_def workspace_scope_def)
qed

end
