(* ===== verification/Resilience_Run.thy ===== *)
theory Resilience_Run
  imports Database
begin

text \<open>
  Package \<open>pkg/resilience\<close>, the parts that call out: the registry of breakers by name, the two
  retry loops \<open>Run\<close> and \<open>ResilientRoundTripper.RoundTrip\<close>, and \<open>sleepContext\<close>. A breaker is a
  pointer kept in the registry for the life of the process, so its methods find it by name. The
  operation, the base transport and the policy's \<open>Sleep\<close> are arguments.
\<close>

section \<open>Registry\<close>

definition breaker_for :: "string \<Rightarrow> int \<Rightarrow> int64 \<Rightarrow> unit mpp" where
  "breaker_for name failureThreshold openAfter w =
     (Inr (), case breakers w name of
        Some _ \<Rightarrow> w
      | None \<Rightarrow> w\<lparr>breakers := (breakers w)(name \<mapsto> new_circuit_breaker name failureThreshold openAfter)\<rparr>)"

definition breaker_allow :: "string \<Rightarrow> (err option) mpp" where
  "breaker_allow name = bindE now_utc (\<lambda>now w. case breakers w name of
      None \<Rightarrow> (Inr None, w)
    | Some b \<Rightarrow> (case cb_allow now b of
        (r, b') \<Rightarrow> (Inr r, w\<lparr>breakers := (breakers w)(name \<mapsto> b')\<rparr>)))"

definition breaker_record :: "string \<Rightarrow> bool \<Rightarrow> unit mpp" where
  "breaker_record name success = bindE now_utc (\<lambda>now w. case breakers w name of
      None \<Rightarrow> (Inr (), w)
    | Some b \<Rightarrow> (Inr (), w\<lparr>breakers := (breakers w)(name \<mapsto> cb_record now success b)\<rparr>))"

definition sleep_context :: "int64 \<Rightarrow> unit mpp" where
  "sleep_context delay = (if delay \<le>s 0 then ret () else external (\<lambda>w. ((), w)))"

section \<open>Run\<close>

text \<open>
  The loop of \<open>Run\<close>: \<open>left\<close> is how many attempts remain, so the last one is \<open>left = 1\<close>.
\<close>

fun run_attempts ::
  "(string \<Rightarrow> string) \<Rightarrow> (int64 \<Rightarrow> unit mpp) \<Rightarrow> operation_policy \<Rightarrow> unit mpp \<Rightarrow> nat \<Rightarrow> int64 \<Rightarrow> err \<Rightarrow> unit mpp"
where
  "run_attempts ulow slp p operation 0 backoff lastErr =
     bindE (breaker_record (op_Name p) False) (\<lambda>_. throw lastErr)"
| "run_attempts ulow slp p operation (Suc left) backoff lastErr =
     bindE (tryE operation) (\<lambda>r. case r of
       Inr _ \<Rightarrow> bindE (breaker_record (op_Name p) True) (\<lambda>_. ret ())
     | Inl e \<Rightarrow>
         if \<not> retryable_error ulow e then bindE (breaker_record (op_Name p) True) (\<lambda>_. throw e)
         else if left = 0 then bindE (breaker_record (op_Name p) False) (\<lambda>_. throw e)
         else bindE (tryE (slp backoff)) (\<lambda>s. case s of
             Inl e' \<Rightarrow> bindE (breaker_record (op_Name p) False) (\<lambda>_. throw e')
           | Inr _ \<Rightarrow> run_attempts ulow slp p operation left
               (next_backoff backoff (op_MaxBackoff p)) e))"

definition resilience_run ::
  "(string \<Rightarrow> string) \<Rightarrow> (int64 \<Rightarrow> unit mpp) \<Rightarrow> operation_policy \<Rightarrow> unit mpp \<Rightarrow> unit mpp" where
  "resilience_run ulow slp policy operation =
     (let p = normalize_operation_policy policy in
      bindE (breaker_for (op_Name p) (op_FailureThreshold p) (op_OpenAfter p)) (\<lambda>_.
      bindE (breaker_allow (op_Name p)) (\<lambda>r. case r of
        Some e \<Rightarrow> throw (ErrWrap (op_Name p) e)
      | None \<Rightarrow> run_attempts ulow slp p operation (nat (op_MaxAttempts p)) (op_InitialBackoff p)
                  (ErrText ''''))))"

section \<open>RoundTrip\<close>

text \<open>
  Go's result of a transport is a response and an error, either of which may be absent. Closing a
  response body before the next attempt has no effect on the model.
\<close>

type_synonym http_result = "http_response option \<times> err option"

fun round_trip_attempts ::
  "(int64 \<Rightarrow> unit mpp) \<Rightarrow> http_policy \<Rightarrow> (http_request \<Rightarrow> http_result mpp) \<Rightarrow> http_request \<Rightarrow>
   int \<Rightarrow> nat \<Rightarrow> int64 \<Rightarrow> bool \<Rightarrow> http_result mpp"
where
  "round_trip_attempts slp p base req attempt 0 backoff failed =
     bindE (breaker_record (hp_Name p) (\<not> failed)) (\<lambda>_. ret (None, None))"
| "round_trip_attempts slp p base req attempt (Suc left) backoff failed =
     (case clone_request_for_attempt req attempt of
        Inl e \<Rightarrow> bindE (breaker_record (hp_Name p) False) (\<lambda>_. ret (None, Some e))
      | Inr attemptReq \<Rightarrow>
          bindE (base attemptReq) (\<lambda>(resp, e).
            let retry = retryable_http_failure attemptReq resp e p;
                failure = failed_http_attempt resp e in
            if \<not> retry then bindE (breaker_record (hp_Name p) (\<not> failure)) (\<lambda>_. ret (resp, e))
            else if left = 0 then
              bindE (breaker_record (hp_Name p) (\<not> (failed \<or> failure))) (\<lambda>_.
                ret (if e \<noteq> None then (None, e) else (resp, None)))
            else bindE (tryE (slp backoff)) (\<lambda>s. case s of
                Inl e' \<Rightarrow> bindE (breaker_record (hp_Name p) False) (\<lambda>_. ret (None, Some e'))
              | Inr _ \<Rightarrow> round_trip_attempts slp p base req (attempt + 1) left
                  (next_backoff backoff (hp_MaxBackoff p)) (failed \<or> failure))))"

text \<open>\<open>NewRoundTripper\<close> normalises the policy and looks the breaker up once.\<close>

definition new_round_tripper :: "http_policy \<Rightarrow> http_policy mpp" where
  "new_round_tripper policy =
     (let p = normalize_http_policy policy in
      bindE (breaker_for (hp_Name p) (hp_FailureThreshold p) (hp_OpenAfter p)) (\<lambda>_. ret p))"

definition round_trip ::
  "(int64 \<Rightarrow> unit mpp) \<Rightarrow> http_policy \<Rightarrow> (http_request \<Rightarrow> http_result mpp) \<Rightarrow> http_request \<Rightarrow> http_result mpp"
where
  "round_trip slp p base req =
     bindE (breaker_allow (hp_Name p)) (\<lambda>r. case r of
       Some e \<Rightarrow> ret (None, Some (ErrWrap (hp_Name p) e))
     | None \<Rightarrow> round_trip_attempts slp p base req 1 (nat (hp_MaxAttempts p)) (hp_InitialBackoff p) False)"

section \<open>How often the operation is invoked\<close>

text \<open>
  A meter counts invocations: it reads the part of the state the operation works on, which
  neither the clock, the breakers nor the sleep touch. \<open>grows \<mu> n m\<close> says that \<open>m\<close> adds at most
  \<open>n\<close> to it.
\<close>

definition meter :: "(world \<Rightarrow> nat) \<Rightarrow> bool" where
  "meter \<mu> \<longleftrightarrow> (\<forall>w f. \<mu> (tick w) = \<mu> w \<and> \<mu> (w\<lparr>breakers := f\<rparr>) = \<mu> w)"

definition grows :: "(world \<Rightarrow> nat) \<Rightarrow> nat \<Rightarrow> 'a mpp \<Rightarrow> bool" where
  "grows \<mu> n m \<longleftrightarrow> (\<forall>w. \<mu> (snd (m w)) \<le> \<mu> w + n)"

lemma grows_ret: "grows \<mu> n (ret x)" "grows \<mu> n (throw e)"
  by (simp_all add: grows_def)

lemma grows_bindE: "grows \<mu> a m \<Longrightarrow> (\<And>x. grows \<mu> b (f x)) \<Longrightarrow> a + b \<le> n \<Longrightarrow> grows \<mu> n (bindE m f)"
  unfolding grows_def bindE_def
  by (clarsimp split: prod.splits sum.splits) (smt (verit) add_le_mono1 le_trans snd_conv
      add.assoc add_le_cancel_left le_add1 nat_add_left_cancel_le)

lemma grows_tryE: "grows \<mu> n m \<Longrightarrow> grows \<mu> n (tryE m)"
  unfolding grows_def tryE_def by (clarsimp split: prod.splits) (metis snd_conv)

lemma grows_mono: "grows \<mu> a m \<Longrightarrow> a \<le> n \<Longrightarrow> grows \<mu> n m"
  unfolding grows_def by (meson add_left_mono le_trans)

lemma grows_breaker:
  assumes "meter \<mu>"
  shows "grows \<mu> 0 (breaker_for nm k t)" "grows \<mu> 0 (breaker_allow nm)" "grows \<mu> 0 (breaker_record nm s)"
  using assms
  by (auto simp: grows_def meter_def breaker_for_def breaker_allow_def breaker_record_def bindE_def
      now_utc_def split: option.splits prod.splits)

lemmas grows_intros = grows_ret grows_bindE grows_tryE grows_breaker

lemma grows_record:
  assumes "meter \<mu>" "grows \<mu> n m" shows "grows \<mu> n (bindE (breaker_record nm s) (\<lambda>_. m))"
  by (rule grows_bindE [OF grows_breaker(3) [OF assms(1)] assms(2)]) simp

lemma grows_case_sum:
  "(\<And>e. grows \<mu> n (g e)) \<Longrightarrow> (\<And>x. grows \<mu> n (f x)) \<Longrightarrow>
   grows \<mu> n (case r of Inl e \<Rightarrow> g e | Inr x \<Rightarrow> f x)"
  by (cases r) simp_all

lemma grows_If: "grows \<mu> n m \<Longrightarrow> grows \<mu> n m' \<Longrightarrow> grows \<mu> n (if b then m else m')"
  by simp

lemma grows_after_sleep:
  "grows \<mu> 0 (slp d) \<Longrightarrow> (\<And>s. grows \<mu> n (f s)) \<Longrightarrow> grows \<mu> n (bindE (tryE (slp d)) f)"
  by (rule grows_bindE [OF grows_tryE]) auto

lemma grows_run_attempts:
  assumes "meter \<mu>" "grows \<mu> 1 operation" "\<And>d. grows \<mu> 0 (slp d)"
  shows "grows \<mu> left (run_attempts ulow slp p operation left backoff lastErr)"
proof (induction left arbitrary: backoff lastErr)
  case 0
  show ?case unfolding run_attempts.simps by (intro grows_record [OF assms(1)] grows_ret)
next
  case (Suc left)
  have "grows \<mu> left (case r of
       Inr _ \<Rightarrow> bindE (breaker_record (op_Name p) True) (\<lambda>_. ret ())
     | Inl e \<Rightarrow>
         if \<not> retryable_error ulow e then bindE (breaker_record (op_Name p) True) (\<lambda>_. throw e)
         else if left = 0 then bindE (breaker_record (op_Name p) False) (\<lambda>_. throw e)
         else bindE (tryE (slp backoff)) (\<lambda>s. case s of
             Inl e' \<Rightarrow> bindE (breaker_record (op_Name p) False) (\<lambda>_. throw e')
           | Inr _ \<Rightarrow> run_attempts ulow slp p operation left
               (next_backoff backoff (op_MaxBackoff p)) e))" for r
    by (intro grows_case_sum grows_If grows_record [OF assms(1)] grows_ret
        grows_after_sleep [OF assms(3)] Suc.IH)
  then show ?case
    unfolding run_attempts.simps by (rule grows_bindE [OF grows_tryE [OF assms(2)]]) simp
qed

lemma grows_round_trip_attempts:
  assumes "meter \<mu>" "\<And>r. grows \<mu> 1 (base r)" "\<And>d. grows \<mu> 0 (slp d)"
  shows "grows \<mu> left (round_trip_attempts slp p base req attempt left backoff failed)"
proof (induction left arbitrary: attempt backoff failed)
  case 0
  show ?case unfolding round_trip_attempts.simps by (intro grows_record [OF assms(1)] grows_ret)
next
  case (Suc left)
  note rules = grows_case_sum grows_If grows_record [OF assms(1)] grows_ret
    grows_after_sleep [OF assms(3)] Suc.IH
  show ?case
    unfolding round_trip_attempts.simps Let_def case_prod_unfold
    by (intro rules, rule grows_bindE [OF assms(2), where b = left], intro rules, simp)
qed

section \<open>Every admitted call reports back\<close>

text \<open>
  \<open>breakers_ok\<close>: every registered breaker is well formed. \<open>settled nm\<close>: no probe of the breaker
  is in flight. \<open>lands nm m\<close>: from a well formed registry the computation ends in one where the
  breaker is settled, whatever it returns.
\<close>

definition breakers_ok :: "world \<Rightarrow> bool" where
  "breakers_ok w \<longleftrightarrow> (\<forall>nm b. breakers w nm = Some b \<longrightarrow> cb_ok b)"

definition settled :: "string \<Rightarrow> world \<Rightarrow> bool" where
  "settled nm w \<longleftrightarrow> (\<forall>b. breakers w nm = Some b \<longrightarrow> \<not> cb_halfOpenInFlight b)"

definition lands :: "string \<Rightarrow> 'a mpp \<Rightarrow> bool" where
  "lands nm m \<longleftrightarrow> (\<forall>w. breakers_ok w \<longrightarrow> breakers_ok (snd (m w)) \<and> settled nm (snd (m w)))"

lemma breakers_ok_tick [simp]: "breakers_ok (tick w) = breakers_ok w"
  by (simp add: breakers_ok_def)

lemma settled_tick [simp]: "settled nm (tick w) = settled nm w"
  by (simp add: settled_def)

lemma cb_record_settled: "cb_ok b \<Longrightarrow> \<not> cb_halfOpenInFlight (cb_record t s b)"
  by (auto simp: cb_ok_def cb_record_def cb_open_def Let_def split: circuit_state.splits)

lemma keeps_breaker_for [keeps_intros]: "keeps breakers_ok (breaker_for nm k t)"
  by (auto simp: keeps_def breaker_for_def breakers_ok_def cb_ok_new split: option.splits)

lemma keeps_breaker_allow [keeps_intros]: "keeps breakers_ok (breaker_allow nm)"
  unfolding keeps_def breaker_allow_def bindE_def now_utc_def
  by (clarsimp simp: breakers_ok_def split: option.splits prod.splits) (metis cb_ok_allow snd_conv)

lemma lands_record: "lands nm (breaker_record nm s)"
  unfolding lands_def breaker_record_def bindE_def now_utc_def
  by (auto simp: breakers_ok_def settled_def cb_ok_record cb_record_settled split: option.splits)

lemma lands_record_then: "lands nm (bindE (breaker_record nm s) (\<lambda>_. ret x))"
  "lands nm (bindE (breaker_record nm s) (\<lambda>_. throw e))"
  using lands_record [of nm s]
  by (auto simp: lands_def bindE_def ret_def throw_def split: prod.splits sum.splits)

lemma lands_bindE: "keeps breakers_ok m \<Longrightarrow> (\<And>x. lands nm (f x)) \<Longrightarrow>
    (\<And>e w. m w \<noteq> (Inl e, w)) \<Longrightarrow> (\<And>w e w'. m w \<noteq> (Inl e, w')) \<Longrightarrow> lands nm (bindE m f)"
  unfolding lands_def bindE_def
  by (clarsimp split: prod.splits sum.splits) (metis keepsD2 snd_conv)

lemma tryE_total: "tryE m w \<noteq> (Inl e, w')"
  by (auto simp: tryE_def split: prod.splits)

lemma lands_try: "keeps breakers_ok m \<Longrightarrow> (\<And>x. lands nm (f x)) \<Longrightarrow> lands nm (bindE (tryE m) f)"
  by (rule lands_bindE) (auto simp: tryE_total intro: keeps_intros)

lemma lands_case_sum: "(\<And>e. lands nm (g e)) \<Longrightarrow> (\<And>x. lands nm (f x)) \<Longrightarrow>
    lands nm (case r of Inl e \<Rightarrow> g e | Inr x \<Rightarrow> f x)"
  by (cases r) simp_all

lemma lands_If: "lands nm m \<Longrightarrow> lands nm m' \<Longrightarrow> lands nm (if b then m else m')"
  by simp

lemmas lands_intros = lands_record_then lands_try lands_case_sum lands_If

lemma lands_run_attempts:
  assumes "keeps breakers_ok operation" "\<And>d. keeps breakers_ok (slp d)"
  shows "lands (op_Name p) (run_attempts ulow slp p operation left backoff lastErr)"
proof (induction left arbitrary: backoff lastErr)
  case 0
  show ?case unfolding run_attempts.simps by (rule lands_intros)
next
  case (Suc left)
  show ?case unfolding run_attempts.simps by (intro lands_intros assms Suc.IH)
qed

lemma allow_refused_settled:
  assumes "breaker_allow nm w = (Inr (Some e), w')" "settled nm w" shows "settled nm w'"
  using assms
  by (auto simp: breaker_allow_def bindE_def now_utc_def settled_def cb_allow_def
      split: option.splits prod.splits if_splits)

lemma breaker_allow_total: "\<exists>r. breaker_allow nm w = (Inr r, snd (breaker_allow nm w))"
  by (auto simp: breaker_allow_def bindE_def now_utc_def split: option.splits prod.splits)

lemma normalize_operation_name:
  "op_Name (normalize_operation_policy p) = (if op_Name p = '''' then ''external-operation'' else op_Name p)"
  by (auto simp: normalize_operation_policy_def Let_def)

section \<open>Properties\<close>

text \<open>
  C40: \<open>Run\<close> invokes the operation at most \<open>MaxAttempts\<close> times (once when the policy gives no
  positive bound), and not at all when the breaker refuses the call: then the error is the
  breaker's, wrapped with the policy's name, and nothing the operation works on has changed.
\<close>

theorem run_invocation_bound:
  assumes "meter \<mu>" "grows \<mu> 1 operation" "\<And>d. grows \<mu> 0 (slp d)"
  shows "\<mu> (snd (resilience_run ulow slp policy operation w)) \<le> \<mu> w + nat (max 1 (op_MaxAttempts policy))
    \<and> (breakers w (op_Name (normalize_operation_policy policy)) = Some b \<longrightarrow>
       fst (cb_allow (env_now (env w) (calls w)) b) = Some e \<longrightarrow>
       fst (resilience_run ulow slp policy operation w)
         = Inl (ErrWrap (op_Name (normalize_operation_policy policy)) e)
       \<and> \<mu> (snd (resilience_run ulow slp policy operation w)) = \<mu> w)"
proof
  define p where "p = normalize_operation_policy policy"
  have n: "nat (op_MaxAttempts p) = nat (max 1 (op_MaxAttempts policy))"
    by (auto simp: p_def normalize_operation_policy_def Let_def)
  have "grows \<mu> (nat (op_MaxAttempts p)) (resilience_run ulow slp policy operation)"
    unfolding resilience_run_def Let_def p_def [symmetric]
    apply (rule grows_bindE [OF grows_breaker(1) [OF assms(1)], where b = "nat (op_MaxAttempts p)"])
     apply (rule grows_bindE [OF grows_breaker(2) [OF assms(1)], where b = "nat (op_MaxAttempts p)"])
    subgoal for _ r using grows_run_attempts [OF assms] by (cases r) (simp_all add: grows_ret)
    by simp_all
  then show "\<mu> (snd (resilience_run ulow slp policy operation w))
      \<le> \<mu> w + nat (max 1 (op_MaxAttempts policy))" by (simp add: grows_def n)
  show "breakers w (op_Name (normalize_operation_policy policy)) = Some b \<longrightarrow>
       fst (cb_allow (env_now (env w) (calls w)) b) = Some e \<longrightarrow>
       fst (resilience_run ulow slp policy operation w)
         = Inl (ErrWrap (op_Name (normalize_operation_policy policy)) e)
       \<and> \<mu> (snd (resilience_run ulow slp policy operation w)) = \<mu> w"
    using assms(1)
    by (auto simp: resilience_run_def Let_def p_def [symmetric] bindE_def breaker_for_def
        breaker_allow_def now_utc_def meter_def split: prod.splits)
qed

text \<open>
  An admitted call always reports to its breaker, so a probe is never leaked: when no probe was
  in flight before \<open>Run\<close>, none is afterwards, whatever the operation returned and however the
  sleep ended, and every breaker is still well formed.
\<close>

theorem run_settles_probe:
  assumes "breakers_ok w" "settled (op_Name (normalize_operation_policy policy)) w"
    and "keeps breakers_ok operation" "\<And>d. keeps breakers_ok (slp d)"
  shows "breakers_ok (snd (resilience_run ulow slp policy operation w)) \<and>
    settled (op_Name (normalize_operation_policy policy)) (snd (resilience_run ulow slp policy operation w))"
proof -
  define p where "p = normalize_operation_policy policy"
  define w1 where "w1 = snd (breaker_for (op_Name p) (op_FailureThreshold p) (op_OpenAfter p) w)"
  have b: "breaker_for (op_Name p) (op_FailureThreshold p) (op_OpenAfter p) w = (Inr (), w1)"
    by (simp add: w1_def breaker_for_def)
  have ok1: "breakers_ok w1" using keepsD2 [OF keeps_breaker_for b assms(1)] .
  have st1: "settled (op_Name p) w1"
    using assms(2) by (auto simp: w1_def breaker_for_def settled_def p_def new_circuit_breaker_def
        split: option.splits)
  obtain r w2 where a: "breaker_allow (op_Name p) w1 = (Inr r, w2)" using breaker_allow_total by metis
  have ok2: "breakers_ok w2" using keepsD2 [OF keeps_breaker_allow a ok1] .
  have run: "resilience_run ulow slp policy operation w = (case r of
        Some e \<Rightarrow> throw (ErrWrap (op_Name p) e)
      | None \<Rightarrow> run_attempts ulow slp p operation (nat (op_MaxAttempts p)) (op_InitialBackoff p)
                  (ErrText '''')) w2"
    by (simp add: resilience_run_def Let_def p_def [symmetric] bindE_def b a)
  show ?thesis
  proof (cases r)
    case None
    with run lands_run_attempts [OF assms(3,4), of p] ok2 show ?thesis
      by (simp add: lands_def p_def [symmetric])
  next
    case (Some e)
    with run a st1 ok2 show ?thesis by (simp add: p_def [symmetric] allow_refused_settled)
  qed
qed


text \<open>For the concrete runs: an operation that leaves a trace of each invocation and times out.\<close>

definition invocations :: "world \<Rightarrow> nat" where
  "invocations w = length (queue w)"

definition flaky :: "unit mpp" where
  "flaky w = (Inl (ErrText ''timeout''), w\<lparr>queue := sample_job # queue w\<rparr>)"

definition flaky_base :: "http_request \<Rightarrow> http_result mpp" where
  "flaky_base r w = (Inr (None, Some (ErrText ''timeout'')), w\<lparr>queue := sample_job # queue w\<rparr>)"

lemma invocations_meter: "meter invocations" "grows invocations 1 flaky"
  "grows invocations 1 (flaky_base r)"
  by (simp_all add: meter_def grows_def invocations_def flaky_def flaky_base_def tick_def)

theorem run_invocation_bound_witness:
  "invocations (snd (resilience_run id (\<lambda>_. ret ()) (default_operation_policy ''op'') flaky
     (start_world empty_db))) \<le> 2"
  using run_invocation_bound [OF invocations_meter(1,2), where slp = "\<lambda>_. ret ()"
      and policy = "default_operation_policy ''op''" and w = "start_world empty_db" and ulow = id]
  by (simp add: grows_ret default_operation_policy_def invocations_def [of "start_world empty_db"])

theorem run_settles_probe_witness:
  "settled ''op'' (snd (resilience_run id sleep_context (default_operation_policy ''op'')
     (throw ErrContextCanceled) (start_world empty_db)))"
proof -
  have "keeps breakers_ok (external (\<lambda>w. ((), w)))" by (rule keeps_external) simp_all
  then have "keeps breakers_ok (sleep_context d)" for d
    by (auto simp: sleep_context_def intro: keeps_intros)
  then show ?thesis
    using run_settles_probe [of "start_world empty_db" "default_operation_policy ''op''"
        "throw ErrContextCanceled" sleep_context id]
    by (simp add: breakers_ok_def settled_def normalize_operation_name default_operation_policy_def
        keeps_throw)
qed

text \<open>
  A request whose method is not safe to repeat is sent at most once (unless the policy allows
  it), and any request at most \<open>MaxAttempts\<close> times.
\<close>

theorem round_trip_invocation_bound:
  assumes "meter \<mu>" "\<And>r. grows \<mu> 1 (base r)" "\<And>d. grows \<mu> 0 (slp d)"
  shows "\<mu> (snd (round_trip slp p base req w)) \<le> \<mu> w +
    (if method_allows_retry (req_Method req) p then nat (hp_MaxAttempts p)
     else min 1 (nat (hp_MaxAttempts p)))"
proof -
  have once: "grows \<mu> (min 1 k) (round_trip_attempts slp p base req 1 k b False)"
    if "\<not> method_allows_retry (req_Method req) p" for k b
  proof (cases k)
    case 0
    then show ?thesis
      using grows_round_trip_attempts [where \<mu> = \<mu> and base = base and slp = slp and left = 0
          and failed = False, OF assms]
      by simp
  next
    case (Suc left)
    have "grows \<mu> 1 (bindE (base req) (\<lambda>(resp, e).
        bindE (breaker_record (hp_Name p) (\<not> failed_http_attempt resp e)) (\<lambda>_. ret (resp, e))))"
      by (rule grows_bindE [OF assms(2), where b = 0])
        (auto intro!: grows_record [OF assms(1)] grows_ret split: prod.split)
    with Suc that show ?thesis
      by (simp add: clone_request_for_attempt_def retryable_http_failure_def Let_def)
  qed
  have "grows \<mu> (if method_allows_retry (req_Method req) p then nat (hp_MaxAttempts p)
     else min 1 (nat (hp_MaxAttempts p))) (round_trip slp p base req)" (is "grows \<mu> ?n _")
    unfolding round_trip_def
    apply (rule grows_bindE [OF grows_breaker(2) [OF assms(1)], where b = "?n"])
    subgoal for r
      using once grows_round_trip_attempts [where \<mu> = \<mu> and base = base and slp = slp, OF assms]
      by (cases r) (simp_all add: grows_ret)
    by simp
  then show ?thesis by (simp add: grows_def)
qed

theorem round_trip_invocation_bound_witness:
  "invocations (snd (round_trip (\<lambda>_. ret ()) (default_http_policy ''api'') flaky_base
     \<lparr>req_Method = ''POST'', req_Body = False, req_GetBody = None\<rparr> (start_world empty_db))) \<le> 1"
  using round_trip_invocation_bound [OF invocations_meter(1,3), where slp = "\<lambda>_. ret ()"
      and p = "default_http_policy ''api''" and w = "start_world empty_db"
      and req = "\<lparr>req_Method = ''POST'', req_Body = False, req_GetBody = None\<rparr>"]
  by (simp add: grows_ret default_http_policy_def method_allows_retry_def
      invocations_def [of "start_world empty_db"])

text \<open>
  A failure that is not worth a retry counts as a success of the breaker: a half-open probe whose
  operation was cancelled closes the breaker although nothing was reached.
\<close>

theorem run_cancelled_probe_closes:
  "cb_state (the (breakers (snd (resilience_run id sleep_context (default_operation_policy ''op'')
     (throw ErrContextCanceled)
     ((start_world empty_db)\<lparr>breakers := [''op'' \<mapsto> cb_open (-100000000000) (new_circuit_breaker ''op'' 3 0)]\<rparr>)))
     ''op'')) = CircuitClosed"
  by (simp add: resilience_run_def normalize_operation_policy_def default_operation_policy_def Let_def
      breaker_for_def breaker_allow_def breaker_record_def bindE_def now_utc_def tryE_def
      new_circuit_breaker_def cb_open_def cb_allow_def cb_record_def word_sle_eq word_sless_alt
      second_def millisecond_def retryable_error_def eval_nat_numeral)

end
