(* ===== verification/Publish_Core.thy ===== *)
theory Publish_Core
  imports Access_Policy Publish_Lifecycle Redis_Queue Resilience_Run
begin

text \<open>
  What the parts of \<open>services/publish\<close> share: the service with its collaborators, the response,
  the records it writes (publish events, project activities), the workspace of a job, and the
  checks on a publication. The collaborators that are not modelled (account resolution, saved
  credentials, media references, browser cookies, the platform adapters, JSON decoding of foreign
  payloads) are the fields of \<open>publish_service\<close>: computations on the same world. Cache
  invalidation, read-model refresh, metrics and logging do not touch the modelled state and are
  left out.
\<close>

record publish_service =
  svc_queue :: bool
  svc_coordination :: bool
  svc_accounts :: bool
  svc_lower :: "string \<Rightarrow> string"
  svc_resolve_account :: "uuid \<Rightarrow> publication \<Rightarrow> publication mpp"
  svc_apply_credentials :: "uuid \<Rightarrow> publication \<Rightarrow> publication mpp"
  svc_media_refs :: "project \<Rightarrow> publication \<Rightarrow> publication mpp"
  svc_load_cookies :: "uuid \<Rightarrow> uuid \<Rightarrow> string \<Rightarrow> string mpp"
  svc_publish :: "string \<Rightarrow> publication \<Rightarrow> platform_account \<Rightarrow> (string \<times> string \<times> err option) mpp"
  svc_decode_job :: "string \<Rightarrow> err + publish_job"

definition coordination_queue_or_default :: "publish_service \<Rightarrow> bool" where
  "coordination_queue_or_default s = (if svc_coordination s then True else svc_queue s)"

record publish_response =
  pr_Status :: string
  pr_Message :: string
  pr_Platform :: string
  pr_RemoteID :: string
  pr_PublishURL :: string
  pr_ErrorMessage :: string
  pr_JobID :: string
  pr_IdempotencyKey :: string
  pr_QueuedAt :: "time option"
  pr_ScheduledPublicationID :: string
  pr_ScheduledAt :: "time option"

definition empty_response :: publish_response where
  "empty_response = \<lparr>pr_Status = '''', pr_Message = '''', pr_Platform = '''', pr_RemoteID = '''',
     pr_PublishURL = '''', pr_ErrorMessage = '''', pr_JobID = '''', pr_IdempotencyKey = '''',
     pr_QueuedAt = None, pr_ScheduledPublicationID = '''', pr_ScheduledAt = None\<rparr>"

definition publish_error_response :: "err \<Rightarrow> publish_response" where
  "publish_error_response e = empty_response\<lparr>pr_Status := ''error'', pr_Message := err_text e\<rparr>"

section \<open>Registered platforms\<close>

definition registered_platforms :: "string list" where
  "registered_platforms = [''wechat'', ''x'', ''zhihu'', ''douyin'']"

text \<open>\<open>Factory.GetPublisher\<close>: the error when no adapter is registered.\<close>

definition get_publisher :: "string \<Rightarrow> err option" where
  "get_publisher platform = (if platform \<in> set registered_platforms then None
     else Some (ErrText (''no publisher registered for platform: '' @ platform)))"

definition uses_stored_browser_cookies :: "string \<Rightarrow> bool" where
  "uses_stored_browser_cookies platform = (platform \<in> set [''zhihu'', ''douyin''])"

section \<open>Checks on a publication\<close>

definition normalize_idempotency_key :: "string \<Rightarrow> string" where
  "normalize_idempotency_key key = trim_space key"

definition publication_has_synced_draft :: "publication \<Rightarrow> bool" where
  "publication_has_synced_draft pub =
     (let content = trim_space (pub_AdaptedContent pub)
      in content \<noteq> '''' \<and> content \<noteq> ''{}'' \<and> content \<noteq> ''null'')"

definition publish_stale_after :: duration where
  "publish_stale_after = 2 * publish_lock_ttl"

definition publication_publishing_stale :: "time \<Rightarrow> publication \<Rightarrow> bool" where
  "publication_publishing_stale now pub =
     (if pub_Status pub \<noteq> PublicationStatusQueued \<and> pub_Status pub \<noteq> PublicationStatusPublishing then False
      else case pub_LastAttemptAt pub of
        None \<Rightarrow> False
      | Some t \<Rightarrow> now - t > publish_stale_after)"

definition find_publication :: "uuid \<Rightarrow> uuid \<Rightarrow> string \<Rightarrow> db \<Rightarrow> publication option" where
  "find_publication wid pid platform d =
     find (\<lambda>r. pub_WorkspaceID r = wid \<and> pub_ProjectID r = pid \<and> pub_Platform r = platform) (publications d)"

definition workspace_of_project :: "project \<Rightarrow> uuid mpp" where
  "workspace_of_project p = asks (\<lambda>w. project_workspace_id (personal_workspace_id w) p)"

section \<open>Records\<close>

text \<open>
  The workspace a \<open>BeforeCreate\<close> hook derives from the project, with the fallback user, looked up
  only when the record has none.
\<close>

definition hook_workspace :: "uuid \<Rightarrow> uuid \<Rightarrow> uuid \<Rightarrow> uuid mpp" where
  "hook_workspace given projectID fallbackUserID =
     (if given \<noteq> uuid_nil then ret given
      else if projectID = uuid_nil
        then asks (\<lambda>w. derive_workspace_id_from_project (personal_workspace_id w) None projectID fallbackUserID)
      else bindE (tryE (first_row (find_project projectID))) (\<lambda>r.
        asks (\<lambda>w. derive_workspace_id_from_project (personal_workspace_id w)
               (case r of Inr p \<Rightarrow> Some p | Inl _ \<Rightarrow> None) projectID fallbackUserID)))"

definition create_publish_event :: "publish_event \<Rightarrow> unit mpp" where
  "create_publish_event e =
     bindE (hook_workspace (ev_WorkspaceID e) (ev_ProjectID e) (ev_UserID e)) (\<lambda>wid.
     bindE uuid_new (\<lambda>fresh. bindE now_utc (\<lambda>now.
     create_row publish_events (\<lambda>rs d. d\<lparr>publish_events := rs\<rparr>)
       (\<lambda>r x. ev_ID x = ev_ID r \<and> ev_CreatedAt x = ev_CreatedAt r)
       (publish_event_before_create fresh wid now e))))"

definition record_publish_event :: "publish_event \<Rightarrow> unit mpp" where
  "record_publish_event e =
     (if ev_ProjectID e = uuid_nil \<or> ev_UserID e = uuid_nil \<or> ev_Platform e = '''' \<or> ev_JobID e = uuid_nil
      then ret ()
      else bindE (if ev_WorkspaceID e = uuid_nil
                  then bindE (tryE (first_row (find_project (ev_ProjectID e)))) (\<lambda>r. case r of
                      Inr p \<Rightarrow> bindE (workspace_of_project p) (\<lambda>wid. ret (e\<lparr>ev_WorkspaceID := wid\<rparr>))
                    | Inl _ \<Rightarrow> ret e)
                  else ret e) (\<lambda>e.
        create_publish_event (e\<lparr>ev_Status := (if ev_Status e = PublicationStatusZero
                                  then PublicationStatusDraft else ev_Status e)\<rparr>)))"

fun project_activity_text :: "project_activity_type \<Rightarrow> string" where
  "project_activity_text ProjectActivityPublishRequested = ''publish_requested''"
| "project_activity_text ProjectActivityPublishQueued = ''publish_queued''"
| "project_activity_text ProjectActivityPublishCompleted = ''publish_completed''"
| "project_activity_text (ProjectActivityOther s) = s"

definition create_project_activity :: "project_activity \<Rightarrow> unit mpp" where
  "create_project_activity a =
     bindE (hook_workspace (pact_WorkspaceID a) (pact_ProjectID a) (pact_ActorUserID a)) (\<lambda>wid.
     bindE uuid_new (\<lambda>fresh. bindE now_utc (\<lambda>now.
     create_row project_activities (\<lambda>rs d. d\<lparr>project_activities := rs\<rparr>)
       (\<lambda>r x. pact_ID x = pact_ID r \<and> pact_CreatedAt x = pact_CreatedAt r)
       (project_activity_before_create fresh wid now a))))"

definition record_project_publish_activity ::
  "uuid \<Rightarrow> uuid \<Rightarrow> uuid \<Rightarrow> project_activity_type \<Rightarrow> metadata \<Rightarrow> unit mpp" where
  "record_project_publish_activity workspaceID projectID userID eventType meta =
     (if projectID = uuid_nil \<or> userID = uuid_nil \<or> trim_space (project_activity_text eventType) = ''''
      then ret ()
      else bindE (first_row (find_project projectID)) (\<lambda>p.
        bindE (workspace_of_project p) (\<lambda>pws.
        if workspaceID \<noteq> uuid_nil \<and> workspaceID \<noteq> pws then throw ErrForbidden
        else create_project_activity
          \<lparr>pact_ID = uuid_nil, pact_WorkspaceID = (if workspaceID = uuid_nil then pws else workspaceID),
           pact_ProjectID = projectID, pact_ActorUserID = userID, pact_TargetUserID = None, pact_EventType = eventType,
           pact_Metadata = meta, pact_CreatedAt = 0\<rparr>)))"

section \<open>The workspace of a job\<close>

definition ensure_publish_job_workspace_id :: "publish_job \<Rightarrow> publish_job mpp" where
  "ensure_publish_job_workspace_id job =
     bindE (asks personal_workspace_id) (\<lambda>pws.
     let fallback = (if job_UserID job \<noteq> uuid_nil then job\<lparr>job_WorkspaceID := pws (job_UserID job)\<rparr> else job)
     in if job_ProjectID job = uuid_nil then ret fallback
        else bindE (tryE (first_row (find_project (job_ProjectID job)))) (\<lambda>r. case r of
            Inr p \<Rightarrow>
              (let wid = project_workspace_id pws p in
               if job_WorkspaceID job \<noteq> uuid_nil \<and> job_WorkspaceID job \<noteq> wid
               then throw ErrPublishJobWorkspaceMismatch
               else ret (job\<lparr>job_WorkspaceID := wid\<rparr>))
          | Inl e \<Rightarrow> if err_is e ErrRecordNotFound then ret fallback else throw e))"

definition event_of_job :: "publish_job \<Rightarrow> string \<Rightarrow> publication_status \<Rightarrow> publish_event" where
  "event_of_job job eventType st =
     \<lparr>ev_ID = uuid_nil, ev_PublicationID = job_PublicationID job, ev_WorkspaceID = job_WorkspaceID job,
      ev_ProjectID = job_ProjectID job, ev_UserID = job_UserID job, ev_Platform = job_Platform job,
      ev_JobID = job_JobID job, ev_IdempotencyKey = job_IdempotencyKey job, ev_EventType = eventType,
      ev_Status = st, ev_RemoteID = '''', ev_PublishURL = '''', ev_ErrorMessage = '''', ev_CreatedAt = 0\<rparr>"

section \<open>What the records leave alone\<close>

text \<open>
  Writing an event or an activity only adds to the two tables: any invariant that does not look at
  them is kept.
\<close>

definition ignores_records :: "(db \<Rightarrow> bool) \<Rightarrow> bool" where
  "ignores_records J \<longleftrightarrow> (\<forall>d es as. J d \<longrightarrow> J (d\<lparr>publish_events := es\<rparr>) \<and> J (d\<lparr>project_activities := as\<rparr>))"

lemma keeps_workspace_of_project [keeps_intros]: "keeps I (workspace_of_project p)"
  unfolding workspace_of_project_def by (intro keeps_intros)

lemma keeps_hook_workspace [keeps_intros]: "keeps (on_db J) (hook_workspace g p f)"
  unfolding hook_workspace_def by (intro keeps_intros)

lemma keeps_record_publish_event:
  "ignores_records J \<Longrightarrow> keeps (on_db J) (record_publish_event e)"
  unfolding record_publish_event_def create_publish_event_def
  by (intro keeps_intros) (simp add: ignores_records_def)

lemma keeps_record_project_publish_activity:
  "ignores_records J \<Longrightarrow> keeps (on_db J) (record_project_publish_activity wid pid uid t m)"
  unfolding record_project_publish_activity_def create_project_activity_def
  by (intro keeps_intros) (simp add: ignores_records_def)

lemma keeps_ensure_publish_job_workspace_id [keeps_intros]:
  "keeps (on_db J) (ensure_publish_job_workspace_id job)"
  unfolding ensure_publish_job_workspace_id_def Let_def by (intro keeps_intros)

text \<open>A concrete service for witnesses: its collaborators change nothing and publishing succeeds.\<close>

definition idle_service :: publish_service where
  "idle_service = \<lparr>svc_queue = True, svc_coordination = True, svc_accounts = True, svc_lower = id,
     svc_resolve_account = (\<lambda>_ p. ret p), svc_apply_credentials = (\<lambda>_ p. ret p),
     svc_media_refs = (\<lambda>_ p. ret p), svc_load_cookies = (\<lambda>_ _ _. ret ''[]''),
     svc_publish = (\<lambda>_ _ _. ret (''remote'', ''url'', None)), svc_decode_job = (\<lambda>_. Inl (ErrText ''json''))\<rparr>"

end
