(* ===== verification/Publish_Service.thy ===== *)
theory Publish_Service
  imports Publish_Core
begin

text \<open>
  Publishing (\<open>services/publish/service.go\<close>): \<open>PublishProjectInWorkspaceWithContext\<close> with its
  two wrappers, the cookies of a browser account, the manual X intent and the batch. The long
  function is cut where an error starts to need the \<open>failAttempt\<close> closure (\<open>publish_attempted\<close>)
  and where the publication is marked publishing (\<open>publish_marked\<close>).
\<close>

section \<open>Publishing\<close>

definition completion_of :: "attempt_status \<Rightarrow> string \<Rightarrow> string \<Rightarrow> string \<Rightarrow> publish_attempt_completion" where
  "completion_of st rid url msg =
     \<lparr>pac_Status = st, pac_RemoteID = rid, pac_PublishURL = url, pac_ErrorMessage = msg\<rparr>"

text \<open>The closure \<open>failAttempt\<close>: the attempt is finished as failed, its own error is dropped.\<close>

definition fail_attempt :: "uuid \<Rightarrow> publish_attempt option \<Rightarrow> err \<Rightarrow> 'a mpp" where
  "fail_attempt wid attempt e =
     bindE (case attempt of
         None \<Rightarrow> ret ()
       | Some a \<Rightarrow> ignoreE (finish_publish_attempt_for_workspace wid a
           (completion_of PublishAttemptStatusFailed '''' '''' (sanitize (err_text e))))) (\<lambda>_. throw e)"

definition or_fail_attempt :: "uuid \<Rightarrow> publish_attempt option \<Rightarrow> (err \<Rightarrow> err) \<Rightarrow> 'a mpp \<Rightarrow> 'a mpp" where
  "or_fail_attempt wid attempt g m =
     bindE (tryE m) (\<lambda>r. case r of Inl e \<Rightarrow> fail_attempt wid attempt (g e) | Inr x \<Rightarrow> ret x)"

definition empty_account :: platform_account where
  "empty_account = \<lparr>acct_ID = uuid_nil, acct_UserID = uuid_nil, acct_WorkspaceID = None,
     acct_OwnerUserID = None, acct_ConnectedByUserID = None, acct_Platform = '''', acct_ShareScope = '''', acct_Status = '''',
     acct_HealthStatus = '''', acct_CredentialSecretRef = '''', acct_Cookies = '''', acct_Credentials = '''',
     acct_Metadata = '''', acct_Config = '''', acct_UpdatedAt = 0\<rparr>"

definition apply_saved_browser_cookies ::
  "publish_service \<Rightarrow> uuid \<Rightarrow> string \<Rightarrow> platform_account \<Rightarrow> platform_account mpp" where
  "apply_saved_browser_cookies s userID platform account =
     (if \<not> uses_stored_browser_cookies platform \<or> acct_UserID account = uuid_nil then ret account
      else bindE (tryE (svc_load_cookies s userID (acct_ID account) platform)) (\<lambda>r. case r of
          Inl e \<Rightarrow> throw (ErrJoin (ErrSuffix ErrInvalidPlatformAccount (platform @ '' cookies are unavailable'')) e)
        | Inr cookies \<Rightarrow> ret (account\<lparr>acct_Cookies := cookies\<rparr>)))"

text \<open>
  The account of the publication, read without \<open>failAttempt\<close>, and its cookies.
\<close>

definition publish_account ::
  "publish_service \<Rightarrow> uuid \<Rightarrow> uuid \<Rightarrow> string \<Rightarrow> publish_attempt option \<Rightarrow> publication \<Rightarrow> platform_account mpp" where
  "publish_account s wid userID platform attempt pub =
     bindE (case pub_PlatformAccountID pub of
         Some aid \<Rightarrow> if aid \<noteq> uuid_nil
           then first_row (\<lambda>d. find (\<lambda>a. acct_ID a = aid \<and> acct_WorkspaceID a = Some wid) (accounts d))
           else ret empty_account
       | None \<Rightarrow> ret empty_account) (\<lambda>account.
     if uses_stored_browser_cookies platform
     then if acct_ID account = uuid_nil
          then fail_attempt wid attempt (ErrSuffix ErrInvalidPlatformAccount (platform @ '' account is not connected''))
          else or_fail_attempt wid attempt (\<lambda>e. e) (apply_saved_browser_cookies s userID platform account)
     else ret account)"

text \<open>The operation handed to \<open>resilience.Run\<close>: it assigns the two variables of the closure.\<close>

definition set_published :: "string \<Rightarrow> string \<Rightarrow> unit mpp" where
  "set_published rid url w = (Inr (), w\<lparr>published := (rid, url)\<rparr>)"

definition publish_operation ::
  "publish_service \<Rightarrow> string \<Rightarrow> publication \<Rightarrow> platform_account \<Rightarrow> unit mpp" where
  "publish_operation s platform pub account =
     bindE (svc_publish s platform pub account) (\<lambda>(rid, url, e).
     bindE (set_published rid url) (\<lambda>_. case e of None \<Rightarrow> ret () | Some e \<Rightarrow> throw e))"

definition publish_policy :: "string \<Rightarrow> operation_policy" where
  "publish_policy platform = (default_operation_policy (''publish-'' @ platform))\<lparr>op_MaxAttempts := 1\<rparr>"

text \<open>After the adapter has answered: the publication, the attempt and the activity.\<close>

definition publish_settle ::
  "uuid \<Rightarrow> uuid \<Rightarrow> string \<Rightarrow> uuid \<Rightarrow> publish_attempt option \<Rightarrow> publication \<Rightarrow> string \<Rightarrow> string \<Rightarrow> err option
   \<Rightarrow> publish_response mpp" where
  "publish_settle wid pid platform userID attempt pub rid url err =
     (let status = (case err of None \<Rightarrow> PublicationStatusSucceeded | Some _ \<Rightarrow> PublicationStatusFailed);
          errMsg = (case err of None \<Rightarrow> '''' | Some e \<Rightarrow> sanitize (err_text e))
      in bindE (or_fail_attempt wid attempt (\<lambda>e. e) (complete_publication pub
              \<lparr>pc_Status = status, pc_RemoteID = rid, pc_PublishURL = url, pc_ErrorMessage = errMsg\<rparr>)) (\<lambda>_.
         bindE (case attempt of
             None \<Rightarrow> ret ()
           | Some a \<Rightarrow> finish_publish_attempt_for_workspace wid a (completion_of
               (if status = PublicationStatusFailed then PublishAttemptStatusFailed else PublishAttemptStatusSucceeded)
               rid url errMsg)) (\<lambda>_.
         bindE (ignoreE (record_project_publish_activity wid pid userID ProjectActivityPublishCompleted
             [(''platform'', platform), (''status'', publication_status_text status), (''remote_id'', rid)])) (\<lambda>_.
         ret (empty_response\<lparr>pr_Status := publication_status_text status, pr_RemoteID := rid,
               pr_PublishURL := url, pr_ErrorMessage := errMsg\<rparr>)))))"

definition publish_marked ::
  "publish_service \<Rightarrow> uuid \<Rightarrow> uuid \<Rightarrow> string \<Rightarrow> uuid \<Rightarrow> publish_attempt option \<Rightarrow> publication \<Rightarrow> platform_account
   \<Rightarrow> publish_response mpp" where
  "publish_marked s wid pid platform userID attempt pub account =
     bindE (set_published '''' '''') (\<lambda>_.
     bindE (tryE (resilience_run (svc_lower s) sleep_context (publish_policy platform)
                   (publish_operation s platform pub account))) (\<lambda>r.
     bindE (asks published) (\<lambda>(rid, url).
     publish_settle wid pid platform userID attempt pub rid url
       (case r of Inl e \<Rightarrow> Some e | Inr _ \<Rightarrow> None))))"

definition requires_sync :: "publication \<Rightarrow> bool" where
  "requires_sync pub = (pub_Status pub = PublicationStatusSyncing \<or>
     \<not> publication_has_synced_draft pub \<and> pub_Status pub \<noteq> PublicationStatusQueued
       \<and> pub_Status pub \<noteq> PublicationStatusPublishing)"

definition publish_attempted ::
  "publish_service \<Rightarrow> uuid \<Rightarrow> project \<Rightarrow> publication \<Rightarrow> string \<Rightarrow> uuid \<Rightarrow> time \<Rightarrow> publish_attempt option
   \<Rightarrow> publish_response mpp" where
  "publish_attempted s wid proj pub platform userID startedAt attempt =
     (case get_publisher platform of
        Some e \<Rightarrow> fail_attempt wid attempt e
      | None \<Rightarrow>
          if requires_sync pub then fail_attempt wid attempt ErrPublicationRequiresSync
          else bindE (or_fail_attempt wid attempt
                (\<lambda>e. if err_is e ErrPlatformAccountForbidden then ErrForbidden else e)
                (svc_apply_credentials s userID pub)) (\<lambda>pub.
          bindE (or_fail_attempt wid attempt (\<lambda>e. e) (svc_media_refs s proj pub)) (\<lambda>pub.
          bindE (publish_account s wid userID platform attempt pub) (\<lambda>account.
          bindE (or_fail_attempt wid attempt (\<lambda>e. e) (mark_publishing pub startedAt)) (\<lambda>pub.
          publish_marked s wid (proj_ID proj) platform userID attempt pub account)))))"

definition publish_project_in_workspace ::
  "publish_service \<Rightarrow> uuid \<Rightarrow> uuid \<Rightarrow> string \<Rightarrow> uuid option \<Rightarrow> uuid \<Rightarrow> publish_response mpp" where
  "publish_project_in_workspace s workspaceID projectID platform scopeUserID scheduleID =
     (case scopeUserID of
        None \<Rightarrow> throw ErrForbidden
      | Some userID \<Rightarrow>
          bindE (project_for_publish projectID userID) (\<lambda>proj.
          bindE (workspace_of_project proj) (\<lambda>pws.
          if workspaceID \<noteq> uuid_nil \<and> workspaceID \<noteq> pws then throw ErrForbidden
          else bindE (tryE (first_row (find_publication pws projectID platform))) (\<lambda>r. case r of
              Inl _ \<Rightarrow> throw (ErrText (''publication record not found for platform: '' @ platform))
            | Inr pub \<Rightarrow>
                if \<not> pub_Enabled pub \<or> pub_Status pub = PublicationStatusCancelled
                then throw ErrPublicationDisabled
                else bindE now_utc (\<lambda>startedAt.
                  bindE (start_publish_attempt_for_workspace pws scheduleID startedAt) (\<lambda>attempt.
                  publish_attempted s pws proj pub platform userID startedAt attempt))))))"

definition publish_project_with_context ::
  "publish_service \<Rightarrow> uuid \<Rightarrow> string \<Rightarrow> uuid option \<Rightarrow> uuid \<Rightarrow> publish_response mpp" where
  "publish_project_with_context s projectID platform scopeUserID scheduleID =
     publish_project_in_workspace s uuid_nil projectID platform scopeUserID scheduleID"

definition publish_project ::
  "publish_service \<Rightarrow> uuid \<Rightarrow> string \<Rightarrow> uuid option \<Rightarrow> uuid \<Rightarrow> publish_response mpp" where
  "publish_project s projectID platform scopeUserID scheduleID =
     publish_project_with_context s projectID platform scopeUserID scheduleID"

text \<open>
  \<open>BatchPublishProject\<close>: one goroutine per platform; the model runs the platforms one after the
  other, in the order \<open>platforms\<close> has, one of the interleavings.
\<close>

fun batch_publish_project ::
  "publish_service \<Rightarrow> uuid \<Rightarrow> string list \<Rightarrow> uuid option \<Rightarrow> (string \<rightharpoonup> publish_response) mpp" where
  "batch_publish_project s projectID [] scopeUserID = ret (\<lambda>_. None)"
| "batch_publish_project s projectID (p # ps) scopeUserID =
     bindE (tryE (publish_project s projectID p scopeUserID uuid_nil)) (\<lambda>r.
     bindE (batch_publish_project s projectID ps scopeUserID) (\<lambda>results.
     ret (if p \<in> set ps then results
          else results(p \<mapsto> (case r of Inl e \<Rightarrow> publish_error_response e | Inr resp \<Rightarrow> resp)))))"

text \<open>\<open>BuildXPostIntentURL\<close> is an argument: it renders the adapted content.\<close>

definition create_x_post_intent ::
  "(string \<Rightarrow> err + string) \<Rightarrow> uuid \<Rightarrow> uuid option \<Rightarrow> publish_response mpp" where
  "create_x_post_intent build_url projectID scopeUserID =
     (case scopeUserID of
        None \<Rightarrow> throw ErrForbidden
      | Some userID \<Rightarrow>
          bindE (project_for_publish projectID userID) (\<lambda>_.
          bindE (tryE (first_row (\<lambda>d. find (\<lambda>r. pub_ProjectID r = projectID \<and> pub_Platform r = ''x'')
                                   (publications d)))) (\<lambda>r. case r of
              Inl _ \<Rightarrow> throw (ErrText ''publication record not found for platform: x'')
            | Inr pub \<Rightarrow>
                if \<not> pub_Enabled pub \<or> pub_Status pub = PublicationStatusCancelled
                then throw ErrPublicationDisabled
                else if \<not> publication_has_synced_draft pub then throw ErrPublicationRequiresSync
                else bindE (liftS (build_url (pub_AdaptedContent pub))) (\<lambda>url.
                  bindE (update_publications (\<lambda>r. pub_ID r = pub_ID pub)
                    (\<lambda>r. r\<lparr>pub_PublishURL := url, pub_ErrorMessage := ''''\<rparr>)) (\<lambda>_.
                  ret (empty_response\<lparr>pr_Status := ''manual_required'', pr_Platform := ''x'',
                         pr_PublishURL := url\<rparr>))))))"

section \<open>Frames\<close>

text \<open>
  The part of the world the lifecycle works on. The collaborators of the service do not write it,
  and the two that prepare the publication hand back the same row with other contents.
\<close>

definition rows_are ::
  "publication list \<Rightarrow> scheduled_publication list \<Rightarrow> publish_attempt list \<Rightarrow> env \<Rightarrow> world \<Rightarrow> bool" where
  "rows_are P S A e w \<longleftrightarrow> publications (db w) = P \<and> schedules (db w) = S \<and> attempts (db w) = A \<and> env w = e"

definition port_frame :: "'a mpp \<Rightarrow> bool" where
  "port_frame m \<longleftrightarrow> (\<forall>P S A e. keeps (rows_are P S A e) m)"

definition same_publication :: "publication \<Rightarrow> publication \<Rightarrow> bool" where
  "same_publication p q \<longleftrightarrow> pub_ID q = pub_ID p \<and> pub_WorkspaceID q = pub_WorkspaceID p \<and>
     pub_ProjectID q = pub_ProjectID p \<and> pub_Platform q = pub_Platform p"

definition returns_same :: "publication \<Rightarrow> publication mpp \<Rightarrow> bool" where
  "returns_same p m \<longleftrightarrow> (\<forall>w q w'. m w = (Inr q, w') \<longrightarrow> same_publication p q)"

definition ports_frame :: "publish_service \<Rightarrow> bool" where
  "ports_frame s \<longleftrightarrow>
     (\<forall>u p. port_frame (svc_apply_credentials s u p) \<and> returns_same p (svc_apply_credentials s u p)) \<and>
     (\<forall>pr p. port_frame (svc_media_refs s pr p) \<and> returns_same p (svc_media_refs s pr p)) \<and>
     (\<forall>u a pl. port_frame (svc_load_cookies s u a pl)) \<and>
     (\<forall>pl p a. port_frame (svc_publish s pl p a))"

text \<open>An assertion on that part is kept by everything that leaves the part alone.\<close>

definition on_rows ::
  "(publication list \<Rightarrow> scheduled_publication list \<Rightarrow> publish_attempt list \<Rightarrow> env \<Rightarrow> bool) \<Rightarrow> world \<Rightarrow> bool" where
  "on_rows J w = J (publications (db w)) (schedules (db w)) (attempts (db w)) (env w)"

lemma on_rows_simps [simp]: "on_rows J (tick w) = on_rows J w"
  "on_rows J (w\<lparr>breakers := b\<rparr>) = on_rows J w" "on_rows J (w\<lparr>published := p\<rparr>) = on_rows J w"
  by (simp_all add: on_rows_def)

lemma keeps_port: "port_frame m \<Longrightarrow> keeps (on_rows J) m"
  unfolding keeps_def port_frame_def
proof (intro allI impI)
  fix w assume f: "\<forall>P S A e w. rows_are P S A e w \<longrightarrow> rows_are P S A e (snd (m w))" and J: "on_rows J w"
  have "rows_are (publications (db w)) (schedules (db w)) (attempts (db w)) (env w) (snd (m w))"
    using f by (simp add: rows_are_def)
  with J show "on_rows J (snd (m w))" by (simp add: rows_are_def on_rows_def)
qed

lemma keeps_rows_sql: "(\<And>d. publications (snd (f d)) = publications d \<and> schedules (snd (f d)) = schedules d \<and>
    attempts (snd (f d)) = attempts d) \<Longrightarrow> keeps (on_rows J) (sql f)"
  unfolding sql_def by (rule keeps_external) (auto simp: on_rows_def split: prod.splits, metis snd_conv)

lemma keeps_rows_prims [keeps_intros]:
  "keeps (on_rows J) now_utc" "keeps (on_rows J) uuid_new" "keeps (on_rows J) (select q)"
  "keeps (on_rows J) (first_row q')" "keeps (on_rows J) (set_published a b)"
proof -
  show "keeps (on_rows J) now_utc" "keeps (on_rows J) uuid_new"
    by (auto intro: keeps_now_utc keeps_uuid_new)
  show sel: "keeps (on_rows J) (select q)" for q :: "db \<Rightarrow> 'x"
    unfolding select_def by (rule keeps_rows_sql) simp
  show "keeps (on_rows J) (first_row q')" unfolding first_row_def by (intro keeps_intros sel)
  show "keeps (on_rows J) (set_published a b)" by (simp add: keeps_def set_published_def on_rows_def)
qed

lemma keeps_rows_create: "(\<And>rs d. publications (put rs d) = publications d \<and> schedules (put rs d) = schedules d \<and>
    attempts (put rs d) = attempts d) \<Longrightarrow> keeps (on_rows J) (create_row rows put clash r)"
  unfolding create_row_def by (intro keeps_intros keeps_rows_sql) auto

lemma keeps_rows_workspace [keeps_intros]: "keeps I (hook_workspace g p f)"
  if "\<And>q :: db \<Rightarrow> project option. keeps I (first_row q)"
  unfolding hook_workspace_def by (intro keeps_intros that)

lemma keeps_rows_records [keeps_intros]:
  "keeps (on_rows J) (record_publish_event e)"
  "keeps (on_rows J) (record_project_publish_activity wid pid uid t m)"
  unfolding record_publish_event_def create_publish_event_def
    record_project_publish_activity_def create_project_activity_def
  by (intro keeps_intros keeps_rows_create; simp)+

lemma keeps_rows_access [keeps_intros]: "keeps (on_rows J) (project_for_publish pid uid)"
  unfolding project_for_publish_def can_publish_project_def access_defs Let_def
  by (intro keeps_intros)

lemma keeps_rows_run:
  assumes "keeps (on_rows J) operation"
  shows "keeps (on_rows J) (resilience_run ulow sleep_context p operation)"
proof -
  have rec: "keeps (on_rows J) (breaker_record n b)" for n b
    by (auto simp: keeps_def breaker_record_def bindE_def now_utc_def split: option.splits)
  have allow: "keeps (on_rows J) (breaker_allow n)" for n
    by (auto simp: keeps_def breaker_allow_def bindE_def now_utc_def split: option.splits prod.splits)
  have make: "keeps (on_rows J) (breaker_for n k t)" for n k t
    by (auto simp: keeps_def breaker_for_def split: option.splits)
  have sleep: "keeps (on_rows J) (sleep_context d)" for d
    unfolding sleep_context_def by (intro keeps_intros keeps_external) simp_all
  have "keeps (on_rows J) (run_attempts ulow sleep_context p' operation n d e)" for p' n d e
  proof (induction n arbitrary: d e)
    case 0
    show ?case unfolding run_attempts.simps by (intro keeps_intros rec)
  next
    case (Suc n)
    show ?case unfolding run_attempts.simps by (intro keeps_intros rec sleep assms Suc)
  qed
  then show ?thesis unfolding resilience_run_def Let_def by (intro keeps_intros make allow)
qed

section \<open>The attempt is closed\<close>

text \<open>
  \<open>attempt_pending A e attempt\<close>: the attempts stored before (\<open>A\<close>) and the one this call started, still
  running. \<open>attempts_settled A e\<close>: in a run without faults nothing runs that did not run before.
\<close>

definition attempt_pending :: "publish_attempt set \<Rightarrow> env \<Rightarrow> publish_attempt option \<Rightarrow> world \<Rightarrow> bool" where
  "attempt_pending A e attempt = on_rows (\<lambda>P S AT e'. e' = e \<and>
     attempts_ok (empty_db\<lparr>schedules := S, attempts := AT\<rparr>) \<and>
     (case attempt of None \<Rightarrow> set AT = A | Some a \<Rightarrow> set AT = insert a A \<and> running a))"

definition attempts_settled :: "publish_attempt set \<Rightarrow> env \<Rightarrow> world \<Rightarrow> bool" where
  "attempts_settled A e = on_rows (\<lambda>P S AT e'. e' = e \<and>
     attempts_ok (empty_db\<lparr>schedules := S, attempts := AT\<rparr>) \<and>
     ((\<forall>n. env_fault e n = None) \<longrightarrow> (\<forall>b\<in>set AT. running b \<longrightarrow> b \<in> A)))"

lemma attempts_ok_part: "attempts_ok (empty_db\<lparr>schedules := schedules d, attempts := attempts d\<rparr>) = attempts_ok d"
  by (simp add: attempts_ok_def attempts_of_def)

lemma attempts_settled_iff: "attempts_settled A e w \<longleftrightarrow> env w = e \<and> attempts_ok (db w) \<and>
    (no_fault w \<longrightarrow> (\<forall>b\<in>set (attempts (db w)). running b \<longrightarrow> b \<in> A))"
  by (auto simp: attempts_settled_def on_rows_def attempts_ok_part no_fault_def)

lemma attempt_pending_simps [simp]: "attempt_pending A e attempt (tick w) = attempt_pending A e attempt w"
  "attempt_pending A e attempt (w\<lparr>published := p\<rparr>) = attempt_pending A e attempt w"
  by (simp_all add: attempt_pending_def)

lemma attempt_pending_iff: "attempt_pending A e attempt w \<longleftrightarrow> env w = e \<and> attempts_ok (db w) \<and>
    (case attempt of None \<Rightarrow> set (attempts (db w)) = A
     | Some a \<Rightarrow> set (attempts (db w)) = insert a A \<and> running a)"
  by (auto simp: attempt_pending_def on_rows_def attempts_ok_part)

lemma keeps_env_updates [keeps_intros]: "keeps (env_is e) (update_schedules p f)"
  "keeps (env_is e) (update_attempts p' f')" "keeps (env_is e) (update_publications p'' f'')"
  unfolding update_schedules_def update_attempts_def update_publications_def by (intro keeps_intros)+

lemma keeps_env_finish: "keeps (env_is e) (finish_publish_attempt_for_workspace wid a c)"
  unfolding finish_publish_attempt_for_workspace_def Let_def by (intro keeps_intros)

lemma finish_publish_attempt_calm: "no_fault w \<Longrightarrow>
    finish_publish_attempt_for_workspace wid h c w = (r, w') \<Longrightarrow> r = Inr ()"
  by (auto simp: finish_publish_attempt_for_workspace_def Let_def transaction_def bindE_def now_utc_def
      update_ok no_fault_def tick_def update_defs exec_def sql_def external_def)

lemma finish_settles:
  assumes "attempt_pending A e (Some a) w" "pac_Status c \<noteq> PublishAttemptStatusRunning"
  shows "wp (finish_publish_attempt_for_workspace wid a c) (\<lambda>_. attempts_settled A e) (\<lambda>_. attempts_settled A e) w"
proof -
  have p: "env w = e" "attempts_ok (db w)" "set (attempts (db w)) = insert a A" "running a"
    using assms(1) by (simp_all add: attempt_pending_iff)
  have "attempts_settled A e w'" if f: "finish_publish_attempt_for_workspace wid a c w = (r, w')" for r w'
  proof -
    have e': "env w' = e"
      using keepsD2 [OF keeps_env_finish f, of e] p(1) by (simp add: env_is_def)
    have ok: "attempts_ok (db w')"
      using attempts_ok_finish [OF f p(2) assms(2), of a] p(3,4) by simp
    have "b \<in> A" if n: "no_fault w'" and b: "b \<in> set (attempts (db w'))" "running b" for b
    proof -
      have "no_fault w" using n e' p(1) by (simp add: no_fault_def)
      then have "db w' = finished_db wid a (env_now (env w) (calls w)) c (db w)"
        using finish_publish_attempt_calm [OF _ f] finish_publish_attempt_outcomes [OF f] by auto
      with b(1) obtain x where x: "x \<in> insert a A"
        "b = (if att_ID x = att_ID a then finish_attempt_row (env_now (env w) (calls w)) c x else x)"
        unfolding p(3) [symmetric] by (auto simp: finished_db_def set_update_rows)
      with b(2) assms(2) show ?thesis by (auto simp: running_def split: if_splits)
    qed
    with e' ok show ?thesis by (simp add: attempts_settled_iff)
  qed
  then show ?thesis by (intro wpI) blast+
qed

lemma pending_settles: "attempt_pending A e None w \<Longrightarrow> attempts_settled A e w"
  by (simp add: attempt_pending_iff attempts_settled_iff)

lemma fail_attempt_settles:
  assumes "attempt_pending A e attempt w" and "\<And>w'. attempts_settled A e w' \<Longrightarrow> E err w'"
  shows "wp (fail_attempt wid attempt err) Q E w"
proof (cases attempt)
  case None
  with assms show ?thesis by (simp add: fail_attempt_def wp_def pending_settles)
next
  case (Some a)
  have "wp (finish_publish_attempt_for_workspace wid a (completion_of PublishAttemptStatusFailed '''' ''''
      (sanitize (err_text err)))) (\<lambda>_. attempts_settled A e) (\<lambda>_. attempts_settled A e) w"
    by (rule finish_settles) (use assms(1) Some in \<open>simp_all add: completion_of_def\<close>)
  then have "wp (finish_publish_attempt_for_workspace wid a (completion_of PublishAttemptStatusFailed '''' ''''
      (sanitize (err_text err)))) (\<lambda>_ w'. wp (throw err) Q E w') (\<lambda>_ w'. wp (throw err) Q E w') w"
    by (rule wp_conseq) (auto intro: wp_throw assms(2))
  with Some show ?thesis unfolding fail_attempt_def by (auto intro!: wp_bindE wp_ignoreE)
qed

lemma or_fail_attempt_settles:
  assumes "keeps (attempt_pending A e attempt) m" "attempt_pending A e attempt w"
    and "\<And>err w'. attempts_settled A e w' \<Longrightarrow> E err w'" and "\<And>x w'. attempt_pending A e attempt w' \<Longrightarrow> Q x w'"
  shows "wp (or_fail_attempt wid attempt g m) Q E w"
  unfolding or_fail_attempt_def
  by (rule wp_bindE, rule wp_tryE, rule wp_keeps [OF assms(1,2)])
    (auto intro: wp_ret assms(4) fail_attempt_settles assms(3))

lemma keeps_pending_update [keeps_intros]:
  "keeps (attempt_pending A e attempt) (update_publications p f)"
  unfolding update_publications_def
  by (intro keeps_wpI wp_exec) (simp_all add: attempt_pending_def on_rows_def)

lemma keeps_pending_rows: "(\<And>J. keeps (on_rows J) m) \<Longrightarrow> keeps (attempt_pending A e attempt) m"
  unfolding attempt_pending_def by assumption

lemma keeps_settled_rows: "(\<And>J. keeps (on_rows J) m) \<Longrightarrow> keeps (attempts_settled A e) m"
  unfolding attempts_settled_def by assumption

lemma keeps_pending_prims [keeps_intros]:
  "keeps (attempt_pending A e attempt) now_utc" "keeps (attempt_pending A e attempt) (first_row q)"
  by (intro keeps_pending_rows keeps_intros)+

lemma keeps_pending_mark [keeps_intros]:
  "keeps (attempt_pending A e attempt) (mark_publishing pub t)"
  "keeps (attempt_pending A e attempt) (complete_publication pub c)"
  unfolding mark_publishing_def complete_publication_def publication_state_changed_error_def
  by (intro keeps_intros)+

lemma publish_account_settles:
  assumes "ports_frame s" "attempt_pending A e attempt w"
    and "\<And>w'. attempts_ok (db w') \<Longrightarrow> env w' = e \<Longrightarrow> E ErrRecordNotFound w'"
    and "\<And>x w'. attempts_ok (db w') \<Longrightarrow> env w' = e \<Longrightarrow> \<not> no_fault w' \<Longrightarrow> E x w'"
    and "\<And>err w'. attempts_settled A e w' \<Longrightarrow> E err w'" and "\<And>x w'. attempt_pending A e attempt w' \<Longrightarrow> Q x w'"
  shows "wp (publish_account s wid uid platform attempt pub) Q E w"
proof -
  have faulty: "E x (tick w)" if "fault_at w x" for x
    by (intro assms(4)) (use assms(2) that in \<open>auto simp: attempt_pending_iff no_fault_def fault_at_def\<close>)
  have missing: "E ErrRecordNotFound (tick w)"
    using assms(2,3) by (simp add: attempt_pending_iff)
  have cookies: "keeps (attempt_pending A e attempt) (apply_saved_browser_cookies s uid platform a)" for a
    unfolding apply_saved_browser_cookies_def
    by (intro keeps_intros keeps_pending_rows keeps_port) (use assms(1) in \<open>simp add: ports_frame_def\<close>)
  have tick: "attempt_pending A e attempt (tick w)" using assms(2) by simp
  have rest: "wp (if uses_stored_browser_cookies platform
     then if acct_ID account = uuid_nil
          then fail_attempt wid attempt (ErrSuffix ErrInvalidPlatformAccount (platform @ '' account is not connected''))
          else or_fail_attempt wid attempt (\<lambda>e. e) (apply_saved_browser_cookies s uid platform account)
     else ret account) Q E w'" if "attempt_pending A e attempt w'" for account w'
    by (intro wp_If fail_attempt_settles [OF that assms(5)] wp_ret assms(6) that
        or_fail_attempt_settles [OF cookies that assms(5)])
  show ?thesis unfolding publish_account_def
    by (intro wp_bindE wp_case_option wp_If wp_first_row wp_ret rest faulty missing assms(2) tick) assumption
qed

lemma publish_settle_settles:
  assumes "attempt_pending A e attempt w"
    and "\<And>err w'. attempts_settled A e w' \<Longrightarrow> E err w'" and "\<And>x w'. attempts_settled A e w' \<Longrightarrow> Q x w'"
  shows "wp (publish_settle wid pid platform uid attempt pub rid url err) Q E w"
proof -
  have activity: "keeps (attempts_settled A e) (ignoreE (record_project_publish_activity wid pid uid t m))" for t m
    by (intro keeps_settled_rows keeps_intros)
  have after: "wp (bindE (ignoreE (record_project_publish_activity wid pid uid t m)) (\<lambda>_. ret x)) Q E w'"
    if "attempts_settled A e w'" for t m x w'
    by (intro wp_bindE wp_keeps [OF activity that] wp_ret assms(2,3))
  show ?thesis unfolding publish_settle_def Let_def
  proof (intro wp_bindE or_fail_attempt_settles [OF keeps_pending_mark(2) assms(1,2)])
    fix x w1 assume p: "attempt_pending A e attempt w1"
    let ?st = "(case err of None \<Rightarrow> PublicationStatusSucceeded | Some _ \<Rightarrow> PublicationStatusFailed)"
    let ?c = "completion_of (if ?st = PublicationStatusFailed then PublishAttemptStatusFailed
        else PublishAttemptStatusSucceeded) rid url (case err of None \<Rightarrow> '''' | Some e \<Rightarrow> sanitize (err_text e))"
    have fin: "wp (case attempt of None \<Rightarrow> ret ()
        | Some a \<Rightarrow> finish_publish_attempt_for_workspace wid a ?c) (\<lambda>_. attempts_settled A e) (\<lambda>_. attempts_settled A e) w1"
    proof (cases attempt)
      case None
      with p show ?thesis by (simp add: wp_def pending_settles)
    next
      case (Some a)
      then show ?thesis using finish_settles [of A e a w1 ?c wid] p by (simp add: completion_of_def)
    qed
    show "wp (case attempt of None \<Rightarrow> ret () | Some a \<Rightarrow> finish_publish_attempt_for_workspace wid a ?c)
      (\<lambda>x. wp (bindE (ignoreE (record_project_publish_activity wid pid uid ProjectActivityPublishCompleted
             [(''platform'', platform), (''status'', publication_status_text ?st), (''remote_id'', rid)])) (\<lambda>_.
         ret (empty_response\<lparr>pr_Status := publication_status_text ?st, pr_RemoteID := rid,
               pr_PublishURL := url, pr_ErrorMessage := (case err of None \<Rightarrow> '''' | Some e \<Rightarrow> sanitize (err_text e))\<rparr>))) Q E) E w1"
      by (rule wp_conseq [OF fin]) (intro after assms(2), assumption)+
  qed
qed

lemma wp_set_published: "Q () (w\<lparr>published := (a, b)\<rparr>) \<Longrightarrow> wp (set_published a b) Q E w"
  by (simp add: wp_def set_published_def)

lemma publish_marked_settles:
  assumes "ports_frame s" "attempt_pending A e attempt w"
    and "\<And>err w'. attempts_settled A e w' \<Longrightarrow> E err w'" and "\<And>x w'. attempts_settled A e w' \<Longrightarrow> Q x w'"
  shows "wp (publish_marked s wid pid platform uid attempt pub account) Q E w"
proof -
  have run: "keeps (attempt_pending A e attempt) (resilience_run (svc_lower s) sleep_context (publish_policy platform)
                   (publish_operation s platform pub account))"
  proof (intro keeps_pending_rows keeps_rows_run)
    fix J show "keeps (on_rows J) (publish_operation s platform pub account)"
      unfolding publish_operation_def
      by (intro keeps_intros keeps_port) (use assms(1) in \<open>simp add: ports_frame_def\<close>)
  qed
  have after: "wp (bindE (asks published) (\<lambda>(rid, url).
     publish_settle wid pid platform uid attempt pub rid url x)) Q E w'"
    if "attempt_pending A e attempt w'" for x w'
    by (intro wp_bindE wp_asks wp_case_prod publish_settle_settles [OF that assms(3,4)])
  show ?thesis unfolding publish_marked_def
    by (rule wp_bindE, rule wp_set_published, rule wp_bindE, rule wp_tryE, rule wp_keeps [OF run],
        simp add: assms(2), (rule after, assumption)+)
qed

lemma publish_attempted_settles:
  assumes "ports_frame s" "attempt_pending A e attempt w"
    and "\<And>w'. attempts_ok (db w') \<Longrightarrow> env w' = e \<Longrightarrow> E ErrRecordNotFound w'"
    and "\<And>x w'. attempts_ok (db w') \<Longrightarrow> env w' = e \<Longrightarrow> \<not> no_fault w' \<Longrightarrow> E x w'"
    and "\<And>err w'. attempts_settled A e w' \<Longrightarrow> E err w'" and "\<And>x w'. attempts_settled A e w' \<Longrightarrow> Q x w'"
  shows "wp (publish_attempted s wid proj pub platform uid t attempt) Q E w"
proof -
  have ports: "keeps (attempt_pending A e attempt) (svc_apply_credentials s uid p)"
    "keeps (attempt_pending A e attempt) (svc_media_refs s proj p)" for p
    by (intro keeps_pending_rows keeps_port; use assms(1) in \<open>simp add: ports_frame_def\<close>)+
  note fail = fail_attempt_settles [where A = A and e = e and attempt = attempt, OF _ assms(5)]
    and ofail = or_fail_attempt_settles [where A = A and e = e and attempt = attempt, OF _ _ assms(5)]
  show ?thesis unfolding publish_attempted_def
    by (intro wp_case_option wp_If wp_bindE fail ofail [OF ports(1)] ofail [OF ports(2)]
        ofail [OF keeps_pending_mark(1) [of A e attempt]] assms(2)
        publish_account_settles [where A = A and e = e and attempt = attempt, OF assms(1)]
        publish_marked_settles [where A = A and e = e and attempt = attempt, OF assms(1)])
      (assumption | erule assms(6) | erule assms(5) | (rule assms(3), assumption+) | (rule assms(4), assumption+))+
qed

lemma start_pending:
  assumes "attempts_ok (db w)"
  shows "wp (start_publish_attempt_for_workspace wid sid t)
    (\<lambda>attempt. attempt_pending (set (attempts (db w))) (env w) attempt)
    (\<lambda>_. attempts_settled (set (attempts (db w))) (env w)) w"
proof -
  have e: "env w' = env w" if "start_publish_attempt_for_workspace wid sid t w = (r, w')" for r w'
  proof -
    have "keeps (env_is (env w)) (start_publish_attempt_for_workspace wid sid t)"
      unfolding start_publish_attempt_for_workspace_def start_attempt_tx_def start_refused_def
        create_attempt_def Let_def
      by (intro keeps_intros)
    from keepsD2 [OF this that] show ?thesis by (simp add: env_is_def)
  qed
  show ?thesis
  proof (rule wpI)
    fix attempt w' assume r: "start_publish_attempt_for_workspace wid sid t w = (Inr attempt, w')"
    note ok = attempts_ok_start [OF r assms]
    from r show "attempt_pending (set (attempts (db w))) (env w) attempt w'"
    proof (cases rule: start_publish_attempt_outcomes)
      case (started a w1 w2)
      with start_attempt_tx_Inr [OF started(2)] ok e [OF r] show ?thesis by (simp add: attempt_pending_iff)
    next
      case unchanged
      with ok e [OF r] show ?thesis by (simp add: attempt_pending_iff)
    qed
  next
    fix err w' assume r: "start_publish_attempt_for_workspace wid sid t w = (Inl err, w')"
    note ok = attempts_ok_start [OF r assms]
    from r show "attempts_settled (set (attempts (db w))) (env w) w'"
    proof (cases rule: start_publish_attempt_outcomes)
      case unchanged
      with ok e [OF r] show ?thesis by (simp add: attempts_settled_iff)
    qed simp
  qed
qed

section \<open>Properties\<close>

lemma publish_in_workspace_settles:
  assumes "ports_frame s" "attempts_ok (db w)"
  shows "wp (publish_project_in_workspace s wid pid platform scope sid)
    (\<lambda>_. attempts_settled (set (attempts (db w))) (env w))
    (\<lambda>err w'. attempts_ok (db w') \<and> env w' = env w \<and> (no_fault w' \<longrightarrow> err \<noteq> ErrRecordNotFound \<longrightarrow>
      attempts_settled (set (attempts (db w))) (env w) w')) w"
proof -
  let ?A = "set (attempts (db w))"
  define E where "E err w' \<longleftrightarrow> attempts_ok (db w') \<and> env w' = env w \<and>
    (no_fault w' \<longrightarrow> err \<noteq> ErrRecordNotFound \<longrightarrow> attempts_settled ?A (env w) w')" for err w'
  let ?Q = "\<lambda>_ :: publish_response. attempts_settled ?A (env w)"
  let ?J = "attempt_pending ?A (env w) None"
  have J: "?J w" using assms(2) by (simp add: attempt_pending_iff)
  have E: "E err w'" if "attempts_settled ?A (env w) w'" for err w'
    using that by (simp add: E_def attempts_settled_iff)
  have EJ: "E err w'" if "?J w'" for err w' using E pending_settles that by blast
  have access: "keeps ?J (project_for_publish p u)" for p u by (intro keeps_pending_rows keeps_intros)
  have start: "wp (start_publish_attempt_for_workspace pws sid t)
      (\<lambda>attempt. wp (publish_attempted s pws proj pub platform u t attempt) ?Q E) E w1" if "?J w1" for pws t proj pub u w1
  proof (rule wp_conseq)
    have w1: "set (attempts (db w1)) = ?A" "env w1 = env w" "attempts_ok (db w1)"
      using that by (simp_all add: attempt_pending_iff)
    show "wp (start_publish_attempt_for_workspace pws sid t) (\<lambda>attempt. attempt_pending ?A (env w) attempt)
      (\<lambda>_. attempts_settled ?A (env w)) w1" using start_pending [OF w1(3)] w1(1,2) by simp
    fix attempt w2 assume "attempt_pending ?A (env w) attempt w2"
    from publish_attempted_settles [OF assms(1) this, of E]
    show "wp (publish_attempted s pws proj pub platform u t attempt) ?Q E w2"
      by (simp add: E_def attempts_settled_iff)
  qed (rule E)
  show ?thesis unfolding E_def [symmetric]
    unfolding publish_project_in_workspace_def workspace_of_project_def
    by (intro wp_case_option wp_bindE wp_keeps [OF access J] wp_asks wp_If wp_tryE wp_first_row
        wp_case_sum wp_now_utc wp_throw start EJ; (simp only: attempt_pending_simps J)?)
qed

text \<open>
  C13: Publishing closes the attempt it opened. If no call fails, then whenever
  \<open>PublishProjectInWorkspaceWithContext\<close> returns, with a response or with an error other than
  \<open>ErrRecordNotFound\<close>, no attempt is running that was not running before, so the schedule can be
  retried; and in every run, with faults anywhere, the invariant of the attempts and schedules
  tables is kept. The collaborators are only assumed not to write the publication, schedule and
  attempt tables. (The excluded error is the account lookup, which returns without \<open>failAttempt\<close>.)
\<close>

theorem publish_closes_attempt:
  assumes "ports_frame s" "attempts_ok (db w)"
    and "publish_project_in_workspace s wid pid platform scope sid w = (r, w')"
  shows "attempts_ok (db w') \<and> (no_fault w \<and> r \<noteq> Inl ErrRecordNotFound \<longrightarrow>
    (\<forall>a\<in>set (attempts (db w')). running a \<longrightarrow> a \<in> set (attempts (db w))))"
proof -
  let ?A = "set (attempts (db w))"
  note post = wpD [OF publish_in_workspace_settles [OF assms(1,2)] assms(3)]
  have "attempts_ok (db w') \<and> env w' = env w \<and> (no_fault w' \<longrightarrow> r \<noteq> Inl ErrRecordNotFound \<longrightarrow>
    attempts_settled ?A (env w) w')"
  proof (cases r)
    case (Inl err)
    with post show ?thesis by simp
  next
    case (Inr resp)
    with post show ?thesis by (simp add: attempts_settled_iff)
  qed
  moreover have "no_fault w' = no_fault w" if "env w' = env w" using that by (simp add: no_fault_def)
  ultimately show ?thesis unfolding attempts_settled_iff by metis
qed

section \<open>The response and the row\<close>

definition row_agrees :: "publication \<Rightarrow> publish_response \<Rightarrow> world \<Rightarrow> bool" where
  "row_agrees pub resp w \<longleftrightarrow> (\<exists>r\<in>set (publications (db w)). pub_ID r = pub_ID pub
     \<and> publication_status_text (pub_Status r) = pr_Status resp
     \<and> pub_Status r \<in> {PublicationStatusSucceeded, PublicationStatusFailed}
     \<and> pub_RemoteID r = pr_RemoteID resp \<and> pub_PublishURL r = pr_PublishURL resp
     \<and> pub_ErrorMessage r = pr_ErrorMessage resp)"

definition completed :: "publication \<Rightarrow> publication_completion \<Rightarrow> publication list \<Rightarrow> bool" where
  "completed pub c P \<longleftrightarrow> (\<exists>r\<in>set P. pub_ID r = pub_ID pub \<and> pub_Status r = pc_Status c \<and>
     pub_RemoteID r = pc_RemoteID c \<and> pub_PublishURL r = pc_PublishURL c \<and> pub_ErrorMessage r = pc_ErrorMessage c)"

lemma update_rows_hit:
  "count_rows p rs \<noteq> 0 \<Longrightarrow> \<exists>r\<in>set (update_rows p f rs). \<exists>x\<in>set rs. p x \<and> r = f x"
  by (auto simp: set_update_rows)

lemma complete_publication_completes:
  "wp (complete_publication pub c) (\<lambda>_ w'. completed pub c (publications (db w'))) (\<lambda>_ _. True) w"
proof -
  have upd: "wp (update_publications (publication_query pub) g) (\<lambda>n w'. n \<noteq> 0 \<longrightarrow>
      (\<exists>r\<in>set (publications (db w')). \<exists>x. publication_query pub x \<and> r = g x)) (\<lambda>_ _. True) w" for g w
    unfolding update_publications_def
    by (rule wp_exec) (use update_rows_hit [of "publication_query pub" "publications (db w)" g] in auto)
  have state: "wp (publication_state_changed_error i) (\<lambda>_ _. False) (\<lambda>_ _. True) w" for i w
    unfolding publication_state_changed_error_def by (intro wp_intros) simp_all
  have rest: "wp (bindE (update_publications (publication_query pub)
       (\<lambda>r. extra (r\<lparr>pub_Status := pc_Status c, pub_RemoteID := pc_RemoteID c,
              pub_PublishURL := pc_PublishURL c, pub_ErrorMessage := pc_ErrorMessage c\<rparr>))) (\<lambda>n.
     if n = 0 then publication_state_changed_error (pub_ID pub)
     else ret (pub\<lparr>pub_Status := pc_Status c, pub_RemoteID := pc_RemoteID c,
              pub_PublishURL := pc_PublishURL c, pub_ErrorMessage := pc_ErrorMessage c\<rparr>)))
     (\<lambda>_ w'. completed pub c (publications (db w'))) (\<lambda>_ _. True) w"
    if e: "\<And>r. pub_ID (extra r) = pub_ID r \<and> pub_Status (extra r) = pub_Status r \<and> pub_RemoteID (extra r) = pub_RemoteID r
        \<and> pub_PublishURL (extra r) = pub_PublishURL r \<and> pub_ErrorMessage (extra r) = pub_ErrorMessage r" for extra w
  proof -
    have hit: "completed pub c P" if "publication_query pub x" "extra (x\<lparr>pub_Status := pc_Status c,
        pub_RemoteID := pc_RemoteID c, pub_PublishURL := pc_PublishURL c, pub_ErrorMessage := pc_ErrorMessage c\<rparr>) \<in> set P"
      for x P unfolding completed_def by (rule bexI [OF _ that(2)]) (use that(1) in \<open>simp add: e publication_query_def\<close>)
    show ?thesis
      by (rule wp_bindE, rule wp_conseq [OF upd]) (auto intro!: wp_If wp_ret wp_conseq [OF state] intro: hit)
  qed
  show ?thesis unfolding complete_publication_def
    by (rule wp_bindE, rule wp_If, rule wp_bindE, rule wp_now_utc) (rule wp_ret, rule rest, simp)+
qed

lemma keeps_completed_rows: "(\<And>J. keeps (on_rows J) m) \<Longrightarrow> keeps (\<lambda>w. J (publications (db w))) m"
proof -
  assume k: "\<And>J. keeps (on_rows J) m"
  have "on_rows (\<lambda>P _ _ _. J P) = (\<lambda>w. J (publications (db w)))" by (simp add: on_rows_def fun_eq_iff)
  with k [of "\<lambda>P _ _ _. J P"] show ?thesis by simp
qed

lemma keeps_publications_finish:
  "keeps (\<lambda>w. J (publications (db w))) (finish_publish_attempt_for_workspace wid a c)"
proof (rule keeps_wpI, rule wpI)
  fix w w' :: world and r assume J: "J (publications (db w))"
  show "J (publications (db w'))" if "finish_publish_attempt_for_workspace wid a c w = (Inr r, w')"
    using J finish_publish_attempt_outcomes [OF that] by (auto simp: finished_db_def)
next
  fix w w' :: world and e assume J: "J (publications (db w))"
  show "J (publications (db w'))" if "finish_publish_attempt_for_workspace wid a c w = (Inl e, w')"
    using J finish_publish_attempt_outcomes [OF that] by auto
qed

lemma publish_settle_agrees:
  "wp (publish_settle wid pid platform uid attempt pub rid url err) (\<lambda>resp w'. row_agrees pub resp w') (\<lambda>_ _. True) w"
proof -
  let ?st = "case err of None \<Rightarrow> PublicationStatusSucceeded | Some _ \<Rightarrow> PublicationStatusFailed"
  let ?msg = "case err of None \<Rightarrow> '''' | Some e \<Rightarrow> sanitize (err_text e)"
  let ?c = "\<lparr>pc_Status = ?st, pc_RemoteID = rid, pc_PublishURL = url, pc_ErrorMessage = ?msg\<rparr>"
  let ?J = "\<lambda>w. completed pub ?c (publications (db w))"
  have fin: "keeps ?J (case attempt of None \<Rightarrow> ret ()
      | Some a \<Rightarrow> finish_publish_attempt_for_workspace wid a c)" for c
    by (intro keeps_intros keeps_publications_finish)
  have act: "keeps ?J (ignoreE (record_project_publish_activity wid pid uid t m))" for t m
    by (intro keeps_completed_rows keeps_intros)
  have T: "wp m (\<lambda>_ _. True) (\<lambda>_ _. True) w" for m :: "'z mpp" and w
    by (rule wpI) simp_all
  have fail: "wp (fail_attempt wid attempt e) Q (\<lambda>_ _. True) w" for e w and Q :: "'z \<Rightarrow> world \<Rightarrow> bool"
    unfolding fail_attempt_def by (intro wp_bindE wp_conseq [OF T] wp_throw TrueI)
  have cpl: "wp (bindE (tryE (complete_publication pub ?c)) (\<lambda>r. case r of Inl e \<Rightarrow> fail_attempt wid attempt e | Inr x \<Rightarrow> ret x))
     (\<lambda>_. ?J) (\<lambda>_ _. True) w" for w
    by (rule wp_bindE, rule wp_tryE, rule wp_conseq [OF complete_publication_completes])
      (auto intro: wp_ret fail)
  have final: "wp (bindE (ignoreE (record_project_publish_activity wid pid uid t m)) (\<lambda>_. ret (empty_response\<lparr>
      pr_Status := publication_status_text ?st, pr_RemoteID := rid, pr_PublishURL := url, pr_ErrorMessage := ?msg\<rparr>)))
      (\<lambda>resp w'. row_agrees pub resp w') (\<lambda>_ _. True) w" if "?J w" for t m w
    by (rule wp_bindE, rule wp_keeps [OF act that])
      (auto intro!: wp_ret simp: completed_def row_agrees_def split: option.splits)
  show ?thesis unfolding publish_settle_def Let_def or_fail_attempt_def
    by (rule wp_bindE, rule wp_conseq [OF cpl], rule wp_bindE, rule wp_keeps [OF fin], assumption)
      (rule final TrueI, assumption?)+
qed

lemma wp_anything: "wp m (\<lambda>_ _. True) (\<lambda>_ _. True) w"
  by (rule wpI) simp_all

lemma wp_discard: "(\<And>x w'. Q x w') \<Longrightarrow> wp m Q (\<lambda>_ _. True) w"
  by (rule wp_conseq [OF wp_anything]) simp_all

lemma publish_marked_agrees:
  "wp (publish_marked s wid pid platform uid attempt pub account) (\<lambda>resp w'. row_agrees pub resp w') (\<lambda>_ _. True) w"
  unfolding publish_marked_def
  by (intro wp_bindE wp_discard publish_settle_agrees wp_case_prod wp_asks wp_tryE wp_conseq [OF wp_anything] TrueI)

lemma returns_same_wp: "returns_same p m \<Longrightarrow> (\<And>q w'. same_publication p q \<Longrightarrow> Q q w') \<Longrightarrow> wp m Q (\<lambda>_ _. True) w"
  by (rule wpI) (auto simp: returns_same_def)

lemma mark_publishing_same: "wp (mark_publishing p t) (\<lambda>q _. same_publication p q) (\<lambda>_ _. True) w"
proof (rule wpI)
  fix q w' assume "mark_publishing p t w = (Inr q, w')"
  then show "same_publication p q"
    using mark_publishing_Inr [of p t w q w'] by (auto simp: same_publication_def)
qed simp

lemma fail_attempt_never: "wp (fail_attempt wid attempt e) Q (\<lambda>_ _. True) w"
  unfolding fail_attempt_def by (intro wp_bindE wp_discard wp_throw TrueI)

lemma or_fail_attempt_wp:
  "wp m Q (\<lambda>_ _. True) w \<Longrightarrow> wp (or_fail_attempt wid attempt g m) Q (\<lambda>_ _. True) w"
  unfolding or_fail_attempt_def
  by (rule wp_bindE, rule wp_tryE, erule wp_conseq) (auto intro: wp_ret fail_attempt_never)

lemma publish_attempted_agrees:
  assumes "ports_frame s"
  shows "wp (publish_attempted s wid proj pub platform uid t attempt) (\<lambda>resp w'. row_agrees pub resp w') (\<lambda>_ _. True) w"
proof -
  have same: "row_agrees p resp w' \<Longrightarrow> same_publication pub p \<Longrightarrow> row_agrees pub resp w'" for p resp w'
    by (simp add: row_agrees_def same_publication_def)
  have trans: "same_publication pub p \<Longrightarrow> same_publication p q \<Longrightarrow> same_publication pub q" for p q
    by (simp add: same_publication_def)
  have cred: "returns_same p (svc_apply_credentials s uid p)" "returns_same p (svc_media_refs s proj p)" for p
    using assms by (simp_all add: ports_frame_def)
  have marked: "wp (publish_marked s wid (proj_ID proj) platform uid attempt p account)
      (\<lambda>resp w'. row_agrees pub resp w') (\<lambda>_ _. True) w'" if "same_publication pub p" for p account w'
    by (rule wp_conseq [OF publish_marked_agrees]) (auto intro: same that)
  have mark: "wp (mark_publishing p t) (\<lambda>q. wp (publish_marked s wid (proj_ID proj) platform uid attempt q account)
      (\<lambda>resp w'. row_agrees pub resp w') (\<lambda>_ _. True)) (\<lambda>_ _. True) w'" if "same_publication pub p" for p account w'
    by (rule wp_conseq [OF mark_publishing_same]) (auto intro: marked trans that)
  show ?thesis unfolding publish_attempted_def
    by (intro wp_case_option wp_If wp_bindE fail_attempt_never or_fail_attempt_wp
        returns_same_wp [OF cred(1)] returns_same_wp [OF cred(2)] wp_discard mark) (erule (1) trans)
qed

text \<open>
  C16: The response tells what the row says. When \<open>PublishProjectInWorkspaceWithContext\<close> returns a
  response, whatever failed on the way, the publication it read at the start (that of the project
  and platform, enabled and not cancelled) is stored as succeeded or failed with exactly the
  status, remote id, URL and redacted error the response carries.
\<close>

theorem publish_response_matches_row:
  assumes "ports_frame s"
    and "publish_project_in_workspace s wid pid platform scope sid w = (Inr resp, w')"
  shows "\<exists>pub. pub \<in> set (publications (db w)) \<and> pub_ProjectID pub = pid \<and> pub_Platform pub = platform
    \<and> pub_Enabled pub \<and> pub_Status pub \<noteq> PublicationStatusCancelled \<and> row_agrees pub resp w'"
proof -
  let ?P = "publications (db w)"
  let ?J = "\<lambda>w. publications (db w) = ?P"
  let ?Q = "\<lambda>resp w'. \<exists>pub. pub \<in> set ?P \<and> pub_ProjectID pub = pid \<and> pub_Platform pub = platform
    \<and> pub_Enabled pub \<and> pub_Status pub \<noteq> PublicationStatusCancelled \<and> row_agrees pub resp w'"
  have access: "keeps ?J (project_for_publish p u)" for p u
    by (intro keeps_completed_rows keeps_intros)
  have rest: "wp (publish_attempted s pws proj pub platform u t attempt) ?Q (\<lambda>_ _. True) w1"
    if "find_publication pws pid platform (db w0) = Some pub" "?J w0"
      "\<not> (\<not> pub_Enabled pub \<or> pub_Status pub = PublicationStatusCancelled)" for pws proj pub u t attempt w0 w1
  proof -
    have "pub \<in> set ?P \<and> pub_ProjectID pub = pid \<and> pub_Platform pub = platform"
      using find_Some_set [OF that(1) [unfolded find_publication_def]] that(2) by simp
    with that(3) show ?thesis
      by (intro wp_conseq [OF publish_attempted_agrees [OF assms(1)]]) auto
  qed
  have "wp (publish_project_in_workspace s wid pid platform scope sid) ?Q (\<lambda>_ _. True) w"
    unfolding publish_project_in_workspace_def workspace_of_project_def
  proof (rule wp_case_option)
    fix u
    have gate: "wp (if \<not> pub_Enabled pub \<or> pub_Status pub = PublicationStatusCancelled
        then throw ErrPublicationDisabled
        else bindE now_utc (\<lambda>startedAt. bindE (start_publish_attempt_for_workspace pws sid startedAt) (\<lambda>attempt.
          publish_attempted s pws proj pub platform u startedAt attempt))) ?Q (\<lambda>_ _. True) w1"
      if "find_publication pws pid platform (db w0) = Some pub" "?J w0" for pws proj pub w0 w1
      by (rule wp_If, rule wp_throw, rule TrueI, rule wp_bindE, rule wp_now_utc, rule wp_bindE,
          rule wp_discard, rule rest [OF that])
    show "wp (bindE (project_for_publish pid u) (\<lambda>proj. bindE (asks (\<lambda>w. project_workspace_id (personal_workspace_id w) proj)) (\<lambda>pws.
          if wid \<noteq> uuid_nil \<and> wid \<noteq> pws then throw ErrForbidden
          else bindE (tryE (first_row (find_publication pws pid platform))) (\<lambda>r. case r of
              Inl _ \<Rightarrow> throw (ErrText (''publication record not found for platform: '' @ platform))
            | Inr pub \<Rightarrow> if \<not> pub_Enabled pub \<or> pub_Status pub = PublicationStatusCancelled
                then throw ErrPublicationDisabled
                else bindE now_utc (\<lambda>startedAt.
                  bindE (start_publish_attempt_for_workspace pws sid startedAt) (\<lambda>attempt.
                  publish_attempted s pws proj pub platform u startedAt attempt)))))) ?Q (\<lambda>_ _. True) w"
      by (rule wp_bindE, rule wp_keeps [OF access refl], rule wp_bindE, rule wp_asks, rule wp_If,
          rule wp_throw, rule TrueI, rule wp_bindE, rule wp_tryE, rule wp_first_row)
        (unfold sum.case, (rule wp_throw, rule TrueI)+, rule gate, assumption+, rule TrueI)
  qed (rule wp_throw, rule TrueI)
  from wp_InrD [OF this assms(2)] show ?thesis .
qed

lemma publish_step:
  assumes "project_for_publish pid u w = (Inr proj, w1)"
    and "first_row (find_publication (project_workspace_id (personal_workspace_id w1) proj) pid platform) w1 = (Inr pub, w2)"
  shows "publish_project_in_workspace s wid pid platform (Some u) sid w =
    (if wid \<noteq> uuid_nil \<and> wid \<noteq> project_workspace_id (personal_workspace_id w1) proj then (Inl ErrForbidden, w1)
     else if \<not> pub_Enabled pub \<or> pub_Status pub = PublicationStatusCancelled then (Inl ErrPublicationDisabled, w2)
     else bindE (start_publish_attempt_for_workspace (project_workspace_id (personal_workspace_id w1) proj) sid
            (env_now (env w2) (calls w2)))
          (publish_attempted s (project_workspace_id (personal_workspace_id w1) proj) proj pub platform u
            (env_now (env w2) (calls w2))) (tick w2))"
  unfolding publish_project_in_workspace_def workspace_of_project_def option.case
    bindE_app [where m = "project_for_publish pid u", OF assms(1)] bindE_asks_app
  using assms(2) by simp


section \<open>Concrete runs\<close>

definition publish_db :: "publication \<Rightarrow> db" where
  "publish_db pub = empty_db\<lparr>projects := [sample_project], publications := [pub], schedules := [sample_schedule]\<rparr>"

lemma ports_frame_idle: "ports_frame idle_service"
  by (auto simp: ports_frame_def idle_service_def port_frame_def returns_same_def same_publication_def
      intro: keeps_intros)

lemma attempts_ok_publish_db: "attempts_ok (publish_db pub)"
  by (simp add: attempts_ok_def publish_db_def empty_db_def attempts_of_def)

lemma project_for_publish_sample:
  "project_for_publish 2 4 (start_world (publish_db pub)) = (Inr sample_project, tick (start_world (publish_db pub)))"
  by (simp add: project_for_publish_def first_row_ok find_project_def publish_db_def sample_project_def)

definition started_world :: "publication \<Rightarrow> world" where
  "started_world pub = tick (tick (tick (start_world (publish_db pub))))"

lemma sample_started:
  obtains a w2 where "start_publish_attempt_for_workspace 3 7 2 (started_world pub) = (Inr (Some a), w2)"
    "attempts (db w2) = [a]" "running a" "att_ScheduledPublicationID a = 7"
    "schedules (db w2) = [set_running sample_schedule]" "publications (db w2) = [pub]" "accounts (db w2) = []"
    "no_fault w2" "attempts_ok (db w2)" "env w2 = calm_env" "\<forall>n. breakers w2 n = None"
proof -
  let ?w = "started_world pub"
  have d: "db ?w = publish_db pub" by (simp add: started_world_def)
  have "\<exists>a w2. start_publish_attempt_for_workspace 3 7 2 ?w = (Inr (Some a), w2)
      \<and> env w2 = calm_env \<and> (\<forall>n. breakers w2 n = None)"
    by (simp add: start_publish_attempt_for_workspace_def transaction_def start_attempt_tx_def started_world_def
        bindE_def asks_def tryE_def update_ok select_ok create_attempt_def uuid_new_def create_row_ok Let_def
        sample_schedule_def startable_schedule_statuses_def workspace_scope_def publish_db_def empty_db_def
        )
  then obtain a w2 where s: "start_publish_attempt_for_workspace 3 7 2 ?w = (Inr (Some a), w2)"
    "env w2 = calm_env" "\<forall>n. breakers w2 n = None" by blast
  have ok: "attempts_ok (db w2)" using attempts_ok_start [OF s(1)] d attempts_ok_publish_db by simp
  from s(1) show thesis
  proof (cases rule: start_publish_attempt_outcomes)
    case (started a' w1 w2')
    note tx = start_attempt_tx_Inr [OF started(2)]
    have "startable 3 7 sample_schedule"
      by (simp add: startable_def sample_schedule_def startable_schedule_statuses_def workspace_scope_def)
    then have "db w2 = (publish_db pub)\<lparr>schedules := [set_running sample_schedule], attempts := [a]\<rparr>"
      using tx(3) started d by (simp add: publish_db_def update_rows_def empty_db_def)
    with tx started s ok that show thesis by (simp add: publish_db_def empty_db_def no_fault_def)
  qed simp
qed

lemma publish_sample:
  assumes "pub_WorkspaceID pub = 3" "pub_ProjectID pub = 2" "pub_Platform pub = ''x''" "pub_Enabled pub"
    "pub_Status pub \<noteq> PublicationStatusCancelled"
    and "start_publish_attempt_for_workspace 3 7 2 (started_world pub) = (Inr attempt, w2)"
  shows "publish_project_in_workspace s 3 2 ''x'' (Some 4) 7 (start_world (publish_db pub))
    = publish_attempted s 3 sample_project pub ''x'' 4 2 attempt w2"
proof -
  have ws: "project_workspace_id f sample_project = 3" for f
    by (simp add: project_workspace_id_def sample_project_def)
  have fp: "find_publication 3 2 ''x'' (publish_db pub) = Some pub"
    using assms(1-3) by (simp add: find_publication_def publish_db_def)
  have "first_row (find_publication (project_workspace_id (personal_workspace_id (tick (start_world (publish_db pub))))
      sample_project) 2 ''x'') (tick (start_world (publish_db pub))) = (Inr pub, tick (tick (start_world (publish_db pub))))"
    by (simp add: ws first_row_ok fp)
  from publish_step [OF project_for_publish_sample this, of s 3 7] assms(4,5) assms(6) [unfolded started_world_def]
  show ?thesis by (simp add: ws bindE_def)
qed

lemma sample_synced: "\<not> requires_sync sample_publication"
proof -
  have "publication_has_synced_draft sample_publication" by code_simp
  then show ?thesis by (simp add: requires_sync_def sample_publication_def)
qed


text \<open>A run that succeeds, for the witnesses.\<close>

lemma idle_service_simps [simp]: "svc_apply_credentials idle_service u p = ret p"
  "svc_media_refs idle_service pr p = ret p" "svc_load_cookies idle_service u i platform = ret ''[]''"
  "svc_publish idle_service platform p account = ret (''remote'', ''url'', None)"
  by (simp_all add: idle_service_def)

definition calm_row :: "uuid \<Rightarrow> world \<Rightarrow> bool" where
  "calm_row i = on_rows (\<lambda>P S A e. (\<forall>n. env_fault e n = None) \<and> (\<exists>p. P = [p] \<and> pub_ID p = i \<and> pub_WorkspaceID p = 3))"

lemma calm_row_iff: "calm_row i w \<longleftrightarrow> no_fault w \<and>
    (\<exists>p. publications (db w) = [p] \<and> pub_ID p = i \<and> pub_WorkspaceID p = 3)"
  by (simp add: calm_row_def on_rows_def no_fault_def)

lemma keeps_calm_rows: "(\<And>J. keeps (on_rows J) m) \<Longrightarrow> keeps (calm_row i) m"
  unfolding calm_row_def by assumption

lemma complete_publication_calm:
  assumes "calm_row (pub_ID pub) w" "pub_WorkspaceID pub = 3"
  shows "wp (complete_publication pub c) (\<lambda>_. no_fault) (\<lambda>_ _. False) w"
proof -
  obtain p where p: "publications (db w) = [p]" "pub_ID p = pub_ID pub" "pub_WorkspaceID p = 3" "no_fault w"
    using assms(1) by (auto simp: calm_row_iff)
  have n: "count_rows (publication_query pub) [p] = 1"
    using p(2,3) assms(2) by (simp add: count_rows_def publication_query_def)
  show ?thesis
    unfolding complete_publication_def update_publications_def
    by (intro wp_bindE wp_If wp_now_utc wp_ret wp_exec)
      (use p n in \<open>simp_all add: no_fault_fault_at wp_def\<close>)
qed

lemma publish_settle_calm:
  assumes "calm_row (pub_ID pub) w" "pub_WorkspaceID pub = 3"
  shows "wp (publish_settle wid pid platform uid attempt pub rid url err) (\<lambda>_ _. True) (\<lambda>_ _. False) w"
proof -
  have fin: "wp (case attempt of None \<Rightarrow> ret () | Some a \<Rightarrow> finish_publish_attempt_for_workspace wid a c)
      (\<lambda>_ _. True) (\<lambda>_ _. False) w'" if "no_fault w'" for c w'
    by (cases attempt; intro wpI)
      (auto dest: finish_publish_attempt_calm [OF that])
  have act: "wp (bindE (ignoreE m) (\<lambda>_. ret x)) (\<lambda>_ _. True) (\<lambda>_ _. False) w'" for m :: "'z mpp" and x :: publish_response and w'
    by (simp add: wp_def bindE_def ignoreE_def)
  show ?thesis unfolding publish_settle_def Let_def or_fail_attempt_def
    by (rule wp_bindE, rule wp_bindE, rule wp_tryE, rule wp_conseq [OF complete_publication_calm [OF assms]])
      (auto intro!: wp_ret wp_bindE [of "case attempt of None \<Rightarrow> ret ()
        | Some a \<Rightarrow> finish_publish_attempt_for_workspace wid a c" for c] wp_conseq [OF fin] act)
qed

lemma or_fail_attempt_ret [simp]: "or_fail_attempt wid attempt g (ret x) = ret x"
  by (simp add: or_fail_attempt_def fun_eq_iff bindE_def tryE_def)

lemma publish_sample_returns:
  "\<exists>resp w'. publish_project_in_workspace idle_service 3 2 ''x'' (Some 4) 7
     (start_world (publish_db sample_publication)) = (Inr resp, w')"
proof -
  let ?pub = sample_publication
  obtain a w2 where st: "start_publish_attempt_for_workspace 3 7 2 (started_world ?pub) = (Inr (Some a), w2)"
    and w2: "publications (db w2) = [?pub]" "no_fault w2" by (rule sample_started [of ?pub])
  let ?J = "calm_row 5"
  have run: "keeps ?J (resilience_run (svc_lower s) sleep_context p (publish_operation idle_service ''x'' pub acct))" for s p pub acct
    unfolding publish_operation_def idle_service_def publish_service.simps
    by (intro keeps_calm_rows keeps_rows_run keeps_intros)
  have marked: "wp (publish_marked idle_service 3 2 ''x'' 4 (Some a) pub acct) (\<lambda>_ _. True) (\<lambda>_ _. False) w"
    if "?J w" "pub_ID pub = 5" "pub_WorkspaceID pub = 3" for pub acct w
    unfolding publish_marked_def
    by (rule wp_bindE, rule wp_set_published, rule wp_bindE, rule wp_tryE, rule wp_keeps [OF run])
      (use that in \<open>auto intro!: wp_bindE wp_asks publish_settle_calm simp: calm_row_def split: prod.splits\<close>)
  have mark: "mark_publishing ?pub 2 w2 = (Inr (?pub\<lparr>pub_Status := PublicationStatusPublishing,
      pub_LastAttemptAt := Some 2\<rparr>), snd (mark_publishing ?pub 2 w2)) \<and> ?J (snd (mark_publishing ?pub 2 w2))"
    using w2 by (simp add: mark_publishing_def bindE_def update_publications_ok publication_query_def
        calm_row_iff update_rows_def sample_publication_def)
  then have "wp (mark_publishing ?pub 2) (\<lambda>p w'. ?J w' \<and> pub_ID p = 5 \<and> pub_WorkspaceID p = 3) (\<lambda>_ _. False) w2"
    by (cases "mark_publishing ?pub 2 w2") (simp add: wp_def sample_publication_def)
  then have "wp (publish_attempted idle_service 3 sample_project ?pub ''x'' 4 2 (Some a)) (\<lambda>_ _. True) (\<lambda>_ _. False) w2"
  proof -
    assume m: "wp (mark_publishing ?pub 2) (\<lambda>p w'. ?J w' \<and> pub_ID p = 5 \<and> pub_WorkspaceID p = 3) (\<lambda>_ _. False) w2"
    have "pub_PlatformAccountID ?pub = None" "get_publisher ''x'' = None" "proj_ID sample_project = 2"
      "\<not> uses_stored_browser_cookies ''x''"
      by (simp_all add: sample_publication_def get_publisher_def registered_platforms_def sample_project_def
          uses_stored_browser_cookies_def)
    then have "publish_attempted idle_service 3 sample_project ?pub ''x'' 4 2 (Some a)
      = bindE (or_fail_attempt 3 (Some a) (\<lambda>e. e) (mark_publishing ?pub 2)) (\<lambda>pub.
          publish_marked idle_service 3 2 ''x'' 4 (Some a) pub empty_account)"
      using sample_synced by (simp add: publish_attempted_def publish_account_def del: ret_app)
    then show ?thesis unfolding or_fail_attempt_def
      by (simp only:) (rule wp_bindE, rule wp_bindE, rule wp_tryE, rule wp_conseq [OF m],
        simp_all add: marked wp_ret del: ret_app)
  qed
  moreover have "publish_project_in_workspace idle_service 3 2 ''x'' (Some 4) 7 (start_world (publish_db ?pub))
      = publish_attempted idle_service 3 sample_project ?pub ''x'' 4 2 (Some a) w2"
    by (rule publish_sample [OF _ _ _ _ _ st]) (simp_all add: sample_publication_def)
  ultimately show ?thesis
    by (cases "publish_attempted idle_service 3 sample_project ?pub ''x'' 4 2 (Some a) w2")
      (auto simp: wp_def split: sum.splits)
qed

theorem publish_closes_attempt_witness:
  "\<exists>r w'. publish_project_in_workspace idle_service 3 2 ''x'' (Some 4) 7 (start_world (publish_db sample_publication)) = (r, w')
    \<and> attempts_ok (db w') \<and> filter running (attempts (db w')) = []"
proof -
  obtain resp w' where r: "publish_project_in_workspace idle_service 3 2 ''x'' (Some 4) 7
      (start_world (publish_db sample_publication)) = (Inr resp, w')"
    using publish_sample_returns by blast
  from publish_closes_attempt [OF ports_frame_idle _ r] have "attempts_ok (db w') \<and> filter running (attempts (db w')) = []"
    by (simp add: attempts_ok_publish_db filter_empty_conv) (simp add: publish_db_def empty_db_def)
  with r show ?thesis by blast
qed

theorem publish_response_matches_row_witness:
  "\<exists>resp w'. publish_project_in_workspace idle_service 3 2 ''x'' (Some 4) 7 (start_world (publish_db sample_publication)) = (Inr resp, w')
    \<and> row_agrees sample_publication resp w'"
proof -
  obtain resp w' where r: "publish_project_in_workspace idle_service 3 2 ''x'' (Some 4) 7
      (start_world (publish_db sample_publication)) = (Inr resp, w')"
    using publish_sample_returns by blast
  from publish_response_matches_row [OF ports_frame_idle r] have "row_agrees sample_publication resp w'"
    by (simp add: publish_db_def)
  with r show ?thesis by blast
qed


end
