(* ===== verification/Publish_Outbox.thy ===== *)
theory Publish_Outbox
  imports Publish_Core
begin

text \<open>
  \<open>services/publish/outbox.go\<close>: publish jobs are handed to the queue through rows of the outbox
  table, which dispatchers claim, hand over and mark. \<open>gorm\<close> sets \<open>updated_at\<close> on every update of
  a row, which is what makes a claim expire. The dispatcher goroutine repeats
  \<open>flush_publish_outbox\<close>; the loop itself (a ticker) is not modelled.
\<close>

definition publish_outbox_batch_size :: nat where "publish_outbox_batch_size = 25"
definition publish_outbox_claim_timeout :: duration where "publish_outbox_claim_timeout = 2 * minute"
definition publish_outbox_max_backoff :: int64 where "publish_outbox_max_backoff = 5 * 60 * 1000000000"

abbreviation "OutboxEventPublishJobRequested \<equiv> ''publish.job_requested''"

section \<open>Recording\<close>

definition record_publish_job_outbox :: "publish_job \<Rightarrow> outbox_event mpp" where
  "record_publish_job_outbox job =
     bindE uuid_new (\<lambda>fresh. bindE now_utc (\<lambda>now.
     let e = outbox_event_before_create fresh
       \<lparr>out_ID = uuid_nil, out_AggregateID = job_JobID job, out_EventType = OutboxEventPublishJobRequested,
        out_Payload = JobPayload job, out_Status = OutboxStatusPending, out_Attempts = 0,
        out_NextAttemptAt = None, out_ProcessedAt = None, out_ErrorMessage = '''',
        out_CreatedAt = now, out_UpdatedAt = now\<rparr>
     in bindE (create_row outbox (\<lambda>rs d. d\<lparr>outbox := rs\<rparr>) (\<lambda>r x. out_ID x = out_ID r) e) (\<lambda>_. ret e)))"

section \<open>Claiming\<close>

text \<open>The condition of both the listing and the claim.\<close>

definition outbox_due :: "time \<Rightarrow> outbox_event \<Rightarrow> bool" where
  "outbox_due now e =
     (out_EventType e = OutboxEventPublishJobRequested \<and>
      ((out_Status e \<in> {OutboxStatusPending, OutboxStatusFailed} \<and>
        (case out_NextAttemptAt e of None \<Rightarrow> True | Some t \<Rightarrow> t \<le> now)) \<or>
       (out_Status e = OutboxStatusProcessing \<and> out_UpdatedAt e \<le> now - publish_outbox_claim_timeout)))"

definition update_outbox :: "(outbox_event \<Rightarrow> bool) \<Rightarrow> (outbox_event \<Rightarrow> outbox_event) \<Rightarrow> nat mpp" where
  "update_outbox p f = bindE now_utc (\<lambda>now. exec (\<lambda>d. (count_rows p (outbox d),
     d\<lparr>outbox := update_rows p (\<lambda>e. (f e)\<lparr>out_UpdatedAt := now\<rparr>) (outbox d)\<rparr>)))"

definition claim_outbox_event :: "uuid \<Rightarrow> outbox_event option mpp" where
  "claim_outbox_event eventID =
     bindE now_utc (\<lambda>now.
     bindE (update_outbox (\<lambda>e. out_ID e = eventID \<and> outbox_due now e)
       (\<lambda>e. e\<lparr>out_Status := OutboxStatusProcessing, out_Attempts := out_Attempts e + 1,
              out_ErrorMessage := ''''\<rparr>)) (\<lambda>n.
     if n = 0 then ret None
     else bindE (first_row (\<lambda>d. find (\<lambda>e. out_ID e = eventID) (outbox d))) (\<lambda>e. ret (Some e))))"

section \<open>Dispatching\<close>

text \<open>The job goes to the queue unless its workspace could not be resolved or a field is missing.\<close>

definition hand_over_job :: "outbox_event \<Rightarrow> err + publish_job \<Rightarrow> unit mpp" where
  "hand_over_job e r = (case r of
       Inl err \<Rightarrow> throw (ErrWrap (''resolve publish outbox workspace for event '' @ uuid_text (out_ID e)) err)
     | Inr job \<Rightarrow>
         if job_JobID job = uuid_nil \<or> job_ProjectID job = uuid_nil \<or> job_WorkspaceID job = uuid_nil
            \<or> job_UserID job = uuid_nil \<or> job_Platform job = ''''
         then throw (ErrText (''invalid publish outbox payload for event '' @ uuid_text (out_ID e)))
         else enqueue job)"

definition dispatch_claimed_outbox_event :: "publish_service \<Rightarrow> outbox_event \<Rightarrow> unit mpp" where
  "dispatch_claimed_outbox_event s e =
     (if out_EventType e \<noteq> OutboxEventPublishJobRequested
      then throw (ErrText (''unsupported outbox event type: '' @ out_EventType e))
      else case (case out_Payload e of JobPayload job \<Rightarrow> Inr job | RawPayload t \<Rightarrow> svc_decode_job s t) of
        Inl err \<Rightarrow> throw (ErrWrap ''decode publish outbox payload'' err)
      | Inr job \<Rightarrow> bindE (tryE (ensure_publish_job_workspace_id job)) (hand_over_job e))"

text \<open>The row a claimant may still mark: nobody has claimed it again in the meantime.\<close>

definition claim_current :: "outbox_event \<Rightarrow> outbox_event \<Rightarrow> bool" where
  "claim_current e r = (out_ID r = out_ID e \<and> out_Status r = OutboxStatusProcessing \<and>
     out_Attempts r = out_Attempts e)"

definition mark_outbox_event_dispatched :: "outbox_event \<Rightarrow> unit mpp" where
  "mark_outbox_event_dispatched e =
     bindE now_utc (\<lambda>now.
     bindE (update_outbox (claim_current e)
       (\<lambda>r. r\<lparr>out_Status := OutboxStatusDispatched, out_ProcessedAt := Some now,
              out_NextAttemptAt := None, out_ErrorMessage := ''''\<rparr>)) (\<lambda>_. ret ()))"

definition outbox_retry_backoff :: "int64 \<Rightarrow> int64" where
  "outbox_retry_backoff n =
     (if n \<le>s 0 then 1000000000
      else let backoff = n * 1000000000
           in if publish_outbox_max_backoff <s backoff then publish_outbox_max_backoff else backoff)"

definition mark_outbox_event_failed :: "outbox_event \<Rightarrow> err \<Rightarrow> unit mpp" where
  "mark_outbox_event_failed e dispatchErr =
     bindE now_utc (\<lambda>now.
     let nextAttemptAt = now + sint (outbox_retry_backoff (word_of_int (out_Attempts e))) in
     bindE (update_outbox (claim_current e)
       (\<lambda>r. r\<lparr>out_Status := OutboxStatusFailed, out_NextAttemptAt := Some nextAttemptAt,
              out_ErrorMessage := sanitize (err_text dispatchErr)\<rparr>)) (\<lambda>_. ret ()))"

definition dispatch_outbox_event :: "publish_service \<Rightarrow> uuid \<Rightarrow> unit mpp" where
  "dispatch_outbox_event s eventID =
     (if eventID = uuid_nil then ret ()
      else bindE (claim_outbox_event eventID) (\<lambda>claimed. case claimed of
          None \<Rightarrow> ret ()
        | Some e \<Rightarrow> bindE (tryE (dispatch_claimed_outbox_event s e)) (\<lambda>r. case r of
            Inl err \<Rightarrow> bindE (tryE (mark_outbox_event_failed e err)) (\<lambda>m. case m of
                Inl markErr \<Rightarrow> throw (ErrJoin err markErr)
              | Inr _ \<Rightarrow> throw err)
          | Inr _ \<Rightarrow> mark_outbox_event_dispatched e)))"

text \<open>
  The loop of a flush: every listed event is dispatched, the first error is returned at the end.
\<close>

fun dispatch_all :: "('x \<Rightarrow> unit mpp) \<Rightarrow> 'x list \<Rightarrow> err option \<Rightarrow> unit mpp" where
  "dispatch_all f [] firstErr = (case firstErr of None \<Rightarrow> ret () | Some e \<Rightarrow> throw e)"
| "dispatch_all f (x # xs) firstErr =
     bindE (tryE (f x)) (\<lambda>r. dispatch_all f xs
       (case r of Inr _ \<Rightarrow> firstErr
        | Inl e \<Rightarrow> if firstErr = None then Some e else firstErr))"

definition due_events :: "time \<Rightarrow> nat \<Rightarrow> db \<Rightarrow> outbox_event list" where
  "due_events now limit d = take limit (sort_key out_CreatedAt (filter (outbox_due now) (outbox d)))"

definition flush_publish_outbox :: "publish_service \<Rightarrow> int \<Rightarrow> unit mpp" where
  "flush_publish_outbox s limit =
     (if \<not> svc_queue s then throw ErrPublishQueueEmpty
      else let limit = (if limit \<le> 0 then publish_outbox_batch_size else nat limit) in
        bindE now_utc (\<lambda>now.
        bindE (select (due_events now limit)) (\<lambda>events.
        dispatch_all (dispatch_outbox_event s) (map out_ID events) None)))"

section \<open>Backoff\<close>

lemma sint_times_second:
  fixes n :: int64
  assumes "0 < sint n" "sint n < 9000000000"
  shows "sint (n * 1000000000) = sint n * 1000000000"
proof -
  have "sint (n * 1000000000) = signed_take_bit 63 (sint n * sint (1000000000 :: int64))"
    by (simp add: sint_word_ariths)
  also have "sint (1000000000 :: int64) = 1000000000" by simp
  also have "signed_take_bit 63 (sint n * 1000000000) = sint n * 1000000000"
    using assms by (intro signed_take_bit_int_eq_self) auto
  finally show ?thesis .
qed

lemma outbox_retry_backoff_value:
  assumes "sint n < 9000000000"
  shows "sint (outbox_retry_backoff n) =
    (if sint n \<le> 0 then second else min (sint n * second) (300 * second))"
  using assms sint_times_second [of n]
  by (auto simp: outbox_retry_backoff_def publish_outbox_max_backoff_def Let_def word_sle_eq
      word_sless_alt second_def)

section \<open>What the operations do to the table\<close>

lemma update_outbox_Inr:
  assumes "update_outbox p f w = (Inr n, w')"
  shows "n = count_rows p (outbox (db w)) \<and>
    db w' = (db w)\<lparr>outbox := update_rows p (\<lambda>e. (f e)\<lparr>out_UpdatedAt := env_now (env w) (calls w)\<rparr>) (outbox (db w))\<rparr>
    \<and> queue w' = queue w \<and> env w' = env w"
  using assms unfolding update_outbox_def bindE_Inr now_utc_Inr
  by (elim exE conjE) (drule exec_Inr, simp)

lemma update_outbox_Inl: "update_outbox p f w = (Inl e, w') \<Longrightarrow> db w' = db w"
  unfolding update_outbox_def bindE_Inl now_utc_Inr
  by (elim disjE exE conjE) (auto dest: exec_Inl)

lemma update_outbox_ok: "no_fault w \<Longrightarrow> update_outbox p f w =
    (Inr (count_rows p (outbox (db w))),
     (tick (tick w))\<lparr>db := (db w)\<lparr>outbox := update_rows p
        (\<lambda>e. (f e)\<lparr>out_UpdatedAt := env_now (env w) (calls w)\<rparr>) (outbox (db w))\<rparr>\<rparr>)"
  by (simp add: update_outbox_def bindE_def now_utc_def exec_ok)

lemma keeps_update_outbox:
  "(\<And>d t. J d \<Longrightarrow> J (d\<lparr>outbox := update_rows p (\<lambda>e. (f e)\<lparr>out_UpdatedAt := t\<rparr>) (outbox d)\<rparr>)) \<Longrightarrow>
   keeps (on_db J) (update_outbox p f)"
  unfolding update_outbox_def by (intro keeps_intros) simp

section \<open>Fencing\<close>

text \<open>
  \<open>claimed_at_least i n\<close>: ids are distinct, the row \<open>i\<close> exists and has been claimed at least \<open>n\<close> times. Every
  operation on the outbox keeps it.
\<close>

definition claimed_at_least :: "uuid \<Rightarrow> int \<Rightarrow> db \<Rightarrow> bool" where
  "claimed_at_least i n d \<longleftrightarrow> distinct (map out_ID (outbox d)) \<and> (\<exists>r\<in>set (outbox d). out_ID r = i)
     \<and> (\<forall>r\<in>set (outbox d). out_ID r = i \<longrightarrow> n \<le> out_Attempts r)"

lemma claimed_update:
  assumes "\<And>r. out_ID (f r) = out_ID r \<and> out_Attempts r \<le> out_Attempts (f r)"
  shows "claimed_at_least i n d \<Longrightarrow>
    claimed_at_least i n (d\<lparr>outbox := update_rows p (\<lambda>e. (f e)\<lparr>out_UpdatedAt := t\<rparr>) (outbox d)\<rparr>)"
proof -
  assume c: "claimed_at_least i n d"
  define g where "g = (\<lambda>e. if p e then (f e)\<lparr>out_UpdatedAt := t\<rparr> else e)"
  have g: "out_ID (g r) = out_ID r \<and> out_Attempts r \<le> out_Attempts (g r)" for r
    using assms [of r] by (simp add: g_def)
  have "claimed_at_least i n (d\<lparr>outbox := map g (outbox d)\<rparr>)"
    unfolding claimed_at_least_def
  proof (intro conjI)
    have "map out_ID (map g (outbox d)) = map out_ID (outbox d)" using g by simp
    then show "distinct (map out_ID (outbox (d\<lparr>outbox := map g (outbox d)\<rparr>)))"
      using c unfolding claimed_at_least_def by (simp del: map_map)
  qed (use c g in \<open>fastforce simp: claimed_at_least_def intro: order_trans\<close>)+
  then show ?thesis by (simp add: update_rows_def g_def)
qed

inductive outbox_step :: "world \<Rightarrow> world \<Rightarrow> bool" where
  claim: "claim_outbox_event i w = (r, w') \<Longrightarrow> outbox_step w w'"
| dispatched: "mark_outbox_event_dispatched e w = (r, w') \<Longrightarrow> outbox_step w w'"
| failed: "mark_outbox_event_failed e err w = (r, w') \<Longrightarrow> outbox_step w w'"
| recorded: "record_publish_job_outbox job w = (r, w') \<Longrightarrow> outbox_step w w'"
| other: "outbox (db w') = outbox (db w) \<Longrightarrow> outbox_step w w'"

inductive outbox_steps :: "world \<Rightarrow> world \<Rightarrow> bool" where
  none: "outbox_steps w w"
| more: "outbox_steps w w1 \<Longrightarrow> outbox_step w1 w2 \<Longrightarrow> outbox_steps w w2"

lemma keeps_claimed:
  "keeps (on_db (claimed_at_least i n)) (claim_outbox_event j)"
  "keeps (on_db (claimed_at_least i n)) (mark_outbox_event_dispatched e)"
  "keeps (on_db (claimed_at_least i n)) (mark_outbox_event_failed e err)"
  "keeps (on_db (claimed_at_least i n)) (record_publish_job_outbox job)"
proof -
  show "keeps (on_db (claimed_at_least i n)) (claim_outbox_event j)"
    unfolding claim_outbox_event_def
    by (intro keeps_intros keeps_update_outbox claimed_update) simp
  show "keeps (on_db (claimed_at_least i n)) (mark_outbox_event_dispatched e)"
    unfolding mark_outbox_event_dispatched_def
    by (intro keeps_intros keeps_update_outbox claimed_update) simp
  show "keeps (on_db (claimed_at_least i n)) (mark_outbox_event_failed e err)"
    unfolding mark_outbox_event_failed_def Let_def
    by (intro keeps_intros keeps_update_outbox claimed_update) simp
  show "keeps (on_db (claimed_at_least i n)) (record_publish_job_outbox job)"
    unfolding record_publish_job_outbox_def Let_def
    by (intro keeps_intros) (auto simp: claimed_at_least_def)
qed

lemma claimed_step:
  assumes "outbox_step w w'" "claimed_at_least i n (db w)" shows "claimed_at_least i n (db w')"
  using assms(1)
proof cases
  case (claim j r)
  then show ?thesis using assms(2) by (rule keeps_dbD [OF keeps_claimed(1)])
next
  case (dispatched e r)
  then show ?thesis using assms(2) by (rule keeps_dbD [OF keeps_claimed(2)])
next
  case (failed e err r)
  then show ?thesis using assms(2) by (rule keeps_dbD [OF keeps_claimed(3)])
next
  case (recorded job r)
  then show ?thesis using assms(2) by (rule keeps_dbD [OF keeps_claimed(4)])
next
  case other
  then show ?thesis using assms(2) by (simp add: claimed_at_least_def)
qed

lemma claimed_steps: "outbox_steps w w' \<Longrightarrow> claimed_at_least i n (db w) \<Longrightarrow> claimed_at_least i n (db w')"
  by (induction rule: outbox_steps.induct) (auto intro: claimed_step)

definition claimed_row :: "outbox_event \<Rightarrow> outbox_event" where
  "claimed_row e = e\<lparr>out_Status := OutboxStatusProcessing, out_Attempts := out_Attempts e + 1,
     out_ErrorMessage := ''''\<rparr>"

lemma claimed_at_least_weaken: "claimed_at_least i m d \<Longrightarrow> n \<le> m \<Longrightarrow> claimed_at_least i n d"
  unfolding claimed_at_least_def by (meson order_trans)

text \<open>A successful claim: the row was due, and what the claimant got is the row as it is now.\<close>

lemma claim_outbox_event_Some:
  assumes "claim_outbox_event i w = (Inr (Some e), w')"
  obtains t0 t1 where "t0 = env_now (env w) (calls w)"
    "\<exists>r\<in>set (outbox (db w)). out_ID r = i \<and> outbox_due t0 r"
    "outbox (db w') = update_rows (\<lambda>r. out_ID r = i \<and> outbox_due t0 r)
       (\<lambda>r. (claimed_row r)\<lparr>out_UpdatedAt := t1\<rparr>) (outbox (db w))"
    "find (\<lambda>r. out_ID r = i) (outbox (db w')) = Some e"
    "queue w' = queue w" "env w' = env w"
proof -
  let ?p = "\<lambda>r. out_ID r = i \<and> outbox_due (env_now (env w) (calls w)) r"
  obtain n w1 where u: "update_outbox ?p claimed_row (tick w) = (Inr n, w1)" and n: "n \<noteq> 0"
    and f: "bindE (first_row (\<lambda>d. find (\<lambda>r. out_ID r = i) (outbox d))) (\<lambda>e. ret (Some e)) w1
      = (Inr (Some e), w')"
    using assms unfolding claim_outbox_event_def claimed_row_def [abs_def] bindE_Inr [of now_utc]
      bindE_Inr [of "update_outbox _ _"] now_utc_Inr
    by (auto split: if_splits)
  from f obtain w2 where f': "first_row (\<lambda>d. find (\<lambda>r. out_ID r = i) (outbox d)) w1 = (Inr e, w2)" "w' = w2"
    by (auto simp: bindE_Inr)
  note f' = first_row_Inr [OF f'(1)] f'(2)
  note u = update_outbox_Inr [OF u]
  show thesis
  proof (rule that [OF refl])
    show "\<exists>r\<in>set (outbox (db w)). ?p r" using u n by simp
    show "outbox (db w') = update_rows ?p (\<lambda>r. (claimed_row r)\<lparr>out_UpdatedAt :=
        env_now (env (tick w)) (calls (tick w))\<rparr>) (outbox (db w))" using u f' by simp
    show "find (\<lambda>r. out_ID r = i) (outbox (db w')) = Some e" using f' by simp
    show "queue w' = queue w" "env w' = env w" using u f' by simp_all
  qed
qed

lemma claimed_after_claim:
  assumes "claim_outbox_event i w = (Inr (Some e), w')" "distinct (map out_ID (outbox (db w)))"
  shows "claimed_at_least i (out_Attempts e) (db w')"
    and "claimed_at_least i n (db w) \<Longrightarrow> claimed_at_least i (n + 1) (db w')"
proof -
  from assms(1) obtain t0 t1 where due: "\<exists>r\<in>set (outbox (db w)). out_ID r = i \<and> outbox_due t0 r"
    and new: "outbox (db w') = update_rows (\<lambda>r. out_ID r = i \<and> outbox_due t0 r)
       (\<lambda>r. (claimed_row r)\<lparr>out_UpdatedAt := t1\<rparr>) (outbox (db w))"
    and e: "find (\<lambda>r. out_ID r = i) (outbox (db w')) = Some e"
    by (rule claim_outbox_event_Some)
  from due obtain r0 where r0: "r0 \<in> set (outbox (db w))" "out_ID r0 = i" "outbox_due t0 r0" by blast
  have ids: "map out_ID (outbox (db w')) = map out_ID (outbox (db w))"
    unfolding new by (rule map_update_rows) (simp add: claimed_row_def)
  then have dist: "distinct (map out_ID (outbox (db w')))" using assms(2) by simp
  have in_e: "e \<in> set (outbox (db w'))" "out_ID e = i" using find_Some_set [OF e] by simp_all
  have only: "r = e" if "r \<in> set (outbox (db w'))" "out_ID r = i" for r
    using row_by_id [OF dist in_e(1) that(1)] that(2) in_e(2) by simp
  then have "\<forall>r\<in>set (outbox (db w')). out_ID r = i \<longrightarrow> out_Attempts e \<le> out_Attempts r" by auto
  with dist in_e show "claimed_at_least i (out_Attempts e) (db w')"
    unfolding claimed_at_least_def by blast
  define c where "c = (claimed_row r0)\<lparr>out_UpdatedAt := t1\<rparr>"
  have "c \<in> set (outbox (db w'))" unfolding new set_update_rows c_def using r0 by force
  moreover have "out_ID c = i" "out_Attempts c = out_Attempts r0 + 1"
    using r0(2) by (simp_all add: c_def claimed_row_def)
  ultimately have "out_Attempts e = out_Attempts r0 + 1" using only by blast
  moreover assume "claimed_at_least i n (db w)"
  then have "n \<le> out_Attempts r0" using r0(1,2) unfolding claimed_at_least_def by blast
  ultimately show "claimed_at_least i (n + 1) (db w')"
    using \<open>claimed_at_least i (out_Attempts e) (db w')\<close> by (simp add: claimed_at_least_weaken)
qed

lemma stale_update_nothing:
  assumes "claimed_at_least (out_ID e) (out_Attempts e + 1) (db w)"
  shows "outbox (db (snd (update_outbox (claim_current e) f w))) = outbox (db w)"
proof -
  have none: "\<forall>r\<in>set (outbox (db w)). \<not> claim_current e r"
    using assms by (auto simp: claimed_at_least_def claim_current_def)
  obtain r w' where u: "update_outbox (claim_current e) f w = (r, w')" by fastforce
  show ?thesis
  proof (cases r)
    case (Inl x)
    with u show ?thesis using update_outbox_Inl [of _ f w x w'] by simp
  next
    case (Inr n)
    with update_outbox_Inr [OF u [unfolded Inr]] u none show ?thesis by (simp add: update_rows_none)
  qed
qed

lemma stale_marks_nothing:
  assumes "claimed_at_least (out_ID e) (out_Attempts e + 1) (db w)"
  shows "outbox (db (snd (mark_outbox_event_dispatched e w))) = outbox (db w)"
    and "outbox (db (snd (mark_outbox_event_failed e err w))) = outbox (db w)"
proof -
  have s: "outbox (db (snd (bindE (update_outbox (claim_current e) f) (\<lambda>_. ret ()) (tick w)))) = outbox (db w)" for f
    using stale_update_nothing [of e "tick w" f] assms
    by (cases "fst (update_outbox (claim_current e) f (tick w))") (simp_all add: bindE_def case_prod_unfold)
  show "outbox (db (snd (mark_outbox_event_dispatched e w))) = outbox (db w)"
    using s by (simp add: mark_outbox_event_dispatched_def bindE_def [of now_utc] now_utc_def)
  show "outbox (db (snd (mark_outbox_event_failed e err w))) = outbox (db w)"
    using s by (simp add: mark_outbox_event_failed_def Let_def bindE_def [of now_utc] now_utc_def)
qed

section \<open>A dispatch that is not interrupted\<close>

lemma enqueue_ok:
  assumes "no_fault w"
  shows "\<exists>w'. enqueue job w = (Inr (), w') \<and> db w' = db w \<and> env w' = env w
    \<and> job_JobID job \<in> job_JobID ` set (queue w')"
proof (cases "job_JobID job \<in> job_JobID ` set (queue w)")
  case True
  then have "enqueue job w = (Inr (), tick w)" using assms
    by (simp add: enqueue_def asynq_enqueue_def bindE_def external_def tryE_def no_fault_def)
  with True show ?thesis by simp
next
  case False
  then have "enqueue job w = (Inr (), (tick w)\<lparr>queue := queue w @ [job]\<rparr>)" using assms
    by (simp add: enqueue_def asynq_enqueue_def bindE_def external_def tryE_def no_fault_def)
  then show ?thesis by simp
qed

lemma ensure_workspace_frame:
  "ensure_publish_job_workspace_id job w = (r, w') \<Longrightarrow>
     db w' = db w \<and> env w' = env w \<and> queue w' = queue w \<and>
     (\<forall>job'. r = Inr job' \<longrightarrow> job_JobID job' = job_JobID job)"
  unfolding ensure_publish_job_workspace_id_def Let_def
  by (cases "first_row (find_project (job_ProjectID job)) w")
    (auto split: if_splits sum.splits dest: first_row_Inr first_row_Inl)

definition outbox_job :: "publish_service \<Rightarrow> outbox_event \<Rightarrow> err + publish_job" where
  "outbox_job s e = (case out_Payload e of JobPayload job \<Rightarrow> Inr job | RawPayload t \<Rightarrow> svc_decode_job s t)"

lemma dispatch_claimed_frame:
  assumes "no_fault w" "dispatch_claimed_outbox_event s e w = (r, w')"
  shows "db w' = db w \<and> env w' = env w \<and>
    (case r of Inr _ \<Rightarrow> \<exists>job. outbox_job s e = Inr job \<and> job_JobID job \<in> job_JobID ` set (queue w')
     | Inl _ \<Rightarrow> queue w' = queue w)"
proof (cases "out_EventType e = OutboxEventPublishJobRequested \<and> (\<exists>job. outbox_job s e = Inr job)")
  case False
  then have "(\<exists>x. r = Inl x) \<and> w' = w"
    using assms(2) by (auto simp: dispatch_claimed_outbox_event_def outbox_job_def [symmetric]
        split: if_splits sum.splits)
  then show ?thesis by auto
next
  case True
  then obtain job where job: "outbox_job s e = Inr job" by blast
  obtain q w1 where q: "ensure_publish_job_workspace_id job w = (q, w1)" by fastforce
  note f = ensure_workspace_frame [OF q]
  have run: "hand_over_job e q w1 = (r, w')"
    using True job q assms(2) by (simp add: dispatch_claimed_outbox_event_def outbox_job_def [symmetric])
  show ?thesis
  proof (cases q)
    case (Inl x)
    with run f show ?thesis by (auto simp: hand_over_job_def)
  next
    case (Inr job')
    have nf: "no_fault w1" using f assms(1) by (simp add: no_fault_def)
    obtain w2 where en: "enqueue job' w1 = (Inr (), w2)" "db w2 = db w1" "env w2 = env w1"
      "job_JobID job' \<in> job_JobID ` set (queue w2)" using enqueue_ok [OF nf] by blast
    have id: "job_JobID job' = job_JobID job" using f Inr by blast
    from run Inr en(1) have "(\<exists>x. r = Inl x) \<and> w' = w1 \<or> r = Inr () \<and> w' = w2"
      by (auto simp: hand_over_job_def split: if_splits)
    then show ?thesis
    proof
      assume "r = Inr () \<and> w' = w2"
      with en f job id show ?thesis by simp
    qed (use f in auto)
  qed
qed

text \<open>Marking the current claim: the row with this id changes, as \<open>find\<close> sees it.\<close>

lemma find_by_id_update:
  assumes "find (\<lambda>r. out_ID r = i) rs = Some e" "distinct (map out_ID rs)" "p e"
    and "\<And>r. p r \<Longrightarrow> out_ID r = i" and "\<And>r. out_ID (f r) = out_ID r"
  shows "find (\<lambda>r. out_ID r = i) (update_rows p f rs) = Some (f e)"
proof (rule find_update_rows_same)
  show "\<And>r. (out_ID (f r) = i) = (out_ID r = i)" using assms(5) by simp
  show "find (\<lambda>r. out_ID r = i) rs = Some e" by (rule assms(1))
  have e: "e \<in> set rs" "out_ID e = i" using find_Some_set [OF assms(1)] by simp_all
  show "\<forall>r\<in>set rs. out_ID r = i \<longrightarrow> p r"
  proof (intro ballI impI)
    fix r assume "r \<in> set rs" "out_ID r = i"
    then have "r = e" using row_by_id [OF assms(2) e(1)] e(2) by simp
    with assms(3) show "p r" by simp
  qed
qed

section \<open>Properties\<close>

text \<open>
  C22: A dispatcher that lost its claim cannot disturb the new one. After an event was claimed, let
  any dispatchers run any operations on the outbox in any order; once the event has been claimed
  again, the first claimant's \<open>markOutboxEventDispatched\<close> and \<open>markOutboxEventFailed\<close>, however
  late, change no row.
\<close>

theorem outbox_claim_fencing:
  assumes "claim_outbox_event i w = (Inr (Some e), w1)" "distinct (map out_ID (outbox (db w)))"
    and "outbox_steps w1 w2" "claim_outbox_event i w2 = (Inr (Some e2), w3)" "outbox_steps w3 w4"
  shows "outbox (db (snd (mark_outbox_event_dispatched e w4))) = outbox (db w4)
    \<and> outbox (db (snd (mark_outbox_event_failed e err w4))) = outbox (db w4)"
proof -
  have id: "out_ID e = i"
    using assms(1) by (rule claim_outbox_event_Some) (auto dest: find_Some_set)
  have "claimed_at_least i (out_Attempts e) (db w1)" using claimed_after_claim(1) [OF assms(1,2)] .
  then have c2: "claimed_at_least i (out_Attempts e) (db w2)" using claimed_steps [OF assms(3)] by blast
  then have "distinct (map out_ID (outbox (db w2)))" by (simp add: claimed_at_least_def)
  with claimed_after_claim(2) [OF assms(4) _ c2]
  have "claimed_at_least i (out_Attempts e + 1) (db w3)" by blast
  then have "claimed_at_least i (out_Attempts e + 1) (db w4)" using claimed_steps [OF assms(5)] by blast
  with id stale_marks_nothing [of e w4] show ?thesis by simp
qed

text \<open>
  The retry delay of a failed dispatch grows by a second per attempt from one second and never
  exceeds five minutes, for every attempt count below 9 * 10^9 (where the multiplication would
  leave 64 bits).
\<close>

theorem outbox_backoff_bounds:
  assumes "sint n < 9000000000"
  shows "second \<le> sint (outbox_retry_backoff n) \<and> sint (outbox_retry_backoff n) \<le> 5 * minute
    \<and> (sint m \<le> sint n \<longrightarrow> sint (outbox_retry_backoff m) \<le> sint (outbox_retry_backoff n))"
  using outbox_retry_backoff_value [of n] outbox_retry_backoff_value [of m] assms
  by (auto simp: minute_def second_def)

theorem outbox_backoff_bounds_witness:
  "second \<le> sint (outbox_retry_backoff 7) \<and> sint (outbox_retry_backoff 7) \<le> 5 * minute"
  using outbox_backoff_bounds [of 7 7] by simp

lemma find_by_id:
  "distinct (map out_ID rs) \<Longrightarrow> r \<in> set rs \<Longrightarrow> out_ID r = i \<Longrightarrow> find (\<lambda>r. out_ID r = i) rs = Some r"
  using find_key [of out_ID rs r] by simp

lemma claim_outbox_event_ok:
  assumes nf: "no_fault w" and d: "distinct (map out_ID (outbox (db w)))"
    and r: "r0 \<in> set (outbox (db w))" "out_ID r0 = i" "outbox_due (env_now (env w) (calls w)) r0"
  obtains e w1 where "claim_outbox_event i w = (Inr (Some e), w1)" "no_fault w1" "queue w1 = queue w"
    "distinct (map out_ID (outbox (db w1)))" "find (\<lambda>r. out_ID r = i) (outbox (db w1)) = Some e"
    "out_ID e = i" "out_Status e = OutboxStatusProcessing" "out_Attempts e = out_Attempts r0 + 1"
    "out_Payload e = out_Payload r0"
proof -
  define p where "p = (\<lambda>r. out_ID r = i \<and> outbox_due (env_now (env w) (calls w)) r)"
  define f where "f = (\<lambda>r. (claimed_row r)\<lparr>out_UpdatedAt := env_now (env w) (Suc (calls w))\<rparr>)"
  define w1 where "w1 = (tick (tick (tick w)))\<lparr>db := (db w)\<lparr>outbox := update_rows p f (outbox (db w))\<rparr>\<rparr>"
  have nf1: "no_fault w1" using nf by (simp add: w1_def no_fault_def)
  have u: "update_outbox p claimed_row (tick w) = (Inr (count_rows p (outbox (db w))), w1)"
    using nf by (simp add: update_outbox_ok w1_def f_def)
  have c: "count_rows p (outbox (db w)) \<noteq> 0" using r by (auto simp: p_def)
  have fnd: "find (\<lambda>r. out_ID r = i) (update_rows p f (outbox (db w))) = Some (f r0)"
  proof (rule find_by_id_update [OF find_by_id [OF d r(1,2)] d])
    show "p r0" using r by (simp add: p_def)
  qed (simp_all add: p_def f_def claimed_row_def)
  have "claim_outbox_event i w = bindE (update_outbox p claimed_row) (\<lambda>n.
     if n = 0 then ret None
     else bindE (first_row (\<lambda>d. find (\<lambda>e. out_ID e = i) (outbox d))) (\<lambda>e. ret (Some e))) (tick w)"
    unfolding claim_outbox_event_def p_def claimed_row_def [abs_def]
    by (simp add: bindE_def [of now_utc] now_utc_def)
  also have "\<dots> = (Inr (Some (f r0)), tick w1)"
    unfolding bindE_def u using c fnd nf1 by (simp add: first_row_ok) (simp add: w1_def)
  finally have cl: "claim_outbox_event i w = (Inr (Some (f r0)), tick w1)" .
  show thesis
  proof (rule that [OF cl])
    show "no_fault (tick w1)" using nf1 by simp
    show "distinct (map out_ID (outbox (db (tick w1))))"
      using d by (simp add: w1_def map_update_rows f_def claimed_row_def)
    show "find (\<lambda>r. out_ID r = i) (outbox (db (tick w1))) = Some (f r0)" using fnd by (simp add: w1_def)
  qed (simp_all add: w1_def f_def claimed_row_def r(2))
qed

text \<open>
  A dispatch that is not interrupted settles the event. When no call fails and the event is due,
  \<open>dispatchOutboxEvent\<close> either returns without error, the event is dispatched and a task with the
  job's id is in the queue; or it returns an error, the queue is as before, and the event is failed
  with one more attempt counted and a time for the next one.
\<close>

theorem dispatch_outbox_event_settles:
  assumes "no_fault w" "i \<noteq> uuid_nil" "distinct (map out_ID (outbox (db w)))"
    and "r0 \<in> set (outbox (db w))" "out_ID r0 = i" "outbox_due (env_now (env w) (calls w)) r0"
    and "dispatch_outbox_event s i w = (res, w')"
  shows "\<exists>r. find (\<lambda>r. out_ID r = i) (outbox (db w')) = Some r \<and> (case res of
      Inr _ \<Rightarrow> out_Status r = OutboxStatusDispatched \<and>
        (\<exists>job. outbox_job s r0 = Inr job \<and> job_JobID job \<in> job_JobID ` set (queue w'))
    | Inl _ \<Rightarrow> out_Status r = OutboxStatusFailed \<and> out_NextAttemptAt r \<noteq> None \<and>
        out_Attempts r = out_Attempts r0 + 1 \<and> queue w' = queue w)"
proof -
  obtain e w1 where cl: "claim_outbox_event i w = (Inr (Some e), w1)" and w1: "no_fault w1" "queue w1 = queue w"
    "distinct (map out_ID (outbox (db w1)))" "find (\<lambda>r. out_ID r = i) (outbox (db w1)) = Some e"
    and e: "out_ID e = i" "out_Status e = OutboxStatusProcessing" "out_Attempts e = out_Attempts r0 + 1"
    "out_Payload e = out_Payload r0"
    by (rule claim_outbox_event_ok [OF assms(1,3-6)])
  obtain q w2 where dp: "dispatch_claimed_outbox_event s e w1 = (q, w2)" by fastforce
  note fr = dispatch_claimed_frame [OF w1(1) dp]
  have nf2: "no_fault w2" using fr w1(1) by (simp add: no_fault_def)
  have job: "outbox_job s e = outbox_job s r0" by (simp add: outbox_job_def e(4))
  have mark: "find (\<lambda>r. out_ID r = i) (update_rows (claim_current e) f (outbox (db w1))) = Some (f e)"
    if "\<And>r. out_ID (f r) = out_ID r" for f
  proof (rule find_by_id_update)
    show "find (\<lambda>r. out_ID r = i) (outbox (db w1)) = Some e" "distinct (map out_ID (outbox (db w1)))"
      using w1 by simp_all
    show "claim_current e e" using e by (simp add: claim_current_def)
  qed (simp_all add: claim_current_def e that)
  have run: "dispatch_outbox_event s i w = (case q of
      Inl err \<Rightarrow> bindE (tryE (mark_outbox_event_failed e err)) (\<lambda>m. case m of
                Inl markErr \<Rightarrow> throw (ErrJoin err markErr) | Inr _ \<Rightarrow> throw err) w2
    | Inr _ \<Rightarrow> mark_outbox_event_dispatched e w2)"
    using assms(2) cl dp by (simp add: dispatch_outbox_event_def bindE_def [of "claim_outbox_event i"]
        split: sum.split)
  show ?thesis
  proof (cases q)
    case (Inr u)
    with run assms(7) nf2 have "res = Inr ()" "db w' = (db w2)\<lparr>outbox := update_rows (claim_current e)
        (\<lambda>r. (r\<lparr>out_Status := OutboxStatusDispatched, out_ProcessedAt := Some (env_now (env w2) (calls w2)),
              out_NextAttemptAt := None, out_ErrorMessage := ''''\<rparr>)\<lparr>out_UpdatedAt := env_now (env w2) (Suc (calls w2))\<rparr>)
        (outbox (db w2))\<rparr>" "queue w' = queue w2"
      by (auto simp: mark_outbox_event_dispatched_def bindE_def now_utc_def update_outbox_ok)
    with fr Inr job show ?thesis by (simp add: mark)
  next
    case (Inl x)
    define t where "t = env_now (env w2) (calls w2) + sint (outbox_retry_backoff (word_of_int (out_Attempts e)))"
    from Inl run assms(7) nf2 have "res = Inl x" "db w' = (db w2)\<lparr>outbox := update_rows (claim_current e)
        (\<lambda>r. (r\<lparr>out_Status := OutboxStatusFailed, out_NextAttemptAt := Some t,
              out_ErrorMessage := sanitize (err_text x)\<rparr>)\<lparr>out_UpdatedAt := env_now (env w2) (Suc (calls w2))\<rparr>)
        (outbox (db w2))\<rparr>" "queue w' = queue w2"
      by (simp_all add: mark_outbox_event_failed_def Let_def bindE_def tryE_def now_utc_def
          update_outbox_ok t_def)
    with fr Inl w1(2) e(3) show ?thesis by (simp add: mark)
  qed
qed

text \<open>A pending event.\<close>

definition sample_outbox_event :: outbox_event where
  "sample_outbox_event = \<lparr>out_ID = 9, out_AggregateID = 1, out_EventType = OutboxEventPublishJobRequested,
     out_Payload = JobPayload sample_job, out_Status = OutboxStatusPending, out_Attempts = 0,
     out_NextAttemptAt = None, out_ProcessedAt = None, out_ErrorMessage = '''', out_CreatedAt = 0,
     out_UpdatedAt = 0\<rparr>"

theorem dispatch_outbox_event_settles_witness:
  "\<exists>r. find (\<lambda>r. out_ID r = 9) (outbox (db (snd (dispatch_outbox_event idle_service 9
      (start_world (empty_db\<lparr>outbox := [sample_outbox_event]\<rparr>)))))) = Some r
    \<and> out_Status r \<in> {OutboxStatusDispatched, OutboxStatusFailed}"
proof -
  let ?w = "start_world (empty_db\<lparr>outbox := [sample_outbox_event]\<rparr>)"
  obtain res w' where run: "dispatch_outbox_event idle_service 9 ?w = (res, w')" by fastforce
  have "outbox_due (env_now (env ?w) (calls ?w)) sample_outbox_event"
    by (simp add: outbox_due_def sample_outbox_event_def)
  from dispatch_outbox_event_settles [OF _ _ _ _ _ this run] run show ?thesis
    by (cases res) (auto simp: sample_outbox_event_def)
qed

definition claim_world1 :: world where
  "claim_world1 = snd (claim_outbox_event 9 (start_world (empty_db\<lparr>outbox := [sample_outbox_event]\<rparr>)))"

definition claim_world2 :: world where
  "claim_world2 = claim_world1\<lparr>env := calm_env\<lparr>env_now := \<lambda>_. 200 * second\<rparr>\<rparr>"

definition claim_world3 :: world where
  "claim_world3 = snd (claim_outbox_event 9 claim_world2)"

theorem outbox_claim_fencing_witness:
  "\<exists>e. outbox (db (snd (mark_outbox_event_dispatched e claim_world3))) = outbox (db claim_world3)
     \<and> out_Attempts e = 1"
proof -
  let ?w = "start_world (empty_db\<lparr>outbox := [sample_outbox_event]\<rparr>)"
  define e where "e = sample_outbox_event\<lparr>out_Status := OutboxStatusProcessing, out_Attempts := 1,
      out_UpdatedAt := 1\<rparr>"
  have c1: "claim_outbox_event 9 ?w = (Inr (Some e), claim_world1)"
    unfolding claim_world1_def
    by (simp add: claim_outbox_event_def bindE_def now_utc_def update_outbox_ok first_row_ok
        update_rows_def outbox_due_def sample_outbox_event_def e_def)
  have d1: "outbox (db claim_world1) = [e]"
    unfolding claim_world1_def
    by (simp add: claim_outbox_event_def bindE_def now_utc_def update_outbox_ok first_row_ok
        update_rows_def outbox_due_def sample_outbox_event_def e_def)
  have "no_fault claim_world2" by (simp add: claim_world2_def no_fault_def)
  have "outbox_due (env_now (env claim_world2) (calls claim_world2)) e"
    by (simp add: claim_world2_def outbox_due_def e_def sample_outbox_event_def publish_outbox_claim_timeout_def
        minute_def second_def)
  then obtain e2 v where "claim_outbox_event 9 claim_world2 = (Inr (Some e2), v)"
    by (rule claim_outbox_event_ok [OF \<open>no_fault claim_world2\<close>, of e 9, rotated 3])
      (simp_all add: claim_world2_def d1 e_def sample_outbox_event_def)
  then have c2: "claim_outbox_event 9 claim_world2 = (Inr (Some e2), claim_world3)"
    by (simp add: claim_world3_def)
  have "outbox_steps claim_world1 claim_world2"
    by (rule outbox_steps.more [OF outbox_steps.none outbox_step.other]) (simp add: claim_world2_def)
  from outbox_claim_fencing [OF c1 _ this c2 outbox_steps.none]
  have "outbox (db (snd (mark_outbox_event_dispatched e claim_world3))) = outbox (db claim_world3)" by simp
  then show ?thesis by (auto simp: e_def)
qed

end
