(* ===== verification/Publish_Replay.thy ===== *)
theory Publish_Replay
  imports Publish_Core
begin

text \<open>
  Idempotent replay (\<open>services/publish/service.go\<close>): a request that carries an idempotency key
  under which a job was queued before gets the answer of that job, built from the newest event of
  the job. The order of the events is the type \<open>replay_key\<close>, an instance of \<open>linorder\<close>: creation
  time first, then the rank of the event type.
\<close>

section \<open>The order of the events\<close>

definition publish_event_replay_rank :: "string \<Rightarrow> int" where
  "publish_event_replay_rank eventType =
     (if eventType = ''succeeded'' \<or> eventType = ''failed'' then 4
      else if eventType = ''started'' then 3
      else if eventType = ''queued'' then 2
      else if eventType = ''requested'' then 1
      else 0)"

definition publish_event_newer_for_replay :: "publish_event \<Rightarrow> publish_event \<Rightarrow> bool" where
  "publish_event_newer_for_replay candidate current =
     (if ev_CreatedAt candidate > ev_CreatedAt current then True
      else if ev_CreatedAt current > ev_CreatedAt candidate then False
      else publish_event_replay_rank (ev_EventType candidate) > publish_event_replay_rank (ev_EventType current))"

datatype replay_key = ReplayKey (rk_created: time) (rk_rank: int)

instantiation replay_key :: linorder
begin

definition less_eq_replay_key :: "replay_key \<Rightarrow> replay_key \<Rightarrow> bool" where
  "less_eq_replay_key a b = (rk_created a < rk_created b
     \<or> rk_created a = rk_created b \<and> rk_rank a \<le> rk_rank b)"

definition less_replay_key :: "replay_key \<Rightarrow> replay_key \<Rightarrow> bool" where
  "less_replay_key a b = (rk_created a < rk_created b
     \<or> rk_created a = rk_created b \<and> rk_rank a < rk_rank b)"

instance
  by standard (auto simp: less_eq_replay_key_def less_replay_key_def replay_key.expand)

end

definition replay_key_of :: "publish_event \<Rightarrow> replay_key" where
  "replay_key_of e = ReplayKey (ev_CreatedAt e) (publish_event_replay_rank (ev_EventType e))"

lemma newer_iff: "publish_event_newer_for_replay c e \<longleftrightarrow> replay_key_of e < replay_key_of c"
  by (auto simp: publish_event_newer_for_replay_def replay_key_of_def less_replay_key_def)

section \<open>Replay\<close>

text \<open>The loop that keeps the newer event.\<close>

definition newest_event :: "publish_event \<Rightarrow> publish_event list \<Rightarrow> publish_event" where
  "newest_event queued events =
     foldl (\<lambda>e candidate. if publish_event_newer_for_replay candidate e then candidate else e) queued events"

text \<open>\<open>ORDER BY created_at DESC, id LIMIT 1\<close>.\<close>

definition latest_first :: "publish_event list \<Rightarrow> publish_event option" where
  "latest_first rs = (case sort_key (\<lambda>e. - ev_CreatedAt e) (sort_key ev_ID rs) of [] \<Rightarrow> None | e # _ \<Rightarrow> Some e)"

definition queued_event :: "uuid \<Rightarrow> uuid \<Rightarrow> string \<Rightarrow> uuid \<Rightarrow> string \<Rightarrow> publish_event \<Rightarrow> bool" where
  "queued_event wid pid platform uid key e =
     (workspace_scope wid (ev_WorkspaceID e) \<and> ev_ProjectID e = pid \<and> ev_Platform e = platform \<and>
      ev_UserID e = uid \<and> ev_IdempotencyKey e = key \<and> ev_EventType e = ''queued'')"

definition job_event :: "uuid \<Rightarrow> uuid \<Rightarrow> string \<Rightarrow> uuid \<Rightarrow> uuid \<Rightarrow> publish_event \<Rightarrow> bool" where
  "job_event wid pid platform uid jobID e =
     (workspace_scope wid (ev_WorkspaceID e) \<and> ev_ProjectID e = pid \<and> ev_Platform e = platform \<and>
      ev_UserID e = uid \<and> ev_JobID e = jobID)"

definition replay_response :: "string \<Rightarrow> string \<Rightarrow> publish_event \<Rightarrow> publish_event \<Rightarrow> publish_response" where
  "replay_response platform key queued e = empty_response\<lparr>
     pr_Status := publication_status_text (ev_Status e), pr_JobID := uuid_text (ev_JobID queued),
     pr_IdempotencyKey := key, pr_Platform := platform, pr_QueuedAt := Some (ev_CreatedAt queued),
     pr_RemoteID := ev_RemoteID e, pr_PublishURL := ev_PublishURL e, pr_ErrorMessage := ev_ErrorMessage e\<rparr>"

definition find_idempotent_publish_response ::
  "uuid \<Rightarrow> uuid \<Rightarrow> string \<Rightarrow> uuid \<Rightarrow> string \<Rightarrow> publish_response option mpp" where
  "find_idempotent_publish_response wid pid platform uid key =
     (if trim_space key = '''' then ret None
      else bindE (asks (\<lambda>w. env_has_table (env w) ''publish_events'')) (\<lambda>table.
      if \<not> table then ret None
      else bindE (tryE (first_row (\<lambda>d. latest_first (filter (queued_event wid pid platform uid key)
                                        (publish_events d))))) (\<lambda>r. case r of
          Inl e \<Rightarrow> if err_is e ErrRecordNotFound then ret None else throw e
        | Inr queued \<Rightarrow>
            bindE (select (\<lambda>d. sort_key ev_CreatedAt (filter (job_event wid pid platform uid (ev_JobID queued))
                                 (publish_events d)))) (\<lambda>events.
            ret (Some (replay_response platform key queued (newest_event queued events)))))))"

text \<open>
  \<open>waitForIdempotentPublishResponse\<close> polls until there is a response, the deadline passes or the
  context ends; \<open>script\<close> is what each \<open>select\<close> receives.
\<close>

datatype wait_event = WaitTick | WaitDeadline | WaitCanceled err

fun wait_for_idempotent_publish_response ::
  "uuid \<Rightarrow> uuid \<Rightarrow> string \<Rightarrow> uuid \<Rightarrow> string \<Rightarrow> wait_event list \<Rightarrow> publish_response option mpp" where
  "wait_for_idempotent_publish_response wid pid platform uid key script =
     bindE (find_idempotent_publish_response wid pid platform uid key) (\<lambda>r. case r of
         Some resp \<Rightarrow> ret (Some resp)
       | None \<Rightarrow> (case script of
           [] \<Rightarrow> ret None
         | WaitDeadline # _ \<Rightarrow> ret None
         | WaitCanceled e # _ \<Rightarrow> throw e
         | WaitTick # rest \<Rightarrow> wait_for_idempotent_publish_response wid pid platform uid key rest))"

declare wait_for_idempotent_publish_response.simps [simp del]

section \<open>The newest event wins\<close>

lemma newest_event_in: "newest_event q es \<in> insert q (set es)"
  unfolding newest_event_def by (induction es arbitrary: q) auto

lemma newest_event_max: "e \<in> insert q (set es) \<Longrightarrow> replay_key_of e \<le> replay_key_of (newest_event q es)"
  unfolding newest_event_def newer_iff
proof (induction es arbitrary: q e)
  case (Cons c es)
  let ?q = "if replay_key_of q < replay_key_of c then c else q"
  have step: "replay_key_of x \<le> replay_key_of (foldl (\<lambda>e c. if replay_key_of e < replay_key_of c then c else e) ?q es)"
    if "x \<in> insert ?q (set es)" for x using Cons.IH [OF that] .
  have "replay_key_of q \<le> replay_key_of ?q" "replay_key_of c \<le> replay_key_of ?q" by auto
  with step [of ?q] Cons.prems step [of e] show ?case by (auto intro: order_trans)
qed simp

lemma latest_first_Some: "latest_first rs = Some e \<Longrightarrow> e \<in> set rs"
  by (auto simp: latest_first_def split: list.splits) (metis list.set_intros(1) set_sort)

lemma latest_first_None: "latest_first rs = None \<longleftrightarrow> rs = []"
  by (auto simp: latest_first_def split: list.splits) (metis list.set(1) set_empty set_sort)+

lemma keeps_find_idempotent [keeps_intros]:
  "keeps (on_db J) (find_idempotent_publish_response wid pid platform uid key)"
  unfolding find_idempotent_publish_response_def by (intro keeps_intros)

lemma keeps_wait_for_idempotent [keeps_intros]:
  "keeps (on_db J) (wait_for_idempotent_publish_response wid pid platform uid key script)"
proof (induction script)
  case Nil
  show ?case by (subst wait_for_idempotent_publish_response.simps) (simp, intro keeps_intros)
next
  case (Cons x xs)
  then show ?case
    by (subst wait_for_idempotent_publish_response.simps) (cases x; simp; intro keeps_intros)
qed

lemma find_idempotent_Some:
  assumes "find_idempotent_publish_response wid pid platform uid key w = (Inr (Some resp), w')"
  shows "\<exists>queued events w1.
    first_row (\<lambda>d. latest_first (filter (queued_event wid pid platform uid key) (publish_events d))) w
      = (Inr queued, w1) \<and>
    select (\<lambda>d. sort_key ev_CreatedAt (filter (job_event wid pid platform uid (ev_JobID queued))
      (publish_events d))) w1 = (Inr events, w') \<and>
    resp = replay_response platform key queued (newest_event queued events)"
proof (cases "fst (first_row (\<lambda>d. latest_first (filter (queued_event wid pid platform uid key)
    (publish_events d))) w)")
  case (Inl e)
  then show ?thesis using assms
    by (simp add: find_idempotent_publish_response_def throw_def
        case_prod_unfold split: if_split_asm)
next
  case (Inr queued)
  let ?sel = "\<lambda>d. sort_key ev_CreatedAt (filter (job_event wid pid platform uid (ev_JobID queued)) (publish_events d))"
  from Inr obtain w1 where f: "first_row (\<lambda>d. latest_first (filter (queued_event wid pid platform uid key)
    (publish_events d))) w = (Inr queued, w1)" by (metis prod.collapse)
  have b: "bindE (select ?sel) (\<lambda>events. ret (Some (replay_response platform key queued
      (newest_event queued events)))) w1 = (Inr (Some resp), w')"
    using assms f by (simp add: find_idempotent_publish_response_def split: if_split_asm)
  then obtain events w2 where "select ?sel w1 = (Inr events, w2)" "w' = w2"
    "resp = replay_response platform key queued (newest_event queued events)"
    unfolding bindE_Inr by (elim exE conjE) (simp add: ret_def)
  with f show ?thesis by simp
qed

section \<open>Properties\<close>

text \<open>
  A replayed response reports the newest event of its job. When the lookup returns a response,
  an event of type queued is stored under the key for this user, project, platform and workspace;
  the response carries that job's id and the status, error and links of an event of the job that
  no event of the job in scope is newer than. Nothing is returned for a blank key, and no table
  changes.
\<close>

theorem replay_reports_newest_event:
  assumes "find_idempotent_publish_response wid pid platform uid key w = (Inr (Some resp), w')"
  shows "trim_space key \<noteq> [] \<and> db w' = db w \<and>
    (\<exists>queued e. queued \<in> set (publish_events (db w)) \<and> queued_event wid pid platform uid key queued
      \<and> e \<in> set (publish_events (db w)) \<and> job_event wid pid platform uid (ev_JobID queued) e
      \<and> resp = replay_response platform key queued e
      \<and> (\<forall>x\<in>set (publish_events (db w)). job_event wid pid platform uid (ev_JobID queued) x \<longrightarrow>
            \<not> publish_event_newer_for_replay x e))"
proof -
  have key: "trim_space key \<noteq> []"
    using assms by (auto simp: find_idempotent_publish_response_def)
  have d: "db w' = db w"
    using keeps_dbD [OF keeps_find_idempotent assms, of "\<lambda>d. d = db w"] by simp
  obtain queued events w1 where fr: "first_row (\<lambda>d. latest_first (filter (queued_event wid pid platform uid key)
      (publish_events d))) w = (Inr queued, w1)"
    and s: "select (\<lambda>d. sort_key ev_CreatedAt (filter (job_event wid pid platform uid (ev_JobID queued))
      (publish_events d))) w1 = (Inr events, w')"
    and resp: "resp = replay_response platform key queued (newest_event queued events)"
    using find_idempotent_Some [OF assms] by (elim exE conjE) (rule that)
  note fr = first_row_Inr [OF fr]
  have qin: "queued \<in> set (publish_events (db w))" "queued_event wid pid platform uid key queued"
    using latest_first_Some [OF conjunct1 [OF fr]] by simp_all
  then have qj: "job_event wid pid platform uid (ev_JobID queued) queued"
    by (simp add: job_event_def queued_event_def)
  have ev: "set events = {x \<in> set (publish_events (db w)). job_event wid pid platform uid (ev_JobID queued) x}"
    using conjunct1 [OF select_Inr [OF s]] conjunct2 [OF fr] by simp
  let ?e = "newest_event queued events"
  have "queued \<in> set events" using ev qin(1) qj by simp
  then have e: "?e \<in> set events" using newest_event_in [of queued events] by auto
  have m: "\<not> publish_event_newer_for_replay x ?e" if "x \<in> set events" for x
    using newest_event_max [of x queued events] that by (simp add: newer_iff not_less)
  show ?thesis
  proof (intro conjI exI)
    show "trim_space key \<noteq> []" by (rule key)
    show "db w' = db w" by (rule d)
    show "queued \<in> set (publish_events (db w))" by (rule qin)
    show "queued_event wid pid platform uid key queued" by (rule qin)
    show "?e \<in> set (publish_events (db w))" "job_event wid pid platform uid (ev_JobID queued) ?e"
      using e ev by simp_all
    show "resp = replay_response platform key queued ?e" by (rule resp)
    show "\<forall>x\<in>set (publish_events (db w)). job_event wid pid platform uid (ev_JobID queued) x \<longrightarrow>
            \<not> publish_event_newer_for_replay x ?e"
      using m ev by simp
  qed
qed

definition replay_queued :: publish_event where
  "replay_queued = (event_of_job sample_job ''queued'' PublicationStatusQueued)\<lparr>ev_ID := 1, ev_CreatedAt := 10\<rparr>"

definition replay_done :: publish_event where
  "replay_done = (event_of_job sample_job ''succeeded'' PublicationStatusSucceeded)\<lparr>ev_ID := 2, ev_CreatedAt := 20\<rparr>"

definition replay_db :: db where
  "replay_db = empty_db\<lparr>publish_events := [replay_queued, replay_done,
     replay_done\<lparr>ev_ID := 3, ev_EventType := ''started'', ev_Status := PublicationStatusPublishing\<rparr>]\<rparr>"

lemma replay_db_answer:
  "find_idempotent_publish_response 3 2 ''x'' 4 ''k'' (start_world replay_db) =
     (Inr (Some (replay_response ''x'' ''k'' replay_queued replay_done)), tick (tick (start_world replay_db)))"
proof -
  have "trim_space ''k'' \<noteq> []" by code_simp
  moreover have "latest_first (filter (queued_event 3 2 ''x'' 4 ''k'') (publish_events replay_db)) = Some replay_queued"
    by code_simp
  moreover have "newest_event replay_queued (sort_key ev_CreatedAt
      (filter (job_event 3 2 ''x'' 4 (ev_JobID replay_queued)) (publish_events replay_db))) = replay_done"
    by code_simp
  ultimately show ?thesis
    by (simp add: find_idempotent_publish_response_def first_row_ok run_ok)
qed

theorem replay_reports_newest_event_witness:
  "db (tick (tick (start_world replay_db))) = replay_db \<and>
   (\<exists>queued e. queued \<in> set (publish_events replay_db) \<and>
      replay_response ''x'' ''k'' replay_queued replay_done = replay_response ''x'' ''k'' queued e \<and>
      e \<in> set (publish_events replay_db) \<and>
      (\<forall>x\<in>set (publish_events replay_db). job_event 3 2 ''x'' 4 (ev_JobID queued) x \<longrightarrow>
            \<not> publish_event_newer_for_replay x e))"
  using replay_reports_newest_event [OF replay_db_answer] by (simp only: start_world_db db_tick) blast

end
