(* ===== verification/Publish_Enqueue.thy ===== *)
theory Publish_Enqueue
  imports Publish_Service Publish_Outbox Publish_Replay
begin

text \<open>
  Asking for a publication (\<open>services/publish/queue.go\<close>, with the rows of \<open>schedule.go\<close> it
  writes): the checks before a job is made, the schedule row, and \<open>EnqueuePublishProject\<close>, which
  takes the publish lock for the job and records schedule, events, activities, status and outbox
  row in one transaction. \<open>wait_script\<close> is what the replay loop of the losing request sees.
\<close>

section \<open>Checks\<close>

definition prepare_publish_job_for_project ::
  "publish_service \<Rightarrow> project \<Rightarrow> string \<Rightarrow> uuid \<Rightarrow> (project \<times> publication) mpp" where
  "prepare_publish_job_for_project s p platform userID =
     bindE (workspace_of_project p) (\<lambda>wid.
     bindE (tryE (first_row (find_publication wid (proj_ID p) platform))) (\<lambda>r. case r of
         Inl _ \<Rightarrow> throw (ErrText (''publication record not found for platform: '' @ platform))
       | Inr pub \<Rightarrow>
           if \<not> pub_Enabled pub \<or> pub_Status pub = PublicationStatusCancelled then throw ErrPublicationDisabled
           else bindE now_utc (\<lambda>now.
           if (pub_Status pub = PublicationStatusQueued \<or> pub_Status pub = PublicationStatusPublishing)
              \<and> \<not> publication_publishing_stale now pub then throw ErrPublicationAlreadyPublishing
           else case get_publisher platform of
               Some e \<Rightarrow> throw e
             | None \<Rightarrow>
                 if pub_Status pub = PublicationStatusSyncing
                    \<or> \<not> publication_has_synced_draft pub \<and> pub_Status pub \<noteq> PublicationStatusPublishing
                 then throw ErrPublicationRequiresSync
                 else if svc_accounts s
                 then bindE (tryE (svc_resolve_account s userID pub)) (\<lambda>r. case r of
                     Inl e \<Rightarrow> if err_is e ErrPlatformAccountForbidden then throw ErrForbidden else throw e
                   | Inr pub \<Rightarrow> ret (p, pub))
                 else ret (p, pub))))"

definition prepare_publish_job ::
  "publish_service \<Rightarrow> uuid \<Rightarrow> string \<Rightarrow> uuid \<Rightarrow> (project \<times> publication) mpp" where
  "prepare_publish_job s projectID platform userID =
     bindE (tryE (project_for_publish projectID userID)) (\<lambda>r. case r of
         Inl _ \<Rightarrow> throw ErrForbidden
       | Inr p \<Rightarrow> prepare_publish_job_for_project s p platform userID)"

section \<open>The schedule row\<close>

text \<open>\<open>ORDER BY version_number DESC, created_at DESC\<close>, then the primary key.\<close>

definition latest_version :: "uuid \<Rightarrow> uuid \<Rightarrow> db \<Rightarrow> project_version option" where
  "latest_version wid pid d =
     (case sort_key (\<lambda>v. - ver_VersionNumber v) (sort_key (\<lambda>v. - ver_CreatedAt v) (sort_key ver_ID
        (filter (\<lambda>v. ver_WorkspaceID v = wid \<and> ver_ProjectID v = pid) (versions d)))) of
        [] \<Rightarrow> None | v # _ \<Rightarrow> Some v)"

definition latest_project_version_id :: "uuid \<Rightarrow> uuid \<Rightarrow> uuid mpp" where
  "latest_project_version_id wid pid =
     bindE (asks (\<lambda>w. env_has_table (env w) ''project_versions'')) (\<lambda>table.
     if \<not> table then ret uuid_nil
     else bindE (tryE (first_row (latest_version wid pid))) (\<lambda>r. case r of
         Inr v \<Rightarrow> ret (ver_ID v)
       | Inl e \<Rightarrow> if err_is e ErrRecordNotFound then ret uuid_nil else throw e))"

definition zero_schedule :: scheduled_publication where
  "zero_schedule = \<lparr>sch_ID = uuid_nil, sch_WorkspaceID = uuid_nil, sch_ProjectID = uuid_nil,
     sch_PublicationID = uuid_nil, sch_PlatformAccountID = None, sch_ProjectVersionID = None,
     sch_ScheduledAt = 0, sch_Timezone = '''', sch_Status = ScheduledPublicationStatusZero,
     sch_IdempotencyKey = '''', sch_CreatedBy = uuid_nil, sch_CancelledBy = None, sch_LastError = '''',
     sch_CreatedAt = 0\<rparr>"

definition insert_schedule :: "scheduled_publication \<Rightarrow> scheduled_publication mpp" where
  "insert_schedule s =
     bindE uuid_new (\<lambda>fresh.
     bindE (hook_workspace (sch_WorkspaceID s) (sch_ProjectID s) (sch_CreatedBy s)) (\<lambda>wid.
     bindE now_utc (\<lambda>now.
     let s = (scheduled_publication_before_create fresh wid s)\<lparr>sch_CreatedAt := now\<rparr>
     in bindE (create_row schedules (\<lambda>rs d. d\<lparr>schedules := rs\<rparr>) (\<lambda>r x. sch_ID x = sch_ID r) s) (\<lambda>_. ret s))))"

definition create_scheduled_publication ::
  "project \<Rightarrow> publication \<Rightarrow> uuid \<Rightarrow> string \<Rightarrow> time \<Rightarrow> schedule_status \<Rightarrow> scheduled_publication mpp" where
  "create_scheduled_publication p pub userID idempotencyKey scheduledAt status =
     bindE (asks (\<lambda>w. env_has_table (env w) ''scheduled_publications'')) (\<lambda>table.
     if \<not> table then ret zero_schedule
     else bindE (workspace_of_project p) (\<lambda>wid.
       bindE (latest_project_version_id wid (proj_ID p)) (\<lambda>version.
       insert_schedule \<lparr>sch_ID = uuid_nil, sch_WorkspaceID = wid, sch_ProjectID = proj_ID p,
         sch_PublicationID = pub_ID pub, sch_PlatformAccountID = pub_PlatformAccountID pub,
         sch_ProjectVersionID = (if version \<noteq> uuid_nil then Some version else None),
         sch_ScheduledAt = scheduledAt, sch_Timezone = ''UTC'',
         sch_Status = (if status = ScheduledPublicationStatusZero
                       then ScheduledPublicationStatusScheduled else status),
         sch_IdempotencyKey = idempotencyKey, sch_CreatedBy = userID, sch_CancelledBy = None,
         sch_LastError = '''', sch_CreatedAt = 0\<rparr>)))"

section \<open>Enqueueing\<close>

text \<open>The transaction: the schedule, the job with its id, and the outbox row that carries the job.\<close>

definition record_enqueue ::
  "project \<Rightarrow> publication \<Rightarrow> uuid \<Rightarrow> string \<Rightarrow> time \<Rightarrow> publish_job
   \<Rightarrow> (scheduled_publication \<times> publish_job \<times> outbox_event) mpp" where
  "record_enqueue p pub userID key scheduledAt job =
     bindE (create_scheduled_publication p pub userID key scheduledAt ScheduledPublicationStatusScheduled) (\<lambda>schedule.
     let job = job\<lparr>job_ScheduleID := sch_ID schedule\<rparr>;
         meta = [(''platform'', job_Platform job), (''job_id'', uuid_text (job_JobID job))]
     in bindE (record_publish_event (event_of_job job ''requested'' (pub_Status pub))) (\<lambda>_.
        bindE (record_project_publish_activity (job_WorkspaceID job) (proj_ID p) userID
                 ProjectActivityPublishRequested meta) (\<lambda>_.
        bindE (mark_queued pub (job_EnqueuedAt job)) (\<lambda>_.
        bindE (record_publish_event (event_of_job job ''queued'' PublicationStatusQueued)) (\<lambda>_.
        bindE (record_project_publish_activity (job_WorkspaceID job) (proj_ID p) userID
                 ProjectActivityPublishQueued meta) (\<lambda>_.
        bindE (record_publish_job_outbox job) (\<lambda>event.
        ret (schedule, job, event))))))))"

definition with_schedule :: "scheduled_publication \<Rightarrow> publish_response \<Rightarrow> publish_response" where
  "with_schedule schedule resp =
     (if sch_ID schedule = uuid_nil then resp
      else resp\<lparr>pr_ScheduledPublicationID := uuid_text (sch_ID schedule),
                pr_ScheduledAt := Some (sch_ScheduledAt schedule)\<rparr>)"

text \<open>Without a queue the project is published in the request.\<close>

definition publish_in_request ::
  "publish_service \<Rightarrow> uuid \<Rightarrow> project \<Rightarrow> publication \<Rightarrow> string \<Rightarrow> uuid \<Rightarrow> string \<Rightarrow> time \<Rightarrow> publish_response mpp" where
  "publish_in_request s wid p pub platform userID key scheduledAt =
     bindE (create_scheduled_publication p pub userID key scheduledAt ScheduledPublicationStatusScheduled) (\<lambda>schedule.
     bindE (publish_project_in_workspace s wid (proj_ID p) platform (Some userID) (sch_ID schedule)) (\<lambda>resp.
     ret (with_schedule schedule resp)))"

definition queued_response :: "publish_job \<Rightarrow> publication \<Rightarrow> publish_response" where
  "queued_response job pub = empty_response\<lparr>
     pr_Status := publication_status_text PublicationStatusQueued, pr_JobID := uuid_text (job_JobID job),
     pr_IdempotencyKey := job_IdempotencyKey job, pr_Platform := job_Platform job,
     pr_QueuedAt := Some (job_EnqueuedAt job), pr_PublishURL := pub_PublishURL pub\<rparr>"

definition enqueue_locked ::
  "publish_service \<Rightarrow> project \<Rightarrow> publication \<Rightarrow> uuid \<Rightarrow> string \<Rightarrow> time \<Rightarrow> publish_job \<Rightarrow> string
   \<Rightarrow> publish_response mpp" where
  "enqueue_locked s p pub userID key scheduledAt job lockKey =
     bindE (tryE (transaction (record_enqueue p pub userID key scheduledAt job))) (\<lambda>r. case r of
         Inl e \<Rightarrow> bindE (ignoreE (release_lock lockKey (uuid_text (job_JobID job)))) (\<lambda>_. throw e)
       | Inr (schedule, job, event) \<Rightarrow>
           bindE (ignoreE (dispatch_outbox_event s (out_ID event))) (\<lambda>_.
           ret (with_schedule schedule (queued_response job pub))))"

definition enqueue_prepared ::
  "publish_service \<Rightarrow> wait_event list \<Rightarrow> uuid \<Rightarrow> project \<Rightarrow> publication \<Rightarrow> string \<Rightarrow> uuid \<Rightarrow> string \<Rightarrow> publish_response mpp" where
  "enqueue_prepared s wait_script wid p pub platform userID key =
     bindE now_utc (\<lambda>scheduledAt.
     if \<not> svc_queue s then publish_in_request s wid p pub platform userID key scheduledAt
     else bindE uuid_new (\<lambda>jobID.
       let job = \<lparr>job_JobID = jobID, job_ProjectID = proj_ID p, job_WorkspaceID = wid, job_UserID = userID,
             job_Platform = platform, job_PublicationID = pub_ID pub, job_ScheduleID = uuid_nil,
             job_IdempotencyKey = key, job_EnqueuedAt = scheduledAt\<rparr>;
           lockKey = publish_lock_key (svc_lower s) (proj_ID p) platform
       in if \<not> coordination_queue_or_default s then throw ErrPublishQueueEmpty
          else bindE (acquire_lock lockKey (uuid_text jobID) publish_lock_ttl) (\<lambda>acquired.
            if \<not> acquired
            then if key \<noteq> ''''
                 then bindE (wait_for_idempotent_publish_response wid (proj_ID p) platform userID key wait_script) (\<lambda>r.
                   case r of Some resp \<Rightarrow> ret resp | None \<Rightarrow> throw ErrPublicationAlreadyPublishing)
                 else throw ErrPublicationAlreadyPublishing
            else enqueue_locked s p pub userID key scheduledAt job lockKey)))"

text \<open>
  \<open>EnqueuePublishProject\<close>. When the preparation fails the variable \<open>project\<close> holds the zero
  value the failed call returned, so the second lookup asks for project \<open>uuid_nil\<close>.
\<close>

definition enqueue_publish_project ::
  "publish_service \<Rightarrow> wait_event list \<Rightarrow> uuid \<Rightarrow> string \<Rightarrow> uuid option \<Rightarrow> string \<Rightarrow> publish_response mpp" where
  "enqueue_publish_project s wait_script projectID platform scopeUserID idempotencyKey =
     (case scopeUserID of
        None \<Rightarrow> throw ErrForbidden
      | Some userID \<Rightarrow>
          let key = normalize_idempotency_key idempotencyKey in
          bindE (project_for_publish projectID userID) (\<lambda>p.
          bindE (workspace_of_project p) (\<lambda>wid.
          bindE (if key \<noteq> '''' then find_idempotent_publish_response wid (proj_ID p) platform userID key
                 else ret None) (\<lambda>replay. case replay of
              Some resp \<Rightarrow> ret resp
            | None \<Rightarrow>
                bindE (tryE (prepare_publish_job_for_project s p platform userID)) (\<lambda>r. case r of
                    Inl e \<Rightarrow>
                      bindE (if key \<noteq> '''' then find_idempotent_publish_response wid uuid_nil platform userID key
                             else ret None) (\<lambda>replay. case replay of
                          Some resp \<Rightarrow> ret resp | None \<Rightarrow> throw e)
                  | Inr (p, pub) \<Rightarrow> enqueue_prepared s wait_script wid p pub platform userID key)))))"

fun batch_enqueue_publish_project ::
  "publish_service \<Rightarrow> wait_event list \<Rightarrow> uuid \<Rightarrow> string list \<Rightarrow> uuid option \<Rightarrow> string
   \<Rightarrow> (string \<rightharpoonup> publish_response) \<Rightarrow> (string \<rightharpoonup> publish_response) mpp" where
  "batch_enqueue_publish_project s ws projectID [] scopeUserID key results = ret results"
| "batch_enqueue_publish_project s ws projectID (p # ps) scopeUserID key results =
     bindE (tryE (enqueue_publish_project s ws projectID p scopeUserID
                    (if key \<noteq> '''' then key @ '':'' @ p else ''''))) (\<lambda>r.
     batch_enqueue_publish_project s ws projectID ps scopeUserID key
       (results(p \<mapsto> (case r of Inl e \<Rightarrow> publish_error_response e | Inr resp \<Rightarrow> resp))))"

section \<open>What a failed request leaves\<close>

lemma keeps_redis [keeps_intros]: "keeps (on_db J) (redis f)"
  by (auto simp: keeps_def redis_def external_def on_db_def split: option.splits prod.splits)

lemma keeps_locking [keeps_intros]: "keeps (on_db J) (acquire_lock k v t)" "keeps (on_db J) (release_lock k v)"
  "keeps (on_db J) (lock_value k)" "keeps (on_db J) (refresh_lock k v t)"
  unfolding acquire_lock_def release_lock_def lock_value_def refresh_lock_def by (intro keeps_intros)+

lemma keeps_access_db [keeps_intros]: "keeps (on_db J) (project_for_publish pid uid)"
  unfolding project_for_publish_def can_publish_project_def access_defs Let_def by (intro keeps_intros)

definition accounts_read_only :: "publish_service \<Rightarrow> bool" where
  "accounts_read_only s \<longleftrightarrow> (\<forall>J u p. keeps (on_db J) (svc_resolve_account s u p))"

lemma keeps_prepare: "accounts_read_only s \<Longrightarrow> keeps (on_db J) (prepare_publish_job_for_project s p platform uid)"
  unfolding prepare_publish_job_for_project_def
  by (intro keeps_intros) (simp add: accounts_read_only_def)

text \<open>The branch after the lock: the transaction, then nothing that can fail the request.\<close>

lemma enqueue_locked_error:
  "wp (enqueue_locked s p pub uid key t job lockKey) (\<lambda>_ _. True) (\<lambda>_ w'. db w' = db w) w"
proof -
  let ?J = "on_db (\<lambda>d. d = db w)"
  have rel: "keeps ?J (ignoreE (release_lock k v))" for k v by (intro keeps_intros)
  have tx: "wp (transaction m) (\<lambda>_ _. True) (\<lambda>_ w'. ?J w') w" for m :: "'z mpp"
    by (rule wpI) (auto simp: on_db_def dest: transaction_Inl_db)
  have err: "wp (bindE (ignoreE (release_lock k v)) (\<lambda>_. throw e)) (\<lambda>_ _. True) (\<lambda>_ w'. db w' = db w) w1"
    if "?J w1" for k v e w1
    by (rule wp_bindE, rule wp_keeps [OF rel that]) (auto intro: wp_throw simp: on_db_def)
  have ok: "wp (bindE (ignoreE m) (\<lambda>_. ret x)) (\<lambda>_ _. True) E w1" for m :: "unit mpp" and x :: publish_response and E w1
    by (simp add: wp_def bindE_def ignoreE_def)
  show ?thesis unfolding enqueue_locked_def
    by (rule wp_bindE, rule wp_tryE, rule wp_conseq [OF tx])
      (auto intro: err ok split: prod.splits)
qed

lemma wp_error_only:
  assumes "keeps (on_db (\<lambda>d. d = D)) m" "db w = D" "\<And>x w'. db w' = D \<Longrightarrow> Q x w'"
  shows "wp m Q (\<lambda>_ w'. db w' = D) w"
  by (rule wp_keeps [OF assms(1)]) (use assms(2,3) in \<open>simp_all add: on_db_def\<close>)

lemma enqueue_prepared_error:
  assumes "svc_queue s" "db w = D"
  shows "wp (enqueue_prepared s ws wid p pub platform uid key) (\<lambda>_ _. True) (\<lambda>_ w'. db w' = D) w"
proof -
  have lost: "wp (if key \<noteq> ''''
       then bindE (wait_for_idempotent_publish_response wid (proj_ID p) platform uid key ws) (\<lambda>r.
         case r of Some resp \<Rightarrow> ret resp | None \<Rightarrow> throw ErrPublicationAlreadyPublishing)
       else throw ErrPublicationAlreadyPublishing) (\<lambda>_ _. True) (\<lambda>_ w'. db w' = D) w1" if "db w1 = D" for w1
    by (rule wp_error_only [OF _ that]) (intro keeps_intros, simp)
  have locked: "wp (enqueue_locked s p pub uid key t job k) (\<lambda>_ _. True) (\<lambda>_ w'. db w' = D) w1"
    if "db w1 = D" for t job k w1
    using enqueue_locked_error [of s p pub uid key t job k w1] that by simp
  have acq: "wp (acquire_lock k v t) (\<lambda>_ w'. db w' = D) (\<lambda>_ w'. db w' = D) w1" if "db w1 = D" for k v t w1
    by (rule wp_error_only [OF _ that]) (intro keeps_intros)
  show ?thesis unfolding enqueue_prepared_def Let_def
    by (rule wp_bindE, rule wp_now_utc, rule wp_If, erule notE, rule assms(1), rule wp_bindE, rule wp_uuid_new,
        rule wp_If, rule wp_throw, simp add: assms(2), rule wp_bindE, rule wp_conseq [OF acq], simp add: assms(2),
        rule wp_If, rule lost, assumption, rule locked, assumption, assumption)
qed

section \<open>Properties\<close>


section \<open>What an accepted request leaves\<close>

definition locks_are :: "(string \<Rightarrow> lock_entry option) \<Rightarrow> world \<Rightarrow> bool" where
  "locks_are L w = (locks w = L)"

lemma locks_are_tick [simp]: "locks_are L (tick w) = locks_are L w"
  by (simp add: locks_are_def)

lemma keeps_locks_prims [keeps_intros]:
  "keeps (locks_are L) now_utc" "keeps (locks_are L) uuid_new" "keeps (locks_are L) (select q)"
  "keeps (locks_are L) (first_row q')" "keeps (locks_are L) (exec f')"
  "keeps (locks_are L) (create_row rows put clash r)" "keeps (locks_are L) (asynq_enqueue job)"
proof -
  have s: "keeps (locks_are L) (sql f)" for f :: "db \<Rightarrow> 'x \<times> db"
    unfolding sql_def by (rule keeps_external) (auto simp: locks_are_def split: prod.splits)
  show "keeps (locks_are L) now_utc" "keeps (locks_are L) uuid_new"
    by (auto intro: keeps_now_utc keeps_uuid_new)
  show sel: "keeps (locks_are L) (select q)" for q :: "db \<Rightarrow> 'x" by (simp add: select_def s)
  show "keeps (locks_are L) (exec f')" by (simp add: exec_def s)
  show "keeps (locks_are L) (first_row q')" unfolding first_row_def by (intro keeps_intros sel)
  show "keeps (locks_are L) (create_row rows put clash r)"
    unfolding create_row_def by (intro keeps_intros s)
  show "keeps (locks_are L) (asynq_enqueue job)"
    unfolding asynq_enqueue_def by (intro keeps_intros keeps_external) (auto simp: locks_are_def)
qed

lemma keeps_locks_transaction [keeps_intros]: "keeps (locks_are L) m \<Longrightarrow> keeps (locks_are L) (transaction m)"
  by (auto simp: keeps_def transaction_def locks_are_def split: prod.splits sum.splits option.splits)

lemma keeps_locks_record_enqueue: "keeps (locks_are L) (record_enqueue p pub uid key t job)"
  unfolding record_enqueue_def create_scheduled_publication_def insert_schedule_def latest_project_version_id_def
    record_publish_event_def create_publish_event_def record_project_publish_activity_def hook_workspace_def
    create_project_activity_def mark_queued_def update_publications_def publication_state_changed_error_def
    record_publish_job_outbox_def workspace_of_project_def Let_def
  by (intro keeps_intros)

lemma keeps_locks_dispatch: "keeps (locks_are L) (dispatch_outbox_event s i)"
  unfolding dispatch_outbox_event_def claim_outbox_event_def update_outbox_def mark_outbox_event_failed_def
    mark_outbox_event_dispatched_def dispatch_claimed_outbox_event_def hand_over_job_def enqueue_def
    ensure_publish_job_workspace_id_def Let_def
  by (intro keeps_intros) 

definition job_recorded :: "publish_job \<Rightarrow> publication \<Rightarrow> db \<Rightarrow> bool" where
  "job_recorded job pub d \<longleftrightarrow> JobPayload job \<in> set (map out_Payload (outbox d))
     \<and> (\<exists>r\<in>set (publications d). pub_ID r = pub_ID pub \<and> pub_Status r = PublicationStatusQueued)"

lemma keeps_recorded_outbox:
  assumes "\<And>e. out_Payload (f e) = out_Payload e"
  shows "keeps (on_db (job_recorded job pub)) (update_outbox p f)"
  unfolding update_outbox_def
  by (intro keeps_intros) (simp add: job_recorded_def map_update_rows assms del: set_map)

lemma keeps_asynq_enqueue [keeps_intros]: "keeps (on_db J) (asynq_enqueue job)"
  unfolding asynq_enqueue_def by (intro keeps_intros keeps_external) (auto simp: on_db_def)

lemma keeps_recorded_dispatch: "keeps (on_db (job_recorded job pub)) (dispatch_outbox_event s i)"
  unfolding dispatch_outbox_event_def claim_outbox_event_def mark_outbox_event_failed_def
    mark_outbox_event_dispatched_def dispatch_claimed_outbox_event_def hand_over_job_def enqueue_def Let_def
  by (intro keeps_intros keeps_recorded_outbox; simp)

lemma record_enqueue_records:
  "wp (record_enqueue p pub uid key t job) (\<lambda>(schedule, job', e) w'. job' = job\<lparr>job_ScheduleID := sch_ID schedule\<rparr>
     \<and> job_recorded job' pub (db w')) (\<lambda>_ _. True) w"
proof -
  let ?queued = "\<lambda>d. \<exists>r\<in>set (publications d). pub_ID r = pub_ID pub \<and> pub_Status r = PublicationStatusQueued"
  have mark: "wp (mark_queued pub t') (\<lambda>_. on_db ?queued) (\<lambda>_ _. True) w1" for t' w1
  proof (rule wpI)
    fix x w2 assume "mark_queued pub t' w1 = (Inr x, w2)"
    note m = mark_queued_Inr [OF this]
    let ?p = "\<lambda>r. publication_query pub r \<and> pub_Status r = pub_Status pub"
    let ?f = "\<lambda>r. r\<lparr>pub_Status := PublicationStatusQueued, pub_ErrorMessage := '''', pub_LastAttemptAt := Some t'\<rparr>"
    have "count_rows ?p (publications (db w1)) \<noteq> 0" using m by simp
    then obtain r y where "r \<in> set (update_rows ?p ?f (publications (db w1)))" "?p y" "r = ?f y"
      using update_rows_hit [of ?p _ ?f] by blast
    then have "r \<in> set (publications (db w2))" "pub_ID r = pub_ID pub" "pub_Status r = PublicationStatusQueued"
      using m by (simp_all add: publication_query_def)
    then show "on_db ?queued w2" unfolding on_db_def by blast
  qed simp
  have ig: "ignores_records ?queued" by (simp add: ignores_records_def)
  have outbox: "wp (bindE (record_publish_job_outbox job') (\<lambda>e. ret (schedule, job', e)))
      (\<lambda>(schedule, job', e) w'. job' = job\<lparr>job_ScheduleID := sch_ID schedule\<rparr> \<and> job_recorded job' pub (db w')) (\<lambda>_ _. True) w1"
    if "on_db ?queued w1" "job' = job\<lparr>job_ScheduleID := sch_ID schedule\<rparr>" for job' schedule w1
    unfolding record_publish_job_outbox_def Let_def
    by (intro wp_bindE wp_uuid_new wp_now_utc wp_create_row wp_ret TrueI)
      (use that in \<open>auto simp: on_db_def job_recorded_def outbox_event_before_create_def\<close>)
  show ?thesis unfolding record_enqueue_def Let_def
    by (rule wp_bindE, rule wp_discard, rule wp_bindE, rule wp_discard, rule wp_bindE, rule wp_discard, rule wp_bindE,
        rule wp_conseq [OF mark], rule wp_bindE, rule wp_keeps [OF keeps_record_publish_event [OF ig]], assumption,
        rule wp_bindE, rule wp_keeps [OF keeps_record_project_publish_activity [OF ig]], assumption, rule outbox,
        assumption, rule refl) (rule TrueI)+
qed

lemma enqueue_locked_records:
  "wp (enqueue_locked s p pub uid key t job lockKey) (\<lambda>resp w'. \<exists>i. job_recorded (job\<lparr>job_ScheduleID := i\<rparr>) pub (db w')
     \<and> pr_JobID resp = uuid_text (job_JobID job) \<and> pr_Status resp = ''queued'' \<and> locks w' = locks w) (\<lambda>_ _. True) w"
proof -
  let ?Q = "\<lambda>resp w'. \<exists>i. job_recorded (job\<lparr>job_ScheduleID := i\<rparr>) pub (db w')
     \<and> pr_JobID resp = uuid_text (job_JobID job) \<and> pr_Status resp = ''queued'' \<and> locks w' = locks w"
  have tx: "wp (transaction (record_enqueue p pub uid key t job)) (\<lambda>(schedule, job', e) w'.
      (job' = job\<lparr>job_ScheduleID := sch_ID schedule\<rparr> \<and> job_recorded job' pub (db w')) \<and> locks_are (locks w) w') (\<lambda>_ _. True) w"
    by (rule wp_transaction, rule wp_conseq [OF wp_conj [OF record_enqueue_records
        wp_keeps [where Q = "\<lambda>_. locks_are (locks w)" and E = "\<lambda>_. locks_are (locks w)", OF keeps_locks_record_enqueue]]])
      (auto simp: locks_are_def)
  have both: "keeps (\<lambda>w'. job_recorded j pub (db w') \<and> locks w' = locks w) (ignoreE (dispatch_outbox_event s i))" for j i
  proof (rule keeps_ignoreE, rule keeps_wpI)
    fix w1 :: world assume "job_recorded j pub (db w1) \<and> locks w1 = locks w"
    then show "wp (dispatch_outbox_event s i) (\<lambda>_ w'. job_recorded j pub (db w') \<and> locks w' = locks w)
       (\<lambda>_ w'. job_recorded j pub (db w') \<and> locks w' = locks w) w1"
      using wp_conj [OF wp_keeps [OF keeps_recorded_dispatch [of j pub s i], of w1 "\<lambda>_. on_db (job_recorded j pub)" "\<lambda>_. on_db (job_recorded j pub)"]
          wp_keeps [OF keeps_locks_dispatch [of "locks w" s i], of w1 "\<lambda>_. locks_are (locks w)" "\<lambda>_. locks_are (locks w)"]]
      by (simp add: on_db_def locks_are_def)
  qed
  have after: "wp (bindE (ignoreE (dispatch_outbox_event s (out_ID e))) (\<lambda>_. ret (with_schedule schedule (queued_response job' pub))))
      ?Q (\<lambda>_ _. True) w1"
    if "(job' = job\<lparr>job_ScheduleID := sch_ID schedule\<rparr> \<and> job_recorded job' pub (db w1)) \<and> locks_are (locks w) w1"
    for schedule job' e w1
    by (rule wp_bindE, rule wp_keeps [OF both [of job']])
      (use that in \<open>auto intro!: wp_ret simp: locks_are_def with_schedule_def queued_response_def empty_response_def\<close>)
  show ?thesis unfolding enqueue_locked_def
    by (rule wp_bindE, rule wp_tryE, rule wp_conseq [OF tx], unfold sum.case, rule wp_case_prod, rule wp_case_prod,
        rule after, simp, rule wp_bindE, rule wp_discard, rule wp_throw, rule TrueI)
qed

lemma project_for_publish_id: "wp (project_for_publish pid uid) (\<lambda>p _. proj_ID p = pid) (\<lambda>_ _. True) w"
proof -
  have id: "find_project pid d = Some p \<Longrightarrow> proj_ID p = pid" for d p
    using find_Some_set by (fastforce simp: find_project_def)
  show ?thesis unfolding project_for_publish_def
    by (rule wp_If, rule wp_throw, rule TrueI, rule wp_bindE, rule wp_tryE, rule wp_first_row, unfold sum.case,
        (rule wp_If, rule wp_throw, rule TrueI, rule wp_throw, rule TrueI)+, rule wp_If, rule wp_ret, erule id,
        rule wp_bindE, rule wp_conseq [OF wp_anything], rule wp_If, rule wp_throw, rule TrueI, rule wp_ret, erule id,
        rule TrueI)
qed

lemma acquire_lock_holds:
  "wp (acquire_lock k v t) (\<lambda>ok w'. ok \<longrightarrow> (\<exists>e. locks w' k = Some e \<and> lk_value e = v)) (\<lambda>_ _. True) w"
  by (auto simp: wp_def acquire_lock_def redis_def external_def redis_set_nx_def split: option.splits prod.splits if_splits)

definition handed_over :: "publish_service \<Rightarrow> publish_job \<Rightarrow> publication \<Rightarrow> publish_response \<Rightarrow> world \<Rightarrow> bool" where
  "handed_over s job pub resp w \<longleftrightarrow> job_recorded job pub (db w) \<and> pr_JobID resp = uuid_text (job_JobID job)
     \<and> pr_Status resp = ''queued'' \<and> job_PublicationID job = pub_ID pub
     \<and> (\<exists>e. locks w (publish_lock_key (svc_lower s) (job_ProjectID job) (job_Platform job)) = Some e
          \<and> lk_value e = uuid_text (job_JobID job))"

lemma enqueue_prepared_hands_over:
  assumes "svc_queue s"
  shows "wp (enqueue_prepared s ws wid p pub platform uid '''') (\<lambda>resp w'. \<exists>job. handed_over s job pub resp w'
     \<and> job_ProjectID job = proj_ID p \<and> job_Platform job = platform \<and> job_UserID job = uid \<and> job_WorkspaceID job = wid)
     (\<lambda>_ _. True) w"
proof -
  let ?key = "publish_lock_key (svc_lower s) (proj_ID p) platform"
  let ?job = "\<lambda>i now. \<lparr>job_JobID = i, job_ProjectID = proj_ID p, job_WorkspaceID = wid, job_UserID = uid,
             job_Platform = platform, job_PublicationID = pub_ID pub, job_ScheduleID = uuid_nil,
             job_IdempotencyKey = '''', job_EnqueuedAt = now\<rparr>"
  let ?Q = "\<lambda>resp w'. \<exists>job. handed_over s job pub resp w'
     \<and> job_ProjectID job = proj_ID p \<and> job_Platform job = platform \<and> job_UserID job = uid \<and> job_WorkspaceID job = wid"
  have locked: "wp (enqueue_locked s p pub uid '''' now (?job i now) ?key) ?Q (\<lambda>_ _. True) w1"
    if "\<exists>e. locks w1 ?key = Some e \<and> lk_value e = uuid_text i" for i now w1
  proof (rule wp_conseq [OF enqueue_locked_records])
    fix resp :: publish_response and w' :: world assume "\<exists>j. job_recorded ((?job i now)\<lparr>job_ScheduleID := j\<rparr>) pub (db w') \<and>
      pr_JobID resp = uuid_text (job_JobID (?job i now)) \<and> pr_Status resp = ''queued'' \<and> locks w' = locks w1"
    then obtain j where "job_recorded ((?job i now)\<lparr>job_ScheduleID := j\<rparr>) pub (db w')"
      "pr_JobID resp = uuid_text i" "pr_Status resp = ''queued''" "locks w' = locks w1" by auto
    with that show "?Q resp w'"
      by (intro exI [of _ "(?job i now)\<lparr>job_ScheduleID := j\<rparr>"]) (simp add: handed_over_def)
  qed simp
  have T: "wp (throw e) Q (\<lambda>_ _. True) w1" for e w1 and Q :: "publish_response \<Rightarrow> world \<Rightarrow> bool"
    by (rule wp_throw) simp
  show ?thesis unfolding enqueue_prepared_def Let_def
    by (rule wp_bindE, rule wp_now_utc, rule wp_If, erule notE, rule assms(1), rule wp_bindE, rule wp_uuid_new,
        rule wp_If, rule T, rule wp_bindE, rule wp_conseq [OF acquire_lock_holds], rule wp_If, rule wp_If,
        erule notE, rule refl, rule T, rule locked, simp, rule TrueI)
qed

text \<open>
  An accepted request is handed over completely. When \<open>EnqueuePublishProject\<close> returns a
  response to a request without an idempotency key (and a queue is configured), the response says
  queued and names a job of this project, platform and user; an outbox row carries exactly that
  job, so some dispatcher will enqueue it; the publication is queued; and the publish lock of the
  project and platform is held under the job's id, which is what the worker will ask for.
\<close>

theorem enqueue_hands_over:
  assumes "svc_queue s" "trim_space key = ''''"
    and "enqueue_publish_project s ws pid platform (Some uid) key w = (Inr resp, w')"
  shows "\<exists>job pub. handed_over s job pub resp w' \<and> job_ProjectID job = pid \<and> job_Platform job = platform
    \<and> job_UserID job = uid"
proof -
  let ?Q = "\<lambda>resp w'. \<exists>job pub. handed_over s job pub resp w' \<and> job_ProjectID job = pid \<and> job_Platform job = platform
    \<and> job_UserID job = uid"
  have same: "wp (prepare_publish_job_for_project s p platform uid) (\<lambda>(q, pub) _. proj_ID q = pid) (\<lambda>_ _. True) w1"
    if "proj_ID p = pid" for p w1
    unfolding prepare_publish_job_for_project_def workspace_of_project_def
    by (rule wp_bindE, rule wp_asks, rule wp_bindE, rule wp_tryE, rule wp_first_row, unfold sum.case,
        (rule wp_throw, rule TrueI)+, rule wp_If, rule wp_throw, rule TrueI, rule wp_bindE, rule wp_now_utc, rule wp_If,
        rule wp_throw, rule TrueI, rule wp_case_option, rule wp_If, rule wp_throw, rule TrueI, rule wp_If, rule wp_bindE,
        rule wp_tryE, rule wp_conseq [OF wp_anything], unfold sum.case, rule wp_ret, simp add: that, rule wp_If,
        rule wp_throw, rule TrueI, rule wp_throw, rule TrueI, rule wp_ret, simp add: that, rule wp_throw, rule TrueI)
  have prepared: "wp (bindE (tryE (prepare_publish_job_for_project s p platform uid)) (\<lambda>r. case r of
        Inl e \<Rightarrow> bindE (ret None) (\<lambda>replay. case replay of Some resp \<Rightarrow> ret resp | None \<Rightarrow> throw e)
      | Inr (p, pub) \<Rightarrow> enqueue_prepared s ws wid p pub platform uid '''')) ?Q (\<lambda>_ _. True) w1"
    if "proj_ID p = pid" for p wid w1
  proof (rule wp_bindE, rule wp_tryE, rule wp_conseq [OF same [OF that]], unfold sum.case)
    fix x :: "project \<times> publication" and w2 :: world
    assume x: "(case x of (q, pub) \<Rightarrow> \<lambda>_. proj_ID q = pid) w2"
    obtain q pub where q: "x = (q, pub)" by fastforce
    show "wp (case x of (p, pub) \<Rightarrow> enqueue_prepared s ws wid p pub platform uid '''') ?Q (\<lambda>_ _. True) w2"
      unfolding q prod.case
      by (rule wp_conseq [OF enqueue_prepared_hands_over [OF assms(1)]]) (use x q in auto)
  next
    fix e w2
    show "wp (bindE (ret None) (\<lambda>replay. case replay of Some resp \<Rightarrow> ret resp | None \<Rightarrow> throw e)) ?Q (\<lambda>_ _. True) w2"
      by (simp add: wp_def)
  qed
  have "wp (enqueue_publish_project s ws pid platform (Some uid) key) ?Q (\<lambda>_ _. True) w"
    unfolding enqueue_publish_project_def Let_def workspace_of_project_def option.case
      normalize_idempotency_key_def assms(2)
    by (rule wp_bindE, rule wp_conseq [OF project_for_publish_id], rule wp_bindE, rule wp_asks, unfold simp_thms if_False,
        rule wp_bindE, rule wp_ret, unfold option.case, rule prepared, assumption, rule TrueI)
  from wp_InrD [OF this assms(3)] show ?thesis .
qed

text \<open>
  The second replay lookup of \<open>EnqueuePublishProject\<close> is dead code. It is made when the
  preparation failed, that is when a concurrent request with the same key may have queued the job
  in the meantime, but it asks for the zero project the failed call returned: as long as no event
  of the nil project is stored (none is ever recorded), it answers nothing, so the request gets
  the error although its job is queued.
\<close>

theorem late_replay_never_answers:
  assumes "\<forall>e\<in>set (publish_events (db w)). ev_ProjectID e \<noteq> uuid_nil"
    and "find_idempotent_publish_response wid uuid_nil platform uid key w = (Inr r, w')"
  shows "r = None"
proof (rule ccontr)
  assume "r \<noteq> None"
  then obtain resp where "find_idempotent_publish_response wid uuid_nil platform uid key w = (Inr (Some resp), w')"
    using assms(2) by auto
  from find_idempotent_Some [OF this] obtain queued w1 where
    "first_row (\<lambda>d. latest_first (filter (queued_event wid uuid_nil platform uid key) (publish_events d))) w
      = (Inr queued, w1)" by blast
  from conjunct1 [OF first_row_Inr [OF this]] have
    "queued \<in> set (filter (queued_event wid uuid_nil platform uid key) (publish_events (db w)))"
    by (rule latest_first_Some)
  with assms(1) show False by (simp add: queued_event_def)
qed

theorem late_replay_never_answers_witness:
  "fst (find_idempotent_publish_response 3 2 ''x'' 4 ''k'' (start_world replay_db)) \<noteq> Inr None
   \<and> fst (find_idempotent_publish_response 3 uuid_nil ''x'' 4 ''k'' (start_world replay_db)) = Inr None"
proof -
  have "\<exists>r w'. find_idempotent_publish_response 3 uuid_nil ''x'' 4 ''k'' (start_world replay_db) = (Inr r, w')"
  proof -
    have "latest_first (filter (queued_event 3 uuid_nil ''x'' 4 ''k'') (publish_events replay_db)) = None"
      by code_simp
    then show ?thesis by (simp add: find_idempotent_publish_response_def first_row_ok)
  qed
  then obtain r w' where r: "find_idempotent_publish_response 3 uuid_nil ''x'' 4 ''k'' (start_world replay_db) = (Inr r, w')"
    by blast
  have "\<forall>e\<in>set (publish_events (db (start_world replay_db))). ev_ProjectID e \<noteq> uuid_nil"
    by (simp add: replay_db_def replay_queued_def replay_done_def event_of_job_def sample_job_def)
  from late_replay_never_answers [OF this r] r replay_db_answer show ?thesis by simp
qed


section \<open>A run that is accepted\<close>

text \<open>In the fault-free environment every id made is larger than the ids stored.\<close>

definition calm_state :: "publication list \<Rightarrow> project list \<Rightarrow> world \<Rightarrow> bool" where
  "calm_state P R w \<longleftrightarrow> env w = calm_env \<and> publications (db w) = P \<and> projects (db w) = R \<and>
     (\<forall>e\<in>set (publish_events (db w)). ev_ID e < 1000 + calls w) \<and>
     (\<forall>a\<in>set (project_activities (db w)). pact_ID a < 1000 + calls w) \<and>
     (\<forall>s\<in>set (schedules (db w)). sch_ID s < 1000 + calls w) \<and>
     (\<forall>e\<in>set (outbox (db w)). out_ID e < 1000 + calls w)"

lemma calm_state_tick: "calm_state P R w \<Longrightarrow> calm_state P R (tick w)"
  by (auto simp: calm_state_def)

lemma calm_state_no_fault: "calm_state P R w \<Longrightarrow> \<not> fault_at w e"
  by (simp add: calm_state_def fault_at_def)

lemma calm_hook_workspace: "calm_state P R w \<Longrightarrow> given \<noteq> uuid_nil \<Longrightarrow> Q given w \<Longrightarrow> wp (hook_workspace given p f) Q E w"
  by (simp add: hook_workspace_def wp_def)

lemma calm_record_publish_event:
  assumes "calm_state P R w" "ev_WorkspaceID e \<noteq> uuid_nil" "ev_ID e = uuid_nil"
  shows "wp (record_publish_event e) (\<lambda>_. calm_state P R) (\<lambda>_ _. False) w"
  unfolding record_publish_event_def create_publish_event_def
  by (intro wp_If wp_ret wp_bindE calm_hook_workspace wp_uuid_new wp_now_utc wp_create_row)
    (use assms in \<open>auto simp: calm_state_def fault_at_def publish_event_before_create_def\<close>)

lemma calm_record_project_publish_activity:
  assumes "calm_state P R w" "find (\<lambda>p. proj_ID p = pid) R = Some p" "proj_WorkspaceID p = Some wid" "wid \<noteq> uuid_nil"
  shows "wp (record_project_publish_activity wid pid uid t m) (\<lambda>_. calm_state P R) (\<lambda>_ _. False) w"
proof -
  have ws: "project_workspace_id f p = wid" for f using assms(3,4) by (simp add: project_workspace_id_def)
  show ?thesis
    unfolding record_project_publish_activity_def create_project_activity_def workspace_of_project_def
    by (intro wp_If wp_ret wp_bindE wp_first_row wp_asks wp_throw calm_hook_workspace wp_uuid_new wp_now_utc wp_create_row)
      (use assms in \<open>auto simp: calm_state_def fault_at_def project_activity_before_create_def find_project_def ws\<close>)
qed

lemma calm_create_scheduled_publication:
  assumes "calm_state P R w" "proj_WorkspaceID p = Some wid" "wid \<noteq> uuid_nil"
  shows "wp (create_scheduled_publication p pub uid key t st) (\<lambda>_. calm_state P R) (\<lambda>_ _. False) w"
proof -
  have ws: "project_workspace_id f p = wid" for f using assms(2,3) by (simp add: project_workspace_id_def)
  have version: "wp (latest_project_version_id i j) (\<lambda>_. calm_state P R) (\<lambda>_ _. False) w1" if "calm_state P R w1" for i j w1
    unfolding latest_project_version_id_def
    by (intro wp_bindE wp_asks wp_If wp_ret wp_tryE wp_first_row wp_case_sum wp_throw)
      (use that in \<open>auto simp: calm_state_no_fault calm_state_tick\<close>)
  have ins: "wp (insert_schedule s) (\<lambda>_. calm_state P R) (\<lambda>_ _. False) w1"
    if "calm_state P R w1" "sch_WorkspaceID s \<noteq> uuid_nil" "sch_ID s = uuid_nil" for s w1
    unfolding insert_schedule_def Let_def
    by (intro wp_bindE wp_uuid_new calm_hook_workspace wp_now_utc wp_create_row wp_ret)
      (use that in \<open>auto simp: calm_state_def fault_at_def scheduled_publication_before_create_def\<close>)
  show ?thesis unfolding create_scheduled_publication_def workspace_of_project_def
    by (rule wp_bindE, rule wp_asks, rule wp_If, rule wp_ret, rule assms(1), rule wp_bindE, rule wp_asks, rule wp_bindE,
        rule wp_conseq [OF version [OF assms(1)]], rule ins) (simp_all add: ws assms(3))
qed

lemma calm_record_publish_job_outbox:
  "calm_state P R w \<Longrightarrow> wp (record_publish_job_outbox job) (\<lambda>_. calm_state P R) (\<lambda>_ _. False) w"
  unfolding record_publish_job_outbox_def Let_def
  by (intro wp_bindE wp_uuid_new wp_now_utc wp_create_row wp_ret)
    (auto simp: calm_state_def fault_at_def outbox_event_before_create_def)

lemma calm_mark_queued:
  assumes "calm_state P R w" "\<exists>r\<in>set P. publication_query pub r \<and> pub_Status r = pub_Status pub"
  shows "wp (mark_queued pub t) (\<lambda>_ w'. \<exists>P'. calm_state P' R w') (\<lambda>_ _. False) w"
  unfolding mark_queued_def update_publications_def
  by (intro wp_bindE wp_exec wp_If wp_ret) (use assms in \<open>auto simp: calm_state_def fault_at_def\<close>)

lemma calm_record_enqueue:
  assumes "calm_state P R w" "find (\<lambda>q. proj_ID q = proj_ID p) R = Some p" "proj_WorkspaceID p = Some wid" "wid \<noteq> uuid_nil"
    "job_WorkspaceID job = wid" "\<exists>r\<in>set P. publication_query pub r \<and> pub_Status r = pub_Status pub"
  shows "wp (record_enqueue p pub uid key t job) (\<lambda>_ w'. \<exists>P'. calm_state P' R w') (\<lambda>_ _. False) w"
proof -
  have ev: "ev_WorkspaceID (event_of_job (job\<lparr>job_ScheduleID := i\<rparr>) ty st) \<noteq> uuid_nil"
    "ev_ID (event_of_job (job\<lparr>job_ScheduleID := i\<rparr>) ty st) = uuid_nil" for i ty st
    using assms(4,5) by (simp_all add: event_of_job_def)
  have act: "wp (record_project_publish_activity (job_WorkspaceID (job\<lparr>job_ScheduleID := i\<rparr>)) (proj_ID p) uid ty m)
      (\<lambda>_. calm_state P' R) (\<lambda>_ _. False) w1" if "calm_state P' R w1" for i ty m P' w1
    using calm_record_project_publish_activity [OF that assms(2-4)] assms(5) by simp
  have tail: "wp (bindE (record_publish_event (event_of_job (job\<lparr>job_ScheduleID := i\<rparr>) ''queued'' PublicationStatusQueued)) (\<lambda>_.
      bindE (record_project_publish_activity (job_WorkspaceID (job\<lparr>job_ScheduleID := i\<rparr>)) (proj_ID p) uid ty m) (\<lambda>_.
      bindE (record_publish_job_outbox (job\<lparr>job_ScheduleID := i\<rparr>)) (\<lambda>e. ret (x, job\<lparr>job_ScheduleID := i\<rparr>, e)))))
      (\<lambda>_ w'. \<exists>P'. calm_state P' R w') (\<lambda>_ _. False) w1" if "\<exists>P'. calm_state P' R w1" for i ty m x w1
  proof -
    from that obtain P' where P': "calm_state P' R w1" by blast
    show ?thesis
      by (rule wp_bindE, rule wp_conseq [OF calm_record_publish_event [OF P' ev]], rule wp_bindE, rule wp_conseq [OF act],
          assumption, rule wp_bindE, rule wp_conseq [OF calm_record_publish_job_outbox], assumption, rule wp_ret, blast)
        simp_all
  qed
  show ?thesis unfolding record_enqueue_def Let_def
    by (rule wp_bindE, rule wp_conseq [OF calm_create_scheduled_publication [OF assms(1,3,4)]], rule wp_bindE,
        rule wp_conseq [OF calm_record_publish_event [OF _ ev]], assumption, rule wp_bindE, rule wp_conseq [OF act],
        assumption, rule wp_bindE, rule wp_conseq [OF calm_mark_queued [OF _ assms(6)]], assumption, rule tail, assumption)
      simp_all
qed

lemma sample_enqueue_returns:
  "\<exists>resp w'. enqueue_publish_project idle_service [] 2 ''x'' (Some 4) ''''
     (start_world (publish_db sample_publication)) = (Inr resp, w')"
proof -
  let ?w = "start_world (publish_db sample_publication)" and ?pub = sample_publication
  have ws: "project_workspace_id f sample_project = 3" for f
    by (simp add: project_workspace_id_def sample_project_def)
  have fp: "find_publication 3 2 ''x'' (publish_db ?pub) = Some ?pub"
    by (simp add: find_publication_def publish_db_def sample_publication_def)
  have pub: "pub_Enabled ?pub" "pub_Status ?pub = PublicationStatusDraft" "proj_ID sample_project = 2"
    "get_publisher ''x'' = None" "publication_has_synced_draft ?pub" "svc_accounts idle_service"
    "svc_resolve_account idle_service u p = ret p" "proj_WorkspaceID sample_project = Some 3" for u p
    using sample_synced
    by (simp_all add: requires_sync_def sample_publication_def sample_project_def get_publisher_def
        registered_platforms_def idle_service_def)
  have prep: "prepare_publish_job_for_project idle_service sample_project ''x'' 4 (tick ?w)
      = (Inr (sample_project, ?pub), tick (tick (tick ?w)))"
    by (simp add: prepare_publish_job_for_project_def workspace_of_project_def ws first_row_ok fp pub)
  have locked: "wp (enqueue_locked idle_service sample_project ?pub 4 '''' t job k) (\<lambda>_ _. True) (\<lambda>_ _. False) w1"
    if "calm_state [?pub] [sample_project] w1" "job_WorkspaceID job = 3" for t job k w1
  proof -
    have "wp (transaction (record_enqueue sample_project ?pub 4 '''' t job)) (\<lambda>_ _. True) (\<lambda>_ _. False) w1"
      by (rule wp_transaction, rule wp_conseq [OF calm_record_enqueue [OF that(1) _ pub(8) _ that(2)]])
        (auto simp: publication_query_def calm_state_no_fault pub)
    then show ?thesis unfolding enqueue_locked_def
      by (rule wp_bindE [OF wp_tryE [OF wp_conseq]])
        (auto simp: wp_def bindE_def ignoreE_def split: prod.splits)
  qed
  have c: "calm_state [?pub] [sample_project] (tick (tick (tick ?w)))"
    by (simp add: calm_state_def publish_db_def empty_db_def sample_schedule_def)
  have acq: "wp (acquire_lock k v t) (\<lambda>ok w'. ok \<and> calm_state P R w') (\<lambda>_ _. False) w1"
    if "calm_state P R w1" "\<forall>k. locks w1 k = None" for k v t P R w1
    using that by (auto simp: wp_def acquire_lock_def redis_def external_def redis_set_nx_def lock_live_def
        calm_state_def split: option.splits)
  have "wp (enqueue_prepared idle_service [] 3 sample_project ?pub ''x'' 4 '''') (\<lambda>_ _. True) (\<lambda>_ _. False) (tick (tick (tick ?w)))"
    unfolding enqueue_prepared_def Let_def
    by (rule wp_bindE, rule wp_now_utc, rule wp_If, simp add: idle_service_def, rule wp_bindE, rule wp_uuid_new, rule wp_If,
        simp add: idle_service_def coordination_queue_or_default_def, rule wp_bindE,
        rule wp_conseq [OF acq [of "[?pub]" "[sample_project]"]], intro calm_state_tick c, simp, rule wp_If, simp,
        rule locked) simp_all
  moreover have "enqueue_publish_project idle_service [] 2 ''x'' (Some 4) '''' ?w
      = enqueue_prepared idle_service [] 3 sample_project ?pub ''x'' 4 '''' (tick (tick (tick ?w)))"
    unfolding enqueue_publish_project_def option.case Let_def
      bindE_app [where m = "project_for_publish 2 4", OF project_for_publish_sample]
    by (simp add: workspace_of_project_def ws normalize_idempotency_key_def prep)
  ultimately show ?thesis
    by (cases "enqueue_prepared idle_service [] 3 sample_project ?pub ''x'' 4 '''' (tick (tick (tick ?w)))")
      (auto simp: wp_def split: sum.splits)
qed

theorem enqueue_hands_over_witness:
  "\<exists>job pub resp w'. enqueue_publish_project idle_service [] 2 ''x'' (Some 4) ''''
     (start_world (publish_db sample_publication)) = (Inr resp, w') \<and> handed_over idle_service job pub resp w'"
proof -
  obtain resp w' where r: "enqueue_publish_project idle_service [] 2 ''x'' (Some 4) ''''
     (start_world (publish_db sample_publication)) = (Inr resp, w')" using sample_enqueue_returns by blast
  have "svc_queue idle_service" by (simp add: idle_service_def)
  from enqueue_hands_over [OF this _ r] r show ?thesis by auto
qed

end
