(* ===== verification/Publish_Worker.thy ===== *)
theory Publish_Worker
  imports Publish_Enqueue
begin

text \<open>
  The publish worker (\<open>services/publish/queue.go\<close>): taking over the lock of a job, keeping it
  alive, and processing the job. The refresh goroutine runs beside publishing and touches nothing
  but the lock, so its ticks (\<open>ticks\<close> of them) are run after publishing returned; that it cancels
  the context of a running publication shows in the model as a failed call of that publication.
\<close>

section \<open>The lock of a job\<close>

definition publication_retriable_for_job :: "uuid \<Rightarrow> uuid \<Rightarrow> string \<Rightarrow> bool mpp" where
  "publication_retriable_for_job wid projectID platform =
     bindE (first_row (find_publication wid projectID platform)) (\<lambda>pub.
     if \<not> pub_Enabled pub \<or> pub_Status pub = PublicationStatusCancelled then ret False
     else ret (pub_Status pub = PublicationStatusQueued \<or> pub_Status pub = PublicationStatusPublishing
               \<or> pub_Status pub = PublicationStatusFailed))"

definition ensure_publish_job_lock :: "publish_service \<Rightarrow> publish_job \<Rightarrow> string \<Rightarrow> bool mpp" where
  "ensure_publish_job_lock s job lockKey =
     (if \<not> coordination_queue_or_default s then throw ErrPublishQueueEmpty
      else bindE (lock_value lockKey) (\<lambda>v.
        if v = uuid_text (job_JobID job) then ret True
        else if v \<noteq> '''' then ret False
        else bindE (publication_retriable_for_job (job_WorkspaceID job) (job_ProjectID job) (job_Platform job)) (\<lambda>retriable.
          if \<not> retriable then ret False
          else acquire_lock lockKey (uuid_text (job_JobID job)) publish_lock_ttl)))"

text \<open>The refresh loop: the result tells whether ownership was lost, which ends the loop.\<close>

fun publish_lock_refresh :: "publish_service \<Rightarrow> string \<Rightarrow> string \<Rightarrow> nat \<Rightarrow> bool mpp" where
  "publish_lock_refresh s key val 0 = ret False"
| "publish_lock_refresh s key val (Suc n) =
     (if \<not> coordination_queue_or_default s then publish_lock_refresh s key val n
      else bindE (tryE (refresh_lock key val publish_lock_ttl)) (\<lambda>r. case r of
          Inl _ \<Rightarrow> publish_lock_refresh s key val n
        | Inr refreshed \<Rightarrow> if \<not> refreshed then ret True else publish_lock_refresh s key val n))"

section \<open>Processing\<close>

text \<open>Publishing failed with an error, or reported a failed publication, or succeeded.\<close>

definition process_failed :: "publish_job \<Rightarrow> string \<Rightarrow> err \<Rightarrow> unit mpp" where
  "process_failed job lockKey e =
     bindE (ignoreE (mark_failed_for_workspace (job_WorkspaceID job) (job_ProjectID job) (job_Platform job) (err_text e))) (\<lambda>_.
     bindE (ignoreE (record_publish_event ((event_of_job job ''failed'' PublicationStatusFailed)
       \<lparr>ev_ErrorMessage := sanitize (err_text e)\<rparr>))) (\<lambda>_.
     bindE (ignoreE (release_lock lockKey (uuid_text (job_JobID job)))) (\<lambda>_. throw e)))"

definition process_reported_failure :: "publish_job \<Rightarrow> string \<Rightarrow> publish_response \<Rightarrow> unit mpp" where
  "process_reported_failure job lockKey resp =
     bindE (ignoreE (record_publish_event ((event_of_job job ''failed'' PublicationStatusFailed)
       \<lparr>ev_ErrorMessage := pr_ErrorMessage resp\<rparr>))) (\<lambda>_.
     bindE (ignoreE (release_lock lockKey (uuid_text (job_JobID job)))) (\<lambda>_.
     throw (ErrText (''publish job '' @ uuid_text (job_JobID job) @ '' failed: '' @ pr_ErrorMessage resp))))"

definition process_succeeded :: "publish_job \<Rightarrow> string \<Rightarrow> publish_response \<Rightarrow> unit mpp" where
  "process_succeeded job lockKey resp =
     bindE (ignoreE (record_publish_event ((event_of_job job ''succeeded'' PublicationStatusSucceeded)
       \<lparr>ev_RemoteID := pr_RemoteID resp, ev_PublishURL := pr_PublishURL resp\<rparr>))) (\<lambda>_.
     ignoreE (release_lock lockKey (uuid_text (job_JobID job))))"

definition process_locked :: "publish_service \<Rightarrow> nat \<Rightarrow> publish_job \<Rightarrow> string \<Rightarrow> unit mpp" where
  "process_locked s ticks job lockKey =
     bindE (ignoreE (record_publish_event (event_of_job job ''started'' PublicationStatusPublishing))) (\<lambda>_.
     bindE (tryE (publish_project_in_workspace s (job_WorkspaceID job) (job_ProjectID job) (job_Platform job)
                    (Some (job_UserID job)) (job_ScheduleID job))) (\<lambda>r.
     bindE (publish_lock_refresh s lockKey (uuid_text (job_JobID job)) ticks) (\<lambda>lost.
     case r of
       Inl e \<Rightarrow> if lost then ret () else process_failed job lockKey e
     | Inr resp \<Rightarrow>
         if pr_Status resp = publication_status_text PublicationStatusFailed
         then process_reported_failure job lockKey resp
         else process_succeeded job lockKey resp)))"

definition process_publish_job :: "publish_service \<Rightarrow> nat \<Rightarrow> publish_job \<Rightarrow> unit mpp" where
  "process_publish_job s ticks job =
     bindE (tryE (ensure_publish_job_workspace_id job)) (\<lambda>r. case r of
       Inl e \<Rightarrow>
         if err_is e ErrPublishJobWorkspaceMismatch
         then if coordination_queue_or_default s \<and> job_JobID job \<noteq> uuid_nil \<and> job_ProjectID job \<noteq> uuid_nil
                 \<and> trim_space (job_Platform job) \<noteq> ''''
              then ignoreE (release_lock (publish_lock_key (svc_lower s) (job_ProjectID job) (job_Platform job))
                     (uuid_text (job_JobID job)))
              else ret ()
         else throw e
     | Inr job \<Rightarrow>
         if job_JobID job = uuid_nil \<or> job_ProjectID job = uuid_nil \<or> job_WorkspaceID job = uuid_nil
            \<or> job_UserID job = uuid_nil \<or> trim_space (job_Platform job) = ''''
         then ret ()
         else if \<not> coordination_queue_or_default s then throw ErrPublishQueueEmpty
         else let lockKey = publish_lock_key (svc_lower s) (job_ProjectID job) (job_Platform job) in
           bindE (ensure_publish_job_lock s job lockKey) (\<lambda>locked.
           if \<not> locked then ret () else process_locked s ticks job lockKey))"

section \<open>What a worker keeps\<close>

lemma ignores_attempts_ok: "ignores_records attempts_ok"
  by (simp add: ignores_records_def attempts_ok_def attempts_of_def)

lemma keeps_refresh_loop [keeps_intros]: "keeps (on_db J) (publish_lock_refresh s key val n)"
proof (induction n)
  case 0
  show ?case by (simp only: publish_lock_refresh.simps) (intro keeps_intros)
next
  case (Suc n)
  then show ?case by (simp only: publish_lock_refresh.simps) (intro keeps_intros)
qed

lemma keeps_ensure_lock [keeps_intros]: "keeps (on_db J) (ensure_publish_job_lock s job k)"
  unfolding ensure_publish_job_lock_def publication_retriable_for_job_def by (intro keeps_intros)

lemma keeps_publish_attempts_ok:
  "ports_frame s \<Longrightarrow> keeps (on_db attempts_ok) (publish_project_in_workspace s wid pid platform scope sid)"
  by (rule keeps_wpI, unfold on_db_def, rule wp_conseq [OF publish_in_workspace_settles])
    (simp_all add: attempts_settled_iff)

lemma keeps_mark_failed_attempts_ok: "keeps (on_db attempts_ok) (mark_failed_for_workspace wid pid platform m)"
  unfolding mark_failed_for_workspace_def
  by (intro keeps_intros) (simp add: attempts_ok_def attempts_of_def)

lemma keeps_process_attempts_ok:
  assumes "ports_frame s"
  shows "keeps (on_db attempts_ok) (process_publish_job s ticks job)"
proof -
  note ev = keeps_record_publish_event [OF ignores_attempts_ok]
  have "keeps (on_db attempts_ok) (process_locked s ticks j k)" for j k
    unfolding process_locked_def process_failed_def process_reported_failure_def process_succeeded_def
    by (intro keeps_intros ev keeps_publish_attempts_ok [OF assms] keeps_mark_failed_attempts_ok)
  then show ?thesis unfolding process_publish_job_def Let_def by (intro keeps_intros)
qed

text \<open>A worker that finds the lock of its job under another value leaves.\<close>

definition foreign_lock :: "string \<Rightarrow> string \<Rightarrow> world \<Rightarrow> bool" where
  "foreign_lock k v w \<longleftrightarrow> (\<exists>e. locks w k = Some e \<and> lk_value e \<noteq> v \<and> lk_value e \<noteq> '''' \<and> (\<forall>n. env_now (env w) n < lk_expires e))"

lemma foreign_lock_tick [simp]: "foreign_lock k v (tick w) = foreign_lock k v w"
  by (simp add: foreign_lock_def)

definition untouched :: "world \<Rightarrow> world \<Rightarrow> bool" where
  "untouched w0 w \<longleftrightarrow> db w = db w0 \<and> locks w = locks w0 \<and> published w = published w0 \<and> env w = env w0"

lemma untouched_tick [simp]: "untouched w0 (tick w) = untouched w0 w"
  by (simp add: untouched_def)

lemma foreign_untouched: "foreign_lock k v w0 \<Longrightarrow> untouched w0 w \<Longrightarrow> foreign_lock k v w"
  by (simp add: foreign_lock_def untouched_def)

text \<open>A Redis command that leaves the locks as they are.\<close>

lemma wp_redis_same:
  assumes "untouched w0 w" "\<And>now. f now (locks w) = (x, locks w)" "\<And>w'. untouched w0 w' \<Longrightarrow> Q x w'"
    and "\<And>e w'. untouched w0 w' \<Longrightarrow> E e w'"
  shows "wp (redis f) Q E w"
  using assms by (auto simp: wp_def redis_def external_def untouched_def split: option.splits prod.splits)

lemma foreign_live:
  assumes "foreign_lock k v w"
  shows "\<exists>u. u \<noteq> v \<and> u \<noteq> '''' \<and> (\<forall>n. lock_live (locks w) (env_now (env w) n) k = Some u)"
  using assms by (auto simp: foreign_lock_def lock_live_def)

lemma wp_redis_at:
  assumes "untouched w0 w" "f (env_now (env w) (calls w)) (locks w) = (x, locks w)" "\<And>w'. untouched w0 w' \<Longrightarrow> Q x w'"
    and "\<And>e w'. untouched w0 w' \<Longrightarrow> E e w'"
  shows "wp (redis f) Q E w"
  using assms by (auto simp: wp_def redis_def external_def untouched_def split: option.splits prod.splits)

lemma lock_value_foreign:
  assumes "untouched w0 w" "foreign_lock k v w0"
    and "\<And>u w'. untouched w0 w' \<Longrightarrow> u \<noteq> v \<Longrightarrow> u \<noteq> '''' \<Longrightarrow> Q u w'" "\<And>e w'. untouched w0 w' \<Longrightarrow> E e w'"
  shows "wp (lock_value k) Q E w"
proof -
  obtain u where u: "u \<noteq> v" "u \<noteq> ''''" "lock_live (locks w) (env_now (env w) n) k = Some u" for n
    using foreign_live [OF foreign_untouched [OF assms(2,1)]] by blast
  show ?thesis unfolding lock_value_def
    by (rule wp_bindE, rule wp_redis_at [OF assms(1), where x = "Some u"], simp add: u(3), unfold option.case,
        rule wp_ret, rule assms(3), assumption, rule u(1), rule u(2), rule assms(4))
qed

lemma release_lock_foreign:
  assumes "untouched w0 w" "foreign_lock k v w0"
    and "\<And>w'. untouched w0 w' \<Longrightarrow> Q () w'" "\<And>e w'. untouched w0 w' \<Longrightarrow> E e w'"
  shows "wp (release_lock k v) Q E w"
proof -
  obtain u where u: "u \<noteq> v" "lock_live (locks w) (env_now (env w) n) k = Some u" for n
    using foreign_live [OF foreign_untouched [OF assms(2,1)]] by blast
  show ?thesis unfolding release_lock_def
    by (rule wp_bindE, rule wp_redis_at [OF assms(1), where x = False], simp add: release_lock_script_def u,
        rule wp_ret, rule assms(3), assumption, rule assms(4))
qed

lemma ensure_workspace_untouched:
  "wp (ensure_publish_job_workspace_id job) (\<lambda>j w'. untouched w w' \<and> job_JobID j = job_JobID job
       \<and> job_ProjectID j = job_ProjectID job \<and> job_Platform j = job_Platform job) (\<lambda>_ w'. untouched w w') w"
proof -
  have u: "untouched w w" by (simp add: untouched_def)
  show ?thesis unfolding ensure_publish_job_workspace_id_def Let_def
    by (rule wp_bindE, rule wp_asks, rule wp_If, rule wp_ret, simp add: u, rule wp_bindE, rule wp_tryE, rule wp_first_row)
      (auto intro!: wp_If wp_ret wp_throw simp: u simp del: ret_app throw_app)
qed

section \<open>Properties\<close>

text \<open>
  C15: Workers exclude each other. While the publish lock of the project and platform of a job is
  held under another job's id (and does not expire during the call), a worker that processes the
  job changes nothing: no table and no lock, and the adapter is not asked to publish; whatever
  calls fail.
\<close>

theorem worker_respects_lock:
  assumes "foreign_lock (publish_lock_key (svc_lower s) (job_ProjectID job) (job_Platform job))
      (uuid_text (job_JobID job)) w"
    and "process_publish_job s ticks job w = (r, w')"
  shows "db w' = db w \<and> locks w' = locks w \<and> published w' = published w"
proof -
  let ?k = "publish_lock_key (svc_lower s) (job_ProjectID job) (job_Platform job)"
  have lock: "wp (bindE (ensure_publish_job_lock s j ?k) (\<lambda>locked. if \<not> locked then ret () else process_locked s ticks j ?k))
      (\<lambda>_. untouched w) (\<lambda>_. untouched w) w1"
    if "untouched w w1" "job_JobID j = job_JobID job" for j w1
    unfolding ensure_publish_job_lock_def
    by (rule wp_bindE, rule wp_If, rule wp_throw, rule that(1), rule wp_bindE,
        rule lock_value_foreign [OF that(1) assms(1)])
      (auto intro!: wp_If wp_ret simp: that(2) simp del: ret_app)
  have rel: "wp (if b then ignoreE (release_lock ?k (uuid_text (job_JobID job))) else ret ()) (\<lambda>_. untouched w) (\<lambda>_. untouched w) w1"
    if "untouched w w1" for b w1
    by (rule wp_If, rule wp_ignoreE, rule release_lock_foreign [OF that assms(1)]) (auto intro: wp_ret that)
  have "wp (process_publish_job s ticks job) (\<lambda>_. untouched w) (\<lambda>_. untouched w) w"
    unfolding process_publish_job_def Let_def
  proof (rule wp_bindE, rule wp_tryE, rule wp_conseq [OF ensure_workspace_untouched], unfold sum.case)
    fix j :: publish_job and w1 :: world assume j: "untouched w w1 \<and> job_JobID j = job_JobID job \<and> job_ProjectID j = job_ProjectID job
      \<and> job_Platform j = job_Platform job"
    have k: "publish_lock_key (svc_lower s) (job_ProjectID j) (job_Platform j) = ?k" using j by simp
    show "wp (if job_JobID j = uuid_nil \<or> job_ProjectID j = uuid_nil \<or> job_WorkspaceID j = uuid_nil
            \<or> job_UserID j = uuid_nil \<or> trim_space (job_Platform j) = '''' then ret ()
         else if \<not> coordination_queue_or_default s then throw ErrPublishQueueEmpty
         else bindE (ensure_publish_job_lock s j (publish_lock_key (svc_lower s) (job_ProjectID j) (job_Platform j)))
           (\<lambda>locked. if \<not> locked then ret () else
             process_locked s ticks j (publish_lock_key (svc_lower s) (job_ProjectID j) (job_Platform j))))
       (\<lambda>_. untouched w) (\<lambda>_. untouched w) w1"
      unfolding k by (intro wp_If wp_ret wp_throw lock) (simp_all only: j)
  next
    fix e and w1 :: world assume "untouched w w1"
    then show "wp (if err_is e ErrPublishJobWorkspaceMismatch
         then if coordination_queue_or_default s \<and> job_JobID job \<noteq> uuid_nil \<and> job_ProjectID job \<noteq> uuid_nil
                 \<and> trim_space (job_Platform job) \<noteq> ''''
              then ignoreE (release_lock ?k (uuid_text (job_JobID job))) else ret ()
         else throw e) (\<lambda>_. untouched w) (\<lambda>_. untouched w) w1"
      by (intro wp_If rel wp_throw wp_ignoreE wp_ret release_lock_foreign [OF _ assms(1)])
  qed
  from wpD [OF this assms(2)] show ?thesis by (cases r) (simp_all add: untouched_def)
qed

text \<open>
  Processing a job keeps the invariant of the attempts and schedules, whatever fails, however
  often the lock is refreshed and however processing ends.
\<close>

theorem worker_keeps_attempts_ok:
  assumes "ports_frame s" "attempts_ok (db w)" "process_publish_job s ticks job w = (r, w')"
  shows "attempts_ok (db w')"
  using keeps_dbD [OF keeps_process_attempts_ok [OF assms(1)] assms(3,2)] .


theorem worker_respects_lock_witness:
  "\<exists>r w'. process_publish_job idle_service 1 sample_job ((start_world (publish_db sample_publication))
     \<lparr>env := calm_env\<lparr>env_now := \<lambda>_. 0\<rparr>, locks := \<lambda>_. Some \<lparr>lk_value = ''other'', lk_expires = 9\<rparr>\<rparr>) = (r, w')
   \<and> db w' = publish_db sample_publication"
proof -
  let ?w = "(start_world (publish_db sample_publication))
     \<lparr>env := calm_env\<lparr>env_now := \<lambda>_. 0\<rparr>, locks := \<lambda>_. Some \<lparr>lk_value = ''other'', lk_expires = 9\<rparr>\<rparr>"
  have "length ''other'' \<noteq> length (uuid_text i)" for i by simp
  then have "''other'' \<noteq> uuid_text i" for i by metis
  then have "foreign_lock k (uuid_text i) ?w" for k i by (simp add: foreign_lock_def)
  then show ?thesis using worker_respects_lock [of idle_service sample_job ?w 1]
    by (cases "process_publish_job idle_service 1 sample_job ?w") simp
qed

theorem worker_keeps_attempts_ok_witness:
  "attempts_ok (db (snd (process_publish_job idle_service 2 sample_job
     ((start_world (publish_db sample_publication))\<lparr>locks := \<lambda>_. Some \<lparr>lk_value = uuid_text 1, lk_expires = 1000\<rparr>\<rparr>))))"
  by (rule worker_keeps_attempts_ok [OF ports_frame_idle _ prod.collapse [symmetric]])
    (simp add: attempts_ok_publish_db)

definition cancelled_world :: world where
  "cancelled_world = (start_world (publish_db (sample_publication\<lparr>pub_Status := PublicationStatusCancelled\<rparr>)))
     \<lparr>locks := \<lambda>_. Some \<lparr>lk_value = uuid_text 1, lk_expires = 1000\<rparr>\<rparr>"

lemma keeps_conj: "keeps I m \<Longrightarrow> keeps I' m \<Longrightarrow> keeps (\<lambda>w. I w \<and> I' w) m"
  by (simp add: keeps_def)

lemma keeps_rows_release: "keeps (on_rows J) (release_lock k v)"
  unfolding release_lock_def
  by (intro keeps_intros) (auto simp: keeps_def redis_def external_def on_rows_def split: option.splits prod.splits)

text \<open>
  C26: The worker revives a cancelled publication as failed. A job may still be queued when its
  publication is cancelled (deselecting the platform sets that status); the worker then gets
  \<open>ErrPublicationDisabled\<close> and \<open>MarkFailedForWorkspace\<close>, whose update has no condition on the
  status, overwrites cancelled with failed.
\<close>

theorem worker_overwrites_cancelled:
  "map pub_Status (publications (db cancelled_world)) = [PublicationStatusCancelled]
   \<and> fst (process_publish_job idle_service 0 sample_job cancelled_world) = Inl ErrPublicationDisabled
   \<and> map pub_Status (publications (db (snd (process_publish_job idle_service 0 sample_job cancelled_world))))
       = [PublicationStatusFailed]"
proof -
  let ?pub = "sample_publication\<lparr>pub_Status := PublicationStatusCancelled\<rparr>"
  let ?J = "on_rows (\<lambda>P S A e. P = [?pub] \<and> e = calm_env)"
  have J: "?J cancelled_world" by (simp add: cancelled_world_def on_rows_def publish_db_def)
  have w: "no_fault cancelled_world" "projects (db cancelled_world) = [sample_project]"
    "calls cancelled_world = 0" "env cancelled_world = calm_env"
    "locks cancelled_world k = Some \<lparr>lk_value = uuid_text 1, lk_expires = 1000\<rparr>" for k
    by (simp_all add: cancelled_world_def publish_db_def no_fault_def)
  have calm: "no_fault w" if "?J w" for w using that by (auto simp: on_rows_def no_fault_def)
  have ws: "project_workspace_id f sample_project = 3" for f
    by (simp add: project_workspace_id_def sample_project_def)
  have job: "job_JobID sample_job = 1" "job_ProjectID sample_job = 2" "job_WorkspaceID sample_job = 3"
    "job_UserID sample_job = 4" "job_Platform sample_job = ''x''" by (simp_all add: sample_job_def)
  have fp: "find_project 2 d = Some sample_project" if "projects d = [sample_project]" for d
    using that by (simp add: find_project_def sample_project_def)
  have ensure: "ensure_publish_job_workspace_id sample_job cancelled_world = (Inr sample_job, tick cancelled_world)"
    using fp [OF w(2)] w(1) by (simp add: ensure_publish_job_workspace_id_def job Let_def first_row_ok ws)
  have lock: "ensure_publish_job_lock idle_service sample_job k (tick cancelled_world) = (Inr True, tick (tick cancelled_world))" for k
    by (simp add: ensure_publish_job_lock_def idle_service_def coordination_queue_or_default_def lock_value_def
        redis_def external_def lock_live_def w job bindE_def) 
  have access: "wp (project_for_publish 2 4) (\<lambda>p w'. ?J w' \<and> p = sample_project) (\<lambda>_ _. False) w1"
    if "?J w1" "projects (db w1) = [sample_project]" for w1
    using calm [OF that(1)] fp [OF that(2)] that(1)
    by (simp add: wp_def project_for_publish_def first_row_ok) (simp add: sample_project_def)
  have fpub: "find_publication 3 2 ''x'' (db w1) = Some ?pub" if "?J w1" for w1
    using that by (auto simp: on_rows_def find_publication_def sample_publication_def)
  have pub: "wp (publish_project_in_workspace idle_service 3 2 ''x'' (Some 4) i) (\<lambda>_ _. False)
      (\<lambda>e w'. e = ErrPublicationDisabled \<and> ?J w') w1" if "?J w1" "projects (db w1) = [sample_project]" for i w1
    unfolding publish_project_in_workspace_def option.case workspace_of_project_def
    by (rule wp_bindE, rule wp_conseq [OF access [OF that]], rule wp_bindE, rule wp_asks, rule wp_If)
      (auto simp: ws wp_def first_row_ok fpub calm)
  have fail: "wp (mark_failed_for_workspace 3 2 ''x'' m) (\<lambda>_. on_rows (\<lambda>P S A e. map pub_Status P = [PublicationStatusFailed]))
      (\<lambda>_ _. False) w1" if "?J w1" for m w1
    unfolding mark_failed_for_workspace_def update_publications_def
    by (intro wp_bindE wp_exec wp_ret)
      (use that calm [OF that] in \<open>auto simp: on_rows_def no_fault_fault_at update_rows_def sample_publication_def workspace_scope_def\<close>)
  let ?F = "on_rows (\<lambda>P S A e. map pub_Status P = [PublicationStatusFailed])"
  have recF: "keeps ?F (record_publish_event e)" for e by (intro keeps_intros)
  have failed: "wp (process_failed sample_job k ErrPublicationDisabled) (\<lambda>_ _. False)
      (\<lambda>e w'. e = ErrPublicationDisabled \<and> ?F w') w1" if "?J w1" for k w1
    unfolding process_failed_def job
    by (rule wp_bindE, rule wp_ignoreE, rule wp_conseq [OF fail [OF that]])
      (assumption | rule wp_bindE, rule wp_ignoreE, rule wp_keeps [OF recF] | rule wp_bindE, rule wp_ignoreE,
        rule wp_keeps [OF keeps_rows_release] | rule wp_throw, simp | simp)+
  have started: "keeps (\<lambda>w'. ?J w' \<and> on_db (\<lambda>d. projects d = [sample_project]) w') (record_publish_event e)" for e
    by (intro keeps_conj keeps_intros keeps_record_publish_event) (simp add: ignores_records_def)
  have locked: "wp (process_locked idle_service 0 sample_job k) (\<lambda>_ _. False)
      (\<lambda>e w'. e = ErrPublicationDisabled \<and> ?F w') (tick (tick cancelled_world))" for k
  proof -
    have start: "?J (tick (tick cancelled_world)) \<and> on_db (\<lambda>d. projects d = [sample_project]) (tick (tick cancelled_world))"
      using J w(2) by (simp add: on_db_def)
    have tail: "wp (bindE (tryE (publish_project_in_workspace idle_service 3 2 ''x'' (Some 4) (job_ScheduleID sample_job)))
        (\<lambda>r. bindE (publish_lock_refresh idle_service k (uuid_text 1) 0) (\<lambda>lost. case r of
           Inl e \<Rightarrow> if lost then ret () else process_failed sample_job k e
         | Inr resp \<Rightarrow> if pr_Status resp = publication_status_text PublicationStatusFailed
             then process_reported_failure sample_job k resp else process_succeeded sample_job k resp)))
        (\<lambda>_ _. False) (\<lambda>e w'. e = ErrPublicationDisabled \<and> ?F w') w1"
      if "?J w1 \<and> on_db (\<lambda>d. projects d = [sample_project]) w1" for w1
    proof (rule wp_bindE, rule wp_tryE, rule wp_conseq [OF pub])
      show "?J w1" "projects (db w1) = [sample_project]" using that by (simp_all add: on_db_def)
      fix e w' assume "e = ErrPublicationDisabled \<and> ?J w'"
      then show "wp (bindE (publish_lock_refresh idle_service k (uuid_text 1) 0) (\<lambda>lost. case Inl e of
           Inl e \<Rightarrow> if lost then ret () else process_failed sample_job k e
         | Inr resp \<Rightarrow> if pr_Status resp = publication_status_text PublicationStatusFailed
             then process_reported_failure sample_job k resp else process_succeeded sample_job k resp))
        (\<lambda>_ _. False) (\<lambda>e w'. e = ErrPublicationDisabled \<and> ?F w') w'"
        using failed [of w' k] by simp
    qed simp
    show ?thesis unfolding process_locked_def job
      by (rule wp_bindE, rule wp_ignoreE, rule wp_keeps [OF started start], rule tail, assumption, rule tail, assumption)
  qed
  have "wp (process_publish_job idle_service 0 sample_job) (\<lambda>_ _. False)
      (\<lambda>e w'. e = ErrPublicationDisabled \<and> ?F w') cancelled_world"
  proof -
    have coord: "coordination_queue_or_default idle_service"
      by (simp add: coordination_queue_or_default_def idle_service_def)
    have "trim_space ''x'' \<noteq> []" by code_simp
    then have "process_publish_job idle_service 0 sample_job cancelled_world
        = process_locked idle_service 0 sample_job (publish_lock_key (svc_lower idle_service) 2 ''x'') (tick (tick cancelled_world))"
      using ensure coord by (simp add: process_publish_job_def job Let_def bindE_app
        [where m = "ensure_publish_job_lock idle_service sample_job (publish_lock_key (svc_lower idle_service) 2 ''x'')", OF lock])
    with locked show ?thesis by (simp add: wp_def)
  qed
  then show ?thesis
    by (cases "process_publish_job idle_service 0 sample_job cancelled_world")
      (auto simp: wp_def on_rows_def cancelled_world_def publish_db_def split: sum.splits)
qed

end
