(* ===== verification/Publish_Schedule.thy ===== *)
theory Publish_Schedule
  imports Publish_Worker
begin

text \<open>
  Scheduled publications (\<open>services/publish/schedule.go\<close>): scheduling, cancelling, retrying,
  listing and the dispatcher that hands due schedules to the worker. The last part of the theory
  is the step relation of the schedules and attempts tables with its invariant. The dispatcher
  goroutine repeats \<open>flush_scheduled_publications\<close>; the loop itself (a ticker) is not modelled.
\<close>

definition scheduled_publication_batch_size :: nat where "scheduled_publication_batch_size = 25"

section \<open>Answers\<close>

record schedule_dto =
  sd_Schedule :: scheduled_publication
  sd_Platform :: string
  sd_ProjectTitle :: string
  sd_Attempts :: "publish_attempt list"

text \<open>The preloaded project and publication of a schedule; a missing row is Go's zero value.\<close>

definition schedule_project :: "db \<Rightarrow> scheduled_publication \<Rightarrow> project option" where
  "schedule_project d s = find (\<lambda>p. proj_ID p = sch_ProjectID s) (projects d)"

definition schedule_publication :: "db \<Rightarrow> scheduled_publication \<Rightarrow> publication option" where
  "schedule_publication d s = find (\<lambda>p. pub_ID p = sch_PublicationID s) (publications d)"

definition scheduled_publication_from_model ::
  "scheduled_publication \<Rightarrow> project option \<Rightarrow> publication option \<Rightarrow> publish_attempt list \<Rightarrow> schedule_dto" where
  "scheduled_publication_from_model s p pub as =
     \<lparr>sd_Schedule = s, sd_Platform = (case pub of None \<Rightarrow> '''' | Some r \<Rightarrow> pub_Platform r),
      sd_ProjectTitle = (case p of None \<Rightarrow> '''' | Some r \<Rightarrow> proj_Title r), sd_Attempts = as\<rparr>"

section \<open>Scheduling\<close>

definition find_idempotent_scheduled_publication ::
  "uuid \<Rightarrow> uuid \<Rightarrow> uuid \<Rightarrow> uuid \<Rightarrow> string \<Rightarrow> scheduled_publication option mpp" where
  "find_idempotent_scheduled_publication wid projectID publicationID userID key =
     (if trim_space key = '''' then ret None
      else bindE (tryE (first_row (\<lambda>d. case sort_key (\<lambda>s. - sch_CreatedAt s) (sort_key sch_ID
               (filter (\<lambda>s. sch_WorkspaceID s = wid \<and> sch_ProjectID s = projectID \<and>
                  sch_PublicationID s = publicationID \<and> sch_CreatedBy s = userID \<and>
                  sch_IdempotencyKey s = key) (schedules d))) of [] \<Rightarrow> None | s # _ \<Rightarrow> Some s))) (\<lambda>r. case r of
          Inl e \<Rightarrow> if err_is e ErrRecordNotFound then ret None else throw e
        | Inr s \<Rightarrow> ret (Some s)))"

record schedule_request =
  sr_Platform :: string
  sr_ScheduledAt :: "time option"
  sr_Timezone :: string
  sr_IdempotencyKey :: string

definition schedule_project_publication ::
  "publish_service \<Rightarrow> uuid \<Rightarrow> uuid \<Rightarrow> schedule_request \<Rightarrow> schedule_dto mpp" where
  "schedule_project_publication s projectID userID req =
     (case sr_ScheduledAt req of
        None \<Rightarrow> throw ErrPublicationRequiresSync
      | Some scheduledAt \<Rightarrow>
        if trim_space (sr_Platform req) = '''' then throw ErrPublicationRequiresSync
        else bindE (prepare_publish_job s projectID (sr_Platform req) userID) (\<lambda>(p, pub).
          let timezone = (if trim_space (sr_Timezone req) = '''' then ''UTC'' else trim_space (sr_Timezone req));
              key = normalize_idempotency_key (sr_IdempotencyKey req)
          in bindE (workspace_of_project p) (\<lambda>wid.
             bindE (if key \<noteq> '''' then find_idempotent_scheduled_publication wid (proj_ID p) (pub_ID pub) userID key
                    else ret None) (\<lambda>existing. case existing of
                 Some e \<Rightarrow> ret (scheduled_publication_from_model e (Some p) (Some pub) [])
               | None \<Rightarrow>
                   bindE (create_scheduled_publication p pub userID key scheduledAt
                            ScheduledPublicationStatusScheduled) (\<lambda>schedule.
                   if sch_ID schedule = uuid_nil then throw ErrPublicationRequiresSync
                   else bindE (if timezone \<noteq> sch_Timezone schedule
                          then bindE (update_schedules (\<lambda>r. sch_ID r = sch_ID schedule)
                                 (\<lambda>r. r\<lparr>sch_Timezone := timezone\<rparr>)) (\<lambda>_. ret (schedule\<lparr>sch_Timezone := timezone\<rparr>))
                          else ret schedule) (\<lambda>schedule.
                     ret (scheduled_publication_from_model schedule (Some p) (Some pub) [])))))))"

section \<open>Cancelling\<close>

text \<open>
  The checks of a cancellation read the schedule; the update that follows is a statement of its
  own, which other processes' statements may precede.
\<close>

definition find_schedule :: "uuid \<Rightarrow> uuid \<Rightarrow> db \<Rightarrow> scheduled_publication option" where
  "find_schedule scheduleID projectID d =
     find (\<lambda>s. sch_ID s = scheduleID \<and> sch_ProjectID s = projectID) (schedules d)"

text \<open>\<open>First\<close> with two preloads: one query each.\<close>

definition load_schedule ::
  "(db \<Rightarrow> scheduled_publication option) \<Rightarrow> (scheduled_publication \<times> project option \<times> publication option) mpp" where
  "load_schedule q =
     bindE (first_row q) (\<lambda>s.
     bindE (select (\<lambda>d. schedule_project d s)) (\<lambda>p.
     bindE (select (\<lambda>d. schedule_publication d s)) (\<lambda>pub. ret (s, p, pub))))"

definition cancel_check ::
  "uuid \<Rightarrow> uuid \<Rightarrow> uuid \<Rightarrow> (scheduled_publication \<times> project option \<times> publication option) mpp" where
  "cancel_check projectID scheduleID userID =
     (if projectID = uuid_nil \<or> scheduleID = uuid_nil \<or> userID = uuid_nil then throw ErrForbidden
      else bindE (load_schedule (find_schedule scheduleID projectID)) (\<lambda>(schedule, p, pub).
        bindE (project_for_publish (sch_ProjectID schedule) userID) (\<lambda>_.
        if sch_Status schedule = ScheduledPublicationStatusRunning
           \<or> sch_Status schedule = ScheduledPublicationStatusPublished
        then throw ErrPublicationAlreadyPublishing else ret (schedule, p, pub))))"

definition cancelled_row :: "uuid \<Rightarrow> scheduled_publication \<Rightarrow> scheduled_publication" where
  "cancelled_row userID s = s\<lparr>sch_Status := ScheduledPublicationStatusCancelled, sch_CancelledBy := Some userID\<rparr>"

definition cancel_write ::
  "uuid \<Rightarrow> scheduled_publication \<times> project option \<times> publication option \<Rightarrow> schedule_dto mpp" where
  "cancel_write userID = (\<lambda>(schedule, p, pub).
     bindE now_utc (\<lambda>_.
     bindE (update_schedules (\<lambda>r. sch_ID r = sch_ID schedule) (cancelled_row userID)) (\<lambda>_.
     ret (scheduled_publication_from_model (cancelled_row userID schedule) p pub []))))"

definition cancel_scheduled_publication :: "uuid \<Rightarrow> uuid \<Rightarrow> uuid \<Rightarrow> schedule_dto mpp" where
  "cancel_scheduled_publication projectID scheduleID userID =
     bindE (cancel_check projectID scheduleID userID) (cancel_write userID)"

section \<open>Retrying and listing\<close>

definition attempts_in_order :: "(publish_attempt \<Rightarrow> bool) \<Rightarrow> db \<Rightarrow> publish_attempt list" where
  "attempts_in_order p d = sort_key att_AttemptNo (filter p (attempts d))"

definition scheduled_publication_detail :: "uuid \<Rightarrow> schedule_dto mpp" where
  "scheduled_publication_detail scheduleID =
     bindE (load_schedule (\<lambda>d. find (\<lambda>s. sch_ID s = scheduleID) (schedules d))) (\<lambda>(schedule, p, pub).
     bindE (select (attempts_in_order (\<lambda>a. att_ScheduledPublicationID a = scheduleID))) (\<lambda>as.
     ret (scheduled_publication_from_model schedule p pub as)))"

definition retry_scheduled_publication ::
  "publish_service \<Rightarrow> uuid \<Rightarrow> uuid \<Rightarrow> uuid \<Rightarrow> schedule_dto mpp" where
  "retry_scheduled_publication s projectID scheduleID userID =
     (if projectID = uuid_nil \<or> scheduleID = uuid_nil \<or> userID = uuid_nil then throw ErrForbidden
      else bindE (load_schedule (find_schedule scheduleID projectID)) (\<lambda>(schedule, p, pub).
        if sch_Status schedule \<noteq> ScheduledPublicationStatusFailed
           \<and> sch_Status schedule \<noteq> ScheduledPublicationStatusNeedsManualAction
        then throw ErrPublicationAlreadyPublishing
        else bindE (publish_project_in_workspace s (sch_WorkspaceID schedule) projectID
                      (case pub of None \<Rightarrow> '''' | Some r \<Rightarrow> pub_Platform r) (Some userID) scheduleID) (\<lambda>_.
             scheduled_publication_detail scheduleID)))"

definition require_workspace_calendar_access :: "uuid \<Rightarrow> uuid \<Rightarrow> unit mpp" where
  "require_workspace_calendar_access wid userID = require_workspace_member wid userID"

definition schedules_between :: "uuid \<Rightarrow> time \<Rightarrow> time \<Rightarrow> db \<Rightarrow> scheduled_publication list" where
  "schedules_between wid t1 t2 d = sort_key sch_ScheduledAt
     (filter (\<lambda>s. sch_WorkspaceID s = wid \<and> sch_ScheduledAt s \<ge> t1 \<and> sch_ScheduledAt s < t2) (schedules d))"

text \<open>A zero time is \<open>None\<close>. The preloads are one query each for all schedules.\<close>

definition list_workspace_scheduled_publications ::
  "uuid \<Rightarrow> uuid \<Rightarrow> time option \<Rightarrow> time option \<Rightarrow> schedule_dto list mpp" where
  "list_workspace_scheduled_publications wid userID from_t to_t =
     (case (from_t, to_t) of
        (Some t1, Some t2) \<Rightarrow>
          if wid = uuid_nil \<or> userID = uuid_nil \<or> \<not> t2 > t1 then throw ErrForbidden
          else bindE (require_workspace_calendar_access wid userID) (\<lambda>_.
            bindE (select (schedules_between wid t1 t2)) (\<lambda>ss.
            bindE (select (\<lambda>d. map (schedule_project d) ss)) (\<lambda>ps.
            bindE (select (\<lambda>d. map (schedule_publication d) ss)) (\<lambda>pubs.
            let ids = map sch_ID ss in
            bindE (if ids \<noteq> [] then select (attempts_in_order (\<lambda>a. att_ScheduledPublicationID a \<in> set ids))
                   else ret []) (\<lambda>as.
            ret (map (\<lambda>(s, p, pub). scheduled_publication_from_model s p pub
                        (filter (\<lambda>a. att_ScheduledPublicationID a = sch_ID s) as))
                   (zip ss (zip ps pubs))))))))
      | _ \<Rightarrow> throw ErrForbidden)"

section \<open>Dispatching\<close>

definition dispatch_scheduled_publication ::
  "publish_service \<Rightarrow> nat \<Rightarrow> scheduled_publication \<times> publication option \<Rightarrow> unit mpp" where
  "dispatch_scheduled_publication s ticks = (\<lambda>(schedule, pub).
     if sch_ID schedule = uuid_nil \<or> sch_ProjectID schedule = uuid_nil \<or> sch_CreatedBy schedule = uuid_nil
        \<or> sch_PublicationID schedule = uuid_nil then ret ()
     else bindE now_utc (\<lambda>now.
       if sch_Status schedule \<noteq> ScheduledPublicationStatusScheduled \<or> sch_ScheduledAt schedule > now then ret ()
       else let platform = trim_space (case pub of None \<Rightarrow> '''' | Some r \<Rightarrow> pub_Platform r) in
         bindE (if platform \<noteq> '''' then ret (Some platform)
                else bindE (tryE (first_row (\<lambda>d. find (\<lambda>r. pub_ID r = sch_PublicationID schedule \<and>
                       pub_WorkspaceID r = sch_WorkspaceID schedule) (publications d)))) (\<lambda>r. case r of
                    Inl e \<Rightarrow> if err_is e ErrRecordNotFound then ret None else throw e
                  | Inr r \<Rightarrow> ret (Some (pub_Platform r)))) (\<lambda>found. case found of
             None \<Rightarrow> ret ()
           | Some platform \<Rightarrow>
               if platform = '''' then ret ()
               else if sch_WorkspaceID schedule = uuid_nil then ret ()
               else bindE uuid_new (\<lambda>jobID. bindE now_utc (\<lambda>enqueuedAt.
                 let job = \<lparr>job_JobID = jobID, job_ProjectID = sch_ProjectID schedule,
                       job_WorkspaceID = sch_WorkspaceID schedule, job_UserID = sch_CreatedBy schedule,
                       job_Platform = platform, job_PublicationID = sch_PublicationID schedule,
                       job_ScheduleID = sch_ID schedule, job_IdempotencyKey = sch_IdempotencyKey schedule,
                       job_EnqueuedAt = enqueuedAt\<rparr>;
                     lockKey = publish_lock_key (svc_lower s) (sch_ProjectID schedule) platform
                 in if \<not> coordination_queue_or_default s then throw ErrPublishQueueEmpty
                    else bindE (acquire_lock lockKey (uuid_text jobID) publish_lock_ttl) (\<lambda>acquired.
                      if \<not> acquired then ret () else process_publish_job s ticks job))))))"

definition due_schedules :: "time \<Rightarrow> nat \<Rightarrow> db \<Rightarrow> scheduled_publication list" where
  "due_schedules now limit d = take limit (sort_key sch_ScheduledAt
     (filter (\<lambda>s. sch_Status s = ScheduledPublicationStatusScheduled \<and> sch_ScheduledAt s \<le> now) (schedules d)))"

definition flush_scheduled_publications :: "publish_service \<Rightarrow> nat \<Rightarrow> int \<Rightarrow> unit mpp" where
  "flush_scheduled_publications s ticks limit =
     (if \<not> svc_queue s then ret ()
      else let limit = (if limit \<le> 0 then scheduled_publication_batch_size else nat limit) in
        bindE now_utc (\<lambda>now.
        bindE (select (due_schedules now limit)) (\<lambda>ss.
        bindE (select (\<lambda>d. map (schedule_publication d) ss)) (\<lambda>pubs.
        dispatch_all (dispatch_scheduled_publication s ticks) (zip ss pubs) None))))"

section \<open>The tables under interleaved statements\<close>

text \<open>
  \<open>schedules_ok\<close>: the invariant of the attempts, and every attempt belongs to a stored schedule.
  One step is one statement or transaction of any process on the two tables: a schedule is created
  or gets its time zone, an attempt is started, the holder of a running attempt finishes it, a
  schedule is cancelled (check and update with no other process between them), or the step does
  not write the two tables.
\<close>

definition schedules_ok :: "db \<Rightarrow> bool" where
  "schedules_ok d \<longleftrightarrow> attempts_ok d \<and> (\<forall>a\<in>set (attempts d). att_ScheduledPublicationID a \<in> sch_ID ` set (schedules d))"

inductive schedule_step :: "world \<Rightarrow> world \<Rightarrow> bool" where
  created: "insert_schedule s w = (r, w') \<Longrightarrow> schedule_step w w'"
| timezone: "update_schedules p (\<lambda>x. x\<lparr>sch_Timezone := tz\<rparr>) w = (r, w') \<Longrightarrow> schedule_step w w'"
| started: "start_publish_attempt_for_workspace wid sid t w = (r, w') \<Longrightarrow> schedule_step w w'"
| finished: "h \<in> set (attempts (db w)) \<Longrightarrow> running h \<Longrightarrow> pac_Status c \<noteq> PublishAttemptStatusRunning \<Longrightarrow>
    finish_publish_attempt_for_workspace wid h c w = (r, w') \<Longrightarrow> schedule_step w w'"
| cancelled: "cancel_scheduled_publication pid sid uid w = (r, w') \<Longrightarrow> schedule_step w w'"
| elsewhere: "schedules (db w') = schedules (db w) \<Longrightarrow> attempts (db w') = attempts (db w) \<Longrightarrow> schedule_step w w'"

inductive schedule_steps :: "world \<Rightarrow> world \<Rightarrow> bool" where
  none: "schedule_steps w w"
| more: "schedule_steps w w1 \<Longrightarrow> schedule_step w1 w2 \<Longrightarrow> schedule_steps w w2"

lemma schedules_ok_ids:
  assumes "schedules_ok d" "attempts_ok d'"
    and ids: "\<And>x. x \<in> sch_ID ` set (schedules d) \<Longrightarrow> x \<in> sch_ID ` set (schedules d')"
    and att: "\<And>a. a \<in> set (attempts d') \<Longrightarrow> att_ScheduledPublicationID a \<in> sch_ID ` set (schedules d')
       \<or> att_ScheduledPublicationID a \<in> att_ScheduledPublicationID ` set (attempts d)"
  shows "schedules_ok d'"
  unfolding schedules_ok_def
proof (intro conjI ballI assms(2))
  fix a assume "a \<in> set (attempts d')"
  from att [OF this] show "att_ScheduledPublicationID a \<in> sch_ID ` set (schedules d')"
  proof
    assume "att_ScheduledPublicationID a \<in> att_ScheduledPublicationID ` set (attempts d)"
    then obtain b where b: "b \<in> set (attempts d)" and eq: "att_ScheduledPublicationID a = att_ScheduledPublicationID b"
      by (rule imageE)
    show ?thesis unfolding eq by (rule ids) (use assms(1) b in \<open>simp add: schedules_ok_def\<close>)
  qed
qed

lemma update_rows_ids: "(\<And>r. k (f r) = k r) \<Longrightarrow> k ` set (update_rows p f rs) = k ` set rs"
  using map_update_rows [of k f p rs] by (metis set_map)

lemma insert_schedule_Inr:
  assumes "insert_schedule s w = (r, w')"
  shows "case r of Inl e \<Rightarrow> db w' = db w
    | Inr s' \<Rightarrow> sch_ID s' \<notin> sch_ID ` set (schedules (db w)) \<and> db w' = (db w)\<lparr>schedules := schedules (db w) @ [s']\<rparr>"
proof -
  let ?Q = "\<lambda>s' w'. sch_ID s' \<notin> sch_ID ` set (schedules (db w)) \<and> db w' = (db w)\<lparr>schedules := schedules (db w) @ [s']\<rparr>"
  let ?J = "on_db (\<lambda>d. d = db w)"
  have ins: "wp (bindE (create_row schedules (\<lambda>rs d. d\<lparr>schedules := rs\<rparr>) (\<lambda>r x. sch_ID x = sch_ID r) x)
      (\<lambda>_. ret x)) ?Q (\<lambda>_. ?J) w1" if "?J w1" for x w1
    by (rule wp_bindE, rule wp_create_row) (use that in \<open>auto simp: on_db_def wp_def tick_def\<close>)
  have "wp (insert_schedule s) ?Q (\<lambda>_. ?J) w"
    unfolding insert_schedule_def Let_def
    by (rule wp_bindE, rule wp_uuid_new, rule wp_bindE,
      rule wp_keeps [OF keeps_hook_workspace [where J = "\<lambda>d. d = db w"]], simp add: on_db_def,
      rule wp_bindE, rule wp_now_utc, rule ins) (simp_all add: on_db_def)
  from wpD [OF this assms] show ?thesis by (simp add: on_db_def split: sum.splits)
qed

subsection \<open>What one step keeps\<close>

lemma schedules_ok_created:
  assumes "schedules_ok d" "sch_ID s \<notin> sch_ID ` set (schedules d)"
  shows "schedules_ok (d\<lparr>schedules := schedules d @ [s]\<rparr>)"
proof (rule schedules_ok_ids [OF assms(1)])
  have "sch_ID s \<noteq> att_ScheduledPublicationID a" if "a \<in> set (attempts d)" for a
    using assms that by (auto simp: schedules_ok_def)
  then show "attempts_ok (d\<lparr>schedules := schedules d @ [s]\<rparr>)"
    using assms by (auto simp: schedules_ok_def attempts_ok_def)
qed (use assms(1) in \<open>auto simp: schedules_ok_def\<close>)

lemma schedules_ok_update:
  assumes "schedules_ok d" and id: "\<And>r. sch_ID (f r) = sch_ID r"
    and "\<And>r. r \<in> set (schedules d) \<Longrightarrow> p r \<Longrightarrow> sch_Status (f r) = sch_Status r \<or> sch_Status r \<noteq> ScheduledPublicationStatusRunning"
  shows "schedules_ok (d\<lparr>schedules := update_rows p f (schedules d)\<rparr>)" (is "schedules_ok ?d")
proof (rule schedules_ok_ids [OF assms(1)])
  have ok: "attempts_ok d" using assms(1) by (simp add: schedules_ok_def)
  have "sch_Status s = ScheduledPublicationStatusRunning"
    if a: "a \<in> set (attempts d)" "running a" and s: "s \<in> set (schedules ?d)" "sch_ID s = att_ScheduledPublicationID a" for a s
  proof -
    obtain r where r: "r \<in> set (schedules d)" "s = (if p r then f r else r)"
      using s(1) by (auto simp: set_update_rows)
    then have "sch_ID r = att_ScheduledPublicationID a" using s(2) id by (simp split: if_splits)
    then have "sch_Status r = ScheduledPublicationStatusRunning" using ok a r(1) by (simp add: attempts_ok_def)
    with r assms(3) [of r] show ?thesis by auto
  qed
  then show "attempts_ok ?d" using ok by (simp add: attempts_ok_def map_update_rows id)
  show "x \<in> sch_ID ` set (schedules ?d)" if "x \<in> sch_ID ` set (schedules d)" for x
    using that by (simp add: update_rows_ids id)
qed simp

lemma keeps_load_schedule [keeps_intros]: "keeps (on_db J) (load_schedule q)"
  unfolding load_schedule_def by (intro keeps_intros)

lemma load_schedule_Inr: "load_schedule q w = (Inr (s, p, pub), w') \<Longrightarrow> q (db w) = Some s \<and> db w' = db w"
  unfolding load_schedule_def
  by (auto simp: bindE_Inr dest!: first_row_Inr select_Inr)

lemma keeps_cancel_check [keeps_intros]: "keeps (on_db J) (cancel_check pid sid uid)"
  unfolding cancel_check_def by (intro keeps_intros)

lemma cancel_check_Inr:
  assumes "cancel_check pid sid uid w = (Inr (s, p, pub), w')"
  shows "find_schedule sid pid (db w) = Some s"
    "sch_Status s \<noteq> ScheduledPublicationStatusRunning" "sch_Status s \<noteq> ScheduledPublicationStatusPublished"
proof -
  obtain s' p' pub' w1 w2 where l: "load_schedule (find_schedule sid pid) w = (Inr (s', p', pub'), w1)"
    and "s' = s" "sch_Status s \<noteq> ScheduledPublicationStatusRunning" "sch_Status s \<noteq> ScheduledPublicationStatusPublished"
    using assms unfolding cancel_check_def by (auto simp: bindE_Inr split: if_splits prod.splits)
  then show "find_schedule sid pid (db w) = Some s"
    "sch_Status s \<noteq> ScheduledPublicationStatusRunning" "sch_Status s \<noteq> ScheduledPublicationStatusPublished"
    using load_schedule_Inr [OF l] by simp_all
qed

text \<open>A cancellation with no statement of another process in it, and its two halves.\<close>

lemma cancel_write_outcomes:
  assumes "cancel_write uid (s, p, pub) w = (r, w')"
  shows "db w' = db w \<and> (\<exists>e. r = Inl e) \<or> r = Inr (scheduled_publication_from_model (cancelled_row uid s) p pub [])
    \<and> db w' = (db w)\<lparr>schedules := update_rows (\<lambda>x. sch_ID x = sch_ID s) (cancelled_row uid) (schedules (db w))\<rparr>"
proof -
  have "wp (cancel_write uid (s, p, pub)) (\<lambda>x w'. x = scheduled_publication_from_model (cancelled_row uid s) p pub []
      \<and> db w' = (db w)\<lparr>schedules := update_rows (\<lambda>x. sch_ID x = sch_ID s) (cancelled_row uid) (schedules (db w))\<rparr>)
      (\<lambda>_ w'. db w' = db w) w"
    unfolding cancel_write_def prod.case update_schedules_def
    by (rule wp_bindE, rule wp_now_utc, rule wp_bindE, rule wp_exec) (simp_all add: wp_def)
  from wpD [OF this assms] show ?thesis by (cases r) auto
qed

lemma cancelled_row_simps [simp]: "sch_ID (cancelled_row uid s) = sch_ID s"
  "sch_Status (cancelled_row uid s) = ScheduledPublicationStatusCancelled"
  by (simp_all add: cancelled_row_def)

lemma cancel_outcomes:
  assumes "cancel_scheduled_publication pid sid uid w = (r, w')"
  shows "db w' = db w \<and> (\<exists>e. r = Inl e) \<or>
    (\<exists>s p pub. find_schedule sid pid (db w) = Some s \<and> sch_Status s \<noteq> ScheduledPublicationStatusRunning
     \<and> sch_Status s \<noteq> ScheduledPublicationStatusPublished
     \<and> r = Inr (scheduled_publication_from_model (cancelled_row uid s) p pub [])
     \<and> db w' = (db w)\<lparr>schedules := update_rows (\<lambda>x. sch_ID x = sch_ID s) (cancelled_row uid) (schedules (db w))\<rparr>)"
proof -
  obtain c w1 where c: "cancel_check pid sid uid w = (c, w1)" by fastforce
  have d1: "db w1 = db w" by (rule db_kept [OF keeps_cancel_check c])
  show ?thesis
  proof (cases c)
    case (Inl e)
    with c assms d1 show ?thesis by (auto simp: cancel_scheduled_publication_def bindE_def)
  next
    case (Inr x)
    obtain s p pub where x: "x = (s, p, pub)" by (cases x) auto
    have "cancel_write uid (s, p, pub) w1 = (r, w')"
      using assms c Inr x by (simp add: cancel_scheduled_publication_def bindE_def)
    from cancel_write_outcomes [OF this] cancel_check_Inr [OF c [unfolded Inr x]] d1 show ?thesis by auto
  qed
qed

lemma schedule_step_ok:
  assumes "schedule_step w w'" "schedules_ok (db w)"
  shows "schedules_ok (db w')"
  using assms(1)
proof cases
  case (created s r)
  from insert_schedule_Inr [OF created] assms(2) show ?thesis
    by (auto simp: schedules_ok_created split: sum.splits)
next
  case (timezone p tz r)
  have "keeps (on_db schedules_ok) (update_schedules p (\<lambda>x. x\<lparr>sch_Timezone := tz\<rparr>))"
    by (rule keeps_update_schedules) (rule schedules_ok_update, simp_all)
  from keeps_dbD [OF this timezone assms(2)] show ?thesis .
next
  case (started wid sid t r)
  have a: "attempts_ok (db w')" using attempts_ok_start [OF started] assms(2) by (simp add: schedules_ok_def)
  from started show ?thesis
  proof (cases rule: start_publish_attempt_outcomes)
    case (started a w1 w2)
    note tx = start_attempt_tx_Inr [OF started(2)]
    obtain s where s: "s \<in> set (schedules (db w))" "sch_ID s = sid"
      using tx(1) started(3) by (auto simp: startable_def)
    have d: "schedules (db w') = update_rows (startable wid sid) set_running (schedules (db w))"
      "attempts (db w') = attempts (db w) @ [a]"
      using tx(3) started(3,4) by simp_all
    have ids: "sch_ID ` set (schedules (db w')) = sch_ID ` set (schedules (db w))"
      unfolding d(1) by (rule update_rows_ids) simp
    have "sid \<in> sch_ID ` set (schedules (db w))" using s(1) unfolding s(2) [symmetric] by (rule imageI)
    then show ?thesis by (intro schedules_ok_ids [OF assms(2) a]) (auto simp: ids d(2) tx(4))
  qed (simp add: assms(2))
next
  case (finished h c wid r)
  have a: "attempts_ok (db w')"
    using attempts_ok_finish [OF finished(4) _ finished(3) finished(1,2) refl refl] assms(2)
    by (simp add: schedules_ok_def)
  show ?thesis using finish_publish_attempt_outcomes [OF finished(4)]
  proof
    assume "r = Inr () \<and> db w' = finished_db wid h (env_now (env w) (calls w)) c (db w)"
    then have d: "db w' = finished_db wid h (env_now (env w) (calls w)) c (db w)" ..
    have "sch_ID ` set (schedules (db w')) = sch_ID ` set (schedules (db w))"
      unfolding d finished_db_def by (simp add: update_rows_ids)
    moreover have "att_ScheduledPublicationID ` set (attempts (db w')) = att_ScheduledPublicationID ` set (attempts (db w))"
      unfolding d finished_db_def by (simp add: update_rows_ids)
    ultimately show ?thesis by (intro schedules_ok_ids [OF assms(2) a]) (metis imageI)+
  qed (simp add: assms(2))
next
  case (cancelled pid sid uid r)
  show ?thesis using cancel_outcomes [OF cancelled]
  proof
    assume "\<exists>s p pub. find_schedule sid pid (db w) = Some s \<and> sch_Status s \<noteq> ScheduledPublicationStatusRunning
     \<and> sch_Status s \<noteq> ScheduledPublicationStatusPublished
     \<and> r = Inr (scheduled_publication_from_model (cancelled_row uid s) p pub [])
     \<and> db w' = (db w)\<lparr>schedules := update_rows (\<lambda>x. sch_ID x = sch_ID s) (cancelled_row uid) (schedules (db w))\<rparr>"
    then obtain s where s: "find_schedule sid pid (db w) = Some s" "sch_Status s \<noteq> ScheduledPublicationStatusRunning"
      and d: "db w' = (db w)\<lparr>schedules := update_rows (\<lambda>x. sch_ID x = sch_ID s) (cancelled_row uid) (schedules (db w))\<rparr>"
      by blast
    have "s \<in> set (schedules (db w))" using find_Some_set [OF s(1) [unfolded find_schedule_def]] by simp
    moreover have "distinct (map sch_ID (schedules (db w)))" using assms(2) by (simp add: schedules_ok_def attempts_ok_def)
    ultimately have "x = s" if "x \<in> set (schedules (db w))" "sch_ID x = sch_ID s" for x
      using row_by_id that by metis
    then show ?thesis unfolding d using s(2) by (intro schedules_ok_update assms(2)) auto
  qed (simp add: assms(2))
next
  case elsewhere
  then show ?thesis using assms(2) by (simp add: schedules_ok_def attempts_ok_def attempts_of_def)
qed

lemma schedule_steps_ok: "schedule_steps w w' \<Longrightarrow> schedules_ok (db w) \<Longrightarrow> schedules_ok (db w')"
  by (induction rule: schedule_steps.induct) (simp_all add: schedule_step_ok)

subsection \<open>A cancelled schedule\<close>

definition frozen :: "uuid \<Rightarrow> db \<Rightarrow> bool" where
  "frozen sid d \<longleftrightarrow> sid \<in> sch_ID ` set (schedules d) \<and>
     (\<forall>s\<in>set (schedules d). sch_ID s = sid \<longrightarrow> sch_Status s = ScheduledPublicationStatusCancelled)"

lemma frozen_update:
  assumes "frozen sid d" and id: "\<And>r. sch_ID (f r) = sch_ID r"
    and "\<And>r. r \<in> set (schedules d) \<Longrightarrow> p r \<Longrightarrow> sch_ID r = sid \<Longrightarrow> sch_Status (f r) = ScheduledPublicationStatusCancelled"
  shows "frozen sid (d\<lparr>schedules := update_rows p f (schedules d)\<rparr>)"
proof -
  have "sch_ID ` set (update_rows p f (schedules d)) = sch_ID ` set (schedules d)"
    using id by (rule update_rows_ids)
  with assms(1,3) show ?thesis unfolding frozen_def by (auto simp: id set_update_rows)
qed

lemma frozen_idle:
  assumes "frozen sid d" "attempts_ok d" "a \<in> set (attempts d)" "running a"
  shows "att_ScheduledPublicationID a \<noteq> sid"
proof
  assume a: "att_ScheduledPublicationID a = sid"
  obtain s where "s \<in> set (schedules d)" "sch_ID s = sid" using assms(1) by (auto simp: frozen_def)
  with assms a have "sch_Status s = ScheduledPublicationStatusRunning"
    and "sch_Status s = ScheduledPublicationStatusCancelled" by (simp_all add: attempts_ok_def frozen_def)
  then show False by simp
qed

lemma filter_update_others: "(\<And>a. a \<in> set rs \<Longrightarrow> q a \<Longrightarrow> \<not> p a) \<Longrightarrow> (\<And>a. q (f a) = q a) \<Longrightarrow>
    filter q (update_rows p f rs) = filter q rs"
  unfolding update_rows_def by (induction rs) auto

text \<open>No statement of the service starts, finishes or revives a cancelled schedule.\<close>

lemma schedule_step_frozen:
  assumes "schedule_step w w'" "schedules_ok (db w)" and fr: "frozen sid (db w)"
  shows "frozen sid (db w') \<and> attempts_of sid (db w') = attempts_of sid (db w)"
  using assms(1)
proof cases
  case (created s r)
  from insert_schedule_Inr [OF created] fr show ?thesis
    by (auto simp: frozen_def split: sum.splits)
next
  case (timezone p tz r)
  let ?J = "\<lambda>d. frozen sid d \<and> attempts_of sid d = attempts_of sid (db w)"
  have "keeps (on_db ?J) (update_schedules p (\<lambda>x. x\<lparr>sch_Timezone := tz\<rparr>))"
    by (rule keeps_update_schedules, elim conjE, intro conjI frozen_update) (auto simp: frozen_def)
  from keeps_dbD [OF this timezone] fr show ?thesis by simp
next
  case (started wid sid' t r)
  then show ?thesis
  proof (cases rule: start_publish_attempt_outcomes)
    case (started a w1 w2)
    note tx = start_attempt_tx_Inr [OF started(2)]
    have d: "db w' = (db w)\<lparr>schedules := update_rows (startable wid sid') set_running (schedules (db w)),
        attempts := attempts (db w) @ [a]\<rparr>" using tx(3) started(3,4) by simp
    obtain s where s: "s \<in> set (schedules (db w))" "startable wid sid' s" using tx(1) started(3) by auto
    then have "sid' \<noteq> sid" using fr by (auto simp: frozen_def startable_def startable_schedule_statuses_def)
    then have "attempts_of sid (db w') = attempts_of sid (db w)" using tx(4) by (simp add: attempts_of_def d)
    moreover have "frozen sid ((db w)\<lparr>schedules := update_rows (startable wid sid') set_running (schedules (db w))\<rparr>)"
      using \<open>sid' \<noteq> sid\<close> by (intro frozen_update fr) (auto simp: startable_def)
    ultimately show ?thesis by (simp add: frozen_def d)
  qed (simp add: fr)
next
  case (finished h c wid r)
  have ok: "attempts_ok (db w)" using assms(2) by (simp add: schedules_ok_def)
  have h: "att_ScheduledPublicationID h \<noteq> sid" by (rule frozen_idle [OF fr ok finished(1,2)])
  show ?thesis using finish_publish_attempt_outcomes [OF finished(4)]
  proof
    assume "r = Inr () \<and> db w' = finished_db wid h (env_now (env w) (calls w)) c (db w)"
    then have d: "db w' = finished_db wid h (env_now (env w) (calls w)) c (db w)" ..
    have "frozen sid ((db w)\<lparr>schedules := schedules (db w')\<rparr>)"
      unfolding d finished_db_def using h by (auto intro!: frozen_update fr)
    moreover have "a = h" if "a \<in> set (attempts (db w))" "att_ID a = att_ID h" for a
      using ok that finished(1) row_by_id [of att_ID "attempts (db w)" h a] by (simp add: attempts_ok_def)
    then have "attempts_of sid (db w') = attempts_of sid (db w)"
      unfolding d finished_db_def attempts_of_def using h by (simp, intro filter_update_others) auto
    ultimately show ?thesis by (simp add: frozen_def)
  qed (simp add: fr)
next
  case (cancelled pid sid' uid r)
  from cancel_outcomes [OF cancelled] show ?thesis by (auto simp: fr intro!: frozen_update)
next
  case elsewhere
  then show ?thesis using fr by (simp add: frozen_def attempts_of_def)
qed

section \<open>Properties\<close>


lemma schedules_ok_publish_db: "schedules_ok (publish_db pub)"
  using attempts_ok_publish_db [of pub] by (simp add: schedules_ok_def publish_db_def empty_db_def)


lemma schedule_steps_frozen:
  assumes "schedule_steps w w'" "schedules_ok (db w)" "frozen sid (db w)"
  shows "frozen sid (db w') \<and> attempts_of sid (db w') = attempts_of sid (db w)"
  using assms
proof (induction rule: schedule_steps.induct)
  case (more w w1 w2)
  then have "frozen sid (db w1) \<and> attempts_of sid (db w1) = attempts_of sid (db w)" by blast
  moreover have "schedules_ok (db w1)" using more by (blast intro: schedule_steps_ok)
  ultimately show ?case using schedule_step_frozen [OF more(2)] by simp
qed simp

lemma cancel_freezes:
  assumes "cancel_scheduled_publication pid sid uid w = (Inr x, w1)" "schedules_ok (db w)"
  shows "frozen sid (db w1)" "schedules_ok (db w1)" "attempts (db w1) = attempts (db w)"
proof -
  from cancel_outcomes [OF assms(1)] obtain s where s: "find_schedule sid pid (db w) = Some s"
    and d: "db w1 = (db w)\<lparr>schedules := update_rows (\<lambda>x. sch_ID x = sch_ID s) (cancelled_row uid) (schedules (db w))\<rparr>"
    by auto
  have "s \<in> set (schedules (db w))" "sch_ID s = sid"
    using find_Some_set [OF s [unfolded find_schedule_def]] by simp_all
  moreover have "sch_ID ` set (update_rows p (cancelled_row uid) rs) = sch_ID ` set rs" for p rs
    by (rule update_rows_ids) simp
  ultimately show "frozen sid (db w1)" by (auto simp: d frozen_def set_update_rows)
  show "schedules_ok (db w1)" by (rule schedule_step_ok [OF schedule_step.cancelled [OF assms(1)] assms(2)])
  show "attempts (db w1) = attempts (db w)" by (simp add: d)
qed


definition checked_world :: world where
  "checked_world = tick (tick (tick (tick (start_world (publish_db sample_publication)))))"

lemma checked_world_simps: "db checked_world = publish_db sample_publication" "env checked_world = calm_env"
  "no_fault checked_world"
  by (simp_all add: checked_world_def no_fault_def)

lemma cancel_check_sample: "cancel_check 2 7 4 (start_world (publish_db sample_publication)) =
    (Inr (sample_schedule, Some sample_project, Some sample_publication), checked_world)"
proof -
  have "find_schedule 7 2 (publish_db sample_publication) = Some sample_schedule"
    by (simp add: find_schedule_def publish_db_def sample_schedule_def)
  moreover have "schedule_project (publish_db sample_publication) sample_schedule = Some sample_project"
    by (simp add: schedule_project_def publish_db_def sample_schedule_def sample_project_def)
  moreover have "schedule_publication (publish_db sample_publication) sample_schedule = Some sample_publication"
    by (simp add: schedule_publication_def publish_db_def sample_schedule_def sample_publication_def)
  moreover have "project_for_publish 2 4 w = (Inr sample_project, tick w)"
    if "no_fault w" "db w = publish_db sample_publication" for w
    using that by (simp add: project_for_publish_def first_row_ok find_project_def publish_db_def sample_project_def)
  moreover have "sch_ProjectID sample_schedule = 2" "sch_Status sample_schedule = ScheduledPublicationStatusScheduled"
    by (simp_all add: sample_schedule_def)
  ultimately show ?thesis
    by (simp add: cancel_check_def load_schedule_def bindE_bindE_app run_ok bindE_def checked_world_def first_row_ok select_ok
        del: ret_app throw_app) (simp add: ret_app)
qed


text \<open>
  C27: The check and the update of \<open>CancelScheduledPublication\<close> are two statements, and the update
  does not repeat the check: when the worker starts the attempt between them, the cancellation
  still succeeds and leaves a cancelled schedule whose attempt runs.
\<close>

theorem cancel_races_with_start:
  "\<exists>x w1 a w2 y w3. schedules_ok (publish_db sample_publication)
     \<and> cancel_check 2 7 4 (start_world (publish_db sample_publication)) = (Inr x, w1)
     \<and> start_publish_attempt_for_workspace 3 7 5 w1 = (Inr (Some a), w2)
     \<and> cancel_write 4 x w2 = (Inr y, w3)
     \<and> map sch_Status (schedules (db w3)) = [ScheduledPublicationStatusCancelled]
     \<and> attempts (db w3) = [a] \<and> running a \<and> \<not> schedules_ok (db w3)"
proof -
  have "\<exists>a w2. start_publish_attempt_for_workspace 3 7 5 checked_world = (Inr (Some a), w2) \<and> no_fault w2"
    by (simp add: start_publish_attempt_for_workspace_def transaction_def start_attempt_tx_def checked_world_def
        bindE_def asks_def tryE_def update_ok select_ok create_attempt_def uuid_new_def create_row_ok Let_def
        sample_schedule_def startable_schedule_statuses_def workspace_scope_def publish_db_def empty_db_def)
  then obtain a w2 where s: "start_publish_attempt_for_workspace 3 7 5 checked_world = (Inr (Some a), w2)"
    and nf: "no_fault w2" by blast
  from s have d: "schedules (db w2) = [set_running sample_schedule] \<and> attempts (db w2) = [a] \<and> running a
      \<and> att_ScheduledPublicationID a = 7"
  proof (cases rule: start_publish_attempt_outcomes)
    case (started a' v1 v2)
    have "startable 3 7 sample_schedule"
      by (simp add: startable_def sample_schedule_def startable_schedule_statuses_def workspace_scope_def)
    then show ?thesis using start_attempt_tx_Inr [OF started(2)] started checked_world_simps(1)
      by (simp add: publish_db_def update_rows_def empty_db_def)
  qed simp
  let ?y = "scheduled_publication_from_model (cancelled_row 4 sample_schedule) (Some sample_project) (Some sample_publication) []"
  obtain w3 where w3: "cancel_write 4 (sample_schedule, Some sample_project, Some sample_publication) w2 = (Inr ?y, w3)"
    "schedules (db w3) = [cancelled_row 4 (set_running sample_schedule)]" "attempts (db w3) = [a]"
    using nf d by (simp add: cancel_write_def bindE_def now_utc_def update_ok update_rows_def del: ret_app) (simp add: ret_app)
  have "sch_ID sample_schedule = 7" by (simp add: sample_schedule_def)
  then have "\<not> schedules_ok (db w3)" using d w3(2,3)
    by (simp add: schedules_ok_def attempts_ok_def)
  then show ?thesis
    using schedules_ok_publish_db cancel_check_sample s w3 d
    by (intro exI conjI) (assumption | simp)+
qed

lemma calendar_access_Inr:
  assumes "faults_opaque w" "require_workspace_calendar_access wid uid w = (Inr u, w')"
  shows "wid = personal_workspace_id w uid \<or> workspace_role_of (db w) wid uid \<noteq> None" "db w' = db w"
proof -
  show "db w' = db w"
    using keeps_access(6) db_kept [of "require_workspace_member wid uid" w "Inr u" w'] assms(2)
    unfolding require_workspace_calendar_access_def by blast
  have "wid = personal_workspace_id w uid \<or> (\<exists>role w1. workspace_access_role wid uid w = (Inr role, w1))"
    using assms(2) unfolding require_workspace_calendar_access_def require_workspace_member_def
    by (auto simp: bindE_Inr split: if_splits)
  then show "wid = personal_workspace_id w uid \<or> workspace_role_of (db w) wid uid \<noteq> None"
    using workspace_access_role_sound [OF assms(1)] by (metis option.distinct(1))
qed

text \<open>
  The calendar of a workspace is answered to its members only and in order: the answer carries
  exactly the workspace's schedules with a time in the half open window, sorted by that time, each
  with its own attempts sorted by number, and the tables are not changed. The user is the personal
  owner of the workspace or has a role in it.
\<close>

theorem list_schedules_scoped:
  assumes "list_workspace_scheduled_publications wid uid from_t to_t w = (Inr xs, w')" "faults_opaque w"
  shows "\<exists>t1 t2. from_t = Some t1 \<and> to_t = Some t2 \<and> t1 < t2 \<and> db w' = db w
    \<and> (wid = personal_workspace_id w uid \<or> workspace_role_of (db w) wid uid \<noteq> None)
    \<and> map sd_Schedule xs = sort_key sch_ScheduledAt (filter (\<lambda>s. sch_WorkspaceID s = wid \<and>
         t1 \<le> sch_ScheduledAt s \<and> sch_ScheduledAt s < t2) (schedules (db w)))
    \<and> (\<forall>x\<in>set xs. sd_Attempts x = sort_key att_AttemptNo (attempts_of (sch_ID (sd_Schedule x)) (db w)))"
proof -
  obtain t1 t2 where t: "from_t = Some t1" "to_t = Some t2" "t1 < t2"
    using assms(1) by (cases from_t; cases to_t) (auto simp: list_workspace_scheduled_publications_def split: if_splits)
  let ?ss = "schedules_between wid t1 t2 (db w)"
  let ?ids = "map sch_ID ?ss"
  obtain u w1 where acc: "require_workspace_calendar_access wid uid w = (Inr u, w1)"
    using assms(1) t by (auto simp: list_workspace_scheduled_publications_def bindE_Inr split: if_splits)
  note acc = calendar_access_Inr [OF assms(2) acc] acc
  have "wp (bindE (select (schedules_between wid t1 t2)) (\<lambda>ss.
            bindE (select (\<lambda>d. map (schedule_project d) ss)) (\<lambda>ps.
            bindE (select (\<lambda>d. map (schedule_publication d) ss)) (\<lambda>pubs.
            let ids = map sch_ID ss in
            bindE (if ids \<noteq> [] then select (attempts_in_order (\<lambda>a. att_ScheduledPublicationID a \<in> set ids))
                   else ret []) (\<lambda>as.
            ret (map (\<lambda>(s, p, pub). scheduled_publication_from_model s p pub
                        (filter (\<lambda>a. att_ScheduledPublicationID a = sch_ID s) as))
                   (zip ss (zip ps pubs)))))))) (\<lambda>xs w'. db w' = db w \<and> (\<exists>ps pubs. length ps = length ?ss \<and> length pubs = length ?ss \<and>
      xs = map (\<lambda>(s, p, pub). scheduled_publication_from_model s p pub
        (filter (\<lambda>a. att_ScheduledPublicationID a = sch_ID s)
          (attempts_in_order (\<lambda>a. att_ScheduledPublicationID a \<in> set ?ids) (db w)))) (zip ?ss (zip ps pubs))))
      (\<lambda>_ _. True) w1" (is "wp ?m ?Q _ _")
    unfolding Let_def
    by (rule wp_bindE, rule wp_select, simp, rule wp_bindE, rule wp_select, simp, rule wp_bindE, rule wp_select, simp,
        rule wp_bindE, rule wp_If, rule wp_select, simp) (auto simp: acc(2) wp_def intro!: exI)
  moreover have "?m w1 = (Inr xs, w')"
    using assms(1) t acc(3) by (auto simp: list_workspace_scheduled_publications_def bindE_app split: if_splits)
  ultimately obtain ps pubs where d: "db w' = db w" "length ps = length ?ss" "length pubs = length ?ss"
    and xs: "xs = map (\<lambda>(s, p, pub). scheduled_publication_from_model s p pub
        (filter (\<lambda>a. att_ScheduledPublicationID a = sch_ID s)
          (attempts_in_order (\<lambda>a. att_ScheduledPublicationID a \<in> set ?ids) (db w)))) (zip ?ss (zip ps pubs))"
    by (blast dest: wp_InrD)
  have "map sd_Schedule xs = ?ss"
    unfolding xs map_map by (rule nth_equalityI) (simp_all add: d case_prod_beta scheduled_publication_from_model_def)
  moreover have "sd_Attempts x = sort_key att_AttemptNo (attempts_of (sch_ID (sd_Schedule x)) (db w))" if mem: "x \<in> set xs" for x
  proof -
    define F where "F = (\<lambda>(s, p, pub). scheduled_publication_from_model s p pub
        (filter (\<lambda>a. att_ScheduledPublicationID a = sch_ID s)
          (attempts_in_order (\<lambda>a. att_ScheduledPublicationID a \<in> set ?ids) (db w))))"
    obtain q where q: "q \<in> set (zip ?ss (zip ps pubs))" and xq: "x = F q"
      using mem unfolding xs F_def [symmetric] by auto
    obtain s p pub where s: "q = (s, p, pub)" by (cases q) auto
    then have "s \<in> set ?ss" using q by (simp add: set_zip_leftD)
    moreover have x: "x = scheduled_publication_from_model s p pub (filter (\<lambda>a. att_ScheduledPublicationID a = sch_ID s)
          (attempts_in_order (\<lambda>a. att_ScheduledPublicationID a \<in> set ?ids) (db w)))"
      using xq s by (simp add: F_def)
    ultimately have "sch_ID s \<in> set ?ids" by simp
    then have "filter (\<lambda>a. att_ScheduledPublicationID a = sch_ID s) (filter (\<lambda>a. att_ScheduledPublicationID a \<in> set ?ids) (attempts (db w)))
      = attempts_of (sch_ID s) (db w)" by (auto simp: attempts_of_def intro: filter_cong)
    with x show ?thesis by (simp add: scheduled_publication_from_model_def attempts_in_order_def filter_sort)
  qed
  ultimately show ?thesis
    by (intro exI [of _ t1] exI [of _ t2]) (simp only: t acc(1) d(1) schedules_between_def simp_thms, blast)
qed

definition calendar_db :: db where
  "calendar_db = (publish_db sample_publication)\<lparr>workspaces := [sample_workspace], members := [sample_member]\<rparr>"

theorem list_schedules_scoped_witness:
  "\<exists>x. fst (list_workspace_scheduled_publications 3 8 (Some 0) (Some 1) (start_world calendar_db)) = Inr [x]
     \<and> sd_Schedule x = sample_schedule \<and> sd_Attempts x = []"
proof -
  let ?run = "list_workspace_scheduled_publications 3 8 (Some 0) (Some 1) (start_world calendar_db)"
  have m: "find_workspace 3 calendar_db = Some sample_workspace" "find_member 3 8 calendar_db = Some sample_member"
    by (simp_all add: calendar_db_def find_workspace_def find_member_def sample_workspace_def sample_member_def)
  have o: "ws_OwnerUserID sample_workspace = 6" by (simp add: sample_workspace_def)
  have "require_workspace_calendar_access 3 8 (start_world calendar_db) = (Inr (), tick (tick (start_world calendar_db)))"
    using m o by (simp add: require_workspace_calendar_access_def require_workspace_member_def personal_workspace_id_def
        workspace_access_role_def bindE_bindE_app run_ok bindE_def tryE_def first_row_ok asks_def del: ret_app) (simp add: ret_app)
  moreover have "schedules_between 3 0 1 calendar_db = [sample_schedule]"
    by (simp add: schedules_between_def calendar_db_def publish_db_def sample_schedule_def)
  ultimately have "\<exists>xs. fst ?run = Inr xs"
    by (simp add: list_workspace_scheduled_publications_def bindE_app run_ok bindE_def select_ok Let_def)
  then obtain xs where r: "?run = (Inr xs, snd ?run)" by (metis prod.collapse)
  from list_schedules_scoped [OF r no_fault_opaque [OF start_world_no_fault]]
  have "map sd_Schedule xs = [sample_schedule]"
    "\<forall>x\<in>set xs. sd_Attempts x = sort_key att_AttemptNo (attempts_of (sch_ID (sd_Schedule x)) calendar_db)"
    by (auto simp: calendar_db_def publish_db_def sample_schedule_def)
  moreover have "attempts_of n calendar_db = []" for n
    by (simp add: attempts_of_def calendar_db_def publish_db_def empty_db_def)
  ultimately have "\<exists>x. xs = [x] \<and> sd_Schedule x = sample_schedule \<and> sd_Attempts x = []"
    by (auto simp: map_eq_Cons_conv)
  then show ?thesis using r by (metis fst_conv)
qed

end
