(* ===== verification/Go_Encoding.thy ===== *)
theory Go_Encoding
  imports Prelude
begin

text \<open>
  \<open>encoding/base64\<close>'s \<open>RawURLEncoding\<close> and the query escaping of \<open>net/url\<close>: what the program
  writes into cursors, tokens and stream URLs, and that decoding reads back what was encoded.
\<close>

section \<open>Base 64 without padding, URL alphabet\<close>

definition b64_alphabet :: string where
  "b64_alphabet = ''ABCDEFGHIJKLMNOPQRSTUVWXYZabcdefghijklmnopqrstuvwxyz0123456789-_''"

definition b64_char :: "nat \<Rightarrow> char" where
  "b64_char n = b64_alphabet ! n"

fun index_of :: "'a list \<Rightarrow> 'a \<Rightarrow> nat option" where
  "index_of [] x = None"
| "index_of (y # ys) x = (if x = y then Some 0 else map_option Suc (index_of ys x))"

definition b64_value :: "char \<Rightarrow> nat option" where
  "b64_value c = index_of b64_alphabet c"

fun b64_encode :: "string \<Rightarrow> string" where
  "b64_encode [] = []"
| "b64_encode [a] = map b64_char [byte_of a div 4, byte_of a mod 4 * 16]"
| "b64_encode [a, b] = map b64_char [byte_of a div 4, byte_of a mod 4 * 16 + byte_of b div 16, byte_of b mod 16 * 4]"
| "b64_encode (a # b # c # s) =
     map b64_char [byte_of a div 4, byte_of a mod 4 * 16 + byte_of b div 16,
       byte_of b mod 16 * 4 + byte_of c div 64, byte_of c mod 64] @ b64_encode s"

text \<open>
  Decoding skips line breaks, refuses any other character outside the alphabet and a rest of one
  character, and does not look at the unused bits of the last character.
\<close>

definition char_at :: "nat \<Rightarrow> char" where
  "char_at n = char_of (n mod 256)"

fun b64_join :: "nat list \<Rightarrow> string option" where
  "b64_join [] = Some []"
| "b64_join [x] = None"
| "b64_join [x, y] = Some [char_at (x * 4 + y div 16)]"
| "b64_join [x, y, z] = Some [char_at (x * 4 + y div 16), char_at (y * 16 + z div 4)]"
| "b64_join (x # y # z # u # vs) =
     map_option (\<lambda>s. char_at (x * 4 + y div 16) # char_at (y * 16 + z div 4) # char_at (z * 64 + u) # s) (b64_join vs)"

fun all_some :: "'a option list \<Rightarrow> 'a list option" where
  "all_some [] = Some []"
| "all_some (None # xs) = None"
| "all_some (Some x # xs) = map_option (\<lambda>ys. x # ys) (all_some xs)"

definition b64_decode :: "string \<Rightarrow> string option" where
  "b64_decode s = (case all_some (map b64_value (filter (\<lambda>c. c \<noteq> CHR 0x0A \<and> c \<noteq> CHR 0x0D) s)) of
      None \<Rightarrow> None | Some vs \<Rightarrow> b64_join vs)"

lemma index_of_nth: "distinct xs \<Longrightarrow> n < length xs \<Longrightarrow> index_of xs (xs ! n) = Some n"
proof (induction xs arbitrary: n)
  case (Cons y ys)
  then show ?case by (cases n) (auto simp: nth_mem)
qed simp

lemma b64_alphabet_ok: "distinct b64_alphabet" "length b64_alphabet = 64"
  "\<forall>c\<in>set b64_alphabet. c \<noteq> CHR 0x0A \<and> c \<noteq> CHR 0x0D"
  by (simp_all add: b64_alphabet_def)

lemma b64_value_char: "n < 64 \<Longrightarrow> b64_value (b64_char n) = Some n"
  by (simp add: b64_value_def b64_char_def index_of_nth b64_alphabet_ok)

lemma b64_char_plain: "n < 64 \<Longrightarrow> b64_char n \<noteq> CHR 0x0A \<and> b64_char n \<noteq> CHR 0x0D"
  using b64_alphabet_ok(3) by (simp add: b64_char_def b64_alphabet_ok(2))

fun sextets :: "string \<Rightarrow> nat list" where
  "sextets [] = []"
| "sextets [a] = [byte_of a div 4, byte_of a mod 4 * 16]"
| "sextets [a, b] = [byte_of a div 4, byte_of a mod 4 * 16 + byte_of b div 16, byte_of b mod 16 * 4]"
| "sextets (a # b # c # s) = [byte_of a div 4, byte_of a mod 4 * 16 + byte_of b div 16,
       byte_of b mod 16 * 4 + byte_of c div 64, byte_of c mod 64] @ sextets s"

lemma b64_encode_sextets: "b64_encode s = map b64_char (sextets s)"
  by (induction s rule: sextets.induct) simp_all

lemma byte_bound: "byte_of c < 256"
  by (simp add: byte_of_def)

lemma char_at_byte: "char_at (byte_of c) = c"
  by (simp add: char_at_def byte_of_def)

lemma two_parts:
  fixes a b c :: nat
  assumes "a < 256" "b < 256" "c < 256"
  shows "a div 4 * 4 + (a mod 4 * 16) div 16 = a"
    "a div 4 * 4 + (a mod 4 * 16 + b div 16) div 16 = a"
    "char_at ((a mod 4 * 16 + b div 16) * 16 + (b mod 16 * 4) div 4) = char_at b"
    "char_at ((a mod 4 * 16 + b div 16) * 16 + (b mod 16 * 4 + c div 64) div 4) = char_at b"
    "char_at ((b mod 16 * 4 + c div 64) * 64 + c mod 64) = char_at c"
    "a div 4 < 64" "a mod 4 * 16 + b div 16 < 64" "b mod 16 * 4 + c div 64 < 64"
proof -
  show "a div 4 * 4 + (a mod 4 * 16) div 16 = a" by simp
  have small: "b div 16 < 16" "c div 64 < 4" using assms by auto
  have "(a mod 4 * 16 + b div 16) div 16 = a mod 4"
    using small(1) div_mult_self3 [of 16 "a mod 4" "b div 16"] by (simp only: div_less)
  then show "a div 4 * 4 + (a mod 4 * 16 + b div 16) div 16 = a" by simp
  have part: "(b mod 16 * 4 + c div 64) div 4 = b mod 16"
    using small(2) div_mult_self3 [of 4 "b mod 16" "c div 64"] by (simp only: div_less)
  have sum: "(a mod 4 * 16 + b div 16) * 16 + b mod 16 = b + (a mod 4) * 256"
    using div_mult_mod_eq [of b 16] by (simp add: algebra_simps)
  show "char_at ((a mod 4 * 16 + b div 16) * 16 + (b mod 16 * 4) div 4) = char_at b"
    unfolding char_at_def using sum by simp
  show "char_at ((a mod 4 * 16 + b div 16) * 16 + (b mod 16 * 4 + c div 64) div 4) = char_at b"
    unfolding char_at_def part sum by simp
  have "(b mod 16 * 4 + c div 64) * 64 + c mod 64 = c + (b mod 16) * 256"
    using div_mult_mod_eq [of c 64] by (simp add: algebra_simps)
  then show "char_at ((b mod 16 * 4 + c div 64) * 64 + c mod 64) = char_at c"
    unfolding char_at_def by simp
  show "a div 4 < 64" using assms by auto
  have "a mod 4 < 4" "b mod 16 < 16" by simp_all
  then show "a mod 4 * 16 + b div 16 < 64" "b mod 16 * 4 + c div 64 < 64" using small by linarith+
qed

lemma b64_join_sextets: "b64_join (sextets s) = Some s"
proof (induction s rule: sextets.induct)
  case (2 a)
  then show ?case using two_parts [of "byte_of a" 0 0] byte_bound [of a] by (simp add: char_at_byte)
next
  case (3 a b)
  then show ?case using two_parts [of "byte_of a" "byte_of b" 0] byte_bound by (simp add: char_at_byte)
next
  case (4 a b c s)
  then show ?case using two_parts [of "byte_of a" "byte_of b" "byte_of c"] byte_bound by (simp add: char_at_byte)
qed simp

lemma sextets_bound: "x \<in> set (sextets s) \<Longrightarrow> x < 64"
proof (induction s rule: sextets.induct)
  case (2 a)
  then show ?case using byte_bound [of a] by auto
next
  case (3 a b)
  then show ?case using two_parts [of "byte_of a" "byte_of b" 0] byte_bound by auto
next
  case (4 a b c s)
  then show ?case using two_parts [of "byte_of a" "byte_of b" "byte_of c"] byte_bound by auto
qed simp

lemma all_some_map: "\<forall>x\<in>set xs. f x = Some (g x) \<Longrightarrow> all_some (map f xs) = Some (map g xs)"
  by (induction xs) simp_all

theorem b64_decode_encode: "b64_decode (b64_encode s) = Some s"
proof -
  have plain: "filter (\<lambda>c. c \<noteq> CHR 0x0A \<and> c \<noteq> CHR 0x0D) (b64_encode s) = b64_encode s"
    unfolding b64_encode_sextets using sextets_bound b64_char_plain by (auto simp: filter_id_conv)
  have "all_some (map b64_value (b64_encode s)) = Some (sextets s)"
    using all_some_map [of "sextets s" "b64_value \<circ> b64_char" id] sextets_bound
    by (simp add: b64_encode_sextets b64_value_char)
  then show ?thesis by (simp add: b64_decode_def plain b64_join_sextets)
qed

text \<open>No character of an encoded text is white space, so trimming leaves it alone.\<close>

lemma b64_encode_chars: "c \<in> set (b64_encode s) \<Longrightarrow> c \<in> set b64_alphabet"
  unfolding b64_encode_sextets using sextets_bound by (auto simp: b64_char_def b64_alphabet_ok intro!: nth_mem)

lemma printable_trim:
  assumes "\<forall>c\<in>set s. 33 \<le> byte_of c \<and> byte_of c < 128" shows "trim_space s = s"
proof -
  have none: "\<not> is_space_rune t" if "\<forall>c\<in>set t. 33 \<le> byte_of c \<and> byte_of c < 128" for t
    using that by (auto simp: is_space_rune_def split: list.splits)
  have "\<not> is_space_rune (take n s)" "\<not> is_space_rune (drop n s)" for n
    using assms none by (meson in_set_takeD in_set_dropD)+
  then have "lead_space s = 0" "trail_space s = 0" by (simp_all add: lead_space_def trail_space_def)
  then show ?thesis by (simp add: trim_space_def trim_left.simps trim_right.simps)
qed

lemma b64_encode_trim [simp]: "trim_space (b64_encode s) = b64_encode s"
proof (rule printable_trim)
  have "\<forall>c\<in>set b64_alphabet. 33 \<le> byte_of c \<and> byte_of c < 128"
    by (simp add: b64_alphabet_def byte_of_def)
  then show "\<forall>c\<in>set (b64_encode s). 33 \<le> byte_of c \<and> byte_of c < 128" using b64_encode_chars by blast
qed

lemma b64_encode_Nil: "b64_encode s = [] \<longleftrightarrow> s = []"
  by (cases s rule: b64_encode.cases) simp_all

section \<open>Hexadecimal\<close>

definition hex_lower :: "nat \<Rightarrow> char" where
  "hex_lower n = ''0123456789abcdef'' ! n"

text \<open>\<open>hex.EncodeToString\<close>.\<close>

definition hex_encode :: "string \<Rightarrow> string" where
  "hex_encode s = concat (map (\<lambda>c. [hex_lower (byte_of c div 16), hex_lower (byte_of c mod 16)]) s)"

section \<open>Query escaping\<close>

definition hex_upper :: "nat \<Rightarrow> char" where
  "hex_upper n = ''0123456789ABCDEF'' ! n"

definition query_plain :: "char \<Rightarrow> bool" where
  "query_plain c = ((97 \<le> byte_of c \<and> byte_of c \<le> 122) \<or> (65 \<le> byte_of c \<and> byte_of c \<le> 90) \<or>
     (48 \<le> byte_of c \<and> byte_of c \<le> 57) \<or> c \<in> set ''-_.~'')"

definition query_escape :: "string \<Rightarrow> string" where
  "query_escape s = concat (map (\<lambda>c. if query_plain c then [c] else if c = CHR '' '' then ''+''
     else [CHR ''%'', hex_upper (byte_of c div 16), hex_upper (byte_of c mod 16)]) s)"

end
