(* ===== verification/Workspace_Management.thy ===== *)
theory Workspace_Management
  imports Access_Policy Redis_Queue Go_Encoding
begin

text \<open>
  Workspaces (\<open>services/workspace/management.go\<close> and \<open>service.go\<close>): personal and shared
  workspaces, their members and their invites. Reads go to the primary (\<open>strongReadDB\<close>), which
  is the one \<open>db\<close> of the model. The dashboard caches and read models that some operations
  refresh afterwards are not part of the state. A \<open>gorm\<close> update on a loaded row also writes the
  new values into the Go value that holds the row, as \<open>gorm\<close> documents; the places where later
  code reads that value are modelled accordingly.

  The parameters of the code are collected in \<open>workspace_service\<close>: Go's Unicode tables for strings
  that are not ASCII, the collation of the database's \<open>LOWER\<close>, SHA-256 and the random source.
\<close>

record workspace_service =
  wsv_lower :: "string \<Rightarrow> string"
  wsv_fold :: "string \<Rightarrow> string \<Rightarrow> bool"
  wsv_sql_lower :: "string \<Rightarrow> string"
  wsv_sha256 :: "string \<Rightarrow> string"
  wsv_random :: "nat \<Rightarrow> err + string"

section \<open>Requests and answers\<close>

record workspace_dto =
  wd_ID :: uuid
  wd_OwnerUserID :: uuid
  wd_Name :: string
  wd_Slug :: string
  wd_Status :: workspace_status
  wd_Role :: string
  wd_CreatedAt :: time
  wd_UpdatedAt :: time

record member_dto =
  md_WorkspaceID :: uuid
  md_UserID :: uuid
  md_Username :: string
  md_Email :: string
  md_Role :: string
  md_InvitedBy :: "uuid option"
  md_JoinedAt :: "time option"
  md_CreatedAt :: time

record invite_dto =
  id_ID :: uuid
  id_WorkspaceID :: uuid
  id_Email :: string
  id_Role :: string
  id_InvitedBy :: uuid
  id_AcceptedBy :: "uuid option"
  id_Status :: invite_status
  id_ExpiresAt :: time
  id_AcceptedAt :: "time option"
  id_RevokedAt :: "time option"
  id_CreatedAt :: time
  id_UpdatedAt :: time

record workspace_activity_dto =
  ad_ID :: uuid
  ad_WorkspaceID :: uuid
  ad_ActorUserID :: uuid
  ad_ActorUsername :: string
  ad_ActorEmail :: string
  ad_TargetUserID :: "uuid option"
  ad_TargetUsername :: string
  ad_TargetEmail :: string
  ad_EventType :: workspace_activity_type
  ad_Metadata :: metadata
  ad_CreatedAt :: time

record add_member_request =
  amr_UserID :: uuid
  amr_Email :: string
  amr_Role :: string

record create_invite_request =
  cir_Email :: string
  cir_Role :: string
  cir_ExpiresAt :: "time option"

definition workspace_from_model :: "workspace \<Rightarrow> string \<Rightarrow> workspace_dto" where
  "workspace_from_model ws role = \<lparr>wd_ID = ws_ID ws, wd_OwnerUserID = ws_OwnerUserID ws, wd_Name = ws_Name ws,
     wd_Slug = ws_Slug ws, wd_Status = ws_Status ws, wd_Role = role, wd_CreatedAt = ws_CreatedAt ws,
     wd_UpdatedAt = ws_UpdatedAt ws\<rparr>"

text \<open>The preloaded user of a row; a missing user is Go's zero value.\<close>

definition find_user :: "uuid \<Rightarrow> db \<Rightarrow> user option" where
  "find_user uid d = find (\<lambda>u. user_ID u = uid) (users d)"

definition workspace_member_from_model :: "workspace_member \<Rightarrow> user option \<Rightarrow> member_dto" where
  "workspace_member_from_model m u = \<lparr>md_WorkspaceID = mem_WorkspaceID m, md_UserID = mem_UserID m,
     md_Username = (case u of None \<Rightarrow> '''' | Some u \<Rightarrow> user_Username u),
     md_Email = (case u of None \<Rightarrow> '''' | Some u \<Rightarrow> user_Email u), md_Role = mem_Role m,
     md_InvitedBy = mem_InvitedBy m, md_JoinedAt = mem_JoinedAt m, md_CreatedAt = mem_CreatedAt m\<rparr>"

definition workspace_invite_from_model :: "workspace_invite \<Rightarrow> invite_dto" where
  "workspace_invite_from_model i = \<lparr>id_ID = inv_ID i, id_WorkspaceID = inv_WorkspaceID i, id_Email = inv_Email i,
     id_Role = inv_Role i, id_InvitedBy = inv_InvitedBy i, id_AcceptedBy = inv_AcceptedBy i,
     id_Status = inv_Status i, id_ExpiresAt = inv_ExpiresAt i, id_AcceptedAt = inv_AcceptedAt i,
     id_RevokedAt = inv_RevokedAt i, id_CreatedAt = inv_CreatedAt i, id_UpdatedAt = inv_UpdatedAt i\<rparr>"

definition workspace_activity_from_model ::
  "workspace_activity \<Rightarrow> user option \<Rightarrow> user option \<Rightarrow> workspace_activity_dto" where
  "workspace_activity_from_model a actor target = \<lparr>ad_ID = wact_ID a, ad_WorkspaceID = wact_WorkspaceID a,
     ad_ActorUserID = wact_ActorUserID a,
     ad_ActorUsername = (case actor of None \<Rightarrow> '''' | Some u \<Rightarrow> user_Username u),
     ad_ActorEmail = (case actor of None \<Rightarrow> '''' | Some u \<Rightarrow> user_Email u),
     ad_TargetUserID = wact_TargetUserID a,
     ad_TargetUsername = (case target of None \<Rightarrow> '''' | Some u \<Rightarrow> user_Username u),
     ad_TargetEmail = (case target of None \<Rightarrow> '''' | Some u \<Rightarrow> user_Email u),
     ad_EventType = wact_EventType a, ad_Metadata = wact_Metadata a, ad_CreatedAt = wact_CreatedAt a\<rparr>"

section \<open>Normalisation\<close>

definition normalize_workspace_name :: "string \<Rightarrow> err + string" where
  "normalize_workspace_name name =
     (if trim_space name = '''' then Inl ErrInvalidWorkspace else Inr (trim_space name))"

definition normalize_workspace_slug :: "string \<Rightarrow> string" where
  "normalize_workspace_slug slug = trim_space slug"

definition normalize_workspace_member_role :: "string \<Rightarrow> err + string" where
  "normalize_workspace_member_role role =
     (let role = trim_space role
      in if role \<in> {WorkspaceRoleAdmin, WorkspaceRoleMember, WorkspaceRoleViewer} then Inr role
         else Inl ErrInvalidWorkspaceMember)"

definition default_workspace_activity_limit :: int where "default_workspace_activity_limit = 20"
definition max_workspace_activity_limit :: int where "max_workspace_activity_limit = 100"

definition normalize_workspace_activity_limit :: "int \<Rightarrow> int" where
  "normalize_workspace_activity_limit limit =
     (if limit < 1 then default_workspace_activity_limit
      else if limit > max_workspace_activity_limit then max_workspace_activity_limit else limit)"

text \<open>\<open>strings.EqualFold\<close>: for ASCII strings equality of the lower-case forms.\<close>

definition equal_fold :: "workspace_service \<Rightarrow> string \<Rightarrow> string \<Rightarrow> bool" where
  "equal_fold s a b = (if is_ascii a \<and> is_ascii b then map lower_byte a = map lower_byte b else wsv_fold s a b)"

section \<open>Invite tokens\<close>

definition hash_workspace_invite_token :: "workspace_service \<Rightarrow> string \<Rightarrow> string" where
  "hash_workspace_invite_token s token =
     (let token = trim_space token in if token = '''' then '''' else b64_encode (wsv_sha256 s token))"

definition new_workspace_invite_token :: "workspace_service \<Rightarrow> (string \<times> string) mpp" where
  "new_workspace_invite_token s w = (case wsv_random s (calls w) of
       Inl e \<Rightarrow> (Inl (ErrWrap ''create workspace invite token'' e), tick w)
     | Inr raw \<Rightarrow> let token = b64_encode raw
                  in (Inr (token, hash_workspace_invite_token s token), tick w))"

section \<open>Statements\<close>

definition insert_workspace :: "workspace \<Rightarrow> workspace mpp" where
  "insert_workspace ws =
     bindE uuid_new (\<lambda>fresh. bindE now_utc (\<lambda>now.
     let ws = (workspace_before_create fresh ws)\<lparr>ws_CreatedAt := now, ws_UpdatedAt := now\<rparr>
     in bindE (create_row workspaces (\<lambda>rs d. d\<lparr>workspaces := rs\<rparr>) (\<lambda>r x. ws_ID x = ws_ID r) ws) (\<lambda>_. ret ws)))"

definition same_member :: "workspace_member \<Rightarrow> workspace_member \<Rightarrow> bool" where
  "same_member m x = (mem_WorkspaceID x = mem_WorkspaceID m \<and> mem_UserID x = mem_UserID m)"

definition insert_member :: "workspace_member \<Rightarrow> unit mpp" where
  "insert_member m = bindE now_utc (\<lambda>now.
     create_row members (\<lambda>rs d. d\<lparr>members := rs\<rparr>) same_member (m\<lparr>mem_CreatedAt := now\<rparr>))"

text \<open>\<open>ON CONFLICT ... DO NOTHING\<close> and \<open>ON CONFLICT ... DO UPDATE\<close>.\<close>

definition insert_workspace_or_nothing :: "workspace \<Rightarrow> unit mpp" where
  "insert_workspace_or_nothing ws =
     bindE uuid_new (\<lambda>fresh. bindE now_utc (\<lambda>now.
     let ws = (workspace_before_create fresh ws)\<lparr>ws_CreatedAt := now, ws_UpdatedAt := now\<rparr>
     in bindE (exec (\<lambda>d. if \<exists>x\<in>set (workspaces d). ws_ID x = ws_ID ws then (0, d)
                          else (1, d\<lparr>workspaces := workspaces d @ [ws]\<rparr>))) (\<lambda>_. ret ())))"

definition insert_member_or_nothing :: "workspace_member \<Rightarrow> unit mpp" where
  "insert_member_or_nothing m = bindE now_utc (\<lambda>now.
     bindE (exec (\<lambda>d. if \<exists>x\<in>set (members d). same_member m x then (0, d)
                       else (1, d\<lparr>members := members d @ [m\<lparr>mem_CreatedAt := now\<rparr>]\<rparr>))) (\<lambda>_. ret ()))"

definition assign_member :: "workspace_member \<Rightarrow> workspace_member \<Rightarrow> workspace_member" where
  "assign_member m x = x\<lparr>mem_Role := mem_Role m, mem_InvitedBy := mem_InvitedBy m, mem_JoinedAt := mem_JoinedAt m\<rparr>"

definition upsert_member_rows :: "workspace_member \<Rightarrow> workspace_member list \<Rightarrow> workspace_member list" where
  "upsert_member_rows m rs = (if \<exists>x\<in>set rs. same_member m x then update_rows (same_member m) (assign_member m) rs
     else rs @ [m])"

definition upsert_member :: "workspace_member \<Rightarrow> unit mpp" where
  "upsert_member m = bindE now_utc (\<lambda>now.
     bindE (exec (\<lambda>d. (1, d\<lparr>members := upsert_member_rows (m\<lparr>mem_CreatedAt := now\<rparr>) (members d)\<rparr>))) (\<lambda>_. ret ()))"

definition update_workspaces :: "(workspace \<Rightarrow> bool) \<Rightarrow> (workspace \<Rightarrow> workspace) \<Rightarrow> nat mpp" where
  "update_workspaces p f = exec (\<lambda>d. (count_rows p (workspaces d),
     d\<lparr>workspaces := update_rows p f (workspaces d)\<rparr>))"

definition update_members :: "(workspace_member \<Rightarrow> bool) \<Rightarrow> (workspace_member \<Rightarrow> workspace_member) \<Rightarrow> nat mpp" where
  "update_members p f = exec (\<lambda>d. (count_rows p (members d), d\<lparr>members := update_rows p f (members d)\<rparr>))"

definition update_invites :: "(workspace_invite \<Rightarrow> bool) \<Rightarrow> (workspace_invite \<Rightarrow> workspace_invite) \<Rightarrow> nat mpp" where
  "update_invites p f = exec (\<lambda>d. (count_rows p (invites d), d\<lparr>invites := update_rows p f (invites d)\<rparr>))"

definition delete_members :: "(workspace_member \<Rightarrow> bool) \<Rightarrow> nat mpp" where
  "delete_members p = exec (\<lambda>d. (count_rows p (members d), d\<lparr>members := filter (\<lambda>m. \<not> p m) (members d)\<rparr>))"

definition record_workspace_activity ::
  "uuid \<Rightarrow> uuid \<Rightarrow> workspace_activity_type \<Rightarrow> uuid option \<Rightarrow> metadata \<Rightarrow> unit mpp" where
  "record_workspace_activity workspaceID actorUserID eventType targetUserID metadata =
     bindE uuid_new (\<lambda>fresh. bindE now_utc (\<lambda>now.
     create_row workspace_activities (\<lambda>rs d. d\<lparr>workspace_activities := rs\<rparr>)
       (\<lambda>r x. wact_ID x = wact_ID r \<and> wact_CreatedAt x = wact_CreatedAt r)
       (workspace_activity_before_create fresh now
         \<lparr>wact_ID = uuid_nil, wact_WorkspaceID = workspaceID, wact_ActorUserID = actorUserID,
          wact_TargetUserID = targetUserID, wact_EventType = eventType, wact_Metadata = metadata,
          wact_CreatedAt = 0\<rparr>)))"


section \<open>Access\<close>

definition service_access_role :: "uuid \<Rightarrow> uuid \<Rightarrow> string mpp" where
  "service_access_role workspaceID userID =
     (if workspaceID = uuid_nil \<or> userID = uuid_nil then throw ErrInvalidWorkspace
      else workspace_access_role workspaceID userID)"

definition require_permission :: "uuid \<Rightarrow> uuid \<Rightarrow> permission \<Rightarrow> string mpp" where
  "require_permission workspaceID userID p =
     (if workspaceID = uuid_nil \<or> userID = uuid_nil then throw ErrInvalidWorkspace
      else require_workspace_permission workspaceID userID p)"

definition require_workspace_manager :: "uuid \<Rightarrow> uuid \<Rightarrow> string mpp" where
  "require_workspace_manager workspaceID userID = require_permission workspaceID userID PermissionManageMembers"

definition get_workspace :: "uuid \<Rightarrow> uuid \<Rightarrow> workspace_dto mpp" where
  "get_workspace workspaceID actorUserID =
     bindE (service_access_role workspaceID actorUserID) (\<lambda>role.
     bindE (first_row (find_workspace workspaceID)) (\<lambda>ws. ret (workspace_from_model ws role)))"

definition get_workspace_member :: "uuid \<Rightarrow> uuid \<Rightarrow> member_dto mpp" where
  "get_workspace_member workspaceID userID =
     bindE (first_row (find_member workspaceID userID)) (\<lambda>m.
     bindE (select (find_user (mem_UserID m))) (\<lambda>u. ret (workspace_member_from_model m u)))"

section \<open>Workspaces\<close>

definition personal_workspace_slug :: "uuid \<Rightarrow> string" where
  "personal_workspace_slug userID = ''personal-'' @ uuid_text userID"

definition ensure_personal_workspace_with_db :: "uuid \<Rightarrow> unit mpp" where
  "ensure_personal_workspace_with_db ownerUserID =
     bindE (asks (\<lambda>w. personal_workspace_id w ownerUserID)) (\<lambda>workspaceID.
     bindE (insert_workspace_or_nothing \<lparr>ws_ID = workspaceID, ws_OwnerUserID = ownerUserID,
       ws_Name = ''Personal'', ws_Slug = personal_workspace_slug ownerUserID,
       ws_Status = WorkspaceStatusActive, ws_CreatedAt = 0, ws_UpdatedAt = 0, ws_Deleted = False\<rparr>) (\<lambda>_.
     bindE now_utc (\<lambda>now.
     insert_member_or_nothing \<lparr>mem_WorkspaceID = workspaceID, mem_UserID = ownerUserID,
       mem_Role = WorkspaceRoleOwner, mem_InvitedBy = None, mem_JoinedAt = Some now, mem_CreatedAt = 0\<rparr>)))"

definition unassigned_project :: "uuid \<Rightarrow> project \<Rightarrow> bool" where
  "unassigned_project userID p =
     (proj_UserID p = userID \<and> (proj_WorkspaceID p = None \<or> proj_WorkspaceID p = Some uuid_nil))"

definition ensure_personal_workspace :: "uuid \<Rightarrow> workspace_dto mpp" where
  "ensure_personal_workspace userID =
     (if userID = uuid_nil then throw ErrInvalidWorkspace
      else bindE (asks (\<lambda>w. personal_workspace_id w userID)) (\<lambda>workspaceID.
        bindE (transaction (
          bindE (ensure_personal_workspace_with_db userID) (\<lambda>_.
          bindE (exec (\<lambda>d. (count_rows (unassigned_project userID) (projects d),
                 d\<lparr>projects := update_rows (unassigned_project userID)
                     (\<lambda>p. p\<lparr>proj_WorkspaceID := Some workspaceID\<rparr>) (projects d)\<rparr>))) (\<lambda>_. ret ())))) (\<lambda>_.
        get_workspace workspaceID userID)))"

text \<open>The roles of a user in loaded workspaces: a Go map filled in two loops.\<close>

definition workspace_roles_for_user :: "workspace list \<Rightarrow> uuid \<Rightarrow> (uuid \<Rightarrow> string option) mpp" where
  "workspace_roles_for_user wss userID =
     (let roles = foldl (\<lambda>m ws. m(ws_ID ws \<mapsto> WorkspaceRoleOwner)) Map.empty
                    (filter (\<lambda>ws. ws_OwnerUserID ws = userID) wss);
          ids = map ws_ID (filter (\<lambda>ws. ws_OwnerUserID ws \<noteq> userID) wss)
      in if ids = [] then ret roles
         else bindE (select (\<lambda>d. filter (\<lambda>m. mem_UserID m = userID \<and> mem_WorkspaceID m \<in> set ids) (members d))) (\<lambda>ms.
           ret (foldl (\<lambda>m r. m(mem_WorkspaceID r \<mapsto> mem_Role r)) roles ms)))"

definition visible_workspaces :: "uuid \<Rightarrow> db \<Rightarrow> workspace list" where
  "visible_workspaces userID d =
     sort_key (\<lambda>ws. - ws_UpdatedAt ws) (sort_key ws_ID (filter (\<lambda>ws. \<not> ws_Deleted ws \<and>
       (ws_OwnerUserID ws = userID \<or>
        ws_ID ws \<in> set (map mem_WorkspaceID (filter (\<lambda>m. mem_UserID m = userID) (members d))))) (workspaces d)))"

definition list_workspaces :: "uuid \<Rightarrow> workspace_dto list mpp" where
  "list_workspaces userID =
     (if userID = uuid_nil then throw ErrInvalidWorkspace
      else bindE (ensure_personal_workspace userID) (\<lambda>_.
        bindE (select (visible_workspaces userID)) (\<lambda>wss.
        bindE (workspace_roles_for_user wss userID) (\<lambda>roles.
        ret (map (\<lambda>ws. workspace_from_model ws (case roles (ws_ID ws) of None \<Rightarrow> '''' | Some r \<Rightarrow> r)) wss)))))"

text \<open>The project list and the creation of a project belong to the project service: parameters.\<close>

definition list_workspace_projects_cursor ::
  "bool \<Rightarrow> (uuid \<Rightarrow> uuid \<Rightarrow> 'page mpp) \<Rightarrow> (uuid \<Rightarrow> uuid \<Rightarrow> 'page mpp) \<Rightarrow> uuid \<Rightarrow> uuid \<Rightarrow> 'page mpp" where
  "list_workspace_projects_cursor cache cached computed workspaceID actorUserID =
     bindE (service_access_role workspaceID actorUserID) (\<lambda>_.
     if cache then cached workspaceID actorUserID else computed workspaceID actorUserID)"

definition create_workspace_project ::
  "(uuid \<Rightarrow> uuid option \<Rightarrow> 'item mpp) \<Rightarrow> uuid \<Rightarrow> uuid \<Rightarrow> 'item mpp" where
  "create_workspace_project create workspaceID actorUserID =
     bindE (require_permission workspaceID actorUserID PermissionProjectCreate) (\<lambda>_.
     create actorUserID (Some workspaceID))"

definition create_workspace :: "uuid \<Rightarrow> string \<Rightarrow> string \<Rightarrow> workspace_dto mpp" where
  "create_workspace actorUserID reqName reqSlug =
     (if actorUserID = uuid_nil then throw ErrInvalidWorkspace
      else bindE (liftS (normalize_workspace_name reqName)) (\<lambda>name.
        bindE (transaction (
          bindE (insert_workspace \<lparr>ws_ID = uuid_nil, ws_OwnerUserID = actorUserID, ws_Name = name,
             ws_Slug = normalize_workspace_slug reqSlug, ws_Status = WorkspaceStatusActive,
             ws_CreatedAt = 0, ws_UpdatedAt = 0, ws_Deleted = False\<rparr>) (\<lambda>ws.
          bindE now_utc (\<lambda>now.
          bindE (insert_member \<lparr>mem_WorkspaceID = ws_ID ws, mem_UserID = actorUserID,
             mem_Role = WorkspaceRoleOwner, mem_InvitedBy = None, mem_JoinedAt = Some now, mem_CreatedAt = 0\<rparr>) (\<lambda>_.
          bindE (record_workspace_activity (ws_ID ws) actorUserID WorkspaceActivityWorkspaceCreated None
             [(''name'', ws_Name ws), (''slug'', ws_Slug ws)]) (\<lambda>_. ret ws)))))) (\<lambda>ws.
        ret (workspace_from_model ws WorkspaceRoleOwner))))"

text \<open>
  After \<open>tx.Model(&workspace).Updates(updates)\<close> the Go value \<open>workspace\<close> holds the new name and
  slug, and the metadata of the activity is read from it.
\<close>

definition update_workspace :: "uuid \<Rightarrow> uuid \<Rightarrow> string \<Rightarrow> string \<Rightarrow> workspace_dto mpp" where
  "update_workspace workspaceID actorUserID reqName reqSlug =
     bindE (require_workspace_manager workspaceID actorUserID) (\<lambda>_.
     bindE (liftS (normalize_workspace_name reqName)) (\<lambda>name.
     let nextSlug = normalize_workspace_slug reqSlug in
     bindE (transaction (
       bindE (first_row (find_workspace workspaceID)) (\<lambda>ws.
       if ws_Name ws = name \<and> ws_Slug ws = nextSlug then ret ()
       else bindE now_utc (\<lambda>now.
         bindE (update_workspaces (\<lambda>x. ws_ID x = ws_ID ws \<and> \<not> ws_Deleted x)
            (\<lambda>x. x\<lparr>ws_Name := name, ws_Slug := nextSlug, ws_UpdatedAt := now\<rparr>)) (\<lambda>_.
         let ws = ws\<lparr>ws_Name := name, ws_Slug := nextSlug, ws_UpdatedAt := now\<rparr>
         in record_workspace_activity workspaceID actorUserID WorkspaceActivityWorkspaceUpdated None
              [(''name'', name), (''previous_name'', ws_Name ws), (''previous_slug'', ws_Slug ws), (''slug'', nextSlug)]))))) (\<lambda>_.
     get_workspace workspaceID actorUserID)))"

section \<open>Members\<close>

definition role_rank :: "string \<Rightarrow> nat" where
  "role_rank role = (if role = WorkspaceRoleOwner then 0 else if role = WorkspaceRoleAdmin then 1
     else if role = WorkspaceRoleMember then 2 else 3)"

definition list_workspace_members :: "uuid \<Rightarrow> uuid \<Rightarrow> member_dto list mpp" where
  "list_workspace_members workspaceID actorUserID =
     bindE (require_workspace_manager workspaceID actorUserID) (\<lambda>_.
     bindE (select (\<lambda>d. sort_key mem_CreatedAt (sort_key (role_rank \<circ> mem_Role) (sort_key mem_UserID
       (filter (\<lambda>m. mem_WorkspaceID m = workspaceID) (members d)))))) (\<lambda>ms.
     bindE (select (\<lambda>d. map (\<lambda>m. find_user (mem_UserID m) d) ms)) (\<lambda>us.
     ret (map (\<lambda>(m, u). workspace_member_from_model m u) (zip ms us)))))"

definition list_workspace_activities :: "uuid \<Rightarrow> uuid \<Rightarrow> int \<Rightarrow> workspace_activity_dto list mpp" where
  "list_workspace_activities workspaceID actorUserID limit =
     bindE (require_workspace_manager workspaceID actorUserID) (\<lambda>_.
     bindE (select (\<lambda>d. take (nat (normalize_workspace_activity_limit limit))
       (sort_key (\<lambda>a. - wact_CreatedAt a) (sort_key (\<lambda>a. - int (wact_ID a))
         (filter (\<lambda>a. wact_WorkspaceID a = workspaceID) (workspace_activities d)))))) (\<lambda>as.
     bindE (select (\<lambda>d. map (\<lambda>a. find_user (wact_ActorUserID a) d) as)) (\<lambda>actors.
     bindE (select (\<lambda>d. map (\<lambda>a. Option.bind (wact_TargetUserID a) (\<lambda>t. find_user t d)) as)) (\<lambda>targets.
     ret (map (\<lambda>(a, actor, target). workspace_activity_from_model a actor target) (zip as (zip actors targets)))))))"

definition resolve_workspace_member_user :: "workspace_service \<Rightarrow> add_member_request \<Rightarrow> user mpp" where
  "resolve_workspace_member_user s req =
     (if amr_UserID req \<noteq> uuid_nil then first_row (find_user (amr_UserID req))
      else let email = trim_space (amr_Email req)
        in if email = '''' then throw ErrInvalidWorkspaceMember
           else first_row (\<lambda>d. find (\<lambda>u. wsv_sql_lower s (user_Email u) = wsv_sql_lower s email)
                  (sort_key user_ID (users d))))"

definition add_workspace_member ::
  "workspace_service \<Rightarrow> uuid \<Rightarrow> uuid \<Rightarrow> add_member_request \<Rightarrow> member_dto mpp" where
  "add_workspace_member s workspaceID actorUserID req =
     bindE (require_workspace_manager workspaceID actorUserID) (\<lambda>_.
     bindE (liftS (normalize_workspace_member_role (amr_Role req))) (\<lambda>role.
     bindE (resolve_workspace_member_user s req) (\<lambda>user.
     bindE (first_row (find_workspace workspaceID)) (\<lambda>ws.
     if user_ID user = ws_OwnerUserID ws then throw ErrInvalidWorkspaceMember
     else bindE now_utc (\<lambda>now.
       bindE (transaction (
         bindE (tryE (first_row (find_member workspaceID (user_ID user)))) (\<lambda>r.
         bindE (case r of
             Inl e \<Rightarrow> if err_is e ErrRecordNotFound
                      then ret (Some (WorkspaceActivityMemberAdded, [(''role'', role)])) else throw e
           | Inr existing \<Rightarrow> if mem_Role existing = role then ret None
                      else ret (Some (WorkspaceActivityMemberRoleChanged,
                             [(''previous_role'', mem_Role existing), (''role'', role)]))) (\<lambda>activity.
         bindE (upsert_member \<lparr>mem_WorkspaceID = workspaceID, mem_UserID = user_ID user, mem_Role = role,
            mem_InvitedBy = Some actorUserID, mem_JoinedAt = Some now, mem_CreatedAt = 0\<rparr>) (\<lambda>_.
         case activity of None \<Rightarrow> ret ()
         | Some (eventType, metadata) \<Rightarrow>
             record_workspace_activity workspaceID actorUserID eventType (Some (user_ID user)) metadata))))) (\<lambda>_.
       get_workspace_member workspaceID (user_ID user)))))))"

text \<open>
  After \<open>tx.Model(&member).Update("role", role)\<close> the Go value \<open>member\<close> holds the new role, and the
  metadata's \<open>previous_role\<close> is read from it.
\<close>

definition update_workspace_member :: "uuid \<Rightarrow> uuid \<Rightarrow> uuid \<Rightarrow> string \<Rightarrow> member_dto mpp" where
  "update_workspace_member workspaceID actorUserID targetUserID reqRole =
     bindE (require_workspace_manager workspaceID actorUserID) (\<lambda>_.
     if targetUserID = uuid_nil then throw ErrInvalidWorkspaceMember
     else bindE (liftS (normalize_workspace_member_role reqRole)) (\<lambda>role.
       bindE (first_row (find_workspace workspaceID)) (\<lambda>ws.
       if targetUserID = ws_OwnerUserID ws then throw ErrInvalidWorkspaceMember
       else bindE (first_row (find_member workspaceID targetUserID)) (\<lambda>member.
         if mem_Role member = role then get_workspace_member workspaceID targetUserID
         else bindE (transaction (
             bindE (update_members (same_member member) (\<lambda>m. m\<lparr>mem_Role := role\<rparr>)) (\<lambda>_.
             let member = member\<lparr>mem_Role := role\<rparr>
             in record_workspace_activity workspaceID actorUserID WorkspaceActivityMemberRoleChanged (Some targetUserID)
                  [(''previous_role'', mem_Role member), (''role'', role)]))) (\<lambda>_.
           get_workspace_member workspaceID targetUserID)))))"

definition remove_workspace_member :: "uuid \<Rightarrow> uuid \<Rightarrow> uuid \<Rightarrow> unit mpp" where
  "remove_workspace_member workspaceID actorUserID targetUserID =
     bindE (require_workspace_manager workspaceID actorUserID) (\<lambda>_.
     if targetUserID = uuid_nil then throw ErrInvalidWorkspaceMember
     else bindE (first_row (find_workspace workspaceID)) (\<lambda>ws.
       if targetUserID = ws_OwnerUserID ws then throw ErrInvalidWorkspaceMember
       else transaction (
         bindE (first_row (find_member workspaceID targetUserID)) (\<lambda>member.
         bindE (delete_members (\<lambda>m. mem_WorkspaceID m = workspaceID \<and> mem_UserID m = targetUserID)) (\<lambda>n.
         if n = 0 then throw ErrRecordNotFound
         else record_workspace_activity workspaceID actorUserID WorkspaceActivityMemberRemoved (Some targetUserID)
                [(''previous_role'', mem_Role member)])))))"

section \<open>Invites\<close>

definition insert_invite :: "workspace_invite \<Rightarrow> workspace_invite mpp" where
  "insert_invite i =
     bindE uuid_new (\<lambda>fresh. bindE now_utc (\<lambda>now.
     let i = (workspace_invite_before_create fresh i)\<lparr>inv_CreatedAt := now, inv_UpdatedAt := now\<rparr>
     in bindE (create_row invites (\<lambda>rs d. d\<lparr>invites := rs\<rparr>)
                 (\<lambda>r x. inv_ID x = inv_ID r \<or> inv_TokenHash x = inv_TokenHash r) i) (\<lambda>_. ret i)))"

definition create_workspace_invite ::
  "workspace_service \<Rightarrow> uuid \<Rightarrow> uuid \<Rightarrow> create_invite_request \<Rightarrow> (invite_dto \<times> string) mpp" where
  "create_workspace_invite s workspaceID actorUserID req =
     bindE (require_permission workspaceID actorUserID PermissionManageMembers) (\<lambda>_.
     bindE (liftS (normalize_workspace_member_role (cir_Role req))) (\<lambda>role.
     let email = to_lower (wsv_lower s) (trim_space (cir_Email req)) in
     if email = '''' \<or> \<not> contains email ''@'' then throw ErrInvalidWorkspaceInvite
     else bindE now_utc (\<lambda>now.
       let expiresAt = (case cir_ExpiresAt req of None \<Rightarrow> now + 7 * 24 * hour | Some t \<Rightarrow> t) in
       bindE now_utc (\<lambda>now.
       if \<not> expiresAt > now then throw ErrInvalidWorkspaceInvite
       else bindE (new_workspace_invite_token s) (\<lambda>(token, tokenHash).
         bindE (transaction (
           bindE (insert_invite \<lparr>inv_ID = uuid_nil, inv_WorkspaceID = workspaceID, inv_Email = email,
              inv_Role = role, inv_InvitedBy = actorUserID, inv_AcceptedBy = None,
              inv_Status = WorkspaceInviteStatusPending, inv_TokenHash = tokenHash, inv_ExpiresAt = expiresAt,
              inv_AcceptedAt = None, inv_RevokedAt = None, inv_CreatedAt = 0, inv_UpdatedAt = 0\<rparr>) (\<lambda>invite.
           bindE (record_workspace_activity workspaceID actorUserID WorkspaceActivityInviteCreated None
              [(''email'', email), (''role'', role)]) (\<lambda>_. ret invite)))) (\<lambda>invite.
         ret (workspace_invite_from_model invite, token)))))))"

definition expire_workspace_invites :: "uuid \<Rightarrow> unit mpp" where
  "expire_workspace_invites workspaceID = bindE now_utc (\<lambda>now.
     bindE (update_invites (\<lambda>i. inv_WorkspaceID i = workspaceID \<and> inv_Status i = WorkspaceInviteStatusPending
              \<and> inv_ExpiresAt i \<le> now)
       (\<lambda>i. i\<lparr>inv_Status := WorkspaceInviteStatusExpired, inv_UpdatedAt := now\<rparr>)) (\<lambda>_. ret ()))"

definition list_workspace_invites :: "uuid \<Rightarrow> uuid \<Rightarrow> invite_dto list mpp" where
  "list_workspace_invites workspaceID actorUserID =
     bindE (require_permission workspaceID actorUserID PermissionManageMembers) (\<lambda>_.
     bindE (expire_workspace_invites workspaceID) (\<lambda>_.
     bindE (select (\<lambda>d. sort_key (\<lambda>i. - inv_CreatedAt i)
       (filter (\<lambda>i. inv_WorkspaceID i = workspaceID) (invites d)))) (\<lambda>is.
     ret (map workspace_invite_from_model is))))"

text \<open>
  The transaction of \<open>AcceptWorkspaceInvite\<close>; it returns the workspace id of the Go variable
  \<open>member\<close>, which stays the zero value when the invite has expired.
\<close>

definition accept_invite_tx :: "workspace_service \<Rightarrow> uuid \<Rightarrow> string \<Rightarrow> uuid mpp" where
  "accept_invite_tx s actorUserID tokenHash =
     bindE (first_row (\<lambda>d. find (\<lambda>i. inv_TokenHash i = tokenHash) (invites d))) (\<lambda>invite.
     if inv_Status invite \<noteq> WorkspaceInviteStatusPending then throw ErrInvalidWorkspaceInvite
     else bindE now_utc (\<lambda>now.
       if \<not> inv_ExpiresAt invite > now
       then bindE (update_invites (\<lambda>i. inv_ID i = inv_ID invite)
              (\<lambda>i. i\<lparr>inv_Status := WorkspaceInviteStatusExpired, inv_UpdatedAt := now\<rparr>)) (\<lambda>_. ret uuid_nil)
       else bindE (first_row (find_user actorUserID)) (\<lambda>user.
         if \<not> equal_fold s (user_Email user) (inv_Email invite) then throw ErrForbidden
         else bindE (upsert_member \<lparr>mem_WorkspaceID = inv_WorkspaceID invite, mem_UserID = actorUserID,
              mem_Role = inv_Role invite, mem_InvitedBy = Some (inv_InvitedBy invite),
              mem_JoinedAt = Some now, mem_CreatedAt = 0\<rparr>) (\<lambda>_.
           bindE (update_invites (\<lambda>i. inv_ID i = inv_ID invite)
              (\<lambda>i. i\<lparr>inv_AcceptedBy := Some actorUserID, inv_AcceptedAt := Some now,
                     inv_Status := WorkspaceInviteStatusAccepted, inv_UpdatedAt := now\<rparr>)) (\<lambda>_.
           bindE (record_workspace_activity (inv_WorkspaceID invite) actorUserID WorkspaceActivityInviteAccepted
              (Some actorUserID) [(''email'', inv_Email invite), (''role'', inv_Role invite)]) (\<lambda>_.
           ret (inv_WorkspaceID invite)))))))"

definition accept_workspace_invite :: "workspace_service \<Rightarrow> uuid \<Rightarrow> string \<Rightarrow> member_dto mpp" where
  "accept_workspace_invite s actorUserID token =
     (if actorUserID = uuid_nil then throw ErrInvalidWorkspaceInvite
      else let tokenHash = hash_workspace_invite_token s (trim_space token)
        in if tokenHash = '''' then throw ErrInvalidWorkspaceInvite
           else bindE (transaction (accept_invite_tx s actorUserID tokenHash)) (\<lambda>workspaceID.
             get_workspace_member workspaceID actorUserID))"

definition revoke_workspace_invite :: "uuid \<Rightarrow> uuid \<Rightarrow> uuid \<Rightarrow> unit mpp" where
  "revoke_workspace_invite workspaceID actorUserID inviteID =
     bindE (require_permission workspaceID actorUserID PermissionManageMembers) (\<lambda>_.
     if inviteID = uuid_nil then throw ErrInvalidWorkspaceInvite
     else transaction (
       bindE (first_row (\<lambda>d. find (\<lambda>i. inv_ID i = inviteID \<and> inv_WorkspaceID i = workspaceID) (invites d))) (\<lambda>invite.
       if inv_Status invite \<noteq> WorkspaceInviteStatusPending then throw ErrInvalidWorkspaceInvite
       else bindE now_utc (\<lambda>now.
         bindE (update_invites (\<lambda>i. inv_ID i = inv_ID invite)
            (\<lambda>i. i\<lparr>inv_Status := WorkspaceInviteStatusRevoked, inv_RevokedAt := Some now, inv_UpdatedAt := now\<rparr>)) (\<lambda>_.
         record_workspace_activity workspaceID actorUserID WorkspaceActivityInviteRevoked None
            [(''email'', inv_Email invite), (''role'', inv_Role invite)])))))"


section \<open>The invariant\<close>

text \<open>
  \<open>workspaces_ok\<close>: the keys of the three tables are distinct; the owner role is held only by the
  owner of the workspace, no invite offers it; a personal workspace belongs to its user; and no
  member row or invite names the nil workspace. The parameter is the derivation of personal
  workspace ids.
\<close>

definition assignable_roles :: "string set" where
  "assignable_roles = {WorkspaceRoleAdmin, WorkspaceRoleMember, WorkspaceRoleViewer}"

definition member_key :: "workspace_member \<Rightarrow> uuid \<times> uuid" where
  "member_key m = (mem_WorkspaceID m, mem_UserID m)"

definition member_allowed :: "workspace list \<Rightarrow> workspace_member \<Rightarrow> bool" where
  "member_allowed wss m \<longleftrightarrow> mem_WorkspaceID m \<noteq> uuid_nil \<and> (mem_Role m \<in> assignable_roles \<or>
     mem_Role m = WorkspaceRoleOwner \<and> (\<exists>ws\<in>set wss. ws_ID ws = mem_WorkspaceID m \<and> ws_OwnerUserID ws = mem_UserID m))"

definition invite_allowed :: "workspace_invite \<Rightarrow> bool" where
  "invite_allowed i \<longleftrightarrow> inv_WorkspaceID i \<noteq> uuid_nil \<and> inv_Role i \<in> assignable_roles"

definition workspaces_ok :: "(uuid \<Rightarrow> uuid) \<Rightarrow> db \<Rightarrow> bool" where
  "workspaces_ok pws d \<longleftrightarrow> distinct (map ws_ID (workspaces d)) \<and> distinct (map member_key (members d))
     \<and> distinct (map inv_ID (invites d)) \<and> distinct (map inv_TokenHash (invites d))
     \<and> (\<forall>m\<in>set (members d). member_allowed (workspaces d) m) \<and> (\<forall>i\<in>set (invites d). invite_allowed i)
     \<and> (\<forall>ws\<in>set (workspaces d). \<forall>u. ws_ID ws = pws u \<longrightarrow> ws_OwnerUserID ws = u)"

text \<open>
  \<open>uuid.New\<close> makes version 4 ids and \<open>PersonalWorkspaceID\<close> version 5 ids: the first are never nil
  and never the second.
\<close>

definition ids_ok :: "env \<Rightarrow> bool" where
  "ids_ok e \<longleftrightarrow> pws_ok (env_personal_workspace e) \<and>
     (\<forall>n. env_uuid e n \<noteq> uuid_nil \<and> env_uuid e n \<notin> range (env_personal_workspace e))"

lemma member_allowed_mono: "member_allowed wss m \<Longrightarrow> set wss \<subseteq> set wss' \<Longrightarrow> member_allowed wss' m"
  by (auto simp: member_allowed_def)

lemma same_member_key: "same_member m x \<longleftrightarrow> member_key x = member_key m"
  by (simp add: same_member_def member_key_def)

lemma normalize_role_assignable: "normalize_workspace_member_role r = Inr role \<Longrightarrow> role \<in> assignable_roles"
  by (auto simp: normalize_workspace_member_role_def assignable_roles_def Let_def split: if_splits)

lemma workspaces_ok_other [simp]:
  "workspaces_ok pws (d\<lparr>workspace_activities := x\<rparr>) = workspaces_ok pws d"
  "workspaces_ok pws (d\<lparr>projects := y\<rparr>) = workspaces_ok pws d"
  by (simp_all add: workspaces_ok_def)

lemma workspaces_ok_new_workspace:
  assumes "workspaces_ok pws d" "ws_ID ws \<notin> ws_ID ` set (workspaces d)" "\<And>u. ws_ID ws = pws u \<Longrightarrow> ws_OwnerUserID ws = u"
  shows "workspaces_ok pws (d\<lparr>workspaces := workspaces d @ [ws]\<rparr>)"
  using assms member_allowed_mono [of "workspaces d" _ "workspaces d @ [ws]"]
  unfolding workspaces_ok_def by auto

lemma workspaces_ok_new_member:
  assumes "workspaces_ok pws d" "member_key m \<notin> member_key ` set (members d)" "member_allowed (workspaces d) m"
  shows "workspaces_ok pws (d\<lparr>members := members d @ [m]\<rparr>)"
  using assms unfolding workspaces_ok_def by auto

lemma assign_member_key [simp]: "member_key (assign_member m x) = member_key x"
  by (simp add: assign_member_def member_key_def)

lemma workspaces_ok_upsert:
  assumes "workspaces_ok pws d" "mem_WorkspaceID m \<noteq> uuid_nil" "mem_Role m \<in> assignable_roles"
  shows "workspaces_ok pws (d\<lparr>members := upsert_member_rows m (members d)\<rparr>)"
proof (cases "\<exists>x\<in>set (members d). same_member m x")
  case True
  have "member_allowed (workspaces d) x" if "x \<in> set (update_rows (same_member m) (assign_member m) (members d))" for x
    using that assms unfolding workspaces_ok_def
    by (auto simp: set_update_rows member_allowed_def assign_member_def same_member_def)
  moreover have "map member_key (update_rows (same_member m) (assign_member m) (members d)) = map member_key (members d)"
    by (rule map_update_rows) simp
  ultimately show ?thesis using assms(1) True by (simp add: workspaces_ok_def upsert_member_rows_def)
next
  case False
  then have "member_key m \<notin> member_key ` set (members d)" by (auto simp: same_member_key)
  then show ?thesis using assms False
    by (simp add: upsert_member_rows_def) (rule workspaces_ok_new_member, simp_all add: member_allowed_def)
qed

lemma workspaces_ok_set_role:
  assumes "workspaces_ok pws d" "role \<in> assignable_roles"
  shows "workspaces_ok pws (d\<lparr>members := update_rows p (\<lambda>m. m\<lparr>mem_Role := role\<rparr>) (members d)\<rparr>)"
proof -
  have "map member_key (update_rows p (\<lambda>m. m\<lparr>mem_Role := role\<rparr>) (members d)) = map member_key (members d)"
    by (rule map_update_rows) (simp add: member_key_def)
  then show ?thesis using assms unfolding workspaces_ok_def
    by (auto simp: set_update_rows member_allowed_def)
qed

lemma workspaces_ok_delete: "workspaces_ok pws d \<Longrightarrow> workspaces_ok pws (d\<lparr>members := filter q (members d)\<rparr>)"
  by (auto simp: workspaces_ok_def intro: distinct_map_filter)

lemma workspaces_ok_invites:
  assumes "workspaces_ok pws d" "\<And>i. inv_ID (f i) = inv_ID i" "\<And>i. inv_TokenHash (f i) = inv_TokenHash i"
    "\<And>i. inv_Role (f i) = inv_Role i" "\<And>i. inv_WorkspaceID (f i) = inv_WorkspaceID i"
  shows "workspaces_ok pws (d\<lparr>invites := update_rows p f (invites d)\<rparr>)"
proof -
  have "map inv_ID (update_rows p f (invites d)) = map inv_ID (invites d)"
    "map inv_TokenHash (update_rows p f (invites d)) = map inv_TokenHash (invites d)"
    by (rule map_update_rows, rule assms)+
  then show ?thesis using assms(1) unfolding workspaces_ok_def
    by (auto simp: set_update_rows invite_allowed_def assms)
qed

lemma workspaces_ok_update_workspaces:
  assumes "workspaces_ok pws d" "\<And>ws. ws_ID (f ws) = ws_ID ws" "\<And>ws. ws_OwnerUserID (f ws) = ws_OwnerUserID ws"
  shows "workspaces_ok pws (d\<lparr>workspaces := update_rows p f (workspaces d)\<rparr>)"
proof -
  have "map ws_ID (update_rows p f (workspaces d)) = map ws_ID (workspaces d)"
    by (rule map_update_rows, rule assms)
  moreover have "member_allowed (update_rows p f (workspaces d)) m" if "member_allowed (workspaces d) m" for m
  proof -
    have "\<exists>x\<in>set (update_rows p f (workspaces d)). ws_ID x = ws_ID ws \<and> ws_OwnerUserID x = ws_OwnerUserID ws"
      if "ws \<in> set (workspaces d)" for ws
      unfolding set_update_rows by (rule bexI [OF _ imageI [OF that]]) (simp add: assms)
    with that show ?thesis unfolding member_allowed_def by metis
  qed
  ultimately show ?thesis using assms(1) unfolding workspaces_ok_def
    by (auto simp: set_update_rows assms)
qed


subsection \<open>What the statements and the operations keep\<close>

lemma keeps_update_workspaces [keeps_intros]:
  "(\<And>d. J d \<Longrightarrow> J (d\<lparr>workspaces := update_rows p f (workspaces d)\<rparr>)) \<Longrightarrow> keeps (on_db J) (update_workspaces p f)"
  unfolding update_workspaces_def by (rule keeps_db_exec) simp

lemma keeps_update_members [keeps_intros]:
  "(\<And>d. J d \<Longrightarrow> J (d\<lparr>members := update_rows p f (members d)\<rparr>)) \<Longrightarrow> keeps (on_db J) (update_members p f)"
  unfolding update_members_def by (rule keeps_db_exec) simp

lemma keeps_update_invites [keeps_intros]:
  "(\<And>d. J d \<Longrightarrow> J (d\<lparr>invites := update_rows p f (invites d)\<rparr>)) \<Longrightarrow> keeps (on_db J) (update_invites p f)"
  unfolding update_invites_def by (rule keeps_db_exec) simp

lemma keeps_delete_members [keeps_intros]:
  "(\<And>d. J d \<Longrightarrow> J (d\<lparr>members := filter (\<lambda>m. \<not> p m) (members d)\<rparr>)) \<Longrightarrow> keeps (on_db J) (delete_members p)"
  unfolding delete_members_def by (rule keeps_db_exec) simp

lemma keeps_record_workspace_activity [keeps_intros]:
  "(\<And>d x. J d \<Longrightarrow> J (d\<lparr>workspace_activities := x\<rparr>)) \<Longrightarrow> keeps (on_db J) (record_workspace_activity wid uid ev t m)"
  unfolding record_workspace_activity_def by (intro keeps_intros)

lemma keeps_upsert_member:
  "(\<And>d t. J d \<Longrightarrow> J (d\<lparr>members := upsert_member_rows (m\<lparr>mem_CreatedAt := t\<rparr>) (members d)\<rparr>)) \<Longrightarrow> keeps (on_db J) (upsert_member m)"
  unfolding upsert_member_def by (intro keeps_intros) simp

lemma keeps_new_token [keeps_intros]: "(\<And>w. I w \<Longrightarrow> I (tick w)) \<Longrightarrow> keeps I (new_workspace_invite_token s)"
  by (simp add: keeps_def new_workspace_invite_token_def Let_def split: sum.splits)

lemma keeps_reads [keeps_intros]:
  "keeps (on_db J) (service_access_role wid uid)" "keeps (on_db J) (require_permission wid uid p)"
  "keeps (on_db J) (require_workspace_manager wid uid)" "keeps (on_db J) (get_workspace wid uid)"
  "keeps (on_db J) (get_workspace_member wid uid)" "keeps (on_db J) (resolve_workspace_member_user s req)"
  "keeps (on_db J) (workspace_roles_for_user wss uid)"
  unfolding service_access_role_def require_permission_def require_workspace_manager_def get_workspace_def
    get_workspace_member_def resolve_workspace_member_user_def workspace_roles_for_user_def
  by (intro keeps_intros)+

lemmas ok_updates = workspaces_ok_invites workspaces_ok_delete workspaces_ok_set_role workspaces_ok_update_workspaces

lemma keeps_ok_update_workspace: "keeps (on_db (workspaces_ok pws)) (update_workspace wid uid n sl)"
  unfolding update_workspace_def Let_def
  by (intro keeps_intros) (auto intro!: ok_updates)

lemma keeps_ok_remove_member: "keeps (on_db (workspaces_ok pws)) (remove_workspace_member wid uid target)"
  unfolding remove_workspace_member_def
  by (intro keeps_intros) (auto intro!: ok_updates)

lemma keeps_ok_revoke: "keeps (on_db (workspaces_ok pws)) (revoke_workspace_invite wid uid i)"
  unfolding revoke_workspace_invite_def
  by (intro keeps_intros) (auto intro!: ok_updates)

lemma keeps_ok_list_invites: "keeps (on_db (workspaces_ok pws)) (list_workspace_invites wid uid)"
  unfolding list_workspace_invites_def expire_workspace_invites_def
  by (intro keeps_intros) (auto intro!: ok_updates)

lemma keeps_ok_update_member: "keeps (on_db (workspaces_ok pws)) (update_workspace_member wid uid target role)"
  unfolding update_workspace_member_def Let_def
  by (intro keeps_intros keeps_liftS_bind) (auto intro!: ok_updates dest: normalize_role_assignable)


lemma require_nil [simp]: "require_permission uuid_nil uid p = throw ErrInvalidWorkspace"
  "require_workspace_manager uuid_nil uid = throw ErrInvalidWorkspace"
  by (simp_all add: require_permission_def require_workspace_manager_def)

lemma keeps_ok_add_member: "keeps (on_db (workspaces_ok pws)) (add_workspace_member s wid uid req)"
proof (cases "wid = uuid_nil")
  case True
  then show ?thesis by (simp add: add_workspace_member_def keeps_throw)
next
  case False
  then show ?thesis unfolding add_workspace_member_def
    by (intro keeps_intros keeps_liftS_bind keeps_upsert_member)
      (auto intro!: workspaces_ok_upsert dest: normalize_role_assignable)
qed

lemma keeps_ok_insert_invite:
  assumes "inv_WorkspaceID i \<noteq> uuid_nil" "inv_Role i \<in> assignable_roles"
  shows "keeps (on_db (workspaces_ok pws)) (insert_invite i)"
  unfolding insert_invite_def Let_def
  by (intro keeps_intros) (use assms in \<open>auto simp: workspaces_ok_def invite_allowed_def workspace_invite_before_create_def\<close>)

lemma keeps_ok_create_invite: "keeps (on_db (workspaces_ok pws)) (create_workspace_invite s wid uid req)"
proof (cases "wid = uuid_nil")
  case True
  then show ?thesis by (simp add: create_workspace_invite_def keeps_throw)
next
  case False
  then show ?thesis unfolding create_workspace_invite_def Let_def
    by (intro keeps_intros keeps_liftS_bind keeps_ok_insert_invite) (auto dest: normalize_role_assignable)
qed

lemma keeps_ok_accept_tx: "keeps (on_db (workspaces_ok pws)) (accept_invite_tx s uid h)"
  unfolding accept_invite_tx_def
proof (rule keeps_wp_first_row)
  fix i w assume "on_db (workspaces_ok pws) w" "find (\<lambda>i. inv_TokenHash i = h) (invites (db w)) = Some i"
  then have "invite_allowed i" using find_Some_set [of _ "invites (db w)" i] by (auto simp: on_db_def workspaces_ok_def)
  then show "keeps (on_db (workspaces_ok pws)) (if inv_Status i \<noteq> WorkspaceInviteStatusPending then throw ErrInvalidWorkspaceInvite
     else bindE now_utc (\<lambda>now.
       if \<not> inv_ExpiresAt i > now
       then bindE (update_invites (\<lambda>x. inv_ID x = inv_ID i)
              (\<lambda>i. i\<lparr>inv_Status := WorkspaceInviteStatusExpired, inv_UpdatedAt := now\<rparr>)) (\<lambda>_. ret uuid_nil)
       else bindE (first_row (find_user uid)) (\<lambda>user.
         if \<not> equal_fold s (user_Email user) (inv_Email i) then throw ErrForbidden
         else bindE (upsert_member \<lparr>mem_WorkspaceID = inv_WorkspaceID i, mem_UserID = uid,
              mem_Role = inv_Role i, mem_InvitedBy = Some (inv_InvitedBy i),
              mem_JoinedAt = Some now, mem_CreatedAt = 0\<rparr>) (\<lambda>_.
           bindE (update_invites (\<lambda>x. inv_ID x = inv_ID i)
              (\<lambda>i. i\<lparr>inv_AcceptedBy := Some uid, inv_AcceptedAt := Some now,
                     inv_Status := WorkspaceInviteStatusAccepted, inv_UpdatedAt := now\<rparr>)) (\<lambda>_.
           bindE (record_workspace_activity (inv_WorkspaceID i) uid WorkspaceActivityInviteAccepted
              (Some uid) [(''email'', inv_Email i), (''role'', inv_Role i)]) (\<lambda>_.
           ret (inv_WorkspaceID i)))))))"
    by (intro keeps_intros keeps_upsert_member workspaces_ok_invites workspaces_ok_upsert)
      (auto simp: invite_allowed_def)
qed simp

lemma keeps_ok_accept: "keeps (on_db (workspaces_ok pws)) (accept_workspace_invite s uid token)"
  unfolding accept_workspace_invite_def Let_def by (intro keeps_intros keeps_ok_accept_tx)

lemma accept_nil_workspace: "workspaces_ok pws d \<Longrightarrow> find_member uuid_nil uid d = None"
  by (auto simp: workspaces_ok_def member_allowed_def find_member_def find_None_set)


text \<open>With the environment: the operations that derive personal ids or make workspace ids.\<close>

definition on_ok :: "env \<Rightarrow> world \<Rightarrow> bool" where
  "on_ok e w \<longleftrightarrow> workspaces_ok (env_personal_workspace e) (db w) \<and> env w = e"

lemma on_ok_tick [simp]: "on_ok e (tick w) = on_ok e w"
  by (simp add: on_ok_def)

lemma on_ok_db: "env w' = env w \<Longrightarrow> on_ok e w \<Longrightarrow> workspaces_ok (env_personal_workspace e) (db w') \<Longrightarrow> on_ok e w'"
  by (simp add: on_ok_def)

lemma keeps_on_ok: "keeps (on_db (workspaces_ok (env_personal_workspace e))) m \<Longrightarrow> keeps (env_is e) m \<Longrightarrow> keeps (on_ok e) m"
  by (auto simp: keeps_def on_ok_def on_db_def env_is_def)

lemma on_ok_transaction:
  assumes "keeps (env_is e) m" "wp m (\<lambda>_. on_ok e) (\<lambda>_ _. True) w" "on_ok e w"
  shows "wp (transaction m) (\<lambda>_. on_ok e) (\<lambda>_. on_ok e) w"
proof (rule wp_transaction)
  have "wp m (\<lambda>_. env_is e) (\<lambda>_. env_is e) w"
    by (rule wp_keeps [OF assms(1)]) (use assms(3) in \<open>simp_all add: on_ok_def env_is_def\<close>)
  from wp_conj [OF this assms(2)]
  show "wp m (\<lambda>x w1. (\<forall>ea. fault_at w1 ea \<longrightarrow> on_ok e ((tick w1)\<lparr>db := db w\<rparr>)) \<and> on_ok e (tick w1))
    (\<lambda>ea w1. on_ok e (w1\<lparr>db := db w\<rparr>)) w"
    by (rule wp_conseq) (use assms(3) in \<open>auto simp: on_ok_def env_is_def\<close>)
qed

lemma env_ops [keeps_intros]:
  "keeps (env_is e) (update_workspaces p1 f1)" "keeps (env_is e) (update_members p2 f2)"
  "keeps (env_is e) (update_invites p3 f3)" "keeps (env_is e) (delete_members p4)"
  "keeps (env_is e) (record_workspace_activity wid uid ev t m)" "keeps (env_is e) (upsert_member m')"
  "keeps (env_is e) (insert_workspace ws)" "keeps (env_is e) (insert_member m')"
  "keeps (env_is e) (insert_workspace_or_nothing ws)" "keeps (env_is e) (insert_member_or_nothing m')"
  "keeps (env_is e) (insert_invite i)"
  "keeps (env_is e) (service_access_role wid uid)" "keeps (env_is e) (require_permission wid uid p)"
  "keeps (env_is e) (require_workspace_manager wid uid)" "keeps (env_is e) (get_workspace wid uid)"
  "keeps (env_is e) (get_workspace_member wid uid)" "keeps (env_is e) (resolve_workspace_member_user s req)"
  "keeps (env_is e) (workspace_roles_for_user wss uid)" "keeps (env_is e) (new_workspace_invite_token s)"
  unfolding update_workspaces_def update_members_def update_invites_def delete_members_def
    record_workspace_activity_def upsert_member_def insert_workspace_def insert_member_def
    insert_workspace_or_nothing_def insert_member_or_nothing_def insert_invite_def Let_def
    service_access_role_def require_permission_def require_workspace_manager_def get_workspace_def
    get_workspace_member_def resolve_workspace_member_user_def workspace_roles_for_user_def
  by ((intro keeps_intros); simp)+

lemma env_workspace_ops:
  "keeps (env_is e) (update_workspace wid uid n sl)" "keeps (env_is e) (remove_workspace_member wid uid target)"
  "keeps (env_is e) (update_workspace_member wid uid target role)" "keeps (env_is e) (add_workspace_member s wid uid req)"
  "keeps (env_is e) (create_workspace_invite s wid uid req')" "keeps (env_is e) (list_workspace_invites wid uid)"
  "keeps (env_is e) (accept_workspace_invite s uid token)" "keeps (env_is e) (revoke_workspace_invite wid uid i)"
  "keeps (env_is e) (create_workspace uid n sl)" "keeps (env_is e) (ensure_personal_workspace uid)"
  "keeps (env_is e) (list_workspaces uid)"
  unfolding update_workspace_def remove_workspace_member_def update_workspace_member_def add_workspace_member_def
    create_workspace_invite_def list_workspace_invites_def expire_workspace_invites_def accept_workspace_invite_def
    accept_invite_tx_def revoke_workspace_invite_def create_workspace_def ensure_personal_workspace_def
    list_workspaces_def ensure_personal_workspace_with_db_def Let_def
  by ((intro keeps_intros); simp)+


lemma personal_not_fresh: "ids_ok e \<Longrightarrow> env_uuid e n \<noteq> uuid_nil" "ids_ok e \<Longrightarrow> env_uuid e n \<noteq> env_personal_workspace e u"
  by (auto simp: ids_ok_def image_iff)

lemma wp_insert_workspace_ok:
  assumes "on_ok e w" "ids_ok e" "ws_ID ws = uuid_nil" "ws_OwnerUserID ws = uid"
  shows "wp (insert_workspace ws) (\<lambda>x w'. on_ok e w' \<and> x \<in> set (workspaces (db w')) \<and> ws_ID x \<noteq> uuid_nil \<and> ws_OwnerUserID x = uid)
    (\<lambda>_ _. True) w"
  unfolding insert_workspace_def Let_def
  apply (rule wp_bindE, rule wp_uuid_new, rule wp_bindE, rule wp_now_utc, rule wp_bindE, rule wp_create_row)
    apply simp
   apply simp
  apply (rule wp_ret)
  using assms(1,3,4) personal_not_fresh [OF assms(2)]
  by (auto simp: on_ok_def workspace_before_create_def intro!: workspaces_ok_new_workspace)

lemma wp_insert_member_ok:
  assumes "on_ok e w" "member_allowed (workspaces (db w)) m"
  shows "wp (insert_member m) (\<lambda>_. on_ok e) (\<lambda>_ _. True) w"
proof -
  have "member_allowed (workspaces (db w)) (m\<lparr>mem_CreatedAt := t\<rparr>)" for t
    using assms(2) by (simp add: member_allowed_def)
  moreover have "same_member (m\<lparr>mem_CreatedAt := t\<rparr>) x \<longleftrightarrow> member_key x = member_key (m\<lparr>mem_CreatedAt := t\<rparr>)" for t x
    by (rule same_member_key)
  ultimately show ?thesis using assms(1) unfolding insert_member_def
    by (intro wp_bindE wp_now_utc wp_create_row)
      (auto simp: on_ok_def image_iff eq_commute intro!: workspaces_ok_new_member)
qed

lemma wp_activity_ok: "on_ok e w \<Longrightarrow> wp (record_workspace_activity wid uid ev t m) (\<lambda>_. on_ok e) (\<lambda>_. on_ok e) w"
  by (rule wp_keeps [OF keeps_on_ok]) (auto intro!: keeps_intros)

lemma ok_create_workspace:
  assumes "on_ok e w" "ids_ok e"
  shows "wp (create_workspace uid n sl) (\<lambda>_. on_ok e) (\<lambda>_. on_ok e) w"
proof -
  let ?ws = "\<lambda>name. \<lparr>ws_ID = uuid_nil, ws_OwnerUserID = uid, ws_Name = name,
             ws_Slug = normalize_workspace_slug sl, ws_Status = WorkspaceStatusActive,
             ws_CreatedAt = 0, ws_UpdatedAt = 0, ws_Deleted = False\<rparr>"
  let ?m = "\<lambda>ws now. \<lparr>mem_WorkspaceID = ws_ID ws, mem_UserID = uid,
             mem_Role = WorkspaceRoleOwner, mem_InvitedBy = None, mem_JoinedAt = Some now, mem_CreatedAt = 0\<rparr>"
  let ?tx = "\<lambda>name. bindE (insert_workspace (?ws name)) (\<lambda>ws. bindE now_utc (\<lambda>now. bindE (insert_member (?m ws now)) (\<lambda>_.
          bindE (record_workspace_activity (ws_ID ws) uid WorkspaceActivityWorkspaceCreated None
             [(''name'', ws_Name ws), (''slug'', ws_Slug ws)]) (\<lambda>_. ret ws))))"
  have member: "wp (bindE now_utc (\<lambda>now. bindE (insert_member (?m ws now)) (\<lambda>_.
          bindE (record_workspace_activity (ws_ID ws) uid WorkspaceActivityWorkspaceCreated None
             [(''name'', ws_Name ws), (''slug'', ws_Slug ws)]) (\<lambda>_. ret ws)))) (\<lambda>_. on_ok e) (\<lambda>_ _. True) w1"
    if w1: "on_ok e w1 \<and> ws \<in> set (workspaces (db w1)) \<and> ws_ID ws \<noteq> uuid_nil \<and> ws_OwnerUserID ws = uid" for ws w1
  proof -
    have "member_allowed (workspaces (db (tick w1))) (?m ws t)" for t
      using w1 by (auto simp: member_allowed_def)
    then show ?thesis
      by (intro wp_bindE wp_now_utc wp_conseq [OF wp_insert_member_ok] wp_conseq [OF wp_activity_ok] wp_ret)
        (use w1 in simp_all)
  qed
  have "wp (?tx name) (\<lambda>_. on_ok e) (\<lambda>_ _. True) w" for name
    by (rule wp_bindE, rule wp_conseq [OF wp_insert_workspace_ok [OF assms, where uid = uid]], simp, simp, rule member) simp_all
  moreover have "keeps (env_is e) (?tx name)" for name by (intro keeps_intros)
  ultimately have tx: "wp (transaction (?tx name)) (\<lambda>_. on_ok e) (\<lambda>_. on_ok e) w" for name
    by (intro on_ok_transaction assms(1))
  show ?thesis unfolding create_workspace_def
    by (cases "normalize_workspace_name n")
      (auto simp: liftS_def wp_def [of "Pair _"] assms(1) intro!: wp_If wp_bindE wp_conseq [OF tx] wp_ret wp_throw)
qed


lemma ok_workspace_or_nothing:
  assumes "workspaces_ok pws d" "inj pws" "ws_ID ws = pws uid" "ws_OwnerUserID ws = uid"
    and d': "d' = (if \<exists>x\<in>set (workspaces d). ws_ID x = ws_ID ws then d else d\<lparr>workspaces := workspaces d @ [ws]\<rparr>)"
  shows "workspaces_ok pws d' \<and> (\<exists>x\<in>set (workspaces d'). ws_ID x = pws uid \<and> ws_OwnerUserID x = uid)"
proof (cases "\<exists>x\<in>set (workspaces d). ws_ID x = ws_ID ws")
  case True
  with assms show ?thesis by (auto simp: workspaces_ok_def)
next
  case False
  then have "ws_ID ws \<notin> ws_ID ` set (workspaces d)" by auto
  moreover have "ws_OwnerUserID ws = u" if "ws_ID ws = pws u" for u
    using that assms(2-4) by (simp add: inj_eq)
  ultimately have "workspaces_ok pws (d\<lparr>workspaces := workspaces d @ [ws]\<rparr>)"
    by (rule workspaces_ok_new_workspace [OF assms(1)])
  with False assms(3,4) show ?thesis unfolding d' by simp
qed

lemma ids_ok_inj: "ids_ok e \<Longrightarrow> inj (env_personal_workspace e)" "ids_ok e \<Longrightarrow> env_personal_workspace e u \<noteq> uuid_nil"
  by (simp_all add: ids_ok_def pws_ok_def)

lemma wp_insert_workspace_or_nothing_ok:
  assumes w: "on_ok e w" and id: "ws_ID ws = env_personal_workspace e uid" "ws_OwnerUserID ws = uid" and e: "ids_ok e"
  shows "wp (insert_workspace_or_nothing ws) (\<lambda>_ w'. on_ok e w' \<and>
      (\<exists>x\<in>set (workspaces (db w')). ws_ID x = env_personal_workspace e uid \<and> ws_OwnerUserID x = uid)) (\<lambda>_ _. True) w"
proof -
  let ?ws = "\<lambda>t. (workspace_before_create (env_uuid (env w) (calls w)) ws)\<lparr>ws_CreatedAt := t, ws_UpdatedAt := t\<rparr>"
  have ok: "workspaces_ok (env_personal_workspace e) (db w)" and env: "env w = e" using w by (simp_all add: on_ok_def)
  let ?d = "\<lambda>t. if \<exists>x\<in>set (workspaces (db w)). ws_ID x = ws_ID (?ws t) then db w
    else (db w)\<lparr>workspaces := workspaces (db w) @ [?ws t]\<rparr>"
  have new: "workspaces_ok (env_personal_workspace e) (?d t) \<and>
      (\<exists>x\<in>set (workspaces (?d t)). ws_ID x = env_personal_workspace e uid \<and> ws_OwnerUserID x = uid)" for t
  proof (rule ok_workspace_or_nothing [OF ok ids_ok_inj(1) [OF e] _ _ refl])
    show "ws_ID (?ws t) = env_personal_workspace e uid" "ws_OwnerUserID (?ws t) = uid"
      using id ids_ok_inj(2) [OF e, of uid] by (auto simp: workspace_before_create_def)
  qed
  have run: "snd (if b then (0, x) else (1, y)) = (if b then x else y)" for b and x y :: db by simp
  have upd: "db (v\<lparr>db := x\<rparr>) = x" "env (v\<lparr>db := x\<rparr>) = env v" for v x by simp_all
  show ?thesis unfolding insert_workspace_or_nothing_def Let_def
    by (rule wp_bindE, rule wp_uuid_new, rule wp_bindE, rule wp_now_utc, rule wp_bindE, rule wp_exec, simp, rule wp_ret)
      (use new env in \<open>simp only: run upd on_ok_def db_tick simp_thms\<close>)
qed


lemma wp_insert_member_or_nothing_ok:
  assumes "on_ok e w" "member_allowed (workspaces (db w)) m"
  shows "wp (insert_member_or_nothing m) (\<lambda>_. on_ok e) (\<lambda>_ _. True) w"
proof -
  have "member_allowed (workspaces (db w)) (m\<lparr>mem_CreatedAt := t\<rparr>)" for t
    using assms(2) by (simp add: member_allowed_def)
  moreover have "same_member m x \<longleftrightarrow> member_key x = member_key (m\<lparr>mem_CreatedAt := t\<rparr>)" for t x
    by (auto simp: same_member_key member_key_def)
  ultimately show ?thesis using assms(1) unfolding insert_member_or_nothing_def
    by (intro wp_bindE wp_now_utc wp_exec wp_ret)
      (auto simp: on_ok_def image_iff eq_commute split: if_splits intro!: workspaces_ok_new_member)
qed

lemma ok_ensure:
  assumes "on_ok e w" "ids_ok e"
  shows "wp (ensure_personal_workspace uid) (\<lambda>_. on_ok e) (\<lambda>_. on_ok e) w"
proof -
  let ?id = "env_personal_workspace e uid"
  let ?ws = "\<lparr>ws_ID = ?id, ws_OwnerUserID = uid, ws_Name = ''Personal'', ws_Slug = personal_workspace_slug uid,
       ws_Status = WorkspaceStatusActive, ws_CreatedAt = 0, ws_UpdatedAt = 0, ws_Deleted = False\<rparr>"
  let ?m = "\<lambda>now. \<lparr>mem_WorkspaceID = ?id, mem_UserID = uid, mem_Role = WorkspaceRoleOwner,
       mem_InvitedBy = None, mem_JoinedAt = Some now, mem_CreatedAt = 0\<rparr>"
  have id: "personal_workspace_id w' uid = ?id" if "on_ok e w'" for w'
    using that by (simp add: on_ok_def personal_workspace_id_def)
  have member: "wp (bindE now_utc (\<lambda>now. insert_member_or_nothing (?m now))) (\<lambda>_. on_ok e) (\<lambda>_ _. True) w1"
    if "on_ok e w1 \<and> (\<exists>x\<in>set (workspaces (db w1)). ws_ID x = ?id \<and> ws_OwnerUserID x = uid)" for w1
    using that ids_ok_inj(2) [OF assms(2), of uid]
    by (intro wp_bindE wp_now_utc wp_insert_member_or_nothing_ok) (auto simp: member_allowed_def)
  have "wp (ensure_personal_workspace_with_db uid) (\<lambda>_. on_ok e) (\<lambda>_ _. True) w"
    unfolding ensure_personal_workspace_with_db_def
    by (rule wp_bindE, rule wp_asks, unfold id [OF assms(1)], rule wp_bindE,
        rule wp_conseq [OF wp_insert_workspace_or_nothing_ok [OF assms(1) _ _ assms(2), where uid = uid]], simp, simp)
      (erule member, simp)
  moreover have "keeps (on_ok e) (bindE (exec (\<lambda>d. (count_rows (unassigned_project uid) (projects d),
       d\<lparr>projects := update_rows (unassigned_project uid) (\<lambda>p. p\<lparr>proj_WorkspaceID := Some ?id\<rparr>) (projects d)\<rparr>))) (\<lambda>_. ret ()))"
    by (rule keeps_on_ok) (auto intro!: keeps_intros)
  ultimately have body: "wp (bindE (ensure_personal_workspace_with_db uid) (\<lambda>_. bindE (exec (\<lambda>d.
       (count_rows (unassigned_project uid) (projects d), d\<lparr>projects := update_rows (unassigned_project uid)
         (\<lambda>p. p\<lparr>proj_WorkspaceID := Some ?id\<rparr>) (projects d)\<rparr>))) (\<lambda>_. ret ()))) (\<lambda>_. on_ok e) (\<lambda>_ _. True) w"
    by (intro wp_bindE) (erule wp_conseq, erule wp_keeps [rotated], simp_all)
  have "keeps (env_is e) (ensure_personal_workspace_with_db uid)"
    unfolding ensure_personal_workspace_with_db_def by (intro keeps_intros)
  then have tx: "wp (transaction (bindE (ensure_personal_workspace_with_db uid) (\<lambda>_. bindE (exec (\<lambda>d.
       (count_rows (unassigned_project uid) (projects d), d\<lparr>projects := update_rows (unassigned_project uid)
         (\<lambda>p. p\<lparr>proj_WorkspaceID := Some ?id\<rparr>) (projects d)\<rparr>))) (\<lambda>_. ret ())))) (\<lambda>_. on_ok e) (\<lambda>_. on_ok e) w"
    by (intro on_ok_transaction keeps_intros assms(1) body)
  have get: "keeps (on_ok e) (get_workspace ?id uid)" by (rule keeps_on_ok) (intro keeps_intros)+
  show ?thesis unfolding ensure_personal_workspace_def
    by (rule wp_If, rule wp_throw, rule assms(1), rule wp_bindE, rule wp_asks, unfold id [OF assms(1)], rule wp_bindE,
        rule wp_conseq [OF tx]) (erule wp_keeps [OF get], simp_all)
qed

lemma ok_list_workspaces:
  assumes "on_ok e w" "ids_ok e"
  shows "wp (list_workspaces uid) (\<lambda>_. on_ok e) (\<lambda>_. on_ok e) w"
proof -
  have rest: "keeps (on_ok e) (bindE (select (visible_workspaces uid)) (\<lambda>wss.
        bindE (workspace_roles_for_user wss uid) (\<lambda>roles.
        ret (map (\<lambda>ws. workspace_from_model ws (case roles (ws_ID ws) of None \<Rightarrow> '''' | Some r \<Rightarrow> r)) wss))))"
    by (rule keeps_on_ok) (intro keeps_intros)+
  show ?thesis unfolding list_workspaces_def
    by (rule wp_If, rule wp_throw, rule assms(1), rule wp_bindE, rule wp_conseq [OF ok_ensure [OF assms]])
      (erule wp_keeps [OF rest], simp_all)
qed


section \<open>Requests of an actor\<close>

text \<open>The operations on one workspace that the management permission guards, as requests.\<close>

datatype managed_op =
    UpdateWorkspace string string
  | AddMember add_member_request
  | UpdateMember uuid string
  | RemoveMember uuid
  | CreateInvite create_invite_request
  | ListInvites
  | RevokeInvite uuid

definition void :: "'a mpp \<Rightarrow> unit mpp" where
  "void m = bindE m (\<lambda>_. ret ())"

fun run_managed :: "workspace_service \<Rightarrow> uuid \<Rightarrow> uuid \<Rightarrow> managed_op \<Rightarrow> unit mpp" where
  "run_managed s wid uid (UpdateWorkspace n sl) = void (update_workspace wid uid n sl)"
| "run_managed s wid uid (AddMember req) = void (add_workspace_member s wid uid req)"
| "run_managed s wid uid (UpdateMember target role) = void (update_workspace_member wid uid target role)"
| "run_managed s wid uid (RemoveMember target) = remove_workspace_member wid uid target"
| "run_managed s wid uid (CreateInvite req) = void (create_workspace_invite s wid uid req)"
| "run_managed s wid uid ListInvites = void (list_workspace_invites wid uid)"
| "run_managed s wid uid (RevokeInvite i) = revoke_workspace_invite wid uid i"

text \<open>One step is one operation of any user.\<close>

inductive workspace_step :: "world \<Rightarrow> world \<Rightarrow> bool" where
  managed: "run_managed s wid uid op w = (r, w') \<Longrightarrow> workspace_step w w'"
| listed: "list_workspaces uid w = (rl, w') \<Longrightarrow> workspace_step w w'"
| ensured: "ensure_personal_workspace uid w = (re, w') \<Longrightarrow> workspace_step w w'"
| created: "create_workspace uid n sl w = (rc, w') \<Longrightarrow> workspace_step w w'"
| accepted: "accept_workspace_invite s uid token w = (ra, w') \<Longrightarrow> workspace_step w w'"

inductive workspace_steps :: "world \<Rightarrow> world \<Rightarrow> bool" where
  none: "workspace_steps w w"
| more: "workspace_steps w w1 \<Longrightarrow> workspace_step w1 w2 \<Longrightarrow> workspace_steps w w2"

lemma keeps_void [keeps_intros]: "keeps I m \<Longrightarrow> keeps I (void m)"
  unfolding void_def by (intro keeps_intros)

lemma keeps_ok_managed: "keeps (on_ok e) (run_managed s wid uid op)"
  by (cases op) (auto intro!: keeps_void keeps_on_ok env_workspace_ops keeps_ok_update_workspace keeps_ok_remove_member
      keeps_ok_revoke keeps_ok_list_invites keeps_ok_update_member keeps_ok_add_member keeps_ok_create_invite)

lemma keeps_ok_accept_env: "keeps (on_ok e) (accept_workspace_invite s uid token)"
  by (intro keeps_on_ok keeps_ok_accept env_workspace_ops)

lemma workspace_step_ok:
  assumes "workspace_step w w'" "on_ok e w" "ids_ok e"
  shows "on_ok e w'"
  using assms(1)
proof cases
  case (managed s wid uid op r)
  from keepsD2 [OF keeps_ok_managed managed assms(2)] show ?thesis .
next
  case (listed uid rl)
  from wpD [OF ok_list_workspaces [OF assms(2,3)] listed] show ?thesis by (simp split: sum.splits)
next
  case (ensured uid re)
  from wpD [OF ok_ensure [OF assms(2,3)] ensured] show ?thesis by (simp split: sum.splits)
next
  case (created uid n sl rc)
  from wpD [OF ok_create_workspace [OF assms(2,3)] created] show ?thesis by (simp split: sum.splits)
next
  case (accepted s uid token ra)
  from keepsD2 [OF keeps_ok_accept_env accepted assms(2)] show ?thesis .
qed

lemma workspace_steps_ok: "workspace_steps w w' \<Longrightarrow> on_ok e w \<Longrightarrow> ids_ok e \<Longrightarrow> on_ok e w'"
  by (induction rule: workspace_steps.induct) (simp_all add: workspace_step_ok)


subsection \<open>The permission check\<close>

definition may_manage :: "db \<Rightarrow> uuid \<Rightarrow> uuid \<Rightarrow> bool" where
  "may_manage d wid uid \<longleftrightarrow>
     (\<exists>role. workspace_role_of d wid uid = Some role \<and> role_has_permission role PermissionManageMembers)"

lemma require_permission_Inr:
  assumes "require_permission wid uid PermissionManageMembers w = (Inr role, w')" "faults_opaque w"
  shows "may_manage (db w) wid uid"
proof -
  have "\<exists>w1. workspace_access_role wid uid w = (Inr role, w1) \<and> role_has_permission role PermissionManageMembers"
    using assms(1) unfolding require_permission_def require_workspace_permission_def
    by (auto simp: bindE_Inr split: if_splits)
  then show ?thesis using workspace_access_role_sound [OF assms(2)] unfolding may_manage_def by blast
qed

lemma guarded_by_permission:
  assumes "m = bindE (require_permission wid uid PermissionManageMembers) f" "m w = (r, w')"
    "faults_opaque w" "\<not> may_manage (db w) wid uid"
  shows "(\<exists>e. r = Inl e) \<and> db w' = db w"
proof -
  obtain x w1 where x: "require_permission wid uid PermissionManageMembers w = (x, w1)" by fastforce
  have d: "db w1 = db w" using db_kept [of "require_permission wid uid PermissionManageMembers"] keeps_reads(2) x by blast
  show ?thesis
  proof (cases x)
    case (Inl e)
    with x d assms(1,2) show ?thesis by (auto simp: bindE_def)
  next
    case (Inr role)
    with require_permission_Inr [OF x [unfolded Inr] assms(3)] assms(4) show ?thesis by simp
  qed
qed

lemma run_managed_guard: "\<exists>f. run_managed s wid uid op = bindE (require_permission wid uid PermissionManageMembers) f"
proof -
  have v: "\<exists>g. void (bindE m f) = bindE m g" for m :: "'x mpp" and f :: "'x \<Rightarrow> 'y mpp"
    by (rule exI [of _ "\<lambda>x. void (f x)"]) (simp add: void_def fun_eq_iff bindE_bindE_app)
  show ?thesis
    by (cases op) (auto simp: update_workspace_def remove_workspace_member_def update_workspace_member_def
        add_workspace_member_def create_workspace_invite_def list_workspace_invites_def revoke_workspace_invite_def
        require_workspace_manager_def intro: v)
qed

subsection \<open>Accepting an invite\<close>

definition invite_expired :: "time \<Rightarrow> workspace_invite \<Rightarrow> workspace_invite" where
  "invite_expired now i = i\<lparr>inv_Status := WorkspaceInviteStatusExpired, inv_UpdatedAt := now\<rparr>"

definition invite_accepted :: "uuid \<Rightarrow> time \<Rightarrow> workspace_invite \<Rightarrow> workspace_invite" where
  "invite_accepted uid now i = i\<lparr>inv_AcceptedBy := Some uid, inv_AcceptedAt := Some now,
     inv_Status := WorkspaceInviteStatusAccepted, inv_UpdatedAt := now\<rparr>"

definition invited_member :: "workspace_invite \<Rightarrow> uuid \<Rightarrow> time \<Rightarrow> time \<Rightarrow> workspace_member" where
  "invited_member i uid joined created = \<lparr>mem_WorkspaceID = inv_WorkspaceID i, mem_UserID = uid, mem_Role = inv_Role i,
     mem_InvitedBy = Some (inv_InvitedBy i), mem_JoinedAt = Some joined, mem_CreatedAt = created\<rparr>"

definition find_token :: "string \<Rightarrow> db \<Rightarrow> workspace_invite option" where
  "find_token h d = find (\<lambda>i. inv_TokenHash i = h) (invites d)"

definition redeemed :: "workspace_service \<Rightarrow> uuid \<Rightarrow> time \<Rightarrow> workspace_invite \<Rightarrow> db \<Rightarrow> db \<Rightarrow> bool" where
  "redeemed s uid now i d d' \<longleftrightarrow> inv_Status i = WorkspaceInviteStatusPending \<and> now < inv_ExpiresAt i
     \<and> (\<exists>u. find_user uid d = Some u \<and> equal_fold s (user_Email u) (inv_Email i))
     \<and> (\<exists>t. members d' = upsert_member_rows (invited_member i uid now t) (members d))
     \<and> invites d' = update_rows (\<lambda>x. inv_ID x = inv_ID i) (invite_accepted uid now) (invites d)
     \<and> workspaces d' = workspaces d \<and> users d' = users d"

definition lapsed :: "time \<Rightarrow> workspace_invite \<Rightarrow> db \<Rightarrow> db \<Rightarrow> bool" where
  "lapsed now i d d' \<longleftrightarrow> inv_Status i = WorkspaceInviteStatusPending \<and> inv_ExpiresAt i \<le> now
     \<and> d' = d\<lparr>invites := update_rows (\<lambda>x. inv_ID x = inv_ID i) (invite_expired now) (invites d)\<rparr>"

lemma wp_record_activity_frame:
  assumes "\<And>x. J (d\<lparr>workspace_activities := x\<rparr>)" "db w = d" "J d"
  shows "wp (record_workspace_activity wid uid ev t m) (\<lambda>_ w'. J (db w')) (\<lambda>_ _. True) w"
  unfolding record_workspace_activity_def
  by (rule wp_bindE, rule wp_uuid_new, rule wp_bindE, rule wp_now_utc, rule wp_create_row) (use assms in simp_all)

lemma accept_tx_wp:
  "wp (accept_invite_tx s uid h) (\<lambda>wid w'. \<exists>i. find_token h (db w) = Some i \<and>
      (wid = uuid_nil \<and> lapsed (env_now (env w) (Suc (calls w))) i (db w) (db w')
       \<or> wid = inv_WorkspaceID i \<and> redeemed s uid (env_now (env w) (Suc (calls w))) i (db w) (db w'))) (\<lambda>_ _. True) w"
  unfolding accept_invite_tx_def invite_expired_def [symmetric] invite_accepted_def [symmetric] find_token_def [symmetric]
  apply (rule wp_bindE, rule wp_first_row, simp, simp)
  apply (rule wp_If, rule wp_throw, simp, rule wp_bindE, rule wp_now_utc, rule wp_If)
  subgoal for i
    by (rule wp_bindE, unfold update_invites_def, rule wp_exec, simp, rule wp_ret)
      (simp add: find_token_def lapsed_def)
  subgoal for i
    apply (rule wp_bindE, rule wp_first_row, simp, simp, rule wp_If, rule wp_throw, simp)
    apply (rule wp_bindE, unfold upsert_member_def, rule wp_bindE, rule wp_now_utc, rule wp_bindE, rule wp_exec, simp, rule wp_ret)
    apply (rule wp_bindE, unfold update_invites_def, rule wp_exec, simp, rule wp_bindE)
    apply (rule wp_conseq [OF wp_record_activity_frame [where J = "redeemed s uid (env_now (env w) (Suc (calls w))) i (db w)", OF _ refl]])
    by (auto simp: redeemed_def find_token_def invited_member_def intro!: wp_ret)
  done

lemma upsert_member_found:
  assumes "distinct (map member_key rs)"
  shows "\<exists>x. find (same_member m) (upsert_member_rows m rs) = Some x \<and> mem_Role x = mem_Role m
    \<and> mem_WorkspaceID x = mem_WorkspaceID m \<and> mem_UserID x = mem_UserID m"
proof (cases "\<exists>x\<in>set rs. same_member m x")
  case True
  then obtain x where x: "x \<in> set rs" "same_member m x" by blast
  have "find (same_member m) rs = Some x"
  proof (rule find_unique [where x = x])
    show "x \<in> set rs" "same_member m x" by fact+
    fix y assume "y \<in> set rs" "same_member m y"
    then show "y = x" using row_by_id [OF assms x(1)] x(2) by (simp add: same_member_key)
  qed
  then have "find (same_member m) (update_rows (same_member m) (assign_member m) rs) = Some (assign_member m x)"
    by (intro find_update_rows_same) (auto simp: same_member_def assign_member_def)
  with True x(2) show ?thesis by (simp add: upsert_member_rows_def assign_member_def same_member_def)
next
  case False
  then have "find (same_member m) rs = None" by (simp add: find_None_set)
  then have "find (same_member m) (rs @ [m]) = Some m"
    by (induction rs) (auto simp: same_member_def split: if_splits)
  with False show ?thesis by (simp add: upsert_member_rows_def)
qed

lemma accept_cases:
  assumes "accept_workspace_invite s uid token w = (r, w')"
  obtains (refused) e where "r = Inl e" "db w' = db w"
  | (lapsed) i where "find_token (hash_workspace_invite_token s (trim_space token)) (db w) = Some i"
      "lapsed (env_now (env w) (Suc (calls w))) i (db w) (db w')"
      "\<exists>w1. db w1 = db w' \<and> get_workspace_member uuid_nil uid w1 = (r, w')"
  | (redeemed) i where "find_token (hash_workspace_invite_token s (trim_space token)) (db w) = Some i"
      "redeemed s uid (env_now (env w) (Suc (calls w))) i (db w) (db w')"
      "\<exists>w1. db w1 = db w' \<and> get_workspace_member (inv_WorkspaceID i) uid w1 = (r, w')"
proof -
  let ?h = "hash_workspace_invite_token s (trim_space token)"
  show thesis
  proof (cases "uid = uuid_nil \<or> ?h = ''''")
    case True
    with assms refused show thesis by (auto simp: accept_workspace_invite_def split: if_splits)
  next
    case False
    obtain x w1 where x: "transaction (accept_invite_tx s uid ?h) w = (x, w1)" by fastforce
    have run: "accept_workspace_invite s uid token w = bindE (transaction (accept_invite_tx s uid ?h)) (\<lambda>wid. get_workspace_member wid uid) w"
      using False by (simp add: accept_workspace_invite_def Let_def)
    show thesis
    proof (cases x)
      case (Inl e)
      with x run assms transaction_Inl_db refused show thesis by (fastforce simp: bindE_def)
    next
      case (Inr wid)
      obtain w2 where w2: "accept_invite_tx s uid ?h w = (Inr wid, w2)" "w1 = tick w2"
        using transaction_Inr [OF x [unfolded Inr]] by (elim exE conjE)
      from wp_InrD [OF accept_tx_wp w2(1)] obtain i where i: "find_token ?h (db w) = Some i"
        "wid = uuid_nil \<and> lapsed (env_now (env w) (Suc (calls w))) i (db w) (db w2)
         \<or> wid = inv_WorkspaceID i \<and> redeemed s uid (env_now (env w) (Suc (calls w))) i (db w) (db w2)" by blast
      have g: "get_workspace_member wid uid w1 = (r, w')" using run assms x Inr by (simp add: bindE_app)
      have "db w' = db w1" using db_kept [of "get_workspace_member wid uid"] keeps_reads(5) g by blast
      then have d: "db w' = db w2" "db w1 = db w'" using w2(2) by simp_all
      show thesis using i(2)
      proof
        assume "wid = uuid_nil \<and> lapsed (env_now (env w) (Suc (calls w))) i (db w) (db w2)"
        with i(1) g d lapsed show thesis by auto
      next
        assume "wid = inv_WorkspaceID i \<and> redeemed s uid (env_now (env w) (Suc (calls w))) i (db w) (db w2)"
        with i(1) g d redeemed show thesis by auto
      qed
    qed
  qed
qed

section \<open>Properties\<close>

text \<open>
  C29: Nobody becomes owner of a workspace: in any run of workspace operations by any users, with
  any faults, the owner role is held in the members table only by the user that owns the
  workspace, no invite offers it, member keys and invite tokens stay unique, and personal
  workspaces belong to their users.
\<close>

theorem workspaces_invariant:
  assumes "workspace_steps w w'" "ids_ok (env w)" "workspaces_ok (personal_workspace_id w) (db w)"
  shows "workspaces_ok (personal_workspace_id w) (db w')"
proof -
  have p: "personal_workspace_id w = env_personal_workspace (env w)" by (simp add: personal_workspace_id_def fun_eq_iff)
  show ?thesis using workspace_steps_ok [OF assms(1), of "env w"] assms(2,3) by (simp add: on_ok_def p)
qed

text \<open>
  Without the permission to manage members an actor changes nothing: renaming a workspace,
  adding, changing or removing members, making, listing or revoking invites all return an error and
  leave every table as it was, whatever database calls fail.
\<close>

theorem managed_ops_guarded:
  assumes "run_managed s wid uid op w = (r, w')" "faults_opaque w" "\<not> may_manage (db w) wid uid"
  shows "(\<exists>e. r = Inl e) \<and> db w' = db w"
proof -
  obtain f where "run_managed s wid uid op = bindE (require_permission wid uid PermissionManageMembers) f"
    using run_managed_guard by blast
  from guarded_by_permission [OF this assms] show ?thesis .
qed

lemma get_workspace_member_Inr:
  "get_workspace_member wid uid w = (Inr m, w') \<Longrightarrow> \<exists>row. find_member wid uid (db w) = Some row \<and> md_Role m = mem_Role row"
  unfolding get_workspace_member_def
  by (auto simp: bindE_Inr workspace_member_from_model_def dest!: first_row_Inr)

lemma accept_effect:
  assumes "accept_workspace_invite s uid token w = (Inr m, w')" "workspaces_ok pws (db w)"
  shows "\<exists>i row. find_token (hash_workspace_invite_token s (trim_space token)) (db w) = Some i
     \<and> redeemed s uid (env_now (env w) (Suc (calls w))) i (db w) (db w')
     \<and> find_member (inv_WorkspaceID i) uid (db w') = Some row \<and> mem_Role row = inv_Role i \<and> md_Role m = inv_Role i"
  using assms(1)
proof (cases rule: accept_cases)
  case (lapsed i)
  then obtain w1 where "db w1 = db w'" "get_workspace_member uuid_nil uid w1 = (Inr m, w')" by blast
  then obtain row where "find_member uuid_nil uid (db w') = Some row" using get_workspace_member_Inr by fastforce
  moreover have "workspaces_ok pws (db w')"
    using keeps_dbD [where J = "workspaces_ok pws"] keeps_ok_accept assms by blast
  ultimately show ?thesis by (simp add: accept_nil_workspace)
next
  case (redeemed i)
  then obtain w1 where "db w1 = db w'" "get_workspace_member (inv_WorkspaceID i) uid w1 = (Inr m, w')" by blast
  then obtain row where row: "find_member (inv_WorkspaceID i) uid (db w') = Some row" "md_Role m = mem_Role row"
    using get_workspace_member_Inr by fastforce
  obtain t where t: "members (db w') = upsert_member_rows (invited_member i uid (env_now (env w) (Suc (calls w))) t) (members (db w))"
    using redeemed(2) by (auto simp: redeemed_def)
  have "distinct (map member_key (members (db w)))" using assms(2) by (simp add: workspaces_ok_def)
  from upsert_member_found [OF this, of "invited_member i uid (env_now (env w) (Suc (calls w))) t"]
  have "mem_Role row = inv_Role i"
    using row(1) unfolding find_member_def t by (auto simp: same_member_def [abs_def] invited_member_def)
  with redeemed row show ?thesis by auto
qed simp

text \<open>
  What accepting an invite did when it succeeds: the token is that of a stored invite that was
  pending and not yet expired, the stored user's e-mail is the invited one up to case, the user is
  a member of the invite's workspace with the invite's role now and the answer says so, and the
  invite is accepted.
\<close>

theorem accept_invite_effect:
  assumes "accept_workspace_invite s uid token w = (Inr m, w')" "workspaces_ok pws (db w)"
  shows "\<exists>i u row. i \<in> set (invites (db w)) \<and> inv_TokenHash i = hash_workspace_invite_token s (trim_space token)
     \<and> inv_Status i = WorkspaceInviteStatusPending \<and> env_now (env w) (Suc (calls w)) < inv_ExpiresAt i
     \<and> u \<in> set (users (db w)) \<and> user_ID u = uid \<and> equal_fold s (user_Email u) (inv_Email i)
     \<and> find_member (inv_WorkspaceID i) uid (db w') = Some row \<and> mem_Role row = inv_Role i \<and> md_Role m = inv_Role i
     \<and> (\<exists>i'\<in>set (invites (db w')). inv_ID i' = inv_ID i \<and> inv_Status i' = WorkspaceInviteStatusAccepted \<and> inv_AcceptedBy i' = Some uid)"
proof -
  let ?now = "env_now (env w) (Suc (calls w))"
  obtain i row where i: "find_token (hash_workspace_invite_token s (trim_space token)) (db w) = Some i"
    and r: "redeemed s uid ?now i (db w) (db w')"
    and row: "find_member (inv_WorkspaceID i) uid (db w') = Some row" "mem_Role row = inv_Role i" "md_Role m = inv_Role i"
    using accept_effect [OF assms] by blast
  have mem: "i \<in> set (invites (db w))" "inv_TokenHash i = hash_workspace_invite_token s (trim_space token)"
    using find_Some_set [OF i [unfolded find_token_def]] by simp_all
  obtain u where u: "find_user uid (db w) = Some u" "equal_fold s (user_Email u) (inv_Email i)"
    using r by (auto simp: redeemed_def)
  have "u \<in> set (users (db w))" "user_ID u = uid" using find_Some_set [OF u(1) [unfolded find_user_def]] by simp_all
  moreover have "\<exists>i'\<in>set (invites (db w')). inv_ID i' = inv_ID i \<and> inv_Status i' = WorkspaceInviteStatusAccepted \<and> inv_AcceptedBy i' = Some uid"
  proof (rule bexI)
    show "invite_accepted uid ?now i \<in> set (invites (db w'))"
      using r mem(1) unfolding redeemed_def by (auto simp: set_update_rows)
  qed (simp add: invite_accepted_def)
  ultimately show ?thesis using mem u(2) row r
    by (intro exI [of _ i] exI [of _ u] exI [of _ row]) (simp add: redeemed_def)
qed

text \<open>A token whose invite is no longer pending stays so under every operation.\<close>

definition burnt :: "string \<Rightarrow> db \<Rightarrow> bool" where
  "burnt h d \<longleftrightarrow> (\<exists>i\<in>set (invites d). inv_TokenHash i = h \<and> inv_Status i \<noteq> WorkspaceInviteStatusPending)"

lemma burnt_other [simp]: "burnt h (d\<lparr>members := a\<rparr>) = burnt h d" "burnt h (d\<lparr>workspaces := b\<rparr>) = burnt h d"
  "burnt h (d\<lparr>workspace_activities := c\<rparr>) = burnt h d" "burnt h (d\<lparr>projects := p\<rparr>) = burnt h d"
  by (simp_all add: burnt_def)

lemma burnt_append: "burnt h d \<Longrightarrow> burnt h (d\<lparr>invites := invites d @ xs\<rparr>)"
  by (auto simp: burnt_def)

lemma burnt_update:
  assumes "burnt h d" "\<And>i. inv_TokenHash (f i) = inv_TokenHash i" "\<And>i. inv_Status (f i) \<noteq> WorkspaceInviteStatusPending"
  shows "burnt h (d\<lparr>invites := update_rows p f (invites d)\<rparr>)"
proof -
  obtain i where i: "i \<in> set (invites d)" "inv_TokenHash i = h" "inv_Status i \<noteq> WorkspaceInviteStatusPending"
    using assms(1) by (auto simp: burnt_def)
  define j where "j = (if p i then f i else i)"
  have "j \<in> set (update_rows p f (invites d))" unfolding set_update_rows j_def using i(1) by (rule imageI)
  moreover have "inv_TokenHash j = h" "inv_Status j \<noteq> WorkspaceInviteStatusPending"
    using i assms(2,3) by (simp_all add: j_def)
  ultimately show ?thesis by (auto simp: burnt_def)
qed

lemma keeps_burnt_ops:
  "keeps (on_db (burnt h)) (update_workspace wid uid n sl)" "keeps (on_db (burnt h)) (remove_workspace_member wid uid target)"
  "keeps (on_db (burnt h)) (update_workspace_member wid uid target role)" "keeps (on_db (burnt h)) (add_workspace_member s wid uid req)"
  "keeps (on_db (burnt h)) (create_workspace_invite s wid uid req')" "keeps (on_db (burnt h)) (list_workspace_invites wid uid)"
  "keeps (on_db (burnt h)) (accept_workspace_invite s uid token)" "keeps (on_db (burnt h)) (revoke_workspace_invite wid uid i)"
  "keeps (on_db (burnt h)) (create_workspace uid n sl)" "keeps (on_db (burnt h)) (ensure_personal_workspace uid)"
  "keeps (on_db (burnt h)) (list_workspaces uid)"
  unfolding update_workspace_def remove_workspace_member_def update_workspace_member_def add_workspace_member_def
    create_workspace_invite_def list_workspace_invites_def expire_workspace_invites_def accept_workspace_invite_def
    accept_invite_tx_def revoke_workspace_invite_def create_workspace_def ensure_personal_workspace_def
    list_workspaces_def ensure_personal_workspace_with_db_def insert_invite_def insert_workspace_def insert_member_def
    insert_workspace_or_nothing_def insert_member_or_nothing_def Let_def
  by ((intro keeps_intros keeps_upsert_member burnt_update burnt_append); simp)+

lemma workspace_step_burnt: "workspace_step w w' \<Longrightarrow> burnt h (db w) \<Longrightarrow> burnt h (db w')"
proof (induction rule: workspace_step.induct)
  case (managed s wid uid op w r w')
  have "keeps (on_db (burnt h)) (run_managed s wid uid op)"
    by (cases op) (auto intro!: keeps_void keeps_burnt_ops)
  from keeps_dbD [OF this managed] show ?case .
next
  case (listed uid w rl w')
  from keeps_dbD [OF keeps_burnt_ops(11) listed] show ?case .
next
  case (ensured uid w re w')
  from keeps_dbD [OF keeps_burnt_ops(10) ensured] show ?case .
next
  case (created uid n sl w rc w')
  from keeps_dbD [OF keeps_burnt_ops(9) created] show ?case .
next
  case (accepted s uid token w ra w')
  from keeps_dbD [OF keeps_burnt_ops(7) accepted] show ?case .
qed

lemma workspace_steps_burnt: "workspace_steps w w' \<Longrightarrow> burnt h (db w) \<Longrightarrow> burnt h (db w')"
  by (induction rule: workspace_steps.induct) (simp_all add: workspace_step_burnt)

lemma accept_burnt:
  assumes "accept_workspace_invite s uid token w = (r, w')" "burnt (hash_workspace_invite_token s (trim_space token)) (db w)"
    "distinct (map inv_TokenHash (invites (db w)))"
  shows "(\<exists>e. r = Inl e) \<and> db w' = db w"
proof -
  let ?h = "hash_workspace_invite_token s (trim_space token)"
  have no: "inv_Status i \<noteq> WorkspaceInviteStatusPending" if "find_token ?h (db w) = Some i" for i
  proof -
    obtain j where j: "j \<in> set (invites (db w))" "inv_TokenHash j = ?h" "inv_Status j \<noteq> WorkspaceInviteStatusPending"
      using assms(2) by (auto simp: burnt_def)
    have "i \<in> set (invites (db w))" "inv_TokenHash i = ?h" using find_Some_set [OF that [unfolded find_token_def]] by simp_all
    then have "i = j" using row_by_id [OF assms(3) j(1)] j(2) by simp
    with j show ?thesis by simp
  qed
  from assms(1) show ?thesis
    by (cases rule: accept_cases) (auto simp: lapsed_def redeemed_def dest: no)
qed

text \<open>
  C30: An invite can be redeemed once: after a successful acceptance, whatever operations any users
  run, every later acceptance of the same token fails and leaves every table as it was.
\<close>

theorem invite_single_use:
  assumes "accept_workspace_invite s uid token w = (Inr m, w1)" "workspaces_ok (personal_workspace_id w) (db w)" "ids_ok (env w)"
    and "workspace_steps w1 w2" "accept_workspace_invite s uid' token w2 = (r, w3)"
  shows "(\<exists>e. r = Inl e) \<and> db w3 = db w2"
proof (rule accept_burnt [OF assms(5)])
  have p: "personal_workspace_id w = env_personal_workspace (env w)" by (simp add: personal_workspace_id_def fun_eq_iff)
  have "workspace_steps w w1" by (rule workspace_steps.more [OF workspace_steps.none workspace_step.accepted [OF assms(1)]])
  then have "on_ok (env w) w1" using workspace_steps_ok [of w w1 "env w"] assms(2,3) by (simp add: on_ok_def p)
  then have "on_ok (env w) w2" using workspace_steps_ok [OF assms(4)] assms(3) by simp
  then show "distinct (map inv_TokenHash (invites (db w2)))" by (simp add: on_ok_def workspaces_ok_def)
  obtain i where i: "find_token (hash_workspace_invite_token s (trim_space token)) (db w) = Some i"
    "redeemed s uid (env_now (env w) (Suc (calls w))) i (db w) (db w1)" using accept_effect [OF assms(1,2)] by blast
  have "i \<in> set (invites (db w))" "inv_TokenHash i = hash_workspace_invite_token s (trim_space token)"
    using find_Some_set [OF i(1) [unfolded find_token_def]] by simp_all
  then have "burnt (hash_workspace_invite_token s (trim_space token)) (db w1)"
    using i(2) unfolding redeemed_def burnt_def
    by (auto simp: set_update_rows invite_accepted_def intro!: bexI [of _ "invite_accepted uid (env_now (env w) (Suc (calls w))) i"])
  with assms(4) show "burnt (hash_workspace_invite_token s (trim_space token)) (db w2)" by (rule workspace_steps_burnt)
qed


lemma filter_key: "distinct (map k rs) \<Longrightarrow> r \<in> set rs \<Longrightarrow> filter (\<lambda>x. k x = k r) rs = [r]"
  by (induction rs) (auto simp: filter_empty_conv rev_image_eqI)

text \<open>
  Accepting an expired invite marks the invite expired, but the transaction then returns
  without an error and the code goes on to load the member of the nil workspace: the caller gets
  \<open>record not found\<close> and not \<open>ErrInvalidWorkspaceInvite\<close>.
\<close>

theorem expired_invite_reports_not_found:
  assumes "no_fault w" "workspaces_ok pws (db w)" "uid \<noteq> uuid_nil"
    and "find (\<lambda>i. inv_TokenHash i = hash_workspace_invite_token s (trim_space token)) (invites (db w)) = Some i"
    and "hash_workspace_invite_token s (trim_space token) \<noteq> ''''" "inv_Status i = WorkspaceInviteStatusPending"
    and "inv_ExpiresAt i \<le> env_now (env w) (Suc (calls w))"
  shows "fst (accept_workspace_invite s uid token w) = Inl ErrRecordNotFound
    \<and> map inv_Status (filter (\<lambda>x. inv_ID x = inv_ID i) (invites (db (snd (accept_workspace_invite s uid token w)))))
      = [WorkspaceInviteStatusExpired]"
proof -
  obtain r w' where run: "accept_workspace_invite s uid token w = (r, w')" by fastforce
  have f: "find_token (hash_workspace_invite_token s (trim_space token)) (db w) = Some i"
    using assms(4) by (simp add: find_token_def)
  have mem: "i \<in> set (invites (db w))" "distinct (map inv_ID (invites (db w)))"
    using find_Some_set [OF assms(4)] assms(2) by (simp_all add: workspaces_ok_def)
  have tx: "\<exists>w1. accept_invite_tx s uid (hash_workspace_invite_token s (trim_space token)) w = (Inr uuid_nil, w1) \<and> no_fault w1
      \<and> lapsed (env_now (env w) (Suc (calls w))) i (db w) (db w1)"
    using assms by (simp add: accept_invite_tx_def bindE_first_row_ok update_invites_def bindE_exec_ok lapsed_def invite_expired_def [abs_def])
  then obtain w1 where w1: "accept_invite_tx s uid (hash_workspace_invite_token s (trim_space token)) w = (Inr uuid_nil, w1)"
    "no_fault w1" "lapsed (env_now (env w) (Suc (calls w))) i (db w) (db w1)" by blast
  have "workspaces_ok pws (db w1)" using keeps_dbD [OF keeps_ok_accept_tx w1(1) assms(2)] .
  then have "find_member uuid_nil uid (db (tick w1)) = None" by (simp add: accept_nil_workspace)
  then have g: "get_workspace_member uuid_nil uid (tick w1) = (Inl ErrRecordNotFound, tick (tick w1))"
    using w1(2) by (simp add: get_workspace_member_def bindE_first_row_missing)
  have "env_fault (env w1) (calls w1) = None" using w1(2) by (simp add: no_fault_def)
  then have "transaction (accept_invite_tx s uid (hash_workspace_invite_token s (trim_space token))) w = (Inr uuid_nil, tick w1)"
    using w1(1) by (simp add: transaction_def)
  with g assms(3,5) run have "r = Inl ErrRecordNotFound" "w' = tick (tick w1)"
    by (auto simp: accept_workspace_invite_def Let_def bindE_app)
  moreover have "map inv_Status (filter (\<lambda>x. inv_ID x = inv_ID i) (invites (db w1))) = [WorkspaceInviteStatusExpired]"
  proof -
    have "filter (\<lambda>x. inv_ID x = inv_ID i) (invites (db w)) = [i]" by (rule filter_key [OF mem(2,1)])
    then have "filter (\<lambda>x. inv_ID x = inv_ID i) (invites (db w1)) = [invite_expired (env_now (env w) (Suc (calls w))) i]"
      using w1(3) by (simp add: lapsed_def update_rows_def filter_map o_def invite_expired_def if_distrib cong: if_cong)
    then show ?thesis by (simp add: invite_expired_def)
  qed
  ultimately show ?thesis using run by simp
qed

text \<open>
  The activity that records a change of role does not say what the role was: \<open>gorm\<close> writes the
  new role into the row value before the code reads \<open>previous_role\<close> from it, so both entries of
  the metadata are the new role.
\<close>

theorem role_change_forgets_previous:
  assumes "update_workspace_member wid actor target role w = (Inr m, w')"
  shows "workspace_activities (db w') = workspace_activities (db w) \<or>
    (\<exists>a. workspace_activities (db w') = workspace_activities (db w) @ [a]
      \<and> wact_EventType a = WorkspaceActivityMemberRoleChanged
      \<and> wact_Metadata a = [(''previous_role'', trim_space role), (''role'', trim_space role)])"
proof -
  let ?A = "workspace_activities (db w)"
  let ?Q = "\<lambda>d. workspace_activities d = ?A \<or> (\<exists>a. workspace_activities d = ?A @ [a]
      \<and> wact_EventType a = WorkspaceActivityMemberRoleChanged
      \<and> wact_Metadata a = [(''previous_role'', trim_space role), (''role'', trim_space role)])"
  have act: "wp (record_workspace_activity wid actor WorkspaceActivityMemberRoleChanged (Some target)
      [(''previous_role'', trim_space role), (''role'', trim_space role)]) (\<lambda>_. on_db ?Q) (\<lambda>_ _. True) w1"
    if "workspace_activities (db w1) = ?A" for w1
    unfolding record_workspace_activity_def
    by (rule wp_bindE, rule wp_uuid_new, rule wp_bindE, rule wp_now_utc, rule wp_create_row)
      (use that in \<open>simp_all add: on_db_def workspace_activity_before_create_def\<close>)
  have r: "x = trim_space role" if "normalize_workspace_member_role role = Inr x" for x
    using that by (auto simp: normalize_workspace_member_role_def Let_def split: if_splits)
  have tx: "wp (transaction (bindE (update_members p f) (\<lambda>_. record_workspace_activity wid actor WorkspaceActivityMemberRoleChanged (Some target)
      [(''previous_role'', trim_space role), (''role'', trim_space role)]))) (\<lambda>_. on_db ?Q) (\<lambda>_ _. True) w1"
    if "workspace_activities (db w1) = ?A" for w1 p f
    by (rule wp_transaction, rule wp_bindE, unfold update_members_def, rule wp_exec, simp, rule wp_conseq [OF act])
      (use that in \<open>simp_all add: on_db_def\<close>)
  let ?J = "\<lambda>d. workspace_activities d = ?A"
  have "wp (update_workspace_member wid actor target role) (\<lambda>_. on_db ?Q) (\<lambda>_ _. True) w"
  proof (cases "normalize_workspace_member_role role")
    case (Inl e)
    have "keeps (on_db ?J) (update_workspace_member wid actor target role)"
      unfolding update_workspace_member_def Inl by (intro keeps_intros keeps_liftS_bind) simp_all
    then show ?thesis by (rule wp_keeps) (simp_all add: on_db_def)
  next
    case (Inr x)
    note x = r [OF Inr]
    show ?thesis unfolding update_workspace_member_def Inr Let_def x
      apply (rule wp_bindE, rule wp_keeps [OF keeps_reads(3) [where J = ?J]], simp add: on_db_def)
       apply (rule wp_If, rule wp_throw, simp, rule wp_bindE, rule wp_conseq [where Q' = "\<lambda>y w1. y = trim_space role \<and> on_db ?J w1" and E' = "\<lambda>_ _. True"])
         apply (simp add: liftS_def wp_def)
        apply (elim conjE, simp only:)
        apply (rule wp_bindE, rule wp_keeps [OF keeps_db_first_row [where J = ?J]], assumption)
         apply (rule wp_If, rule wp_throw, simp, rule wp_bindE, rule wp_keeps [OF keeps_db_first_row [where J = ?J]], assumption)
          apply (rule wp_If, rule wp_keeps [OF keeps_reads(5) [where J = ?J]], assumption, simp add: on_db_def, simp)
          apply (rule wp_bindE, simp, rule wp_conseq [OF tx], simp add: on_db_def)
           apply (rule wp_keeps [OF keeps_reads(5) [where J = ?Q]], assumption, assumption)
      by simp_all
  qed
  from wp_InrD [OF this assms] show ?thesis by (simp add: on_db_def)
qed

section \<open>A concrete workspace\<close>

text \<open>
  Workspace 3 of user 6 with the administrator 8 and a pending invite of its owner's own address;
  \<open>uuid.New\<close> makes odd ids and personal workspaces have even ones.
\<close>

definition team_service :: workspace_service where
  "team_service = \<lparr>wsv_lower = id, wsv_fold = (=), wsv_sql_lower = id, wsv_sha256 = id, wsv_random = (\<lambda>_. Inr ''r'')\<rparr>"

definition team_owner :: user where
  "team_owner = \<lparr>user_ID = 6, user_Username = ''o'', user_Email = ''O@x''\<rparr>"

definition team_invite :: workspace_invite where
  "team_invite = \<lparr>inv_ID = 9, inv_WorkspaceID = 3, inv_Email = ''o@x'', inv_Role = WorkspaceRoleViewer, inv_InvitedBy = 8,
     inv_AcceptedBy = None, inv_Status = WorkspaceInviteStatusPending, inv_TokenHash = ''dA'', inv_ExpiresAt = 5,
     inv_AcceptedAt = None, inv_RevokedAt = None, inv_CreatedAt = 0, inv_UpdatedAt = 0\<rparr>"

definition owner_member :: workspace_member where
  "owner_member = \<lparr>mem_WorkspaceID = 3, mem_UserID = 6, mem_Role = WorkspaceRoleOwner, mem_InvitedBy = None,
     mem_JoinedAt = None, mem_CreatedAt = 0\<rparr>"

definition team_db :: db where
  "team_db = empty_db\<lparr>users := [team_owner], workspaces := [sample_workspace], members := [owner_member, sample_member],
     invites := [team_invite]\<rparr>"

definition team_env :: env where
  "team_env = calm_env\<lparr>env_uuid := (\<lambda>n. 2 * n + 1), env_personal_workspace := (\<lambda>u. 2 * u + 2)\<rparr>"

definition team_world :: "db \<Rightarrow> world" where
  "team_world d = (start_world d)\<lparr>env := team_env\<rparr>"

lemma team_world_simps [simp]: "db (team_world d) = d" "calls (team_world d) = 0" "no_fault (team_world d)"
  "env (team_world d) = team_env" "personal_workspace_id (team_world d) u = 2 * u + 2"
  "env_now team_env n = int n" "env_fault team_env n = None"
  by (simp_all add: team_world_def no_fault_def team_env_def personal_workspace_id_def)

lemma team_ids: "ids_ok team_env"
proof -
  have "odd (2 * n + 1 :: nat)" "even (2 * u + 2 :: nat)" for n u :: nat by simp_all
  then have "2 * n + 1 \<noteq> 2 * u + (2 :: nat)" for n u :: nat by presburger
  then show ?thesis by (auto simp: ids_ok_def team_env_def pws_ok_def inj_def)
qed

lemma team_rows: "ws_ID sample_workspace = 3" "ws_OwnerUserID sample_workspace = 6" "inv_ID team_invite = 9"
  "inv_TokenHash team_invite = ''dA''" "inv_Status team_invite = WorkspaceInviteStatusPending" "inv_ExpiresAt team_invite = 5"
  "user_ID team_owner = 6" "inv_WorkspaceID team_invite = 3" "inv_Role team_invite = WorkspaceRoleViewer"
  by (simp_all add: sample_workspace_def team_invite_def team_owner_def)

lemma team_ok: "workspaces_ok (\<lambda>u. 2 * u + 2) team_db"
proof -
  have "3 \<noteq> 2 * u + (2 :: nat)" for u by presburger
  then show ?thesis
    by (simp add: workspaces_ok_def team_db_def empty_db_def owner_member_def sample_member_def member_key_def
        member_allowed_def invite_allowed_def assignable_roles_def team_rows)
qed

lemma team_token: "hash_workspace_invite_token team_service (trim_space ''t'') = ''dA''"
  by code_simp

lemma team_accept:
  obtains m w' where "accept_workspace_invite team_service 6 ''t'' (team_world team_db) = (Inr m, w')"
proof -
  have f: "find (\<lambda>i. inv_TokenHash i = ''dA'') (invites team_db) = Some team_invite" "find_user 6 team_db = Some team_owner"
    by (simp_all add: team_db_def find_user_def team_rows)
  have rows: "workspace_activities team_db = []" "members team_db = [owner_member, sample_member]"
    by (simp_all add: team_db_def empty_db_def)
  have keys: "mem_WorkspaceID owner_member = 3" "mem_UserID owner_member = 6" "mem_WorkspaceID sample_member = 3" "mem_UserID sample_member = 8"
    by (simp_all add: owner_member_def sample_member_def)
  have "equal_fold team_service (user_Email team_owner) (inv_Email team_invite)" by code_simp
  then have "\<exists>w1. accept_invite_tx team_service 6 ''dA'' (team_world team_db) = (Inr 3, w1) \<and> no_fault w1
    \<and> find_member 3 6 (db w1) \<noteq> None"
    by (simp add: accept_invite_tx_def bindE_first_row_ok f team_rows upsert_member_def update_invites_def bindE_bindE_app
        bindE_exec_ok record_workspace_activity_def bindE_create_row_ok rows upsert_member_rows_def
        same_member_def keys find_member_def update_rows_def assign_member_def)
  then obtain w1 where w1: "accept_invite_tx team_service 6 ''dA'' (team_world team_db) = (Inr 3, w1)" "no_fault w1"
    "find_member 3 6 (db w1) \<noteq> None" by blast
  then have "transaction (accept_invite_tx team_service 6 ''dA'') (team_world team_db) = (Inr 3, tick w1)"
    by (simp add: transaction_def no_fault_def)
  moreover obtain row where "find_member 3 6 (db (tick w1)) = Some row" using w1(3) by auto
  then have "\<exists>m w'. get_workspace_member 3 6 (tick w1) = (Inr m, w')" using w1(2)
    by (simp add: get_workspace_member_def bindE_first_row_ok bindE_select_ok)
  ultimately have "\<exists>m w'. accept_workspace_invite team_service 6 ''t'' (team_world team_db) = (Inr m, w')"
    by (simp add: accept_workspace_invite_def team_token bindE_app Let_def)
  then show thesis using that by blast
qed

theorem workspaces_invariant_witness:
  "\<exists>w'. workspace_steps (team_world team_db) w' \<and> workspaces_ok (\<lambda>u. 2 * u + 2) (db w')
     \<and> inv_Status (hd (invites (db w'))) = WorkspaceInviteStatusAccepted"
proof -
  obtain m w' where a: "accept_workspace_invite team_service 6 ''t'' (team_world team_db) = (Inr m, w')" by (rule team_accept)
  have st: "workspace_steps (team_world team_db) w'"
    by (rule workspace_steps.more [OF workspace_steps.none workspace_step.accepted [OF a]])
  have p: "personal_workspace_id (team_world team_db) = (\<lambda>u. 2 * u + 2)" by (simp add: fun_eq_iff)
  have "workspaces_ok (\<lambda>u. 2 * u + 2) (db w')"
    using workspaces_invariant [OF st] team_ids team_ok unfolding p by simp
  moreover have "inv_Status (hd (invites (db w'))) = WorkspaceInviteStatusAccepted"
    using accept_effect [OF a, of "\<lambda>u. 2 * u + 2"] team_ok
    by (auto simp: redeemed_def find_token_def team_db_def team_token team_rows update_rows_def invite_accepted_def)
  ultimately show ?thesis using st by blast
qed

theorem managed_ops_guarded_witness:
  "\<exists>e w'. run_managed team_service 3 6 (RemoveMember 8) (team_world (team_db\<lparr>workspaces := []\<rparr>)) = (Inl e, w')
     \<and> db w' = team_db\<lparr>workspaces := []\<rparr>"
proof -
  let ?w = "team_world (team_db\<lparr>workspaces := []\<rparr>)"
  have "\<not> may_manage (db ?w) 3 6" by (simp add: may_manage_def workspace_role_of_def find_workspace_def)
  moreover have "faults_opaque ?w" by (rule no_fault_opaque) simp
  ultimately show ?thesis
    using managed_ops_guarded [of team_service 3 6 "RemoveMember 8" ?w]
    by (cases "run_managed team_service 3 6 (RemoveMember 8) ?w") auto
qed

theorem accept_invite_effect_witness:
  "\<exists>m w'. accept_workspace_invite team_service 6 ''t'' (team_world team_db) = (Inr m, w') \<and> md_Role m = WorkspaceRoleViewer"
proof -
  obtain m w' where a: "accept_workspace_invite team_service 6 ''t'' (team_world team_db) = (Inr m, w')" by (rule team_accept)
  moreover have "md_Role m = WorkspaceRoleViewer"
    using accept_invite_effect [OF a, of "\<lambda>u. 2 * u + 2"] team_ok by (auto simp: team_db_def team_rows)
  ultimately show ?thesis by blast
qed

theorem invite_single_use_witness:
  "\<exists>m w1 e w3. accept_workspace_invite team_service 6 ''t'' (team_world team_db) = (Inr m, w1)
     \<and> accept_workspace_invite team_service 6 ''t'' w1 = (Inl e, w3) \<and> db w3 = db w1"
proof -
  obtain m w1 where a: "accept_workspace_invite team_service 6 ''t'' (team_world team_db) = (Inr m, w1)" by (rule team_accept)
  obtain r w3 where b: "accept_workspace_invite team_service 6 ''t'' w1 = (r, w3)" by fastforce
  have p: "personal_workspace_id (team_world team_db) = (\<lambda>u. 2 * u + 2)" by (simp add: fun_eq_iff)
  have "(\<exists>e. r = Inl e) \<and> db w3 = db w1"
    using invite_single_use [OF a _ _ workspace_steps.none b] team_ids team_ok unfolding p by simp
  with a b show ?thesis by blast
qed


theorem expired_invite_reports_not_found_witness:
  "fst (accept_workspace_invite team_service 6 ''t'' (team_world (team_db\<lparr>invites := [team_invite\<lparr>inv_ExpiresAt := 0\<rparr>]\<rparr>)))
     = Inl ErrRecordNotFound"
proof -
  let ?d = "team_db\<lparr>invites := [team_invite\<lparr>inv_ExpiresAt := 0\<rparr>]\<rparr>"
  have "workspaces_ok (\<lambda>u. 2 * u + 2) ?d"
    using team_ok by (simp add: workspaces_ok_def team_db_def invite_allowed_def)
  then show ?thesis
    using expired_invite_reports_not_found [of "team_world ?d" "\<lambda>u. 2 * u + 2" 6 team_service "''t''" "team_invite\<lparr>inv_ExpiresAt := 0\<rparr>"]
    unfolding team_token by (simp add: team_rows)
qed

lemma team_change_role:
  obtains m w' where "update_workspace_member 3 6 8 ''viewer'' (team_world team_db) = (Inr m, w')"
    "length (workspace_activities (db w')) = 1"
proof -
  have f: "find_workspace 3 team_db = Some sample_workspace" "find_member 3 8 team_db = Some sample_member"
    by (simp_all add: team_db_def find_workspace_def find_member_def owner_member_def sample_workspace_def sample_member_def)
  have keys: "mem_WorkspaceID owner_member = 3" "mem_UserID owner_member = 6" "mem_WorkspaceID sample_member = 3"
    "mem_UserID sample_member = 8" "mem_Role sample_member = WorkspaceRoleAdmin"
    by (simp_all add: owner_member_def sample_member_def)
  have rows: "workspace_activities team_db = []" "members team_db = [owner_member, sample_member]"
    by (simp_all add: team_db_def empty_db_def)
  have role: "normalize_workspace_member_role ''viewer'' = Inr ''viewer''" by code_simp
  have perm: "role_has_permission WorkspaceRoleOwner PermissionManageMembers"
    by (simp add: role_has_permission_def role_permissions_def)
  have chk: "require_workspace_manager 3 6 (team_world team_db) = (Inr WorkspaceRoleOwner, tick (team_world team_db))"
  proof -
    have "workspace_access_role 3 6 (team_world team_db) = (Inr WorkspaceRoleOwner, tick (team_world team_db))"
      by (simp add: workspace_access_role_def bindE_first_row_ok f team_rows)
    then show ?thesis using perm
      by (simp add: require_workspace_manager_def require_permission_def require_workspace_permission_def bindE_app)
  qed
  let ?tx = "bindE (update_members (same_member sample_member) (\<lambda>m. m\<lparr>mem_Role := ''viewer''\<rparr>)) (\<lambda>_.
     record_workspace_activity 3 6 WorkspaceActivityMemberRoleChanged (Some 8) [(''previous_role'', ''viewer''), (''role'', ''viewer'')])"
  let ?w = "tick (tick (tick (team_world team_db)))"
  have "\<exists>w1. ?tx ?w = (Inr (), w1) \<and> no_fault w1 \<and> length (workspace_activities (db w1)) = 1 \<and> find_member 3 8 (db w1) \<noteq> None"
    by (simp add: update_members_def bindE_exec_ok record_workspace_activity_def create_row_ok rows find_member_def
        update_rows_def same_member_def keys)
  then obtain w1 where w1: "?tx ?w = (Inr (), w1)" "no_fault w1" "length (workspace_activities (db w1)) = 1"
    "find_member 3 8 (db w1) \<noteq> None" by blast
  then have "transaction ?tx ?w = (Inr (), tick w1)" by (simp add: transaction_def no_fault_def)
  then have "update_workspace_member 3 6 8 ''viewer'' (team_world team_db) = get_workspace_member 3 8 (tick w1)"
    using f by (simp add: update_workspace_member_def bindE_app [where m = "require_workspace_manager 3 6" and w = "team_world team_db", OF chk] role liftS_def bindE_first_row_ok team_rows keys bindE_app)
  moreover obtain row where "find_member 3 8 (db (tick w1)) = Some row" using w1(4) by auto
  ultimately have "\<exists>m w'. update_workspace_member 3 6 8 ''viewer'' (team_world team_db) = (Inr m, w') \<and> db w' = db w1"
    using w1(2) by (simp add: get_workspace_member_def bindE_first_row_ok bindE_select_ok)
  then show thesis using that w1(3) by fastforce
qed

theorem role_change_forgets_previous_witness:
  "\<exists>m w' a. update_workspace_member 3 6 8 ''viewer'' (team_world team_db) = (Inr m, w') \<and> workspace_activities (db w') = [a]
     \<and> wact_Metadata a = [(''previous_role'', ''viewer''), (''role'', ''viewer'')]"
proof -
  obtain m w' where r: "update_workspace_member 3 6 8 ''viewer'' (team_world team_db) = (Inr m, w')"
    and l: "length (workspace_activities (db w')) = 1" by (rule team_change_role)
  have "trim_space ''viewer'' = ''viewer''" by code_simp
  moreover have "workspace_activities team_db = []" by (simp add: team_db_def empty_db_def)
  ultimately show ?thesis using role_change_forgets_previous [OF r] l r by auto
qed

end
