(* ===== verification/Platform_Account.thy ===== *)
theory Platform_Account
  imports Publish_Service
begin

text \<open>
  \<open>services/platform_account/service.go\<close>: who may use an account of a platform, and the account a
  publication is published with. Merging the saved credentials of the account into the
  configuration of the publication (\<open>wechat.go\<close>, \<open>x.go\<close>) is the parameter \<open>apply\<close>; caches and the
  connection testers are left out.
\<close>

section \<open>Accounts\<close>

definition PlatformAccountStatusUntested :: string where "PlatformAccountStatusUntested = ''untested''"
definition PlatformAccountStatusConnected :: string where "PlatformAccountStatusConnected = ''connected''"
definition PlatformAccountStatusFailed :: string where "PlatformAccountStatusFailed = ''failed''"
definition PlatformAccountStatusNeedsReauth :: string where "PlatformAccountStatusNeedsReauth = ''needs_reauth''"
definition PlatformAccountHealthUnknown :: string where "PlatformAccountHealthUnknown = ''unknown''"
definition PlatformAccountHealthHealthy :: string where "PlatformAccountHealthHealthy = ''healthy''"
definition PlatformAccountHealthNeedsReauth :: string where "PlatformAccountHealthNeedsReauth = ''needs_reauth''"
definition PlatformAccountHealthFailed :: string where "PlatformAccountHealthFailed = ''failed''"
definition PlatformAccountSharePrivate :: string where "PlatformAccountSharePrivate = ''private''"
definition PlatformAccountShareWorkspace :: string where "PlatformAccountShareWorkspace = ''workspace''"
definition PlatformAccountGrantRoleManager :: string where "PlatformAccountGrantRoleManager = ''manager''"
definition PlatformAccountGrantRolePublisher :: string where "PlatformAccountGrantRolePublisher = ''publisher''"

lemmas account_consts = PlatformAccountStatusUntested_def PlatformAccountStatusConnected_def
  PlatformAccountStatusFailed_def PlatformAccountStatusNeedsReauth_def PlatformAccountHealthUnknown_def
  PlatformAccountHealthHealthy_def PlatformAccountHealthNeedsReauth_def PlatformAccountHealthFailed_def
  PlatformAccountSharePrivate_def PlatformAccountShareWorkspace_def PlatformAccountGrantRoleManager_def
  PlatformAccountGrantRolePublisher_def

definition health_status_for_status :: "string \<Rightarrow> string" where
  "health_status_for_status status =
     (if status = PlatformAccountStatusConnected then PlatformAccountHealthHealthy
      else if status = PlatformAccountStatusFailed then PlatformAccountHealthFailed
      else if status = PlatformAccountStatusNeedsReauth then PlatformAccountHealthNeedsReauth
      else PlatformAccountHealthUnknown)"

definition account_ready_for_publication :: "platform_account \<Rightarrow> bool" where
  "account_ready_for_publication a =
     (acct_Status a = PlatformAccountStatusConnected \<and>
      acct_HealthStatus a \<noteq> PlatformAccountHealthNeedsReauth \<and>
      acct_HealthStatus a \<noteq> PlatformAccountHealthFailed)"

definition workspace_id_for_user :: "uuid \<Rightarrow> uuid \<Rightarrow> uuid mpp" where
  "workspace_id_for_user uid wid =
     (if wid \<noteq> uuid_nil then ret wid else asks (\<lambda>w. personal_workspace_id w uid))"

text \<open>The workspace id is only derived when the account has none.\<close>

definition ensure_account_defaults :: "platform_account \<Rightarrow> uuid \<Rightarrow> uuid \<Rightarrow> string \<Rightarrow> platform_account mpp" where
  "ensure_account_defaults a uid wid platform =
     bindE (workspace_id_for_user uid wid) (\<lambda>derived.
     let a = (if acct_UserID a = uuid_nil then a\<lparr>acct_UserID := uid\<rparr> else a);
         a = (if acct_WorkspaceID a = None then a\<lparr>acct_WorkspaceID := Some derived\<rparr> else a);
         a = (if acct_OwnerUserID a = None then a\<lparr>acct_OwnerUserID := Some uid\<rparr> else a);
         a = (if acct_ConnectedByUserID a = None then a\<lparr>acct_ConnectedByUserID := Some uid\<rparr> else a);
         a = (if trim_space (acct_Platform a) = '''' then a\<lparr>acct_Platform := platform\<rparr> else a);
         a = (if trim_space (acct_ShareScope a) = '''' then a\<lparr>acct_ShareScope := PlatformAccountSharePrivate\<rparr> else a);
         a = (if trim_space (acct_HealthStatus a) = '''' then a\<lparr>acct_HealthStatus := health_status_for_status (acct_Status a)\<rparr> else a);
         a = (if trim_space (acct_CredentialSecretRef a) = '''' \<and> acct_ID a \<noteq> uuid_nil
              then a\<lparr>acct_CredentialSecretRef := ''platform-account:'' @ uuid_text (acct_ID a)\<rparr> else a);
         a = (if acct_Metadata a = '''' then a\<lparr>acct_Metadata := ''{}''\<rparr> else a);
         a = (if acct_Credentials a = '''' then a\<lparr>acct_Credentials := ''{}''\<rparr> else a);
         a = (if acct_Cookies a = '''' then a\<lparr>acct_Cookies := ''[]''\<rparr> else a);
         a = (if acct_Config a = '''' then a\<lparr>acct_Config := ''{}''\<rparr> else a)
     in ret a)"

section \<open>Who may use an account\<close>

definition require_workspace_account_membership :: "uuid \<Rightarrow> uuid \<Rightarrow> unit mpp" where
  "require_workspace_account_membership uid wid =
     bindE (tryE (require_workspace_member_record wid uid)) (\<lambda>r. case r of
       Inl e \<Rightarrow> if err_is e ErrForbidden \<or> err_is e ErrRecordNotFound then throw ErrPlatformAccountForbidden else throw e
     | Inr _ \<Rightarrow> ret ())"

definition grant_roles :: "string list" where
  "grant_roles = [PlatformAccountGrantRoleManager, PlatformAccountGrantRolePublisher]"

definition find_user_grant :: "uuid \<Rightarrow> uuid \<Rightarrow> db \<Rightarrow> platform_account_grant option" where
  "find_user_grant aid uid d = find (\<lambda>g. gra_PlatformAccountID g = aid \<and> gra_GranteeUserID g = Some uid \<and>
     gra_Role g \<in> set grant_roles) (grants d)"

definition find_project_grant :: "uuid \<Rightarrow> uuid \<Rightarrow> db \<Rightarrow> platform_account_grant option" where
  "find_project_grant aid pid d = find (\<lambda>g. gra_PlatformAccountID g = aid \<and> gra_ProjectID g = Some pid \<and>
     gra_Role g \<in> set grant_roles) (grants d)"

definition require_account_grant :: "uuid \<Rightarrow> platform_account \<Rightarrow> uuid \<Rightarrow> unit mpp" where
  "require_account_grant uid a pid =
     bindE (tryE (first_row (find_user_grant (acct_ID a) uid))) (\<lambda>r. case r of
       Inr _ \<Rightarrow> ret ()
     | Inl e \<Rightarrow> if \<not> err_is e ErrRecordNotFound then throw e
         else if pid \<noteq> uuid_nil then
           bindE (tryE (first_row (find_project_grant (acct_ID a) pid))) (\<lambda>r. case r of
             Inr _ \<Rightarrow> ret ()
           | Inl e \<Rightarrow> if \<not> err_is e ErrRecordNotFound then throw e else throw ErrPlatformAccountForbidden)
         else throw ErrPlatformAccountForbidden)"

definition owns_account :: "uuid \<Rightarrow> platform_account \<Rightarrow> bool" where
  "owns_account uid a = (acct_OwnerUserID a = Some uid \<or> acct_UserID a = uid)"

definition require_account_use :: "uuid \<Rightarrow> platform_account \<Rightarrow> uuid \<Rightarrow> unit mpp" where
  "require_account_use uid a pid =
     (if acct_WorkspaceID a \<noteq> None \<and> owns_account uid a
      then require_workspace_account_membership uid (the (acct_WorkspaceID a))
      else if acct_ShareScope a = PlatformAccountShareWorkspace then (case acct_WorkspaceID a of
          None \<Rightarrow> throw ErrPlatformAccountForbidden
        | Some wid \<Rightarrow> bindE (tryE (require_workspace_permission wid uid PermissionAccountUse)) (\<lambda>r. case r of
            Inr _ \<Rightarrow> ret ()
          | Inl e \<Rightarrow> if \<not> err_is e ErrForbidden \<and> \<not> err_is e ErrRecordNotFound then throw e
              else require_account_grant uid a pid))
      else require_account_grant uid a pid)"

section \<open>The account of a publication\<close>

definition notification_before_create :: "uuid \<Rightarrow> notification \<Rightarrow> notification" where
  "notification_before_create fresh n =
     (let n = (if ntf_ID n = uuid_nil then n\<lparr>ntf_ID := fresh\<rparr> else n)
      in if ntf_Status n = '''' then n\<lparr>ntf_Status := ''unread''\<rparr> else n)"

definition record_account_needs_reauth_notification :: "uuid \<Rightarrow> uuid \<Rightarrow> platform_account \<Rightarrow> uuid \<Rightarrow> unit mpp" where
  "record_account_needs_reauth_notification uid wid a pid =
     (if uid = uuid_nil \<or> wid = uuid_nil \<or> acct_ID a = uuid_nil then ret ()
      else bindE uuid_new (\<lambda>fresh.
        create_row notifications (\<lambda>rs d. d\<lparr>notifications := rs\<rparr>) (\<lambda>n x. ntf_ID n = ntf_ID x)
          (notification_before_create fresh
            \<lparr>ntf_ID = uuid_nil, ntf_WorkspaceID = wid, ntf_RecipientUserID = uid,
             ntf_EventType = ''account_needs_reauth'', ntf_ResourceType = ''platform_account'',
             ntf_ResourceID = Some (acct_ID a), ntf_Status = ''unread'',
             ntf_Metadata = [(''platform'', acct_Platform a), (''platform_account_id'', uuid_text (acct_ID a)),
               (''status'', acct_Status a), (''health_status'', acct_HealthStatus a)]
               @ (if pid \<noteq> uuid_nil then [(''project_id'', uuid_text pid)] else [])\<rparr>)))"

text \<open>The workspace of the project; a project that cannot be read counts as having none.\<close>

definition publication_workspace :: "uuid \<Rightarrow> publication \<Rightarrow> uuid mpp" where
  "publication_workspace uid pub =
     bindE (tryE (first_row (find_project (pub_ProjectID pub)))) (\<lambda>r.
     bindE (case r of
         Inl _ \<Rightarrow> ret uuid_nil
       | Inr p \<Rightarrow> (case proj_WorkspaceID p of
           Some wid \<Rightarrow> ret wid | None \<Rightarrow> asks (\<lambda>w. personal_workspace_id w (proj_UserID p)))) (\<lambda>wid.
     if wid = uuid_nil then asks (\<lambda>w. personal_workspace_id w uid) else ret wid))"

definition not_ready :: "uuid \<Rightarrow> uuid \<Rightarrow> platform_account \<Rightarrow> uuid \<Rightarrow> 'a mpp" where
  "not_ready uid wid a pid =
     bindE (record_account_needs_reauth_notification uid wid a pid) (\<lambda>_. throw ErrInvalidPlatformAccount)"

text \<open>
  The loop over the accounts of the workspace, newest first: \<open>first\<close> is the first account that may
  be used but is not ready, \<open>any\<close> whether there was any account.
\<close>

fun pick_account :: "uuid \<Rightarrow> uuid \<Rightarrow> publication \<Rightarrow> bool \<Rightarrow> platform_account option \<Rightarrow> platform_account list \<Rightarrow>
    (platform_account \<times> publication) mpp" where
  "pick_account uid wid pub any first [] = (case first of
       Some a \<Rightarrow> not_ready uid wid a (pub_ProjectID pub)
     | None \<Rightarrow> throw (if any then ErrPlatformAccountForbidden else ErrInvalidPlatformAccount))"
| "pick_account uid wid pub any first (a # as) =
     bindE (tryE (require_account_use uid a (pub_ProjectID pub))) (\<lambda>r. case r of
       Inl e \<Rightarrow> if err_is e ErrPlatformAccountForbidden then pick_account uid wid pub any first as else throw e
     | Inr _ \<Rightarrow>
         if \<not> account_ready_for_publication a
         then pick_account uid wid pub any (if first = None then Some a else first) as
         else ret (a, pub\<lparr>pub_PlatformAccountID := Some (acct_ID a)\<rparr>))"

definition accounts_of :: "uuid \<Rightarrow> string \<Rightarrow> db \<Rightarrow> platform_account list" where
  "accounts_of wid platform d = filter (\<lambda>a. acct_WorkspaceID a = Some wid \<and> acct_Platform a = platform) (accounts d)"

definition resolve_publication_account :: "uuid \<Rightarrow> publication \<Rightarrow> (platform_account \<times> publication) mpp" where
  "resolve_publication_account uid pub =
     bindE (publication_workspace uid pub) (\<lambda>wid.
     case pub_PlatformAccountID pub of
       Some aid \<Rightarrow>
         if aid \<noteq> uuid_nil then
           bindE (tryE (first_row (\<lambda>d. find (\<lambda>a. acct_ID a = aid) (accounts_of wid (pub_Platform pub) d)))) (\<lambda>r. case r of
             Inl e \<Rightarrow> if err_is e ErrRecordNotFound then throw ErrInvalidPlatformAccount else throw e
           | Inr a \<Rightarrow> bindE (require_account_use uid a (pub_ProjectID pub)) (\<lambda>_.
               if \<not> account_ready_for_publication a then not_ready uid wid a (pub_ProjectID pub)
               else ret (a, pub)))
         else bindE (select (\<lambda>d. sort_key (\<lambda>a. - acct_UpdatedAt a) (accounts_of wid (pub_Platform pub) d))) (\<lambda>as.
           pick_account uid wid pub (as \<noteq> []) None as)
     | None \<Rightarrow> bindE (select (\<lambda>d. sort_key (\<lambda>a. - acct_UpdatedAt a) (accounts_of wid (pub_Platform pub) d))) (\<lambda>as.
         pick_account uid wid pub (as \<noteq> []) None as))"

text \<open>
  The configuration of a publication as the parsed JSON object of strings, or the parse error, is
  the parameter \<open>parse\<close>.
\<close>

definition publication_has_embedded_credentials :: "(string \<Rightarrow> (string \<Rightarrow> string) option) \<Rightarrow> publication \<Rightarrow> bool" where
  "publication_has_embedded_credentials parse pub =
     (if pub_Config pub = '''' then False
      else case parse (pub_Config pub) of
        None \<Rightarrow> False
      | Some config \<Rightarrow>
          (let given = (\<lambda>k. trim_space (config k) \<noteq> '''') in
           if pub_Platform pub = ''wechat'' then given ''app_id'' \<and> given ''app_secret''
           else if pub_Platform pub = ''x'' then given ''api_key'' \<and> given ''api_secret'' \<and>
             given ''access_token'' \<and> given ''access_token_secret''
           else False))"

definition apply_saved_credentials_to_publication ::
  "(platform_account \<Rightarrow> publication \<Rightarrow> publication mpp) \<Rightarrow> (string \<Rightarrow> (string \<Rightarrow> string) option) \<Rightarrow>
     uuid \<Rightarrow> publication \<Rightarrow> publication mpp" where
  "apply_saved_credentials_to_publication apply parse uid pub =
     bindE (tryE (resolve_publication_account uid pub)) (\<lambda>r. case r of
       Inl e \<Rightarrow> if err_is e ErrInvalidPlatformAccount \<and> publication_has_embedded_credentials parse pub
         then ret pub else throw e
     | Inr (a, pub) \<Rightarrow> apply a pub)"

section \<open>What the checks decide\<close>

definition is_workspace_member :: "world \<Rightarrow> uuid \<Rightarrow> uuid \<Rightarrow> bool" where
  "is_workspace_member w wid uid \<longleftrightarrow> wid \<noteq> uuid_nil \<and> uid \<noteq> uuid_nil \<and>
     (wid = personal_workspace_id w uid \<or> find_member wid uid (db w) \<noteq> None)"

definition account_granted :: "db \<Rightarrow> uuid \<Rightarrow> platform_account \<Rightarrow> uuid \<Rightarrow> bool" where
  "account_granted d uid a pid \<longleftrightarrow> find_user_grant (acct_ID a) uid d \<noteq> None \<or>
     pid \<noteq> uuid_nil \<and> find_project_grant (acct_ID a) pid d \<noteq> None"

definition account_shared :: "db \<Rightarrow> uuid \<Rightarrow> platform_account \<Rightarrow> bool" where
  "account_shared d uid a \<longleftrightarrow> (case acct_WorkspaceID a of None \<Rightarrow> False
     | Some wid \<Rightarrow> (case workspace_role_of d wid uid of None \<Rightarrow> False
         | Some role \<Rightarrow> role_has_permission role PermissionAccountUse))"

definition may_use_account :: "world \<Rightarrow> uuid \<Rightarrow> platform_account \<Rightarrow> uuid \<Rightarrow> bool" where
  "may_use_account w uid a pid \<longleftrightarrow>
     (if acct_WorkspaceID a \<noteq> None \<and> owns_account uid a then is_workspace_member w (the (acct_WorkspaceID a)) uid
      else if acct_ShareScope a = PlatformAccountShareWorkspace
        then acct_WorkspaceID a \<noteq> None \<and> (account_shared (db w) uid a \<or> account_granted (db w) uid a pid)
      else account_granted (db w) uid a pid)"

lemma may_use_account_tick [simp]: "may_use_account (tick w) = may_use_account w"
  by (simp add: fun_eq_iff may_use_account_def is_workspace_member_def personal_workspace_id_def)

lemmas account_use_defs = require_account_use_def require_account_grant_def
  require_workspace_account_membership_def

definition same_tables :: "world \<Rightarrow> world \<Rightarrow> bool" where
  "same_tables v w \<longleftrightarrow> db w = db v \<and> env w = env v"

lemma same_tables_tick [simp]: "same_tables v (tick w) = same_tables v w"
  by (simp add: same_tables_def)

lemma keeps_same_tables:
  assumes "\<And>J. keeps (on_db J) m" "\<And>e. keeps (env_is e) m"
  shows "keeps (same_tables v) m"
proof -
  have "db (snd (m w)) = db v \<and> env (snd (m w)) = env v" if "same_tables v w" for w
    using assms(1) [of "\<lambda>d. d = db v"] assms(2) [of "env v"] that
    by (simp add: keeps_def on_db_def env_is_def same_tables_def)
  then show ?thesis by (simp add: keeps_def same_tables_def)
qed

lemma keeps_account_use:
  "keeps (on_db J) (require_account_use uid a pid)" "keeps (env_is e) (require_account_use uid a pid)"
  unfolding account_use_defs access_defs by (intro keeps_intros)+

lemma membership_sound:
  assumes "faults_opaque w" "require_workspace_account_membership uid wid w = (Inr u, w')"
  shows "is_workspace_member w wid uid"
proof -
  have m: "require_workspace_member_record wid uid w = (Inr (), w')"
    using assms(2) by (auto simp: require_workspace_account_membership_def split: prod.splits sum.splits if_splits)
  show ?thesis
    using assms(1)
  proof (cases rule: try_first_row_cases [where q = "find_member wid uid"])
    case (found x)
    with m show ?thesis by (auto simp: require_workspace_member_record_def is_workspace_member_def split: if_splits)
  next
    case missing
    with m show ?thesis
      by (auto simp: require_workspace_member_record_def is_workspace_member_def bindE_def asks_def split: if_splits)
  next
    case (fault e)
    with m show ?thesis
      by (auto simp: require_workspace_member_record_def is_workspace_member_def bindE_def asks_def split: if_splits)
  qed
qed

lemma grant_sound:
  assumes "faults_opaque w" "require_account_grant uid a pid w = (Inr u, w')"
  shows "account_granted (db w) uid a pid"
  using assms(1)
proof (cases rule: try_first_row_cases [where q = "find_user_grant (acct_ID a) uid"])
  case missing
  have "faults_opaque (tick w)" using assms(1) by simp
  then show ?thesis
  proof (cases rule: try_first_row_cases [where q = "find_project_grant (acct_ID a) pid"])
    case (found x)
    then show ?thesis using assms(2) missing
      by (auto simp: require_account_grant_def account_granted_def bindE_def split: if_splits)
  qed (use assms(2) missing in \<open>auto simp: require_account_grant_def account_granted_def bindE_def split: if_splits\<close>)
qed (use assms(2) in \<open>auto simp: require_account_grant_def account_granted_def bindE_def\<close>)

lemma permission_sound:
  assumes "faults_opaque w" "require_workspace_permission wid uid p w = (Inr role, w')"
  shows "workspace_role_of (db w) wid uid = Some role \<and> role_has_permission role p"
  using assms workspace_access_role_sound [OF assms(1)]
  by (auto simp: require_workspace_permission_def bindE_Inr split: if_splits)

lemma require_account_use_sound:
  assumes "faults_opaque w" "require_account_use uid a pid w = (Inr u, w')"
  shows "may_use_account w uid a pid"
proof (cases "acct_WorkspaceID a \<noteq> None \<and> owns_account uid a")
  case True
  then show ?thesis using assms membership_sound by (auto simp: require_account_use_def may_use_account_def)
next
  case own: False
  show ?thesis
  proof (cases "acct_ShareScope a = PlatformAccountShareWorkspace")
    case False
    then show ?thesis using own assms grant_sound by (auto simp: require_account_use_def may_use_account_def)
  next
    case True
    then obtain wid where wid: "acct_WorkspaceID a = Some wid"
      using own assms(2) by (cases "acct_WorkspaceID a") (auto simp: require_account_use_def)
    obtain r v where v: "require_workspace_permission wid uid PermissionAccountUse w = (r, v)" by fastforce
    have "keeps (same_tables w) (require_workspace_permission wid uid PermissionAccountUse)"
      by (intro keeps_same_tables keeps_intros)
    from keepsD2 [OF this v] have "same_tables w v" by (simp add: same_tables_def)
    then have v': "faults_opaque v" "db v = db w" using assms(1) by (simp_all add: faults_opaque_def same_tables_def)
    show ?thesis
    proof (cases r)
      case (Inl e)
      then have "require_account_grant uid a pid v = (Inr u, w')"
        using own True wid v assms(2) by (auto simp: require_account_use_def split: if_splits)
      then have "account_granted (db w) uid a pid" using grant_sound v' by metis
      then show ?thesis using own True wid by (simp add: may_use_account_def)
    next
      case (Inr role)
      with v permission_sound [OF assms(1)] have "account_shared (db w) uid a"
        using wid by (auto simp: account_shared_def)
      then show ?thesis using own True wid by (simp add: may_use_account_def)
    qed
  qed
qed

text \<open>Without failures the check is decided by \<open>may_use_account\<close>.\<close>

lemma membership_ok:
  assumes "no_fault w"
  shows "fst (require_workspace_account_membership uid wid w) =
    (if is_workspace_member w wid uid then Inr () else Inl ErrPlatformAccountForbidden)"
  using assms
  by (auto simp: require_workspace_account_membership_def require_workspace_member_record_def is_workspace_member_def
      bindE_def tryE_def asks_def first_row_ok split: option.splits)

lemma grant_ok:
  assumes "no_fault w"
  shows "fst (require_account_grant uid a pid w) =
    (if account_granted (db w) uid a pid then Inr () else Inl ErrPlatformAccountForbidden)"
  using assms
  by (auto simp: require_account_grant_def account_granted_def bindE_def tryE_def first_row_ok
      split: option.splits)

lemma permission_ok:
  assumes "no_fault w"
  shows "fst (require_workspace_permission wid uid p w) =
    (case workspace_role_of (db w) wid uid of
       Some r \<Rightarrow> if role_has_permission r p then Inr r else Inl ErrForbidden
     | None \<Rightarrow> Inl (if find_workspace wid (db w) = None \<and> wid \<noteq> uuid_nil \<and> uid \<noteq> uuid_nil
         then ErrRecordNotFound else ErrForbidden))"
proof (cases "wid = uuid_nil \<or> uid = uuid_nil")
  case True
  then show ?thesis
    by (auto simp: require_workspace_permission_def workspace_access_role_def workspace_role_of_def)
next
  case False
  then show ?thesis
    using workspace_access_role_ok [OF assms, of wid uid]
    by (cases "workspace_access_role wid uid w")
      (auto simp: require_workspace_permission_def bindE_def split: option.splits)
qed

lemma require_account_use_ok:
  assumes "no_fault w"
  shows "fst (require_account_use uid a pid w) =
    (if may_use_account w uid a pid then Inr () else Inl ErrPlatformAccountForbidden)"
proof (cases "acct_WorkspaceID a \<noteq> None \<and> owns_account uid a")
  case True
  then show ?thesis by (simp add: require_account_use_def may_use_account_def membership_ok [OF assms])
next
  case own: False
  show ?thesis
  proof (cases "acct_ShareScope a = PlatformAccountShareWorkspace \<and> acct_WorkspaceID a \<noteq> None")
    case False
    then show ?thesis using own
      by (auto simp: require_account_use_def may_use_account_def grant_ok [OF assms])
  next
    case True
    then obtain wid where wid: "acct_WorkspaceID a = Some wid" by auto
    obtain r v where v: "require_workspace_permission wid uid PermissionAccountUse w = (r, v)" by fastforce
    have "keeps (same_tables w) (require_workspace_permission wid uid PermissionAccountUse)"
      by (intro keeps_same_tables keeps_intros)
    from keepsD2 [OF this v] have v': "db v = db w" "no_fault v"
      using assms by (simp_all add: same_tables_def no_fault_def)
    have shared: "account_shared (db w) uid a \<longleftrightarrow> (\<exists>role. r = Inr role)"
      using permission_ok [OF assms, of wid uid PermissionAccountUse] v wid
      by (auto simp: account_shared_def split: option.splits if_splits)
    have err: "e = ErrForbidden \<or> e = ErrRecordNotFound" if "r = Inl e" for e
      using permission_ok [OF assms, of wid uid PermissionAccountUse] v that by (auto split: option.splits if_splits)
    show ?thesis
      using own True wid v shared err grant_ok [OF v'(2), of uid a pid] v'(1)
      by (cases r) (auto simp: require_account_use_def may_use_account_def)
  qed
qed

section \<open>The account of a publication\<close>

definition project_workspace_of :: "world \<Rightarrow> uuid \<Rightarrow> publication \<Rightarrow> uuid" where
  "project_workspace_of w uid pub =
     (let wid = (case find_project (pub_ProjectID pub) (db w) of
        None \<Rightarrow> uuid_nil
      | Some p \<Rightarrow> (case proj_WorkspaceID p of Some wid \<Rightarrow> wid | None \<Rightarrow> personal_workspace_id w (proj_UserID p)))
      in if wid = uuid_nil then personal_workspace_id w uid else wid)"

definition usable :: "world \<Rightarrow> uuid \<Rightarrow> publication \<Rightarrow> platform_account \<Rightarrow> bool" where
  "usable w uid pub a \<longleftrightarrow> may_use_account w uid a (pub_ProjectID pub) \<and> account_ready_for_publication a"

lemma usable_tick [simp]: "usable (tick w) = usable w"
  by (simp add: fun_eq_iff usable_def)

lemma may_use_same: "same_tables v w \<Longrightarrow> may_use_account w = may_use_account v"
  by (simp add: fun_eq_iff may_use_account_def is_workspace_member_def personal_workspace_id_def same_tables_def)

lemma usable_same: "same_tables v w \<Longrightarrow> usable w = usable v"
  by (simp add: fun_eq_iff usable_def may_use_same)

lemma same_tables_trans: "same_tables u v \<Longrightarrow> same_tables v w \<Longrightarrow> same_tables u w"
  by (simp add: same_tables_def)

lemma same_tables_faults: "same_tables v w \<Longrightarrow> no_fault w = no_fault v \<and> faults_opaque w = faults_opaque v"
  by (simp add: same_tables_def no_fault_def faults_opaque_def)

lemma account_use_same: "require_account_use uid a pid w = (r, w') \<Longrightarrow> same_tables w w'"
  by (rule keepsD2 [OF keeps_same_tables [OF keeps_account_use]]) (auto simp: same_tables_def)

lemma tryE_result: "tryE m w = (Inr r, w') \<longleftrightarrow> m w = (r, w')"
  by (auto simp: tryE_def split: prod.splits)

lemma not_ready_fails: "not_ready uid wid a pid w = (r, w') \<Longrightarrow> \<exists>e. r = Inl e"
  by (cases r) (auto simp: not_ready_def bindE_Inr)

lemma not_ready_error: "\<exists>e. fst (not_ready uid wid a pid w) = Inl e"
  by (rule not_ready_fails [OF surjective_pairing])

lemma not_ready_Inl: "not_ready uid wid a pid w \<noteq> (Inr x, w')"
  by (auto simp: not_ready_def bindE_Inr)

lemma pick_account_sound:
  assumes "faults_opaque w" "pick_account uid wid pub any first as w = (Inr (a, pub'), w')"
  shows "a \<in> set as \<and> usable w uid pub a \<and> pub' = pub\<lparr>pub_PlatformAccountID := Some (acct_ID a)\<rparr>"
  using assms
proof (induction as arbitrary: first w)
  case Nil
  then show ?case by (auto simp: not_ready_Inl split: option.splits)
next
  case (Cons b as)
  obtain r v where v: "require_account_use uid b (pub_ProjectID pub) w = (r, v)" by fastforce
  have same: "same_tables w v" by (rule account_use_same [OF v])
  then have op: "faults_opaque v" and us: "usable v = usable w"
    using Cons.prems(1) same_tables_faults usable_same by blast+
  have "may_use_account w uid b (pub_ProjectID pub)" if "r = Inr u" for u
    using require_account_use_sound [OF Cons.prems(1)] v that by simp
  then show ?case
    using Cons.prems(2) v Cons.IH [OF op] us by (cases r) (auto simp: usable_def split: if_splits)
qed

lemma pick_account_ok:
  assumes "no_fault w"
  shows "case find (usable w uid pub) as of
      Some a \<Rightarrow> fst (pick_account uid wid pub any first as w) = Inr (a, pub\<lparr>pub_PlatformAccountID := Some (acct_ID a)\<rparr>)
    | None \<Rightarrow> \<exists>e. fst (pick_account uid wid pub any first as w) = Inl e"
  using assms
proof (induction as arbitrary: first w)
  case Nil
  then show ?case
    using not_ready_error by (auto split: option.splits)
next
  case (Cons b as)
  obtain r v where v: "require_account_use uid b (pub_ProjectID pub) w = (r, v)" by fastforce
  have same: "same_tables w v" by (rule account_use_same [OF v])
  then have nf: "no_fault v" and us: "usable v = usable w"
    using Cons.prems(1) same_tables_faults usable_same by blast+
  have r: "r = (if may_use_account w uid b (pub_ProjectID pub) then Inr () else Inl ErrPlatformAccountForbidden)"
    using require_account_use_ok [OF Cons.prems(1), of uid b "pub_ProjectID pub"] v by simp
  let ?first = "if may_use_account w uid b (pub_ProjectID pub) then (if first = None then Some b else first) else first"
  have "pick_account uid wid pub any first (b # as) w = (if usable w uid pub b
      then (Inr (b, pub\<lparr>pub_PlatformAccountID := Some (acct_ID b)\<rparr>), v) else pick_account uid wid pub any ?first as v)"
    using v r by (simp add: usable_def)
  then obtain first' where step: "pick_account uid wid pub any first (b # as) w = (if usable w uid pub b
      then (Inr (b, pub\<lparr>pub_PlatformAccountID := Some (acct_ID b)\<rparr>), v) else pick_account uid wid pub any first' as v)"
    by blast
  show ?case using Cons.IH [OF nf, of first'] us by (simp del: pick_account.simps add: step split: option.splits)
qed

lemma find_sorted:
  fixes k :: "'a \<Rightarrow> int"
  assumes "find p (sort_key k xs) = Some a"
  shows "a \<in> set xs \<and> p a \<and> (\<forall>b\<in>set xs. p b \<longrightarrow> k a \<le> k b)"
proof -
  have "\<forall>b\<in>set ys. p b \<longrightarrow> k a \<le> k b" if "sorted (map k ys)" "find p ys = Some a" for ys
    using that by (induction ys) (auto split: if_splits)
  then show ?thesis using assms find_Some_set [OF assms] by (metis set_sort sorted_sort_key)
qed

lemma publication_workspace_same: "publication_workspace uid pub w = (r, w') \<Longrightarrow> same_tables w w' \<and> (\<exists>wid. r = Inr wid)"
  by (auto simp: publication_workspace_def bindE_def asks_def tryE_def first_row_def select_def sql_def external_def
      same_tables_def tick_def split: option.splits sum.splits if_splits prod.splits)

lemma publication_workspace_ok: "no_fault w \<Longrightarrow> publication_workspace uid pub w = (r, w') \<Longrightarrow> r = Inr (project_workspace_of w uid pub)"
  by (auto simp: publication_workspace_def project_workspace_of_def bindE_def asks_def tryE_def first_row_ok
      personal_workspace_id_def Let_def split: option.splits if_splits)

lemma accounts_of_set: "a \<in> set (accounts_of wid platform d) \<longleftrightarrow>
    a \<in> set (accounts d) \<and> acct_WorkspaceID a = Some wid \<and> acct_Platform a = platform"
  by (auto simp: accounts_of_def)

definition chosen :: "world \<Rightarrow> uuid \<Rightarrow> uuid \<Rightarrow> publication \<Rightarrow> platform_account \<Rightarrow> publication \<Rightarrow> bool" where
  "chosen w wid uid pub a pub' \<longleftrightarrow> a \<in> set (accounts_of wid (pub_Platform pub) (db w)) \<and> usable w uid pub a \<and>
     pub' = pub\<lparr>pub_PlatformAccountID := Some (acct_ID a)\<rparr>"

lemma resolve_search_sound:
  assumes "faults_opaque w"
    and "bindE (select (\<lambda>d. sort_key (\<lambda>a. - acct_UpdatedAt a) (accounts_of wid (pub_Platform pub) d)))
        (\<lambda>as. pick_account uid wid pub (as \<noteq> []) None as) w = (Inr (a, pub'), w')"
  shows "chosen w wid uid pub a pub'"
proof -
  let ?as = "sort_key (\<lambda>a. - acct_UpdatedAt a) (accounts_of wid (pub_Platform pub) (db w))"
  have "pick_account uid wid pub (?as \<noteq> []) None ?as (tick w) = (Inr (a, pub'), w')"
    using assms(2) by (auto simp: bindE_Inr dest!: select_Inr)
  from pick_account_sound [OF _ this] assms(1) show ?thesis by (simp add: chosen_def)
qed

lemma resolve_sound:
  assumes "faults_opaque w" "resolve_publication_account uid pub w = (Inr (a, pub'), w')"
  obtains wid v where "publication_workspace uid pub w = (Inr wid, v)" "chosen w wid uid pub a pub'"
proof -
  obtain r v where v: "publication_workspace uid pub w = (r, v)" by fastforce
  from publication_workspace_same [OF v] obtain wid where r: "r = Inr wid" and same: "same_tables w v" by auto
  have op: "faults_opaque v" and us: "usable v = usable w" and db: "db v = db w"
    using same_tables_faults [OF same] assms(1) usable_same [OF same] same by (simp_all add: same_tables_def)
  have "chosen v wid uid pub a pub'"
  proof (cases "pub_PlatformAccountID pub = None \<or> pub_PlatformAccountID pub = Some uuid_nil")
    case True
    then show ?thesis
      using resolve_search_sound [OF op] assms(2) v r
      by (auto simp: resolve_publication_account_def bindE_app split: option.splits)
  next
    case False
    then obtain aid where aid: "pub_PlatformAccountID pub = Some aid" "aid \<noteq> uuid_nil" by auto
    let ?q = "\<lambda>d. find (\<lambda>a. acct_ID a = aid) (accounts_of wid (pub_Platform pub) d)"
    from op show ?thesis
    proof (cases rule: try_first_row_cases [where q = ?q])
      case (found b)
      then have b: "b \<in> set (accounts_of wid (pub_Platform pub) (db v))" "acct_ID b = aid"
        by (auto dest!: find_Some_set)
      have run: "bindE (require_account_use uid b (pub_ProjectID pub)) (\<lambda>_.
          if \<not> account_ready_for_publication b then not_ready uid wid b (pub_ProjectID pub) else ret (b, pub)) (tick v)
          = (Inr (a, pub'), w')"
        using assms(2) v r aid found by (simp add: resolve_publication_account_def bindE_app tryE_result)
      then have "a = b" "pub' = pub" "account_ready_for_publication b"
        "may_use_account v uid b (pub_ProjectID pub)"
        using require_account_use_sound [of "tick v"] op by (auto simp: bindE_Inr not_ready_Inl split: if_splits)
      then show ?thesis using b aid(1) by (simp add: chosen_def usable_def)
    qed (use assms(2) v r aid in \<open>auto simp: resolve_publication_account_def bindE_app tryE_result split: if_splits\<close>)
  qed
  then show thesis using that v r us db by (simp add: chosen_def)
qed

section \<open>The publish service with these accounts\<close>

text \<open>
  The modelled account resolution is a legitimate port of \<open>publish_service\<close>: it writes none of the
  tables the publish theorems speak of and hands back the same publication.
\<close>

lemma keeps_rows_account_use: "keeps (on_rows J) (require_account_use uid a pid)"
  unfolding account_use_defs access_defs by (intro keeps_intros)

lemma keeps_rows_not_ready: "keeps (on_rows J) (not_ready uid wid a pid)"
  unfolding not_ready_def record_account_needs_reauth_notification_def
  by (intro keeps_intros keeps_rows_create) simp

lemma keeps_rows_pick: "keeps (on_rows J) (pick_account uid wid pub any first as)"
  by (induction as arbitrary: first) (auto intro!: keeps_intros keeps_rows_not_ready keeps_rows_account_use)

lemma keeps_rows_resolve: "keeps (on_rows J) (resolve_publication_account uid pub)"
  unfolding resolve_publication_account_def publication_workspace_def
  by (intro keeps_intros keeps_rows_not_ready keeps_rows_account_use keeps_rows_pick)

lemma port_frameI: "(\<And>J. keeps (on_rows J) m) \<Longrightarrow> port_frame m"
proof -
  assume k: "\<And>J. keeps (on_rows J) m"
  have "rows_are P S A e = on_rows (\<lambda>P' S' A' e'. P' = P \<and> S' = S \<and> A' = A \<and> e' = e)" for P S A e
    by (simp add: fun_eq_iff rows_are_def on_rows_def)
  then show "port_frame m" using k by (simp add: port_frame_def)
qed

lemma same_publication_account [simp]: "same_publication pub pub"
  "same_publication pub (pub\<lparr>pub_PlatformAccountID := x\<rparr>)"
  by (simp_all add: same_publication_def)

lemma wp_account_use: "(\<And>x w'. Q x w') \<Longrightarrow> (\<And>e w'. E e w') \<Longrightarrow> wp (require_account_use uid a pid) Q E w"
  by (rule wpI) simp_all

lemma wp_not_ready: "wp (not_ready uid wid a pid) Q (\<lambda>_ _. True) w"
  by (rule wpI) (simp_all add: not_ready_Inl)

lemma wp_pick_same: "wp (pick_account uid wid pub any first as) (\<lambda>x _. same_publication pub (snd x)) (\<lambda>_ _. True) w"
proof (induction as arbitrary: first w)
  case Nil
  show ?case unfolding pick_account.simps by (intro wp_case_option wp_not_ready wp_throw) simp
next
  case (Cons a as)
  show ?case unfolding pick_account.simps
    by (intro wp_bindE wp_tryE wp_account_use wp_case_sum wp_If wp_throw wp_ret Cons.IH) simp_all
qed

lemma wp_resolve_same: "wp (resolve_publication_account uid pub) (\<lambda>x _. same_publication pub (snd x)) (\<lambda>_ _. True) w"
proof -
  have ws: "wp (publication_workspace uid pub) Q (\<lambda>_ _. True) w" if "\<And>x w. Q x w" for Q w
    by (rule wpI) (simp_all add: that)
  show ?thesis unfolding resolve_publication_account_def
    by (intro wp_bindE ws wp_case_option wp_If wp_tryE wp_first_row wp_select wp_case_sum wp_pick_same
        wp_account_use wp_not_ready wp_throw wp_ret) simp_all
qed

lemma resolve_same: "resolve_publication_account uid pub w = (Inr (a, pub'), w') \<Longrightarrow> same_publication pub pub'"
  using wp_InrD [OF wp_resolve_same] by fastforce

lemma account_port:
  assumes "\<And>a q. port_frame (apply a q)" "\<And>a q. returns_same q (apply a q)"
  shows "port_frame (apply_saved_credentials_to_publication apply parse uid pub)"
    and "returns_same pub (apply_saved_credentials_to_publication apply parse uid pub)"
proof -
  show "port_frame (apply_saved_credentials_to_publication apply parse uid pub)"
    unfolding apply_saved_credentials_to_publication_def
    by (rule port_frameI) (intro keeps_intros keeps_rows_resolve keeps_port [OF assms(1)])
  show "returns_same pub (apply_saved_credentials_to_publication apply parse uid pub)"
    unfolding returns_same_def
  proof (intro allI impI)
    fix w q w' assume run: "apply_saved_credentials_to_publication apply parse uid pub w = (Inr q, w')"
    obtain r v where v: "resolve_publication_account uid pub w = (r, v)" by fastforce
    show "same_publication pub q"
    proof (cases r)
      case (Inl e)
      with run v show ?thesis
        by (auto simp: apply_saved_credentials_to_publication_def same_publication_def split: if_splits)
    next
      case (Inr ap)
      obtain a pub' where ap: "ap = (a, pub')" by fastforce
      have "same_publication pub pub'" using resolve_same v Inr ap by blast
      moreover have "apply a pub' v = (Inr q, w')"
        using run v Inr ap by (simp add: apply_saved_credentials_to_publication_def)
      then have "same_publication pub' q" using assms(2) unfolding returns_same_def by blast
      ultimately show ?thesis by (simp add: same_publication_def)
    qed
  qed
qed

section \<open>Properties\<close>

text \<open>
  C8: An account is used by those who may use it only: whatever statements fail, a granted use is
  the owner's who is still a member of the account's workspace, or rests on a role with the
  permission to use accounts in a workspace-shared account, or on a grant as manager or publisher
  to the user or the project; and without failures the check answers exactly that.
\<close>

theorem account_use_decided:
  assumes "faults_opaque w"
  shows "(fst (require_account_use uid a pid w) = Inr () \<longrightarrow> may_use_account w uid a pid) \<and>
    (no_fault w \<longrightarrow> fst (require_account_use uid a pid w) =
       (if may_use_account w uid a pid then Inr () else Inl ErrPlatformAccountForbidden))"
  using require_account_use_sound [OF assms] require_account_use_ok by (metis prod.collapse)

text \<open>
  C9: A publication without an account of its own gets the account that was changed last among those
  of the project's workspace and the publication's platform that the user may use and that are
  ready; the call fails only when there is none.
\<close>

theorem publication_gets_newest_account:
  assumes "no_fault w" "pub_PlatformAccountID pub = None" "resolve_publication_account uid pub w = (r, w')"
  defines "candidates \<equiv> {a \<in> set (accounts_of (project_workspace_of w uid pub) (pub_Platform pub) (db w)). usable w uid pub a}"
  shows "case r of
      Inr (a, pub') \<Rightarrow> a \<in> candidates \<and> pub' = pub\<lparr>pub_PlatformAccountID := Some (acct_ID a)\<rparr> \<and>
        (\<forall>b\<in>candidates. acct_UpdatedAt b \<le> acct_UpdatedAt a)
    | Inl e \<Rightarrow> candidates = {}"
proof -
  obtain q v where v: "publication_workspace uid pub w = (q, v)" by fastforce
  have q: "q = Inr (project_workspace_of w uid pub)" by (rule publication_workspace_ok [OF assms(1) v])
  have same: "same_tables w (tick v)" using publication_workspace_same [OF v] by simp
  let ?as = "sort_key (\<lambda>a. - acct_UpdatedAt a) (accounts_of (project_workspace_of w uid pub) (pub_Platform pub) (db w))"
  have nf: "no_fault (tick v)" "usable (tick v) = usable w"
    using same_tables_faults [OF same] usable_same [OF same] assms(1) by blast+
  have nfv: "no_fault v" and dbv: "db v = db w" using nf(1) same by (simp_all add: same_tables_def)
  have "pick_account uid (project_workspace_of w uid pub) pub (?as \<noteq> []) None ?as (tick v) = (r, w')"
    using assms(2,3) v q nfv dbv by (simp add: resolve_publication_account_def bindE_app bindE_select_ok)
  then have pick: "case find (usable w uid pub) ?as of
      Some a \<Rightarrow> r = Inr (a, pub\<lparr>pub_PlatformAccountID := Some (acct_ID a)\<rparr>) | None \<Rightarrow> \<exists>e. r = Inl e"
    using pick_account_ok [OF nf(1), where uid = uid and pub = pub and as = ?as and wid = "project_workspace_of w uid pub" and any = "?as \<noteq> []" and first = None] nf(2)
    by (simp split: option.splits)
  show ?thesis
  proof (cases "find (usable w uid pub) ?as")
    case None
    then have "\<forall>a\<in>set ?as. \<not> usable w uid pub a" by (simp only: find_None_set)
    moreover obtain e where "r = Inl e" using pick None by auto
    ultimately show ?thesis by (auto simp: candidates_def)
  next
    case (Some a)
    from find_sorted [OF Some] show ?thesis using pick Some by (auto simp: candidates_def)
  qed
qed

text \<open>
  When the project of a publication cannot be read, the account is looked for in the personal
  workspace of the user, whatever workspace the project belongs to: the error is not looked at.
\<close>

theorem unreadable_project_takes_personal_account:
  assumes "faults_opaque w" "env_fault (env w) (calls w) = Some e"
    and "resolve_publication_account uid pub w = (Inr (a, pub'), w')"
  shows "acct_WorkspaceID a = Some (personal_workspace_id w uid)"
proof -
  obtain wid v where v: "publication_workspace uid pub w = (Inr wid, v)" "chosen w wid uid pub a pub'"
    by (rule resolve_sound [OF assms(1,3)])
  have "wid = personal_workspace_id w uid"
    using v(1) assms(2)
    by (auto simp: publication_workspace_def bindE_def asks_def tryE_def first_row_def select_def sql_def external_def
        personal_workspace_id_def tick_def)
  then show ?thesis using v(2) by (simp add: chosen_def accounts_of_set)
qed

section \<open>Witnesses\<close>

definition team_account :: "uuid \<Rightarrow> time \<Rightarrow> platform_account" where
  "team_account aid t = empty_account\<lparr>acct_ID := aid, acct_UserID := 4, acct_WorkspaceID := Some 3, acct_OwnerUserID := Some 4,
     acct_Platform := ''x'', acct_ShareScope := PlatformAccountShareWorkspace,
     acct_Status := PlatformAccountStatusConnected, acct_HealthStatus := PlatformAccountHealthHealthy, acct_UpdatedAt := t\<rparr>"

definition own_account :: platform_account where
  "own_account = (team_account 32 1)\<lparr>acct_UserID := 8, acct_WorkspaceID := Some 1000008, acct_OwnerUserID := Some 8\<rparr>"

definition account_db :: db where
  "account_db = empty_db\<lparr>projects := [sample_project], workspaces := [sample_workspace], members := [sample_member],
     accounts := [team_account 30 5, team_account 31 9, own_account]\<rparr>"

lemma account_db_simps:
  "find_workspace 3 account_db = Some sample_workspace" "find_member 3 8 account_db = Some sample_member"
  "find_project 2 account_db = Some sample_project" "find_user_grant aid uid account_db = None"
  "find_project_grant aid pid account_db = None"
  "accounts_of 3 ''x'' account_db = [team_account 30 5, team_account 31 9]"
  "accounts_of 1000008 ''x'' account_db = [own_account]"
  by (simp_all add: account_db_def find_workspace_def find_member_def find_project_def find_user_grant_def
      find_project_grant_def accounts_of_def sample_workspace_def sample_member_def sample_project_def team_account_def
      own_account_def empty_db_def)

lemma team_account_usable: "usable (start_world account_db) 8 sample_publication (team_account aid t)"
  by (simp add: usable_def may_use_account_def owns_account_def team_account_def account_shared_def workspace_role_of_def
      account_db_simps account_ready_for_publication_def account_consts role_has_permission_def role_permissions_def
      sample_workspace_def sample_member_def)

theorem account_use_decided_witness:
  "fst (require_account_use 8 (team_account 30 5) 2 (start_world account_db)) = Inr ()"
proof -
  have may: "may_use_account (start_world account_db) 8 (team_account 30 5) 2"
    using team_account_usable [of 30 5] by (simp add: usable_def sample_publication_def)
  from account_use_decided [OF no_fault_opaque [OF start_world_no_fault [of account_db]], of 8 "team_account 30 5" 2]
  show ?thesis by (simp only: may start_world_no_fault if_True simp_thms)
qed

theorem publication_gets_newest_account_witness:
  "\<exists>pub'. fst (resolve_publication_account 8 sample_publication (start_world account_db)) = Inr (team_account 31 9, pub')"
proof -
  have ws: "accounts_of (project_workspace_of (start_world account_db) 8 sample_publication) (pub_Platform sample_publication) account_db
      = [team_account 30 5, team_account 31 9]"
    by (simp add: project_workspace_of_def sample_publication_def account_db_simps sample_project_def)
  obtain r w' where run: "resolve_publication_account 8 sample_publication (start_world account_db) = (r, w')" by fastforce
  from publication_gets_newest_account [OF start_world_no_fault _ run]
  show ?thesis using run ws team_account_usable
    by (auto simp: sample_publication_def team_account_def split: sum.splits)
qed

theorem unreadable_project_takes_personal_account_witness:
  defines "w \<equiv> (start_world account_db)\<lparr>env := calm_env\<lparr>env_fault := (\<lambda>n. if n = 0 then Some (ErrText ''conn'') else None)\<rparr>\<rparr>"
  shows "proj_WorkspaceID sample_project = Some 3 \<and>
    (\<exists>a pub' w'. resolve_publication_account 8 sample_publication w = (Inr (a, pub'), w') \<and> acct_WorkspaceID a = Some 1000008)"
proof -
  have op: "faults_opaque w" by (simp add: w_def faults_opaque_def)
  have "\<exists>pub' w'. resolve_publication_account 8 sample_publication w = (Inr (own_account, pub'), w')"
    by (simp add: w_def resolve_publication_account_def publication_workspace_def bindE_def tryE_def first_row_def select_def
        sql_def external_def asks_def tick_def personal_workspace_id_def sample_publication_def account_db_simps
        require_account_use_def owns_account_def own_account_def team_account_def require_workspace_account_membership_def
        require_workspace_member_record_def account_ready_for_publication_def account_consts)
  then obtain pub' w' where run: "resolve_publication_account 8 sample_publication w = (Inr (own_account, pub'), w')" by blast
  have "env_fault (env w) (calls w) = Some (ErrText ''conn'')" by (simp add: w_def)
  from unreadable_project_takes_personal_account [OF op this run] run
  show ?thesis by (auto simp: sample_project_def w_def personal_workspace_id_def)
qed

end
