(* ===== verification/Project_Listing.thy ===== *)
theory Project_Listing
  imports Project_Access Go_Encoding "HOL-Library.Product_Lexorder"
begin

text \<open>
  \<open>services/project/list.go\<close>, \<open>listing/cursor.go\<close> and the list items of \<open>presenter/presenter.go\<close>:
  a listing is a query on \<open>projects\<close> built condition by condition, read newest first, one row more
  than the page holds, with an opaque cursor for the next page. The columns a condition names without
  their table are kept (\<open>cond_columns\<close>), because a joined query that names a column of both tables is
  refused by the database. Replicas are taken to be up to date.
\<close>

section \<open>Pages and cursors\<close>

text \<open>
  What the listing uses of other packages: \<open>json.Marshal\<close> and \<open>json.Unmarshal\<close> of the cursor and of
  the publications of a summary, and \<open>uuid.Parse\<close>. The zero time is 0.
\<close>

record publication_summary =
  psum_ID :: uuid
  psum_Platform :: string
  psum_Enabled :: bool
  psum_Status :: publication_status
  psum_DraftStatus :: publication_draft_status
  psum_ReviewStatus :: publication_review_status
  psum_SyncRequired :: bool
  psum_PublishURL :: string

record list_lib =
  ll_marshal :: "time \<times> uuid \<Rightarrow> string option"
  ll_unmarshal :: "string \<Rightarrow> (time \<times> uuid) option"
  ll_summaries :: "string \<Rightarrow> publication_summary list option"
  ll_parse_uuid :: "string \<Rightarrow> uuid option"

definition defaultProjectListLimit :: int where "defaultProjectListLimit = 10"
definition maxProjectListLimit :: int where "maxProjectListLimit = 100"

definition normalize_page :: "int \<Rightarrow> int \<Rightarrow> int \<times> int" where
  "normalize_page page limit =
     (let page = (if page < 1 then 1 else page);
          limit = (if limit < 1 then defaultProjectListLimit else limit);
          limit = (if maxProjectListLimit < limit then maxProjectListLimit else limit)
      in (page, limit))"

definition encode_cursor_values :: "list_lib \<Rightarrow> time \<Rightarrow> uuid \<Rightarrow> string" where
  "encode_cursor_values lib created i =
     (case ll_marshal lib (created, i) of None \<Rightarrow> '''' | Some s \<Rightarrow> b64_encode s)"

definition encode_cursor :: "list_lib \<Rightarrow> project \<Rightarrow> string" where
  "encode_cursor lib p = encode_cursor_values lib (proj_CreatedAt p) (proj_ID p)"

definition errEmptyCursor :: err where
  "errEmptyCursor = ErrSentinel ''empty project list cursor''"

definition invalid_cursor :: err where
  "invalid_cursor = ErrSuffix ErrInvalidProject ''invalid project list cursor''"

definition decode_cursor :: "list_lib \<Rightarrow> string \<Rightarrow> err + time \<times> uuid" where
  "decode_cursor lib cursor =
     (let cursor = trim_space cursor in
      if cursor = '''' then Inl errEmptyCursor
      else case b64_decode cursor of
        None \<Rightarrow> Inl invalid_cursor
      | Some raw \<Rightarrow> (case ll_unmarshal lib raw of
          None \<Rightarrow> Inl invalid_cursor
        | Some (created, i) \<Rightarrow>
            if i = uuid_nil \<or> created = 0 then Inl invalid_cursor else Inr (created, i)))"

text \<open>The condition the cursor adds, if any: rows strictly behind the row it names.\<close>

definition apply_cursor_columns :: "list_lib \<Rightarrow> string \<Rightarrow> err + (time \<times> uuid) option" where
  "apply_cursor_columns lib cursor =
     (if trim_space cursor = '''' then Inr None else map_sum id Some (decode_cursor lib cursor))"

definition behind :: "(time \<times> uuid) option \<Rightarrow> time \<Rightarrow> uuid \<Rightarrow> bool" where
  "behind cur created i = (case cur of None \<Rightarrow> True
     | Some (c, j) \<Rightarrow> created < c \<or> (created = c \<and> j < i))"

text \<open>Newest first, ties by id.\<close>

definition page_key :: "time \<Rightarrow> uuid \<Rightarrow> int \<times> nat" where
  "page_key created i = (- created, i)"

definition int64_of :: "int \<Rightarrow> int" where
  "int64_of n = signed_take_bit 63 n"

record 'a pagination =
  pg_Items :: "'a list"
  pg_Page :: int
  pg_Limit :: int
  pg_Total :: int
  pg_TotalPages :: int
  pg_Cursor :: string
  pg_NextCursor :: string
  pg_HasMore :: bool

definition pagination_response :: "'a list \<Rightarrow> string \<Rightarrow> int \<Rightarrow> int \<Rightarrow> bool \<Rightarrow> string \<Rightarrow> 'a pagination" where
  "pagination_response items cursor page limit hasMore nextCursor =
     \<lparr>pg_Items = items, pg_Page = page, pg_Limit = limit,
      pg_Total = int64_of ((page - 1) * limit + int (length items) + (if hasMore then 1 else 0)),
      pg_TotalPages = (if items = [] \<and> page = 1 then 0 else if hasMore then int64_of (page + 1) else page),
      pg_Cursor = trim_space cursor, pg_NextCursor = nextCursor, pg_HasMore = hasMore\<rparr>"

section \<open>List items\<close>

record project_list_item =
  it_ID :: uuid
  it_UserID :: uuid
  it_WorkspaceID :: uuid
  it_CollabDocumentID :: "uuid option"
  it_Title :: string
  it_Status :: string
  it_Role :: string
  it_AccessSource :: "access_source option"
  it_CreatedAt :: time
  it_UpdatedAt :: time
  it_Publications :: "publication_summary list"

definition publication_summary_from_model :: "publication \<Rightarrow> publication_summary" where
  "publication_summary_from_model pub =
     \<lparr>psum_ID = pub_ID pub, psum_Platform = pub_Platform pub, psum_Enabled = pub_Enabled pub,
      psum_Status = pub_Status pub, psum_DraftStatus = pub_DraftStatus pub,
      psum_ReviewStatus = pub_ReviewStatus pub, psum_SyncRequired = pub_SyncRequired pub,
      psum_PublishURL = pub_PublishURL pub\<rparr>"

definition presented_workspace_id :: "(uuid \<Rightarrow> uuid) \<Rightarrow> project \<Rightarrow> uuid" where
  "presented_workspace_id pws p = (case proj_WorkspaceID p of
      Some wid \<Rightarrow> if wid \<noteq> uuid_nil then wid else pws (proj_UserID p)
    | None \<Rightarrow> pws (proj_UserID p))"

definition project_list_item_from_model ::
  "(uuid \<Rightarrow> uuid) \<Rightarrow> publication list \<Rightarrow> project \<Rightarrow> string \<Rightarrow> access_source option \<Rightarrow> project_list_item" where
  "project_list_item_from_model pws pubs p role source =
     \<lparr>it_ID = proj_ID p, it_UserID = proj_UserID p, it_WorkspaceID = presented_workspace_id pws p,
      it_CollabDocumentID = proj_CollabDocumentID p, it_Title = proj_Title p, it_Status = proj_Status p,
      it_Role = role, it_AccessSource = source, it_CreatedAt = proj_CreatedAt p,
      it_UpdatedAt = proj_UpdatedAt p, it_Publications = map publication_summary_from_model pubs\<rparr>"

definition project_list_item_from_summary ::
  "list_lib \<Rightarrow> project_list_summary \<Rightarrow> string \<Rightarrow> access_source option \<Rightarrow> err + project_list_item" where
  "project_list_item_from_summary lib s role source =
     (case (if pls_Publications s = '''' then Some [] else ll_summaries lib (pls_Publications s)) of
       None \<Rightarrow> Inl (ErrText ''invalid publications'')
     | Some pubs \<Rightarrow> Inr
        \<lparr>it_ID = pls_ProjectID s, it_UserID = pls_UserID s, it_WorkspaceID = pls_WorkspaceID s,
         it_CollabDocumentID = pls_CollabDocumentID s, it_Title = pls_Title s, it_Status = pls_Status s,
         it_Role = role, it_AccessSource = source, it_CreatedAt = pls_CreatedAt s,
         it_UpdatedAt = pls_UpdatedAt s, it_Publications = pubs\<rparr>)"

section \<open>Queries\<close>

datatype list_cond = UserIs uuid | AccessibleTo uuid | WorkspaceIs uuid | StatusIs string
  | PlatformIs string | BehindCursor "(time \<times> uuid) option"

fun cond_holds :: "db \<Rightarrow> list_cond \<Rightarrow> project \<Rightarrow> bool" where
  "cond_holds d (UserIs uid) p = (proj_UserID p = uid)"
| "cond_holds d (AccessibleTo uid) p = scope_accessible d uid p"
| "cond_holds d (WorkspaceIs wid) p = (proj_WorkspaceID p = Some wid)"
| "cond_holds d (StatusIs s) p = (proj_Status p = s)"
| "cond_holds d (PlatformIs platform) p =
     (\<exists>pub\<in>set (publications d). pub_ProjectID pub = proj_ID p \<and> pub_Platform pub = platform)"
| "cond_holds d (BehindCursor cur) p = behind cur (proj_CreatedAt p) (proj_ID p)"

fun cond_columns :: "list_cond \<Rightarrow> string list" where
  "cond_columns (UserIs uid) = [''user_id'']"
| "cond_columns (WorkspaceIs wid) = [''workspace_id'']"
| "cond_columns (StatusIs s) = [''status'']"
| "cond_columns c = []"

fun joins_publications :: "list_cond \<Rightarrow> bool" where
  "joins_publications (PlatformIs platform) = True"
| "joins_publications c = False"

definition project_columns :: "string list" where
  "project_columns = [''id'', ''user_id'', ''workspace_id'', ''collab_document_id'', ''template_id'',
     ''brand_profile_id'', ''title'', ''source_content'', ''status'', ''created_at'', ''updated_at'']"

definition publication_columns :: "string list" where
  "publication_columns = [''id'', ''workspace_id'', ''project_id'', ''platform'', ''platform_account_id'',
     ''enabled'', ''status'', ''draft_status'', ''review_status'', ''sync_required'', ''config'',
     ''adapted_content'', ''remote_id'', ''publish_url'', ''error_message'', ''retry_count'',
     ''last_attempt_at'', ''published_at'', ''created_at'', ''updated_at'']"

definition ambiguous_column :: "list_cond list \<Rightarrow> string option" where
  "ambiguous_column conds = (if list_ex joins_publications conds
     then find (\<lambda>c. c \<in> set project_columns \<and> c \<in> set publication_columns) (concat (map cond_columns conds))
     else None)"

definition project_key :: "project \<Rightarrow> int \<times> nat" where
  "project_key p = page_key (proj_CreatedAt p) (proj_ID p)"

definition matching_projects :: "list_cond list \<Rightarrow> db \<Rightarrow> project list" where
  "matching_projects conds d =
     sort_key project_key (filter (\<lambda>p. list_all (\<lambda>c. cond_holds d c p) conds) (projects d))"

definition find_projects :: "list_cond list \<Rightarrow> nat \<Rightarrow> project list mpp" where
  "find_projects conds n =
     bindE (select (\<lambda>d. take n (matching_projects conds d))) (\<lambda>ps. case ambiguous_column conds of
        None \<Rightarrow> ret ps
      | Some c \<Rightarrow> throw (ErrText (''column reference '' @ c @ '' is ambiguous'')))"

text \<open>The associated rows, and the roles shown with them: an administrator sees every project as its owner.\<close>

definition preload_publications :: "project list \<Rightarrow> publication list mpp" where
  "preload_publications ps = (if ps = [] then ret [] else
     select (\<lambda>d. filter (\<lambda>pub. pub_ProjectID pub \<in> proj_ID ` set ps) (publications d)))"

definition access_for_page :: "uuid option \<Rightarrow> project list \<Rightarrow> (uuid \<rightharpoonup> access) mpp" where
  "access_for_page scope ps = (case scope of
      Some uid \<Rightarrow> project_access_for_user ps uid
    | None \<Rightarrow> ret (\<lambda>i. if i \<in> proj_ID ` set ps then Some (ProjectRoleOwner, ProjectAccessSourceOwner) else None))"

definition list_project_page ::
  "list_lib \<Rightarrow> list_cond list \<Rightarrow> string \<Rightarrow> int \<Rightarrow> int \<Rightarrow> uuid option \<Rightarrow> project_list_item pagination mpp" where
  "list_project_page lib conds cursor page limit scope = (case normalize_page page limit of (page, limit) \<Rightarrow>
     bindE (liftS (apply_cursor_columns lib cursor)) (\<lambda>cur.
     bindE (find_projects (conds @ [BehindCursor cur]) (Suc (nat limit))) (\<lambda>ps.
     bindE (preload_publications ps) (\<lambda>pubs.
     let hasMore = limit < int (length ps);
         ps = (if hasMore then take (nat limit) ps else ps)
     in bindE (access_for_page scope ps) (\<lambda>access.
     bindE (asks personal_workspace_id) (\<lambda>pws.
     let item = (\<lambda>p. project_list_item_from_model pws (filter (\<lambda>pub. pub_ProjectID pub = proj_ID p) pubs) p
            (case access (proj_ID p) of Some (role, _) \<Rightarrow> role | None \<Rightarrow> '''') (map_option snd (access (proj_ID p))));
         nextCursor = (if hasMore \<and> ps \<noteq> [] then encode_cursor lib (last ps) else '''')
     in ret (pagination_response (map item ps) cursor page limit hasMore nextCursor)))))))"

section \<open>The read model\<close>

definition summary_key :: "project_list_summary \<Rightarrow> int \<times> nat" where
  "summary_key s = page_key (pls_CreatedAt s) (pls_ProjectID s)"

fun sequence :: "(err + 'a) list \<Rightarrow> err + 'a list" where
  "sequence [] = Inr []"
| "sequence (Inl e # rs) = Inl e"
| "sequence (Inr x # rs) = map_sum id (\<lambda>xs. x # xs) (sequence rs)"

definition list_project_summary_page ::
  "list_lib \<Rightarrow> (project_list_summary \<Rightarrow> bool) \<Rightarrow> string \<Rightarrow> int \<Rightarrow> int \<Rightarrow> project_list_item pagination mpp" where
  "list_project_summary_page lib P cursor page limit = (case normalize_page page limit of (page, limit) \<Rightarrow>
     bindE (liftS (apply_cursor_columns lib cursor)) (\<lambda>cur.
     bindE (select (\<lambda>d. take (Suc (nat limit)) (sort_key summary_key
         (filter (\<lambda>s. P s \<and> behind cur (pls_CreatedAt s) (pls_ProjectID s)) (list_summaries d))))) (\<lambda>ss.
     let hasMore = limit < int (length ss);
         ss = (if hasMore then take (nat limit) ss else ss)
     in bindE (liftS (sequence (map (\<lambda>s. project_list_item_from_summary lib s ProjectRoleOwner
            (Some ProjectAccessSourceOwner)) ss))) (\<lambda>items.
     let nextCursor = (if hasMore \<and> ss \<noteq> []
           then encode_cursor_values lib (pls_CreatedAt (last ss)) (pls_ProjectID (last ss)) else '''')
     in ret (pagination_response items cursor page limit hasMore nextCursor)))))"

text \<open>The summaries answer only when there are some, and as many as there are projects.\<close>

definition admin_project_list_from_read_model ::
  "list_lib \<Rightarrow> string \<Rightarrow> int \<Rightarrow> int \<Rightarrow> string \<Rightarrow> string \<Rightarrow> project_list_item pagination option mpp" where
  "admin_project_list_from_read_model lib cursor page limit status filterUserID =
     (let uid = (if filterUserID \<noteq> '''' then ll_parse_uuid lib filterUserID else None);
          P = (\<lambda>s. (case uid of Some u \<Rightarrow> pls_UserID s = u | None \<Rightarrow> True) \<and> (status \<noteq> '''' \<longrightarrow> pls_Status s = status));
          F = (\<lambda>p. (case uid of Some u \<Rightarrow> proj_UserID p = u | None \<Rightarrow> True) \<and> (status \<noteq> '''' \<longrightarrow> proj_Status p = status))
      in bindE (select (\<lambda>d. length (filter P (list_summaries d)))) (\<lambda>summaryCount.
         if summaryCount = 0 then ret None
         else bindE (select (\<lambda>d. length (filter F (projects d)))) (\<lambda>factCount.
           if summaryCount \<noteq> factCount then ret None
           else bindE (list_project_summary_page lib P cursor page limit) (\<lambda>r. ret (Some r)))))"

section \<open>The listings\<close>

text \<open>\<open>readModels\<close> is \<open>canUseReadModels\<close>: whether the request does not stick to the writer.\<close>

definition compute_project_list ::
  "list_lib \<Rightarrow> bool \<Rightarrow> string \<Rightarrow> int \<Rightarrow> int \<Rightarrow> string \<Rightarrow> string \<Rightarrow> string \<Rightarrow> uuid option \<Rightarrow>
    project_list_item pagination mpp" where
  "compute_project_list lib readModels cursor page limit status filterUserID platform scope =
     bindE (if scope = None \<and> platform = '''' \<and> readModels
       then admin_project_list_from_read_model lib cursor page limit status filterUserID else ret None) (\<lambda>r. case r of
         Some resp \<Rightarrow> ret resp
       | None \<Rightarrow>
          (let conds = (case scope of
                  Some uid \<Rightarrow> [AccessibleTo uid]
                | None \<Rightarrow> if filterUserID \<noteq> '''' then (case ll_parse_uuid lib filterUserID of
                      Some uid \<Rightarrow> [UserIs uid] | None \<Rightarrow> []) else []);
               conds = (if status \<noteq> '''' then conds @ [StatusIs status] else conds);
               conds = (if platform \<noteq> '''' then conds @ [PlatformIs platform] else conds)
           in list_project_page lib conds cursor page limit scope))"

definition compute_workspace_project_list ::
  "list_lib \<Rightarrow> uuid \<Rightarrow> uuid \<Rightarrow> string \<Rightarrow> int \<Rightarrow> int \<Rightarrow> string \<Rightarrow> string \<Rightarrow> project_list_item pagination mpp" where
  "compute_workspace_project_list lib wid uid cursor page limit status platform =
     (let conds = [WorkspaceIs wid];
          conds = (if status \<noteq> '''' then conds @ [StatusIs status] else conds);
          conds = (if platform \<noteq> '''' then conds @ [PlatformIs platform] else conds)
      in list_project_page lib conds cursor page limit (Some uid))"

section \<open>The rows behind a cursor\<close>

lemma behind_key: "behind (Some (c, j)) t i \<longleftrightarrow> page_key c j < page_key t i"
  by (auto simp: behind_def page_key_def less_prod_def)

lemma matching_behind: "matching_projects (conds @ [BehindCursor cur]) d =
    filter (\<lambda>p. behind cur (proj_CreatedAt p) (proj_ID p)) (matching_projects conds d)"
  by (simp add: matching_projects_def filter_sort conj_commute)

lemma filter_behind:
  assumes "sorted_wrt (\<lambda>x y. k x < (k y :: 'b :: linorder)) xs" "n < length xs"
  shows "filter (\<lambda>x. k (xs ! n) < k x) xs = drop (Suc n) xs"
  using assms
proof (induction xs arbitrary: n)
  case (Cons x xs)
  show ?case
  proof (cases n)
    case 0
    with Cons.prems show ?thesis by (auto simp: filter_id_conv)
  next
    case (Suc m)
    with Cons.prems have "k x < k (xs ! m)" by simp
    with Suc Cons show ?thesis by (auto simp: less_imp_not_less)
  qed
qed simp

lemma strictly_sorted:
  assumes "sorted (map k xs)" "distinct (map k xs)"
  shows "sorted_wrt (\<lambda>x y. k x < (k y :: 'b :: linorder)) xs"
  using assms by (induction xs) (auto simp: order.strict_iff_order image_iff)

text \<open>The listing order is strict because ids are unique.\<close>

definition project_ids_ok :: "db \<Rightarrow> bool" where
  "project_ids_ok d \<longleftrightarrow> distinct (map proj_ID (projects d))"

lemma matching_subset: "set (matching_projects conds d) \<subseteq> set (projects d)"
  by (auto simp: matching_projects_def)

lemma matching_strict:
  assumes "project_ids_ok d"
  shows "sorted_wrt (\<lambda>p q. project_key p < project_key q) (matching_projects conds d)"
proof (rule strictly_sorted)
  show "sorted (map project_key (matching_projects conds d))" by (simp add: matching_projects_def)
  have "distinct (map proj_ID (filter P (projects d)))" for P
    using assms by (simp add: project_ids_ok_def distinct_map_filter)
  then have "distinct (filter P (projects d))" "inj_on proj_ID (set (filter P (projects d)))" for P
    by (simp_all add: distinct_map)
  then have "inj_on project_key (set (filter P (projects d)))" for P
    by (fastforce simp: inj_on_def project_key_def page_key_def)
  with \<open>\<And>P. distinct (filter P (projects d))\<close> show "distinct (map project_key (matching_projects conds d))"
    by (simp add: matching_projects_def distinct_map)
qed

text \<open>The rows a page request looks at: all of them, or those behind the row the cursor names.\<close>

definition rows_from :: "list_cond list \<Rightarrow> db \<Rightarrow> nat \<Rightarrow> project list" where
  "rows_from conds d k = drop k (matching_projects conds d)"

lemma rows_behind_none: "matching_projects (conds @ [BehindCursor None]) d = rows_from conds d 0"
  by (simp add: matching_behind rows_from_def behind_def)

lemma rows_behind_row:
  assumes "project_ids_ok d" "k < length (matching_projects conds d)" "matching_projects conds d ! k = p"
  shows "matching_projects (conds @ [BehindCursor (Some (proj_CreatedAt p, proj_ID p))]) d = rows_from conds d (Suc k)"
  using filter_behind [OF matching_strict [OF assms(1)] assms(2)] assms(3)
  by (simp add: matching_behind rows_from_def behind_key project_key_def)

section \<open>Cursors are read back\<close>

text \<open>What the JSON package promises for the cursor of one row.\<close>

definition cursor_codec_ok :: "list_lib \<Rightarrow> time \<Rightarrow> uuid \<Rightarrow> bool" where
  "cursor_codec_ok lib created i \<longleftrightarrow> created \<noteq> 0 \<and> i \<noteq> uuid_nil \<and>
     (case ll_marshal lib (created, i) of None \<Rightarrow> False
      | Some s \<Rightarrow> s \<noteq> '''' \<and> ll_unmarshal lib s = Some (created, i))"

lemma encoded_cursor:
  assumes "cursor_codec_ok lib created i"
  shows "encode_cursor_values lib created i \<noteq> ''''"
    and "trim_space (encode_cursor_values lib created i) = encode_cursor_values lib created i"
    and "apply_cursor_columns lib (encode_cursor_values lib created i) = Inr (Some (created, i))"
  using assms
  by (auto simp: cursor_codec_ok_def encode_cursor_values_def apply_cursor_columns_def decode_cursor_def
      b64_encode_Nil b64_decode_encode split: option.splits)

section \<open>One page\<close>

lemma keeps_project_access: "keeps (on_db J) (project_access_for_user ps uid)"
  "keeps (env_is e) (project_access_for_user ps uid)"
  unfolding project_access_for_user_def workspace_project_roles_for_user_def Let_def
  by (intro keeps_intros)+

lemma project_access_runs:
  assumes nf: "no_fault w" and ok: "access_tables_ok (db w) uid" and uid: "uid \<noteq> uuid_nil"
  shows "\<exists>access w'. project_access_for_user ps uid w = (Inr access, w') \<and> db w' = db w \<and> env w' = env w"
proof -
  obtain a0 shared wids where loop: "foldl (own_step uid) (Map.empty, [], []) ps = (a0, shared, wids)"
    by (metis prod_cases3)
  define w1 where "w1 = (if shared = [] then w else tick w)"
  have w1: "no_fault w1" "access_tables_ok (db w1) uid" using nf ok by (auto simp: w1_def)
  obtain roles w2 where "workspace_project_roles_for_user wids uid w1 = (Inr roles, w2)"
    using workspace_project_roles_ok [OF w1 uid] by blast
  then have "\<exists>access w'. project_access_for_user ps uid w = (Inr access, w')"
    using loop nf by (auto simp: project_access_for_user_def bindE_def select_ok w1_def)
  then obtain access w' where run: "project_access_for_user ps uid w = (Inr access, w')" by blast
  moreover have "db w' = db w" by (rule db_kept [OF keeps_project_access(1) run])
  moreover have "env w' = env w"
    using keepsD2 [OF keeps_project_access(2) run, of "env w"] by (simp add: env_is_def)
  ultimately show ?thesis by blast
qed

text \<open>Who asks: nobody in particular (an administrator), or a user whose memberships are in order.\<close>

definition scope_ok :: "db \<Rightarrow> uuid option \<Rightarrow> bool" where
  "scope_ok d scope = (case scope of None \<Rightarrow> True | Some uid \<Rightarrow> uid \<noteq> uuid_nil \<and> access_tables_ok d uid)"

lemma no_fault_env: "env w' = env w \<Longrightarrow> no_fault w' = no_fault w"
  by (simp add: no_fault_def)

lemma item_ID [simp]: "it_ID (project_list_item_from_model pws pubs p role source) = proj_ID p"
  by (simp add: project_list_item_from_model_def)

lemma list_project_page_ok:
  assumes nf: "no_fault w" and sc: "scope_ok (db w) scope"
    and cur: "apply_cursor_columns lib cursor = Inr cur"
    and amb: "ambiguous_column (conds @ [BehindCursor cur]) = None"
    and rows: "matching_projects (conds @ [BehindCursor cur]) (db w) = rs"
    and page: "normalize_page page limit = (page', L)"
  shows "\<exists>r w'. list_project_page lib conds cursor page limit scope w = (Inr r, w') \<and>
    db w' = db w \<and> env w' = env w \<and> map it_ID (pg_Items r) = map proj_ID (take (nat L) rs) \<and>
    pg_HasMore r = (L < int (length rs)) \<and>
    pg_NextCursor r = (if nat L < length rs then encode_cursor lib (rs ! (nat L - 1)) else '''')"
proof -
  have L: "1 \<le> L" using page by (auto simp: normalize_page_def Let_def defaultProjectListLimit_def
      maxProjectListLimit_def split: if_splits)
  define ps where "ps = take (Suc (nat L)) rs"
  define w1 where "w1 = (if ps = [] then tick w else tick (tick w))"
  have w1: "no_fault w1" "scope_ok (db w1) scope" "db w1 = db w" "env w1 = env w"
    using nf sc by (auto simp: w1_def)
  define qs where "qs = (if L < int (length ps) then take (nat L) ps else ps)"
  obtain access w2 where acc: "access_for_page scope qs w1 = (Inr access, w2)" "db w2 = db w" "env w2 = env w"
    using project_access_runs [OF w1(1)] w1 by (cases scope) (fastforce simp: scope_ok_def access_for_page_def)+
  have more: "(L < int (length ps)) = (nat L < length rs)" using L by (auto simp: ps_def)
  have qs: "qs = take (nat L) rs" using L by (auto simp: qs_def ps_def min_def)
  have last: "last qs = rs ! (nat L - 1)" if "nat L < length rs"
  proof -
    have "take (nat L) rs \<noteq> []" "length (take (nat L) rs) = nat L" using that L by auto
    then have "last qs = take (nat L) rs ! (nat L - 1)" unfolding qs by (metis last_conv_nth)
    then show ?thesis using L by simp
  qed
  have ne: "qs \<noteq> []" if "nat L < length rs" using that L by (auto simp: qs)
  have sel: "find_projects (conds @ [BehindCursor cur]) (Suc (nat L)) w = (Inr ps, tick w)"
    using nf amb by (simp add: find_projects_def bindE_def select_ok rows ps_def)
  obtain pubs where pre: "preload_publications ps (tick w) = (Inr pubs, w1)"
    using nf that by (cases "ps = []") (simp_all add: preload_publications_def select_ok w1_def)
  have run: "bindE (liftS (apply_cursor_columns lib cursor)) f w = f cur w"
      "bindE (find_projects (conds @ [BehindCursor cur]) (Suc (nat L))) g w = g ps (tick w)"
      "bindE (preload_publications ps) h (tick w) = h pubs w1"
      "bindE (access_for_page scope qs) l w1 = l access w2" for f g h l
    by (simp_all add: bindE_def liftS_def cur sel pre acc(1))
  have cursor: "(if L < int (length ps) \<and> qs \<noteq> [] then encode_cursor lib (last qs) else '''') =
      (if nat L < length rs then encode_cursor lib (rs ! (nat L - 1)) else '''')"
    using more ne last by simp
  show ?thesis
    unfolding list_project_page_def page prod.case Let_def run(1-3) qs_def [symmetric] run(4) bindE_asks_app cursor
    using acc(2,3) more L by (auto simp: pagination_response_def qs o_def)
qed

section \<open>Walking all pages\<close>

text \<open>A client that asks for the next page until there is none.\<close>

fun walk_pages :: "nat \<Rightarrow> (string \<Rightarrow> 'a pagination mpp) \<Rightarrow> string \<Rightarrow> 'a pagination list mpp" where
  "walk_pages 0 f cursor = throw (ErrText ''out of fuel'')"
| "walk_pages (Suc n) f cursor = bindE (f cursor) (\<lambda>r.
     if pg_NextCursor r = '''' then ret [r]
     else bindE (walk_pages n f (pg_NextCursor r)) (\<lambda>rs. ret (r # rs)))"

definition listable :: "list_lib \<Rightarrow> list_cond list \<Rightarrow> db \<Rightarrow> bool" where
  "listable lib conds d \<longleftrightarrow> project_ids_ok d \<and> ambiguous_column conds = None \<and>
     (\<forall>p\<in>set (projects d). cursor_codec_ok lib (proj_CreatedAt p) (proj_ID p))"

lemma ambiguous_behind: "ambiguous_column (conds @ [BehindCursor cur]) = ambiguous_column conds"
  by (simp add: ambiguous_column_def)

text \<open>The page walk from the row after the first \<open>k\<close>, whatever cursor selects those rows.\<close>

lemma walk_from:
  assumes ok: "listable lib conds D" and page: "normalize_page page limit = (page', L)"
  assumes "db w = D" "no_fault w" "scope_ok D scope"
    and "apply_cursor_columns lib cursor = Inr cur"
    and "matching_projects (conds @ [BehindCursor cur]) D = rows_from conds D k"
    and "length (rows_from conds D k) div nat L < n"
  shows "\<exists>rs w'. walk_pages n (\<lambda>c. list_project_page lib conds c page limit scope) cursor w = (Inr rs, w') \<and>
    map it_ID (concat (map pg_Items rs)) = map proj_ID (rows_from conds D k) \<and>
    length rs \<le> length (rows_from conds D k) div nat L + 1 \<and>
    (\<forall>r\<in>set (butlast rs). length (pg_Items r) = nat L) \<and> length (pg_Items (last rs)) \<le> nat L \<and> rs \<noteq> []"
  using assms(3-)
proof (induction n arbitrary: w cursor cur k)
  case (Suc n)
  let ?rs = "rows_from conds D k"
  have L: "1 \<le> nat L" using page by (auto simp: normalize_page_def Let_def defaultProjectListLimit_def
      maxProjectListLimit_def split: if_splits)
  have rows: "matching_projects (conds @ [BehindCursor cur]) (db w) = ?rs" using Suc.prems by simp
  have amb: "ambiguous_column (conds @ [BehindCursor cur]) = None"
    using ok by (simp add: listable_def ambiguous_behind)
  obtain r w1 where r: "list_project_page lib conds cursor page limit scope w = (Inr r, w1)"
      "db w1 = D" "env w1 = env w" "map it_ID (pg_Items r) = map proj_ID (take (nat L) ?rs)"
      "pg_NextCursor r = (if nat L < length ?rs then encode_cursor lib (?rs ! (nat L - 1)) else '''')"
    using list_project_page_ok [OF Suc.prems(2) _ Suc.prems(4) amb rows page, of scope] Suc.prems(1,3) by auto
  have items: "length (pg_Items r) = min (length ?rs) (nat L)"
    using arg_cong [OF r(4), of length] by simp
  show ?case
  proof (cases "nat L < length ?rs")
    case False
    then show ?thesis using r by (simp add: bindE_def items)
  next
    case True
    define p where "p = ?rs ! (nat L - 1)"
    have len: "length ?rs = length (matching_projects conds D) - k" by (simp add: rows_from_def)
    have pos: "k + (nat L - 1) < length (matching_projects conds D)" using True len L by linarith
    have p: "matching_projects conds D ! (k + (nat L - 1)) = p"
      using pos by (simp add: p_def rows_from_def)
    have mem: "p \<in> set (projects D)"
      using nth_mem [OF pos] p matching_subset [of conds D] by auto
    then have codec: "cursor_codec_ok lib (proj_CreatedAt p) (proj_ID p)" using ok by (simp add: listable_def)
    note enc = encoded_cursor [OF codec]
    have ids: "project_ids_ok D" using ok by (simp add: listable_def)
    have idx: "Suc (k + (nat L - 1)) = k + nat L" using L by simp
    have next_rows: "matching_projects (conds @ [BehindCursor (Some (proj_CreatedAt p, proj_ID p))]) D
        = rows_from conds D (k + nat L)"
      using rows_behind_row [OF ids pos p] unfolding idx .
    have split: "?rs = take (nat L) ?rs @ rows_from conds D (k + nat L)"
      unfolding rows_from_def by (metis add.commute append_take_drop_id drop_drop)
    have shorter: "length ?rs = nat L + length (rows_from conds D (k + nat L))"
      using True by (simp add: rows_from_def)
    have "nat L \<noteq> 0" using L by simp
    then have div: "length ?rs div nat L = Suc (length (rows_from conds D (k + nat L)) div nat L)"
      unfolding shorter by (subst div_add_self1) simp_all
    have next_cursor: "pg_NextCursor r = encode_cursor_values lib (proj_CreatedAt p) (proj_ID p)"
      using r(5) True by (simp add: p_def encode_cursor_def)
    have nf: "no_fault w1" using no_fault_env [OF r(3)] Suc.prems(2) by simp
    obtain rs w' where rs: "walk_pages n (\<lambda>c. list_project_page lib conds c page limit scope) (pg_NextCursor r) w1 = (Inr rs, w')"
        "map it_ID (concat (map pg_Items rs)) = map proj_ID (rows_from conds D (k + nat L))"
        "length rs \<le> length (rows_from conds D (k + nat L)) div nat L + 1"
        "\<forall>r\<in>set (butlast rs). length (pg_Items r) = nat L" "length (pg_Items (last rs)) \<le> nat L" "rs \<noteq> []"
      using Suc.IH [OF r(2) nf Suc.prems(3) _ next_rows, of "pg_NextCursor r"] enc(3) Suc.prems(6) div next_cursor by auto
    have "map it_ID (concat (map pg_Items (r # rs))) = map proj_ID ?rs"
      using rs(2) r(4) split by (metis concat.simps(2) list.simps(9) map_append)
    then show ?thesis
      using r(1) rs enc(1) next_cursor items True div by (auto simp: bindE_def)
  qed
qed simp

section \<open>What a page holds\<close>

lemma find_projects_Inr: "find_projects conds n w = (Inr ps, w') \<Longrightarrow> p \<in> set ps \<Longrightarrow>
    p \<in> set (projects (db w)) \<and> (\<forall>c\<in>set conds. cond_holds (db w) c p)"
  by (auto simp: find_projects_def bindE_Inr matching_projects_def list_all_iff
      dest!: select_Inr in_set_takeD split: option.splits)

text \<open>A page without the numbers it is labelled with.\<close>

definition page_core :: "list_lib \<Rightarrow> list_cond list \<Rightarrow> string \<Rightarrow> int \<Rightarrow> uuid option \<Rightarrow>
    (project_list_item list \<times> bool \<times> string) mpp" where
  "page_core lib conds cursor limit scope =
     bindE (liftS (apply_cursor_columns lib cursor)) (\<lambda>cur.
     bindE (find_projects (conds @ [BehindCursor cur]) (Suc (nat limit))) (\<lambda>ps.
     bindE (preload_publications ps) (\<lambda>pubs.
     bindE (access_for_page scope (if limit < int (length ps) then take (nat limit) ps else ps)) (\<lambda>access.
     bindE (asks personal_workspace_id) (\<lambda>pws.
     ret (map (\<lambda>p. project_list_item_from_model pws (filter (\<lambda>pub. pub_ProjectID pub = proj_ID p) pubs) p
            (case access (proj_ID p) of Some (role, _) \<Rightarrow> role | None \<Rightarrow> '''') (map_option snd (access (proj_ID p))))
          (if limit < int (length ps) then take (nat limit) ps else ps),
        limit < int (length ps),
        if limit < int (length ps) \<and> (if limit < int (length ps) then take (nat limit) ps else ps) \<noteq> []
        then encode_cursor lib (last (if limit < int (length ps) then take (nat limit) ps else ps)) else ''''))))))"

lemma bindE_assoc: "bindE (bindE m f) g = bindE m (\<lambda>x. bindE (f x) g)"
  by (rule ext) (rule bindE_bindE_app)

lemma list_project_page_core:
  assumes "normalize_page page limit = (page', L)"
  shows "list_project_page lib conds cursor page limit scope =
     bindE (page_core lib conds cursor L scope)
       (\<lambda>x. ret (pagination_response (fst x) cursor page' L (fst (snd x)) (snd (snd x))))"
  unfolding list_project_page_def page_core_def assms prod.case bindE_assoc Let_def bindE_ret fst_conv snd_conv ..

lemma page_core_holds:
  assumes "page_core lib conds cursor L scope w = (Inr x, w')" "item \<in> set (fst x)"
  shows "\<exists>p\<in>set (projects (db w)). proj_ID p = it_ID item \<and> (\<forall>c\<in>set conds. cond_holds (db w) c p)"
proof -
  obtain cur ps w1 where ps: "find_projects (conds @ [BehindCursor cur]) (Suc (nat L)) w = (Inr ps, w1)"
    and x: "map it_ID (fst x) = map proj_ID (if L < int (length ps) then take (nat L) ps else ps)"
    using assms(1) unfolding page_core_def bindE_Inr liftS_def by (auto simp: o_def split del: if_split)
  have "set (if L < int (length ps) then take (nat L) ps else ps) \<subseteq> set ps" by (auto dest: in_set_takeD)
  moreover have "it_ID item \<in> set (map it_ID (fst x))" using assms(2) by simp
  ultimately obtain p where "p \<in> set ps" "proj_ID p = it_ID item" unfolding x by auto
  then show ?thesis using find_projects_Inr [OF ps] by fastforce
qed

lemma list_project_page_holds:
  assumes "list_project_page lib conds cursor page limit scope w = (Inr r, w')" "item \<in> set (pg_Items r)"
  shows "\<exists>p\<in>set (projects (db w)). proj_ID p = it_ID item \<and> (\<forall>c\<in>set conds. cond_holds (db w) c p)"
proof -
  obtain page' L where page: "normalize_page page limit = (page', L)" by fastforce
  obtain x w1 where "page_core lib conds cursor L scope w = (Inr x, w1)" "pg_Items r = fst x"
    using assms(1) by (auto simp: list_project_page_core [OF page] bindE_Inr pagination_response_def)
  then show ?thesis using page_core_holds assms(2) by metis
qed

lemma page_core_ambiguous:
  assumes "ambiguous_column conds = Some c"
  shows "\<exists>e w'. list_project_page lib conds cursor page limit scope w = (Inl e, w')"
proof -
  obtain page' L where page: "normalize_page page limit = (page', L)" by fastforce
  have "find_projects (conds @ [BehindCursor cur]) n w \<noteq> (Inr ps, w')" for cur n w ps w'
    using assms by (auto simp: find_projects_def bindE_Inr ambiguous_behind)
  then have "list_project_page lib conds cursor page limit scope w \<noteq> (Inr r, w')" for r w'
    unfolding list_project_page_core [OF page] page_core_def bindE_Inr by blast
  then show ?thesis by (metis old.prod.exhaust sum.exhaust)
qed

section \<open>Properties\<close>

text \<open>
  C37: A cursor is read back as the row it was made from, for every time and id the JSON package
  writes and reads; and whatever else a client sends as a cursor is refused as an invalid project,
  which the handlers answer with 400.
\<close>

theorem cursor_round_trip:
  assumes "ll_marshal lib (created, i) = Some s" "ll_unmarshal lib s = Some (created, i)" "s \<noteq> ''''"
    "created \<noteq> 0" "i \<noteq> uuid_nil"
  shows "decode_cursor lib (encode_cursor_values lib created i) = Inr (created, i) \<and>
    (\<forall>c e. apply_cursor_columns lib c = Inl e \<longrightarrow> err_is e ErrInvalidProject)"
proof
  have codec: "cursor_codec_ok lib created i" using assms by (simp add: cursor_codec_ok_def)
  show "decode_cursor lib (encode_cursor_values lib created i) = Inr (created, i)"
    using encoded_cursor [OF codec]
    by (cases "decode_cursor lib (encode_cursor_values lib created i)") (simp_all add: apply_cursor_columns_def)
  show "\<forall>c e. apply_cursor_columns lib c = Inl e \<longrightarrow> err_is e ErrInvalidProject"
    by (auto simp: apply_cursor_columns_def decode_cursor_def invalid_cursor_def Let_def
        split: if_splits option.splits)
qed

text \<open>
  C32: A client that starts without a cursor and follows \<open>NextCursor\<close> reaches a last page after at
  most one request more than the number of rows divided by the page size, and the pages it was sent
  hold every project the query matches exactly once, newest first with ties by id; every page but the
  last is full.
\<close>

theorem page_walk_lists_every_project_once:
  assumes "no_fault w" "scope_ok (db w) scope" "listable lib conds (db w)"
    and "normalize_page page limit = (page', L)" and "length (matching_projects conds (db w)) div nat L < n"
  shows "\<exists>rs w'. walk_pages n (\<lambda>c. list_project_page lib conds c page limit scope) '''' w = (Inr rs, w') \<and>
    map it_ID (concat (map pg_Items rs)) = map proj_ID (matching_projects conds (db w)) \<and>
    length rs \<le> length (matching_projects conds (db w)) div nat L + 1 \<and>
    (\<forall>r\<in>set (butlast rs). length (pg_Items r) = nat L)"
proof -
  have "apply_cursor_columns lib '''' = Inr None" by (simp add: apply_cursor_columns_def)
  moreover have "rows_from conds (db w) 0 = matching_projects conds (db w)" by (simp add: rows_from_def)
  ultimately show ?thesis
    using walk_from [OF assms(3,4) refl assms(1,2) _ rows_behind_none, of "''''" n] assms(5) by auto
qed

text \<open>
  A page number changes nothing but the numbers reported with the page: whatever the cursor, page
  two holds the rows of page one.
\<close>

theorem page_number_ignored:
  "map_sum id pg_Items (fst (list_project_page lib conds cursor page limit scope w)) =
   map_sum id pg_Items (fst (list_project_page lib conds cursor page2 limit scope w))"
proof -
  obtain p L where a: "normalize_page page limit = (p, L)" by fastforce
  moreover obtain q L' where b: "normalize_page page2 limit = (q, L')" by fastforce
  moreover have "L' = L" using a b by (auto simp: normalize_page_def Let_def)
  ultimately show ?thesis
    unfolding list_project_page_core [OF a] list_project_page_core [OF b]
    by (cases "page_core lib conds cursor L scope w"; cases "fst (page_core lib conds cursor L scope w)")
       (auto simp: bindE_def pagination_response_def)
qed

text \<open>
  C38: The listing of a workspace filtered by platform never returns a page: its query joins the
  publications, which have a \<open>workspace_id\<close> of their own, and names that column without its table.
\<close>

theorem platform_filter_always_fails:
  assumes "platform \<noteq> ''''"
  shows "\<exists>e w'. compute_workspace_project_list lib wid uid cursor page limit status platform w = (Inl e, w')"
proof -
  let ?conds = "if status = '''' then [WorkspaceIs wid, PlatformIs platform]
    else [WorkspaceIs wid, StatusIs status, PlatformIs platform]"
  have "ambiguous_column ?conds = Some ''workspace_id''"
    by (simp add: ambiguous_column_def project_columns_def publication_columns_def)
  note fails = page_core_ambiguous [OF this, of lib cursor page limit "Some uid" w]
  show ?thesis using fails assms by (cases "status = ''''") (simp_all add: compute_workspace_project_list_def)
qed


section \<open>Concrete runs\<close>

text \<open>A codec that writes a time and an id in unary.\<close>

definition unary_lib :: list_lib where
  "unary_lib = \<lparr>ll_marshal = (\<lambda>(t, i). Some (replicate (nat t) (CHR ''t'') @ replicate i (CHR ''i''))),
     ll_unmarshal = (\<lambda>s. Some (int (length (filter (\<lambda>c. c = CHR ''t'') s)), length (filter (\<lambda>c. c = CHR ''i'') s))),
     ll_summaries = (\<lambda>_. None), ll_parse_uuid = (\<lambda>_. None)\<rparr>"

lemma unary_codec: "0 < t \<Longrightarrow> 0 < i \<Longrightarrow> cursor_codec_ok unary_lib t i"
  by (simp add: cursor_codec_ok_def unary_lib_def)

definition listed_project :: "uuid \<Rightarrow> time \<Rightarrow> project" where
  "listed_project i t = sample_project\<lparr>proj_ID := i, proj_CreatedAt := t\<rparr>"

definition listed_db :: db where
  "listed_db = empty_db\<lparr>projects := [listed_project 2 10, listed_project 1 10, listed_project 3 20]\<rparr>"

lemma listed_matching: "matching_projects [] listed_db = [listed_project 3 20, listed_project 1 10, listed_project 2 10]"
  by (simp add: matching_projects_def listed_db_def project_key_def page_key_def listed_project_def
      sample_project_def less_eq_prod_def less_prod_def empty_db_def)

theorem cursor_round_trip_witness: "decode_cursor unary_lib (encode_cursor_values unary_lib 3 5) = Inr (3, 5)"
  using cursor_round_trip [of unary_lib 3 5 "''tttiiiii''"] by (simp add: unary_lib_def numeral_eq_Suc)

theorem page_walk_lists_every_project_once_witness:
  "\<exists>rs w'. walk_pages 2 (\<lambda>c. list_project_page unary_lib [] c 1 2 None) '''' (start_world listed_db) = (Inr rs, w') \<and>
    map it_ID (concat (map pg_Items rs)) = [3, 1, 2]"
proof -
  have "listable unary_lib [] listed_db"
    by (auto simp: listable_def project_ids_ok_def ambiguous_column_def listed_db_def listed_project_def
        intro: unary_codec)
  moreover have "normalize_page 1 2 = (1, 2)" by (simp add: normalize_page_def maxProjectListLimit_def)
  ultimately show ?thesis
    using page_walk_lists_every_project_once [of "start_world listed_db" None unary_lib "[]" 1 2 1 2 2]
    by (auto simp: scope_ok_def listed_matching listed_project_def)
qed

theorem platform_filter_always_fails_witness:
  "\<exists>e w'. compute_workspace_project_list unary_lib 5 7 '''' 1 10 '''' ''wechat'' (start_world listed_db) = (Inl e, w')"
  using platform_filter_always_fails [of "''wechat''" unary_lib 5 7 "''''" 1 10 "''''" "start_world listed_db"] by simp


end
