(* ===== verification/Project_Sharing.thy ===== *)
theory Project_Sharing
  imports Publish_Core Go_Encoding
begin

text \<open>
  Sharing a project: collaborators (\<open>services/project/collaborators.go\<close>), share links
  (\<open>experience/share_links.go\<close>) and the activity log both write (\<open>experience/activity.go\<close>). The
  token of a link is random and only its SHA-256 digest is stored. Cache invalidation is left out;
  \<open>GetProject\<close>, whose detail closes an acceptance, is a parameter.
\<close>

section \<open>Roles, tokens, errors\<close>

definition ErrInvalidProjectCollaborator :: err where
  "ErrInvalidProjectCollaborator = ErrSentinel ''invalid project collaborator''"

definition ErrInvalidProjectShareLink :: err where
  "ErrInvalidProjectShareLink = ErrSentinel ''invalid project share link''"

definition ProjectShareLinkStatusActive :: string where "ProjectShareLinkStatusActive = ''active''"
definition ProjectShareLinkStatusRevoked :: string where "ProjectShareLinkStatusRevoked = ''revoked''"

record sharing_service =
  shs_sha256 :: "string \<Rightarrow> string"
  shs_random :: "nat \<Rightarrow> err + string"
  shs_lower :: "string \<Rightarrow> string"
  shs_get_project :: "uuid \<Rightarrow> uuid \<Rightarrow> string mpp"

definition normalize_project_collaborator_role :: "string \<Rightarrow> err + string" where
  "normalize_project_collaborator_role role =
     (let role = trim_space role in
      if role = ProjectRoleEditor \<or> role = ProjectRoleViewer then Inr role
      else Inl ErrInvalidProjectCollaborator)"

definition project_role_rank :: "string \<Rightarrow> nat" where
  "project_role_rank role = (if role = ProjectRoleOwner then 3 else if role = ProjectRoleEditor then 2
     else if role = ProjectRoleViewer then 1 else 0)"

definition new_project_share_token :: "sharing_service \<Rightarrow> string mpp" where
  "new_project_share_token s w = (case shs_random s (calls w) of
       Inl e \<Rightarrow> (Inl e, tick w) | Inr raw \<Rightarrow> (Inr (b64_encode raw), tick w))"

definition hash_project_share_token :: "sharing_service \<Rightarrow> string \<Rightarrow> string" where
  "hash_project_share_token s token = hex_encode (shs_sha256 s token)"

definition require_project_owner :: "uuid \<Rightarrow> uuid \<Rightarrow> project mpp" where
  "require_project_owner projectID actorUserID =
     (if projectID = uuid_nil \<or> actorUserID = uuid_nil then throw ErrInvalidProject
      else bindE (first_row (find_project projectID)) (\<lambda>p.
        if proj_UserID p \<noteq> actorUserID then throw ErrForbidden else ret p))"

section \<open>The activity log\<close>

text \<open>
  An entry is dated later than the latest one of the project, by a nanosecond where the clock has not
  moved on.
\<close>

definition latest_activity :: "uuid \<Rightarrow> uuid \<Rightarrow> db \<Rightarrow> time" where
  "latest_activity wid projectID d =
     foldr max (map pact_CreatedAt (filter (\<lambda>a. pact_WorkspaceID a = wid \<and> pact_ProjectID a = projectID)
       (project_activities d))) 0"

definition record_project_activity ::
  "uuid \<Rightarrow> uuid \<Rightarrow> uuid option \<Rightarrow> project_activity_type \<Rightarrow> metadata \<Rightarrow> unit mpp" where
  "record_project_activity projectID actorUserID targetUserID eventType meta =
     (if projectID = uuid_nil \<or> actorUserID = uuid_nil \<or> trim_space (project_activity_text eventType) = ''''
      then ret ()
      else bindE (first_row (find_project projectID)) (\<lambda>p.
        bindE (workspace_of_project p) (\<lambda>wid.
        bindE now_utc (\<lambda>created.
        bindE (select (latest_activity wid projectID)) (\<lambda>latest.
        create_project_activity
          \<lparr>pact_ID = uuid_nil, pact_WorkspaceID = wid, pact_ProjectID = projectID, pact_ActorUserID = actorUserID,
           pact_TargetUserID = targetUserID, pact_EventType = eventType, pact_Metadata = meta,
           pact_CreatedAt = (if latest \<noteq> 0 \<and> \<not> latest < created then latest + 1 else created)\<rparr>)))))"

section \<open>Collaborators\<close>

definition same_collaborator :: "project_collaborator \<Rightarrow> project_collaborator \<Rightarrow> bool" where
  "same_collaborator c x = (collab_ProjectID x = collab_ProjectID c \<and> collab_UserID x = collab_UserID c)"

definition upsert_collaborator_rows :: "project_collaborator \<Rightarrow> project_collaborator list \<Rightarrow> project_collaborator list" where
  "upsert_collaborator_rows c rs = (if \<exists>x\<in>set rs. same_collaborator c x
     then update_rows (same_collaborator c) (\<lambda>x. x\<lparr>collab_Role := collab_Role c, collab_CreatedBy := collab_CreatedBy c\<rparr>) rs
     else rs @ [c])"

definition upsert_collaborator :: "project_collaborator \<Rightarrow> unit mpp" where
  "upsert_collaborator c = bindE now_utc (\<lambda>now.
     bindE (exec (\<lambda>d. (1, d\<lparr>collaborators := upsert_collaborator_rows (c\<lparr>collab_CreatedAt := now\<rparr>) (collaborators d)\<rparr>)))
       (\<lambda>_. ret ()))"

definition find_user_row :: "uuid \<Rightarrow> db \<Rightarrow> user option" where
  "find_user_row uid d = find (\<lambda>u. user_ID u = uid) (users d)"

record collaborator_request =
  car_UserID :: uuid
  car_Email :: string
  car_Role :: string

record collaborator_dto =
  cdto_ProjectID :: uuid
  cdto_UserID :: uuid
  cdto_Username :: string
  cdto_Email :: string
  cdto_Role :: string
  cdto_CreatedBy :: uuid
  cdto_CreatedAt :: time

definition project_collaborator_from_model :: "project_collaborator \<Rightarrow> user option \<Rightarrow> collaborator_dto" where
  "project_collaborator_from_model c u =
     \<lparr>cdto_ProjectID = collab_ProjectID c, cdto_UserID = collab_UserID c,
      cdto_Username = (case u of Some u \<Rightarrow> user_Username u | None \<Rightarrow> ''''),
      cdto_Email = (case u of Some u \<Rightarrow> user_Email u | None \<Rightarrow> ''''),
      cdto_Role = collab_Role c, cdto_CreatedBy = collab_CreatedBy c, cdto_CreatedAt = collab_CreatedAt c\<rparr>"

definition resolve_project_collaborator_user :: "sharing_service \<Rightarrow> collaborator_request \<Rightarrow> user mpp" where
  "resolve_project_collaborator_user s req =
     (if car_UserID req \<noteq> uuid_nil then first_row (find_user_row (car_UserID req))
      else let email = trim_space (car_Email req) in
        if email = '''' then throw ErrInvalidProjectCollaborator
        else first_row (\<lambda>d. find (\<lambda>u. shs_lower s (user_Email u) = shs_lower s email) (users d)))"

definition get_project_collaborator :: "uuid \<Rightarrow> uuid \<Rightarrow> collaborator_dto mpp" where
  "get_project_collaborator projectID userID =
     bindE (first_row (find_collaborator projectID userID)) (\<lambda>c.
     bindE (select (find_user_row (collab_UserID c))) (\<lambda>u. ret (project_collaborator_from_model c u)))"

definition list_project_collaborators :: "uuid \<Rightarrow> uuid \<Rightarrow> collaborator_dto list mpp" where
  "list_project_collaborators projectID actorUserID =
     bindE (require_project_owner projectID actorUserID) (\<lambda>_.
     bindE (select (\<lambda>d. sort_key collab_CreatedAt (filter (\<lambda>c. collab_ProjectID c = projectID) (collaborators d)))) (\<lambda>cs.
     if cs = [] then ret [] else
     bindE (select (\<lambda>d uid. find_user_row uid d)) (\<lambda>us.
     ret (map (\<lambda>c. project_collaborator_from_model c (us (collab_UserID c))) cs))))"

definition add_project_collaborator :: "sharing_service \<Rightarrow> uuid \<Rightarrow> uuid \<Rightarrow> collaborator_request \<Rightarrow> collaborator_dto mpp" where
  "add_project_collaborator s projectID actorUserID req =
     bindE (require_project_owner projectID actorUserID) (\<lambda>p.
     bindE (liftS (normalize_project_collaborator_role (car_Role req))) (\<lambda>role.
     bindE (resolve_project_collaborator_user s req) (\<lambda>user.
     if user_ID user = proj_UserID p then throw ErrInvalidProjectCollaborator
     else bindE (transaction (
         bindE (upsert_collaborator \<lparr>collab_ProjectID = projectID, collab_UserID = user_ID user, collab_Role = role,
             collab_CreatedBy = actorUserID, collab_CreatedAt = 0\<rparr>) (\<lambda>_.
         record_project_activity projectID actorUserID (Some (user_ID user))
           (ProjectActivityOther ''collaborator_added'') [(''role'', role)]))) (\<lambda>_.
       get_project_collaborator projectID (user_ID user)))))"

definition update_collaborators :: "(project_collaborator \<Rightarrow> bool) \<Rightarrow> (project_collaborator \<Rightarrow> project_collaborator) \<Rightarrow> nat mpp" where
  "update_collaborators p f = exec (\<lambda>d. (count_rows p (collaborators d), d\<lparr>collaborators := update_rows p f (collaborators d)\<rparr>))"

definition update_project_collaborator :: "uuid \<Rightarrow> uuid \<Rightarrow> uuid \<Rightarrow> string \<Rightarrow> collaborator_dto mpp" where
  "update_project_collaborator projectID actorUserID targetUserID reqRole =
     bindE (require_project_owner projectID actorUserID) (\<lambda>p.
     if targetUserID = uuid_nil \<or> targetUserID = proj_UserID p then throw ErrInvalidProjectCollaborator
     else bindE (liftS (normalize_project_collaborator_role reqRole)) (\<lambda>role.
     bindE (first_row (find_collaborator projectID targetUserID)) (\<lambda>c.
     bindE (transaction (
       bindE (update_collaborators (same_collaborator c) (\<lambda>x. x\<lparr>collab_Role := role\<rparr>)) (\<lambda>_.
       record_project_activity projectID actorUserID (Some targetUserID)
         (ProjectActivityOther ''collaborator_role_changed'') [(''previous_role'', collab_Role c), (''role'', role)]))) (\<lambda>_.
     get_project_collaborator projectID targetUserID))))"

definition delete_collaborators :: "(project_collaborator \<Rightarrow> bool) \<Rightarrow> nat mpp" where
  "delete_collaborators p = exec (\<lambda>d. (count_rows p (collaborators d),
     d\<lparr>collaborators := filter (\<lambda>c. \<not> p c) (collaborators d)\<rparr>))"

definition remove_project_collaborator :: "uuid \<Rightarrow> uuid \<Rightarrow> uuid \<Rightarrow> unit mpp" where
  "remove_project_collaborator projectID actorUserID targetUserID =
     bindE (require_project_owner projectID actorUserID) (\<lambda>p.
     if targetUserID = uuid_nil \<or> targetUserID = proj_UserID p then throw ErrInvalidProjectCollaborator
     else transaction (
       bindE (delete_collaborators (\<lambda>c. collab_ProjectID c = projectID \<and> collab_UserID c = targetUserID)) (\<lambda>n.
       if n = 0 then throw ErrRecordNotFound
       else record_project_activity projectID actorUserID (Some targetUserID)
         (ProjectActivityOther ''collaborator_removed'') [])))"

section \<open>Share links\<close>

definition project_share_link_before_create :: "uuid \<Rightarrow> uuid \<Rightarrow> project_share_link \<Rightarrow> project_share_link" where
  "project_share_link_before_create fresh derived l =
     l\<lparr>shl_ID := (if shl_ID l = uuid_nil then fresh else shl_ID l),
       shl_WorkspaceID := (if shl_WorkspaceID l = uuid_nil then derived else shl_WorkspaceID l),
       shl_Status := (if shl_Status l = '''' then ProjectShareLinkStatusActive else shl_Status l)\<rparr>"

definition insert_share_link :: "project_share_link \<Rightarrow> project_share_link mpp" where
  "insert_share_link l =
     bindE (hook_workspace (shl_WorkspaceID l) (shl_ProjectID l) (shl_CreatedBy l)) (\<lambda>wid.
     bindE uuid_new (\<lambda>fresh. bindE now_utc (\<lambda>now.
     let l = (project_share_link_before_create fresh wid l)\<lparr>shl_CreatedAt := now\<rparr>
     in bindE (create_row share_links (\<lambda>rs d. d\<lparr>share_links := rs\<rparr>)
          (\<lambda>r x. shl_ID x = shl_ID r \<or> shl_TokenHash x = shl_TokenHash r) l) (\<lambda>_. ret l))))"

record share_link_dto =
  sdto_ID :: uuid
  sdto_ProjectID :: uuid
  sdto_CreatedBy :: uuid
  sdto_Role :: string
  sdto_Status :: string
  sdto_ExpiresAt :: "time option"
  sdto_CreatedAt :: time
  sdto_RevokedAt :: "time option"

definition project_share_link_from_model :: "project_share_link \<Rightarrow> share_link_dto" where
  "project_share_link_from_model l =
     \<lparr>sdto_ID = shl_ID l, sdto_ProjectID = shl_ProjectID l, sdto_CreatedBy = shl_CreatedBy l,
      sdto_Role = shl_Role l, sdto_Status = shl_Status l, sdto_ExpiresAt = shl_ExpiresAt l,
      sdto_CreatedAt = shl_CreatedAt l, sdto_RevokedAt = shl_RevokedAt l\<rparr>"

definition list_project_share_links :: "uuid \<Rightarrow> uuid \<Rightarrow> share_link_dto list mpp" where
  "list_project_share_links projectID userID =
     bindE (require_project_owner projectID userID) (\<lambda>p.
     bindE (workspace_of_project p) (\<lambda>wid.
     bindE (select (\<lambda>d. sort_key (\<lambda>l. - shl_CreatedAt l)
        (filter (\<lambda>l. shl_WorkspaceID l = wid \<and> shl_ProjectID l = projectID) (share_links d)))) (\<lambda>ls.
     ret (map project_share_link_from_model ls))))"

definition trim_right_slashes :: "string \<Rightarrow> string" where
  "trim_right_slashes s = rev (dropWhile (\<lambda>c. c = CHR ''/'') (rev s))"

definition create_project_share_link ::
  "sharing_service \<Rightarrow> uuid \<Rightarrow> uuid \<Rightarrow> string \<Rightarrow> time option \<Rightarrow> string \<Rightarrow> (share_link_dto \<times> string \<times> string) mpp" where
  "create_project_share_link s projectID userID reqRole expiresAt baseURL =
     bindE (require_project_owner projectID userID) (\<lambda>p.
     case normalize_project_collaborator_role reqRole of
       Inl _ \<Rightarrow> throw ErrInvalidProjectShareLink
     | Inr role \<Rightarrow>
         bindE (new_project_share_token s) (\<lambda>token.
         bindE (workspace_of_project p) (\<lambda>wid.
         bindE (transaction (
           bindE (insert_share_link \<lparr>shl_ID = uuid_nil, shl_WorkspaceID = wid, shl_ProjectID = projectID,
               shl_CreatedBy = userID, shl_TokenHash = hash_project_share_token s token, shl_Role = role,
               shl_Status = ProjectShareLinkStatusActive, shl_ExpiresAt = expiresAt, shl_CreatedAt = 0,
               shl_RevokedAt = None\<rparr>) (\<lambda>link.
           bindE (record_project_activity projectID userID None (ProjectActivityOther ''share_link_created'') [(''role'', role)])
             (\<lambda>_. ret link)))) (\<lambda>link.
         ret (project_share_link_from_model link, token,
           trim_right_slashes baseURL @ ''/share/projects/'' @ token)))))"

definition link_usable :: "string \<Rightarrow> time \<Rightarrow> project_share_link \<Rightarrow> bool" where
  "link_usable h now l = (shl_TokenHash l = h \<and> shl_Status l = ProjectShareLinkStatusActive \<and>
     (case shl_ExpiresAt l of None \<Rightarrow> True | Some t \<Rightarrow> now < t))"

text \<open>The transaction of an acceptance: the project, and whether its collaborators changed.\<close>

definition accept_link_tx :: "string \<Rightarrow> time \<Rightarrow> uuid \<Rightarrow> (uuid \<times> bool) mpp" where
  "accept_link_tx h now userID =
     bindE (first_row (\<lambda>d. find (link_usable h now) (share_links d))) (\<lambda>link.
     bindE (first_row (find_project (shl_ProjectID link))) (\<lambda>p.
     bindE (workspace_of_project p) (\<lambda>wid.
     if wid \<noteq> shl_WorkspaceID link then throw ErrRecordNotFound
     else if proj_UserID p = userID then ret (proj_ID p, False)
     else bindE (tryE (project_access_role_and_source p userID)) (\<lambda>r.
       if (case r of Inr a \<Rightarrow> project_role_rank (shl_Role link) \<le> project_role_rank (fst a) | Inl _ \<Rightarrow> False)
       then ret (proj_ID p, False)
       else if (case r of Inl e \<Rightarrow> \<not> err_is e ErrForbidden | Inr _ \<Rightarrow> False) then liftS (map_sum id (\<lambda>_. (uuid_nil, False)) r)
       else bindE (upsert_collaborator \<lparr>collab_ProjectID = proj_ID p, collab_UserID = userID, collab_Role = shl_Role link,
             collab_CreatedBy = shl_CreatedBy link, collab_CreatedAt = 0\<rparr>) (\<lambda>_.
         bindE (record_project_activity (proj_ID p) userID None (ProjectActivityOther ''share_link_accepted'')
           [(''role'', shl_Role link), (''share_link_id'', uuid_text (shl_ID link))]) (\<lambda>_.
         ret (proj_ID p, True)))))))"

definition accept_project_share_link :: "sharing_service \<Rightarrow> string \<Rightarrow> uuid \<Rightarrow> (uuid \<times> string) mpp" where
  "accept_project_share_link s token userID =
     (let token = trim_space token in
      if token = '''' \<or> userID = uuid_nil then throw ErrInvalidProjectShareLink
      else bindE now_utc (\<lambda>now.
        bindE (transaction (accept_link_tx (hash_project_share_token s token) now userID)) (\<lambda>(projectID, changed).
        bindE (shs_get_project s projectID userID) (\<lambda>role. ret (projectID, role)))))"

definition update_share_links :: "(project_share_link \<Rightarrow> bool) \<Rightarrow> (project_share_link \<Rightarrow> project_share_link) \<Rightarrow> nat mpp" where
  "update_share_links p f = exec (\<lambda>d. (count_rows p (share_links d), d\<lparr>share_links := update_rows p f (share_links d)\<rparr>))"

definition revoke_project_share_link :: "uuid \<Rightarrow> uuid \<Rightarrow> uuid \<Rightarrow> unit mpp" where
  "revoke_project_share_link projectID userID linkID =
     bindE (require_project_owner projectID userID) (\<lambda>p.
     if linkID = uuid_nil then throw ErrInvalidProjectShareLink
     else bindE (workspace_of_project p) (\<lambda>wid.
       bindE now_utc (\<lambda>now.
       transaction (
         bindE (update_share_links (\<lambda>l. shl_ID l = linkID \<and> shl_WorkspaceID l = wid \<and> shl_ProjectID l = projectID
             \<and> shl_Status l = ProjectShareLinkStatusActive)
           (\<lambda>l. l\<lparr>shl_Status := ProjectShareLinkStatusRevoked, shl_RevokedAt := Some now\<rparr>)) (\<lambda>n.
         if n = 0 then throw ErrRecordNotFound
         else record_project_activity projectID userID None (ProjectActivityOther ''share_link_revoked'')
           [(''share_link_id'', uuid_text linkID)])))))"

section \<open>The invariant\<close>

text \<open>
  \<open>sharing_ok\<close>: a project has at most one collaborator row per user, none for its owner, and every
  row and every link carries one of the two roles that can be shared; link ids and token digests are
  unique, and a link is active or revoked.
\<close>

definition shared_roles :: "string set" where
  "shared_roles = {ProjectRoleEditor, ProjectRoleViewer}"

definition collab_key :: "project_collaborator \<Rightarrow> uuid \<times> uuid" where
  "collab_key c = (collab_ProjectID c, collab_UserID c)"

definition collab_allowed :: "project list \<Rightarrow> project_collaborator \<Rightarrow> bool" where
  "collab_allowed ps c \<longleftrightarrow> collab_Role c \<in> shared_roles \<and>
     (\<forall>p\<in>set ps. proj_ID p = collab_ProjectID c \<longrightarrow> proj_UserID p \<noteq> collab_UserID c)"

definition link_allowed :: "project_share_link \<Rightarrow> bool" where
  "link_allowed l \<longleftrightarrow> shl_Role l \<in> shared_roles \<and>
     shl_Status l \<in> {ProjectShareLinkStatusActive, ProjectShareLinkStatusRevoked}"

definition sharing_ok :: "db \<Rightarrow> bool" where
  "sharing_ok d \<longleftrightarrow> distinct (map proj_ID (projects d)) \<and> distinct (map collab_key (collaborators d)) \<and>
     (\<forall>c\<in>set (collaborators d). collab_allowed (projects d) c) \<and>
     distinct (map shl_ID (share_links d)) \<and> distinct (map shl_TokenHash (share_links d)) \<and>
     (\<forall>l\<in>set (share_links d). link_allowed l)"

text \<open>Sharing never touches the projects; the invariant is kept with them.\<close>

definition sharing_in :: "project list \<Rightarrow> db \<Rightarrow> bool" where
  "sharing_in ps d \<longleftrightarrow> sharing_ok d \<and> projects d = ps"

lemma same_collaborator_key: "same_collaborator c x \<longleftrightarrow> collab_key x = collab_key c"
  by (auto simp: same_collaborator_def collab_key_def)

lemma normalize_role_shared: "normalize_project_collaborator_role r = Inr role \<Longrightarrow> role \<in> shared_roles"
  by (auto simp: normalize_project_collaborator_role_def shared_roles_def Let_def split: if_splits)

lemma sharing_in_other [simp]:
  "sharing_in ps (d\<lparr>project_activities := as\<rparr>) = sharing_in ps d"
  by (simp add: sharing_in_def sharing_ok_def)

lemma sharing_in_upsert:
  assumes "sharing_in ps d" "collab_Role c \<in> shared_roles"
    and "\<forall>p\<in>set ps. proj_ID p = collab_ProjectID c \<longrightarrow> proj_UserID p \<noteq> collab_UserID c"
  shows "sharing_in ps (d\<lparr>collaborators := upsert_collaborator_rows c (collaborators d)\<rparr>)"
proof (cases "\<exists>x\<in>set (collaborators d). same_collaborator c x")
  case True
  have "map collab_key (update_rows p (\<lambda>x. x\<lparr>collab_Role := r, collab_CreatedBy := u\<rparr>) rs) = map collab_key rs" for p r u rs
    by (simp add: update_rows_def collab_key_def)
  with True assms show ?thesis
    by (auto simp: sharing_in_def sharing_ok_def upsert_collaborator_rows_def set_update_rows collab_allowed_def)
next
  case False
  then have "collab_key c \<notin> collab_key ` set (collaborators d)" by (auto simp: same_collaborator_key)
  with False assms show ?thesis
    by (auto simp: sharing_in_def sharing_ok_def upsert_collaborator_rows_def collab_allowed_def)
qed

lemma sharing_in_set_role:
  assumes "sharing_in ps d" "role \<in> shared_roles"
  shows "sharing_in ps (d\<lparr>collaborators := update_rows p (\<lambda>x. x\<lparr>collab_Role := role\<rparr>) (collaborators d)\<rparr>)"
proof -
  have "map collab_key (update_rows p (\<lambda>x. x\<lparr>collab_Role := role\<rparr>) rs) = map collab_key rs" for rs
    by (simp add: update_rows_def collab_key_def)
  with assms show ?thesis
    by (auto simp: sharing_in_def sharing_ok_def set_update_rows collab_allowed_def)
qed

lemma sharing_in_delete: "sharing_in ps d \<Longrightarrow> sharing_in ps (d\<lparr>collaborators := filter q (collaborators d)\<rparr>)"
  by (auto simp: sharing_in_def sharing_ok_def distinct_map_filter)

lemma sharing_in_revoke:
  assumes "sharing_in ps d"
  shows "sharing_in ps (d\<lparr>share_links := update_rows p
    (\<lambda>l. l\<lparr>shl_Status := ProjectShareLinkStatusRevoked, shl_RevokedAt := t\<rparr>) (share_links d)\<rparr>)"
proof -
  have "map shl_ID (update_rows p (\<lambda>l. l\<lparr>shl_Status := s, shl_RevokedAt := t\<rparr>) rs) = map shl_ID rs"
    "map shl_TokenHash (update_rows p (\<lambda>l. l\<lparr>shl_Status := s, shl_RevokedAt := t\<rparr>) rs) = map shl_TokenHash rs" for s rs
    by (simp_all add: update_rows_def)
  with assms show ?thesis
    by (auto simp: sharing_in_def sharing_ok_def set_update_rows link_allowed_def)
qed

lemma sharing_in_new_link:
  assumes "sharing_in ps d" "link_allowed l" "\<forall>x\<in>set (share_links d). \<not> (shl_ID x = shl_ID l \<or> shl_TokenHash x = shl_TokenHash l)"
  shows "sharing_in ps (d\<lparr>share_links := share_links d @ [l]\<rparr>)"
  using assms by (auto simp: sharing_in_def sharing_ok_def)

section \<open>Every operation keeps it\<close>

lemma keeps_record_activity:
  "(\<And>d as. J d \<Longrightarrow> J (d\<lparr>project_activities := as\<rparr>)) \<Longrightarrow> keeps (on_db J) (record_project_activity pid uid t ev m)"
  unfolding record_project_activity_def create_project_activity_def
  by (intro keeps_intros) simp

lemma keeps_inv_activity [keeps_intros]: "keeps (on_db (sharing_in ps)) (record_project_activity pid uid t ev m)"
  by (rule keeps_record_activity) simp

lemma keeps_owner [keeps_intros]: "keeps (on_db J) (require_project_owner pid uid)"
  unfolding require_project_owner_def by (intro keeps_intros)

lemma keeps_sharing_reads [keeps_intros]:
  "keeps (on_db J) (resolve_project_collaborator_user s req)" "keeps (on_db J) (get_project_collaborator pid uid)"
  "keeps (on_db J) (list_project_collaborators pid uid)" "keeps (on_db J) (list_project_share_links pid uid)"
  unfolding resolve_project_collaborator_user_def get_project_collaborator_def list_project_collaborators_def
    list_project_share_links_def Let_def
  by (intro keeps_intros)+

lemma keeps_share_token [keeps_intros]: "keeps (on_db J) (new_project_share_token s)"
  by (simp add: keeps_def new_project_share_token_def split: sum.splits)

lemma keeps_upsert_collaborator:
  "(\<And>d now. J d \<Longrightarrow> J (d\<lparr>collaborators := upsert_collaborator_rows (c\<lparr>collab_CreatedAt := now\<rparr>) (collaborators d)\<rparr>)) \<Longrightarrow>
    keeps (on_db J) (upsert_collaborator c)"
  unfolding upsert_collaborator_def by (intro keeps_intros) simp

text \<open>What an owner check tells about the projects.\<close>

lemma keeps_owner_bind:
  assumes "\<And>p. p \<in> set ps \<Longrightarrow> proj_ID p = pid \<Longrightarrow> proj_UserID p = uid \<Longrightarrow> keeps (on_db (sharing_in ps)) (f p)"
  shows "keeps (on_db (sharing_in ps)) (bindE (require_project_owner pid uid) f)"
proof (rule keeps_wpI, rule wp_bindE)
  fix w assume w: "on_db (sharing_in ps) w"
  show "wp (require_project_owner pid uid) (\<lambda>x. wp (f x) (\<lambda>_. on_db (sharing_in ps)) (\<lambda>_. on_db (sharing_in ps)))
     (\<lambda>_. on_db (sharing_in ps)) w"
    unfolding require_project_owner_def
    by (intro wp_If wp_throw wp_bindE wp_first_row wp_ret)
      (use w in \<open>auto simp: on_db_def sharing_in_def dest!: find_project_props intro!: wp_keeps [OF assms]\<close>)
qed

lemma link_allowed_new: "role \<in> shared_roles \<Longrightarrow> shl_Role l = role \<Longrightarrow> shl_Status l = ProjectShareLinkStatusActive \<Longrightarrow>
    link_allowed ((project_share_link_before_create fresh wid l)\<lparr>shl_CreatedAt := now\<rparr>)"
  by (simp add: link_allowed_def project_share_link_before_create_def ProjectShareLinkStatusActive_def)

lemma keeps_add_collaborator: "keeps (on_db (sharing_in ps)) (add_project_collaborator s pid uid req)"
  unfolding add_project_collaborator_def
proof (rule keeps_owner_bind)
  fix p assume p: "p \<in> set ps" "proj_ID p = pid" "proj_UserID p = uid"
  show "keeps (on_db (sharing_in ps)) (bindE (liftS (normalize_project_collaborator_role (car_Role req))) (\<lambda>role.
     bindE (resolve_project_collaborator_user s req) (\<lambda>user.
     if user_ID user = proj_UserID p then throw ErrInvalidProjectCollaborator
     else bindE (transaction (
         bindE (upsert_collaborator \<lparr>collab_ProjectID = pid, collab_UserID = user_ID user, collab_Role = role,
             collab_CreatedBy = uid, collab_CreatedAt = 0\<rparr>) (\<lambda>_.
         record_project_activity pid uid (Some (user_ID user))
           (ProjectActivityOther ''collaborator_added'') [(''role'', role)]))) (\<lambda>_.
       get_project_collaborator pid (user_ID user)))))"
  proof (rule keeps_liftS_bind, intro keeps_intros keeps_upsert_collaborator, goal_cases)
    case (1 role user d now)
    show ?case
    proof (rule sharing_in_upsert [OF 1(3)])
      show "\<forall>q\<in>set ps. proj_ID q = collab_ProjectID (\<lparr>collab_ProjectID = pid, collab_UserID = user_ID user, collab_Role = role,
             collab_CreatedBy = uid, collab_CreatedAt = 0\<rparr>\<lparr>collab_CreatedAt := now\<rparr>) \<longrightarrow>
          proj_UserID q \<noteq> collab_UserID (\<lparr>collab_ProjectID = pid, collab_UserID = user_ID user, collab_Role = role,
             collab_CreatedBy = uid, collab_CreatedAt = 0\<rparr>\<lparr>collab_CreatedAt := now\<rparr>)"
        using 1 p by (auto simp: sharing_in_def sharing_ok_def distinct_map dest: inj_onD)
    qed (use 1 normalize_role_shared in simp)
  qed
qed

lemma keeps_update_collaborator: "keeps (on_db (sharing_in ps)) (update_project_collaborator pid uid target role)"
  unfolding update_project_collaborator_def update_collaborators_def
  by (intro keeps_intros keeps_liftS_bind) (auto intro: sharing_in_set_role dest: normalize_role_shared)

lemma keeps_remove_collaborator: "keeps (on_db (sharing_in ps)) (remove_project_collaborator pid uid target)"
  unfolding remove_project_collaborator_def delete_collaborators_def
  by (intro keeps_intros) (auto intro: sharing_in_delete)

lemma keeps_insert_share_link:
  assumes "shl_Role l \<in> shared_roles" "shl_Status l = ProjectShareLinkStatusActive"
  shows "keeps (on_db (sharing_in ps)) (insert_share_link l)"
  unfolding insert_share_link_def Let_def
  by (intro keeps_intros sharing_in_new_link link_allowed_new [OF assms(1) refl assms(2)]) auto

lemma keeps_create_link: "keeps (on_db (sharing_in ps)) (create_project_share_link s pid uid role expires url)"
proof (cases "normalize_project_collaborator_role role")
  case (Inl e)
  then show ?thesis unfolding create_project_share_link_def by (simp, intro keeps_intros)
next
  case (Inr r)
  then show ?thesis unfolding create_project_share_link_def
    by (simp, intro keeps_intros keeps_insert_share_link) (auto dest: normalize_role_shared)
qed

lemma keeps_revoke_link: "keeps (on_db (sharing_in ps)) (revoke_project_share_link pid uid linkID)"
  unfolding revoke_project_share_link_def update_share_links_def
  by (intro keeps_intros) (auto intro: sharing_in_revoke)

lemma keeps_accept_tx: "keeps (on_db (sharing_in ps)) (accept_link_tx h now uid)"
  unfolding accept_link_tx_def
proof (rule keeps_wp_first_row)
  fix l w assume l: "on_db (sharing_in ps) w" "find (link_usable h now) (share_links (db w)) = Some l"
  then have role: "shl_Role l \<in> shared_roles"
    using find_Some_set [OF l(2)] by (auto simp: on_db_def sharing_in_def sharing_ok_def link_allowed_def)
  show "keeps (on_db (sharing_in ps)) (bindE (first_row (find_project (shl_ProjectID l))) (\<lambda>p.
     bindE (workspace_of_project p) (\<lambda>wid.
     if wid \<noteq> shl_WorkspaceID l then throw ErrRecordNotFound
     else if proj_UserID p = uid then ret (proj_ID p, False)
     else bindE (tryE (project_access_role_and_source p uid)) (\<lambda>r.
       if (case r of Inr a \<Rightarrow> project_role_rank (shl_Role l) \<le> project_role_rank (fst a) | Inl _ \<Rightarrow> False)
       then ret (proj_ID p, False)
       else if (case r of Inl e \<Rightarrow> \<not> err_is e ErrForbidden | Inr _ \<Rightarrow> False) then liftS (map_sum id (\<lambda>_. (uuid_nil, False)) r)
       else bindE (upsert_collaborator \<lparr>collab_ProjectID = proj_ID p, collab_UserID = uid, collab_Role = shl_Role l,
             collab_CreatedBy = shl_CreatedBy l, collab_CreatedAt = 0\<rparr>) (\<lambda>_.
         bindE (record_project_activity (proj_ID p) uid None (ProjectActivityOther ''share_link_accepted'')
           [(''role'', shl_Role l), (''share_link_id'', uuid_text (shl_ID l))]) (\<lambda>_.
         ret (proj_ID p, True)))))))"
  proof (rule keeps_wp_first_row)
    fix p w assume "on_db (sharing_in ps) w" "find_project (shl_ProjectID l) (db w) = Some p"
    then have p: "p \<in> set ps" by (auto simp: on_db_def sharing_in_def dest: find_project_props)
    show "keeps (on_db (sharing_in ps)) (bindE (workspace_of_project p) (\<lambda>wid.
     if wid \<noteq> shl_WorkspaceID l then throw ErrRecordNotFound
     else if proj_UserID p = uid then ret (proj_ID p, False)
     else bindE (tryE (project_access_role_and_source p uid)) (\<lambda>r.
       if (case r of Inr a \<Rightarrow> project_role_rank (shl_Role l) \<le> project_role_rank (fst a) | Inl _ \<Rightarrow> False)
       then ret (proj_ID p, False)
       else if (case r of Inl e \<Rightarrow> \<not> err_is e ErrForbidden | Inr _ \<Rightarrow> False) then liftS (map_sum id (\<lambda>_. (uuid_nil, False)) r)
       else bindE (upsert_collaborator \<lparr>collab_ProjectID = proj_ID p, collab_UserID = uid, collab_Role = shl_Role l,
             collab_CreatedBy = shl_CreatedBy l, collab_CreatedAt = 0\<rparr>) (\<lambda>_.
         bindE (record_project_activity (proj_ID p) uid None (ProjectActivityOther ''share_link_accepted'')
           [(''role'', shl_Role l), (''share_link_id'', uuid_text (shl_ID l))]) (\<lambda>_.
         ret (proj_ID p, True))))))"
    proof (intro keeps_intros keeps_upsert_collaborator sharing_in_upsert, goal_cases)
      case (3 wid r d now)
      then show ?case using p by (auto simp: sharing_in_def sharing_ok_def distinct_map dest: inj_onD)
    qed (use role in simp_all)
  qed simp
qed simp

section \<open>Requests in any order\<close>

datatype sharing_op = AddCollaborator uuid uuid collaborator_request | UpdateCollaborator uuid uuid uuid string
  | RemoveCollaborator uuid uuid uuid | CreateShareLink uuid uuid string "time option" string
  | RevokeShareLink uuid uuid uuid | AcceptShareLink string uuid

definition done_with :: "'a mpp \<Rightarrow> unit mpp" where
  "done_with m = bindE m (\<lambda>_. ret ())"

fun run_sharing :: "sharing_service \<Rightarrow> sharing_op \<Rightarrow> unit mpp" where
  "run_sharing s (AddCollaborator pid uid req) = done_with (add_project_collaborator s pid uid req)"
| "run_sharing s (UpdateCollaborator pid uid target role) = done_with (update_project_collaborator pid uid target role)"
| "run_sharing s (RemoveCollaborator pid uid target) = remove_project_collaborator pid uid target"
| "run_sharing s (CreateShareLink pid uid role expires url) = done_with (create_project_share_link s pid uid role expires url)"
| "run_sharing s (RevokeShareLink pid uid link) = revoke_project_share_link pid uid link"
| "run_sharing s (AcceptShareLink token uid) = done_with (accept_project_share_link s token uid)"

fun run_sharing_requests :: "sharing_service \<Rightarrow> sharing_op list \<Rightarrow> unit mpp" where
  "run_sharing_requests s [] = ret ()"
| "run_sharing_requests s (op # ops) = bindE (ignoreE (run_sharing s op)) (\<lambda>_. run_sharing_requests s ops)"

text \<open>Reading the project detail writes no table.\<close>

definition detail_reads_only :: "sharing_service \<Rightarrow> bool" where
  "detail_reads_only s \<longleftrightarrow> (\<forall>pid uid w. db (snd (shs_get_project s pid uid w)) = db w)"

lemma keeps_detail: "detail_reads_only s \<Longrightarrow> keeps (on_db J) (shs_get_project s pid uid)"
  by (simp add: detail_reads_only_def keeps_def on_db_def)

lemma keeps_accept:
  assumes "detail_reads_only s" "\<And>h now. keeps (on_db J) (accept_link_tx h now uid)"
  shows "keeps (on_db J) (accept_project_share_link s token uid)"
  unfolding accept_project_share_link_def Let_def by (intro keeps_intros assms(2) keeps_detail [OF assms(1)])

lemma keeps_sharing_op: "detail_reads_only s \<Longrightarrow> keeps (on_db (sharing_in ps)) (run_sharing s op)"
  by (cases op) (auto simp: done_with_def intro!: keeps_intros keeps_add_collaborator keeps_update_collaborator
      keeps_remove_collaborator keeps_create_link keeps_revoke_link keeps_accept keeps_accept_tx)

lemma keeps_requests: "(\<And>op. op \<in> set ops \<Longrightarrow> keeps I (run_sharing s op)) \<Longrightarrow> keeps I (run_sharing_requests s ops)"
  by (induction ops) (auto intro!: keeps_intros)

section \<open>What an acceptance does\<close>

lemma workspace_access_forbidden:
  assumes op: "faults_opaque w" and s: "workspace_access_role wid uid w = (Inl e, w')" and e: "err_is e ErrForbidden"
  shows "workspace_role_of (db w) wid uid = None"
proof (cases "find_workspace wid (db w) = None \<or> wid = uuid_nil \<or> uid = uuid_nil")
  case True
  then show ?thesis by (auto simp: workspace_role_of_def)
next
  case False
  then obtain ws where ws: "find_workspace wid (db w) = Some ws" "wid \<noteq> uuid_nil" "uid \<noteq> uuid_nil" by auto
  have op2: "faults_opaque (tick w)" using op by simp
  from s ws e faults_opaqueD [OF op] show ?thesis
    by (cases rule: try_first_row_cases [OF op2, of "find_member wid uid"])
       (auto simp: workspace_access_role_def workspace_role_of_def bindE_def
         dest!: first_row_Inr first_row_Inl split: if_splits prod.splits sum.splits)
qed

lemma project_access_decides:
  assumes op: "faults_opaque w" and run: "project_access_role_and_source p uid w = (r, w')"
  shows "case r of Inr a \<Rightarrow> project_access_of (db w) uid p = Some a
    | Inl e \<Rightarrow> err_is e ErrForbidden \<longrightarrow> project_access_of (db w) uid p = None"
proof (cases "uid = uuid_nil \<or> proj_UserID p = uid")
  case True
  then show ?thesis using run by (auto simp: project_access_role_and_source_def project_access_of_def split: if_splits)
next
  case False
  show ?thesis using op
  proof (cases rule: try_first_row_cases [where q = "find_collaborator (proj_ID p) uid"])
    case (found c)
    then show ?thesis using run False by (auto simp: project_access_role_and_source_def project_access_of_def bindE_def)
  next
    case (fault e)
    then show ?thesis using run False by (auto simp: project_access_role_and_source_def bindE_def)
  next
    case missing
    show ?thesis
    proof (cases "proj_WorkspaceID p = None \<or> proj_WorkspaceID p = Some uuid_nil")
      case True
      then show ?thesis using run False missing
        by (auto simp: project_access_role_and_source_def project_access_of_def bindE_def workspace_role_of_def)
    next
      case wid: False
      then obtain wid where wid: "proj_WorkspaceID p = Some wid" "wid \<noteq> uuid_nil" by auto
      obtain s w1 where s: "workspace_access_role wid uid (tick w) = (s, w1)" by fastforce
      have op1: "faults_opaque (tick w)" using op by simp
      show ?thesis
      proof (cases s)
        case (Inr role)
        with s have "workspace_role_of (db w) wid uid = Some role"
          using workspace_access_role_sound [OF op1] by simp
        with Inr s run missing wid False show ?thesis
          by (auto simp: project_access_role_and_source_def project_access_of_def workspace_project_role_def liftS_def
              bindE_def project_role_for_workspace_role_def split: if_splits)
      next
        case (Inl e)
        have "err_is e ErrForbidden \<Longrightarrow> workspace_role_of (db w) wid uid = None"
          using workspace_access_forbidden [OF op1 s [unfolded Inl]] by simp
        with Inl s run missing wid False show ?thesis
          by (auto simp: project_access_role_and_source_def project_access_of_def workspace_project_role_def bindE_def)
      qed
    qed
  qed
qed

lemma wp_project_access:
  assumes "faults_opaque w"
    and "\<And>a w'. db w' = db w \<Longrightarrow> project_access_of (db w) uid p = Some a \<Longrightarrow> Q a w'"
    and "\<And>e w'. db w' = db w \<Longrightarrow> (err_is e ErrForbidden \<Longrightarrow> project_access_of (db w) uid p = None) \<Longrightarrow> E e w'"
  shows "wp (project_access_role_and_source p uid) Q E w"
proof (rule wpI)
  have same: "db w' = db w" if "project_access_role_and_source p uid w = (r, w')" for r w'
    using that db_kept [OF keeps_access(5)] by blast
  show "Q x w'" if "project_access_role_and_source p uid w = (Inr x, w')" for x w'
    using project_access_decides [OF assms(1) that] same [OF that] by (auto intro: assms(2))
  show "E e w'" if "project_access_role_and_source p uid w = (Inl e, w')" for e w'
    using project_access_decides [OF assms(1) that] same [OF that] by (auto intro: assms(3))
qed

definition access_rank :: "db \<Rightarrow> uuid \<Rightarrow> project \<Rightarrow> nat" where
  "access_rank d uid p = (case project_access_of d uid p of None \<Rightarrow> 0 | Some a \<Rightarrow> project_role_rank (fst a))"

text \<open>The tables access depends on.\<close>

definition same_access_tables :: "db \<Rightarrow> db \<Rightarrow> bool" where
  "same_access_tables d d' \<longleftrightarrow> projects d' = projects d \<and> collaborators d' = collaborators d \<and>
     workspaces d' = workspaces d \<and> members d' = members d"

definition link_accepted :: "string \<Rightarrow> time \<Rightarrow> uuid \<Rightarrow> db \<Rightarrow> db \<Rightarrow> bool" where
  "link_accepted h now uid d d' \<longleftrightarrow> (\<exists>l p t. l \<in> set (share_links d) \<and> link_usable h now l \<and>
     find_project (shl_ProjectID l) d = Some p \<and> proj_UserID p \<noteq> uid \<and> access_rank d uid p < project_role_rank (shl_Role l) \<and>
     same_access_tables (d\<lparr>collaborators := upsert_collaborator_rows \<lparr>collab_ProjectID = proj_ID p, collab_UserID = uid,
       collab_Role = shl_Role l, collab_CreatedBy = shl_CreatedBy l, collab_CreatedAt = t\<rparr> (collaborators d)\<rparr>) d')"

lemma wp_record_project_activity:
  "wp (record_project_activity pid uid t ev m) (\<lambda>_ w'. same_access_tables (db w) (db w')) (\<lambda>_ _. True) w"
  by (rule wp_keeps [OF keeps_record_activity [of "same_access_tables (db w)"]])
    (simp_all add: on_db_def same_access_tables_def)

lemma wp_accept_link_tx:
  assumes op: "faults_opaque w" and ok: "sharing_ok (db w)"
  shows "wp (accept_link_tx h now uid) (\<lambda>_ w'. same_access_tables (db w) (db w') \<or> link_accepted h now uid (db w) (db w'))
    (\<lambda>_ _. True) w"
  unfolding accept_link_tx_def
proof (rule wp_bindE, rule wp_first_row, simp, simp)
  fix l assume l: "find (link_usable h now) (share_links (db w)) = Some l"
  then have l': "l \<in> set (share_links (db w))" "link_usable h now l" using find_Some_set by fastforce+
  then have role: "shl_Role l \<in> shared_roles" using ok by (auto simp: sharing_ok_def link_allowed_def)
  then have pos: "0 < project_role_rank (shl_Role l)" by (auto simp: shared_roles_def project_role_rank_def)
  show "wp (bindE (first_row (find_project (shl_ProjectID l))) (\<lambda>p.
     bindE (workspace_of_project p) (\<lambda>wid.
     if wid \<noteq> shl_WorkspaceID l then throw ErrRecordNotFound
     else if proj_UserID p = uid then ret (proj_ID p, False)
     else bindE (tryE (project_access_role_and_source p uid)) (\<lambda>r.
       if (case r of Inr a \<Rightarrow> project_role_rank (shl_Role l) \<le> project_role_rank (fst a) | Inl _ \<Rightarrow> False)
       then ret (proj_ID p, False)
       else if (case r of Inl e \<Rightarrow> \<not> err_is e ErrForbidden | Inr _ \<Rightarrow> False) then liftS (map_sum id (\<lambda>_. (uuid_nil, False)) r)
       else bindE (upsert_collaborator \<lparr>collab_ProjectID = proj_ID p, collab_UserID = uid, collab_Role = shl_Role l,
             collab_CreatedBy = shl_CreatedBy l, collab_CreatedAt = 0\<rparr>) (\<lambda>_.
         bindE (record_project_activity (proj_ID p) uid None (ProjectActivityOther ''share_link_accepted'')
           [(''role'', shl_Role l), (''share_link_id'', uuid_text (shl_ID l))]) (\<lambda>_.
         ret (proj_ID p, True)))))))
    (\<lambda>_ w'. same_access_tables (db w) (db w') \<or> link_accepted h now uid (db w) (db w')) (\<lambda>_ _. True) (tick w)"
  proof (rule wp_bindE, rule wp_first_row, simp, simp)
    fix p assume p: "find_project (shl_ProjectID l) (db (tick w)) = Some p"
    let ?c = "\<lambda>t. \<lparr>collab_ProjectID = proj_ID p, collab_UserID = uid, collab_Role = shl_Role l,
             collab_CreatedBy = shl_CreatedBy l, collab_CreatedAt = t\<rparr>"
    have stores: "wp (bindE (upsert_collaborator (?c 0)) (\<lambda>_.
         bindE (record_project_activity (proj_ID p) uid None (ProjectActivityOther ''share_link_accepted'')
           [(''role'', shl_Role l), (''share_link_id'', uuid_text (shl_ID l))]) (\<lambda>_.
         ret (proj_ID p, True))))
      (\<lambda>_ w'. same_access_tables (db w) (db w') \<or> link_accepted h now uid (db w) (db w')) (\<lambda>_ _. True) v"
      if v: "db v = db w" "proj_UserID p \<noteq> uid" "access_rank (db w) uid p < project_role_rank (shl_Role l)" for v
      unfolding upsert_collaborator_def
      apply (rule wp_bindE, rule wp_bindE, rule wp_now_utc, rule wp_bindE, rule wp_exec, simp, rule wp_ret, rule wp_bindE)
      apply (rule wp_conseq [OF wp_record_project_activity])
       apply (rule wp_ret)
      using v p l' by (fastforce simp: link_accepted_def)+
    show "wp (bindE (workspace_of_project p) (\<lambda>wid.
     if wid \<noteq> shl_WorkspaceID l then throw ErrRecordNotFound
     else if proj_UserID p = uid then ret (proj_ID p, False)
     else bindE (tryE (project_access_role_and_source p uid)) (\<lambda>r.
       if (case r of Inr a \<Rightarrow> project_role_rank (shl_Role l) \<le> project_role_rank (fst a) | Inl _ \<Rightarrow> False)
       then ret (proj_ID p, False)
       else if (case r of Inl e \<Rightarrow> \<not> err_is e ErrForbidden | Inr _ \<Rightarrow> False) then liftS (map_sum id (\<lambda>_. (uuid_nil, False)) r)
       else bindE (upsert_collaborator (?c 0)) (\<lambda>_.
         bindE (record_project_activity (proj_ID p) uid None (ProjectActivityOther ''share_link_accepted'')
           [(''role'', shl_Role l), (''share_link_id'', uuid_text (shl_ID l))]) (\<lambda>_.
         ret (proj_ID p, True))))))
    (\<lambda>_ w'. same_access_tables (db w) (db w') \<or> link_accepted h now uid (db w) (db w')) (\<lambda>_ _. True) (tick (tick w))"
      unfolding workspace_of_project_def
      apply (rule wp_bindE, rule wp_asks, rule wp_If, rule wp_throw, simp, rule wp_If, rule wp_ret)
       apply (simp add: same_access_tables_def)
      apply (rule wp_bindE, rule wp_tryE, rule wp_project_access)
        apply (simp add: op)
       apply (rule wp_If, rule wp_ret, simp add: same_access_tables_def, rule wp_If, simp)
       apply (rule stores; simp add: access_rank_def)
      apply (rule wp_If, simp, rule wp_If, simp add: wp_def liftS_def)
      apply (rule stores; use pos in \<open>simp add: access_rank_def\<close>)
      done
  qed
qed

lemma access_same: "same_access_tables d d' \<Longrightarrow> project_access_of d' u q = project_access_of d u q"
  unfolding same_access_tables_def project_access_of_def find_collaborator_def workspace_role_of_def
    find_workspace_def find_member_def by (simp cong: option.case_cong if_cong)

lemma find_upsert_other:
  assumes "(pid, uid) \<noteq> collab_key c"
  shows "find_collaborator pid uid (d\<lparr>collaborators := upsert_collaborator_rows c (collaborators d)\<rparr>) = find_collaborator pid uid d"
proof -
  let ?f = "\<lambda>x. x\<lparr>collab_Role := collab_Role c, collab_CreatedBy := collab_CreatedBy c\<rparr>"
  let ?P = "\<lambda>x. collab_ProjectID x = pid \<and> collab_UserID x = uid"
  have upd: "find ?P (update_rows (same_collaborator c) ?f rs) = find ?P rs" for rs
    using assms by (induction rs) (auto simp: update_rows_def same_collaborator_def collab_key_def)
  have app: "find ?P (rs @ [c]) = find ?P rs" for rs
    using assms by (induction rs) (auto simp: collab_key_def)
  show ?thesis by (simp add: find_collaborator_def upsert_collaborator_rows_def upd app)
qed

lemma find_upsert_same:
  "\<exists>x. find_collaborator (collab_ProjectID c) (collab_UserID c)
      (d\<lparr>collaborators := upsert_collaborator_rows c (collaborators d)\<rparr>) = Some x \<and> collab_Role x = collab_Role c"
proof -
  let ?f = "\<lambda>x. x\<lparr>collab_Role := collab_Role c, collab_CreatedBy := collab_CreatedBy c\<rparr>"
  let ?P = "\<lambda>x. collab_ProjectID x = collab_ProjectID c \<and> collab_UserID x = collab_UserID c"
  have upd: "\<exists>x\<in>set rs. same_collaborator c x \<Longrightarrow>
      \<exists>x. find ?P (update_rows (same_collaborator c) ?f rs) = Some x \<and> collab_Role x = collab_Role c" for rs
    by (induction rs) (auto simp: update_rows_def same_collaborator_def)
  have app: "\<not> (\<exists>x\<in>set rs. same_collaborator c x) \<Longrightarrow> find ?P (rs @ [c]) = Some c" for rs
    by (induction rs) (auto simp: same_collaborator_def)
  show ?thesis using upd [of "collaborators d"] app [of "collaborators d"]
    by (auto simp: find_collaborator_def upsert_collaborator_rows_def)
qed

lemma link_accepted_access:
  assumes "link_accepted h now uid d d'" "uid \<noteq> uuid_nil"
  shows "\<exists>l p. l \<in> set (share_links d) \<and> link_usable h now l \<and> find_project (shl_ProjectID l) d = Some p \<and>
    access_rank d uid p < project_role_rank (shl_Role l) \<and>
    project_access_of d' uid p = Some (shl_Role l, ProjectAccessSourceDirectShare) \<and>
    (\<forall>u q. (u, proj_ID q) \<noteq> (uid, proj_ID p) \<longrightarrow> project_access_of d' u q = project_access_of d u q)"
proof -
  obtain l p t where lp: "l \<in> set (share_links d)" "link_usable h now l" "find_project (shl_ProjectID l) d = Some p"
    "proj_UserID p \<noteq> uid" "access_rank d uid p < project_role_rank (shl_Role l)"
    and same: "same_access_tables (d\<lparr>collaborators := upsert_collaborator_rows \<lparr>collab_ProjectID = proj_ID p, collab_UserID = uid,
       collab_Role = shl_Role l, collab_CreatedBy = shl_CreatedBy l, collab_CreatedAt = t\<rparr> (collaborators d)\<rparr>) d'"
    using assms(1) unfolding link_accepted_def by blast
  define c where "c = \<lparr>collab_ProjectID = proj_ID p, collab_UserID = uid,
       collab_Role = shl_Role l, collab_CreatedBy = shl_CreatedBy l, collab_CreatedAt = t\<rparr>"
  let ?d = "d\<lparr>collaborators := upsert_collaborator_rows c (collaborators d)\<rparr>"
  have d': "project_access_of d' u q = project_access_of ?d u q" for u q
    using access_same [OF same] by (simp add: c_def)
  obtain x where x: "find_collaborator (proj_ID p) uid ?d = Some x" "collab_Role x = shl_Role l"
    using find_upsert_same [of c d] by (auto simp: c_def)
  have roles: "workspace_role_of ?d wid u = workspace_role_of d wid u" for wid u
    unfolding workspace_role_of_def find_workspace_def find_member_def by (simp cong: option.case_cong if_cong)
  have "project_access_of d' uid p = Some (shl_Role l, ProjectAccessSourceDirectShare)"
    using lp(4) assms(2) x unfolding d' by (simp add: project_access_of_def)
  moreover have "project_access_of d' u q = project_access_of d u q" if "(u, proj_ID q) \<noteq> (uid, proj_ID p)" for u q
  proof -
    have "find_collaborator (proj_ID q) u ?d = find_collaborator (proj_ID q) u d"
      by (rule find_upsert_other) (use that in \<open>auto simp: c_def collab_key_def\<close>)
    then show ?thesis unfolding d' by (simp add: project_access_of_def roles cong: option.case_cong)
  qed
  ultimately show ?thesis using lp by blast
qed

lemma accept_link_effect:
  assumes op: "faults_opaque w" and ok: "sharing_ok (db w)" and det: "detail_reads_only s"
    and run: "accept_project_share_link s token uid w = (r, w')"
  shows "same_access_tables (db w) (db w') \<or>
    uid \<noteq> uuid_nil \<and> link_accepted (hash_project_share_token s (trim_space token)) (env_now (env w) (calls w)) uid (db w) (db w')"
proof (cases "trim_space token = '''' \<or> uid = uuid_nil")
  case True
  then show ?thesis using run by (auto simp: accept_project_share_link_def same_access_tables_def split: if_splits)
next
  case False
  let ?tx = "accept_link_tx (hash_project_share_token s (trim_space token)) (env_now (env w) (calls w)) uid"
  obtain x w1 where x: "transaction ?tx (tick w) = (x, w1)" by fastforce
  have run': "bindE (transaction ?tx) (\<lambda>(pid, changed). bindE (shs_get_project s pid uid) (\<lambda>role. ret (pid, role))) (tick w) = (r, w')"
    using run False by (simp add: accept_project_share_link_def Let_def)
  show ?thesis
  proof (cases x)
    case (Inl e)
    then have "db w1 = db w" using transaction_Inl_db x by fastforce
    with run' x Inl show ?thesis by (auto simp: bindE_def same_access_tables_def)
  next
    case (Inr y)
    obtain w2 where w2: "?tx (tick w) = (Inr y, w2)" "w1 = tick w2"
      using transaction_Inr [OF x [unfolded Inr]] by (elim exE conjE)
    have "db w' = db w1"
      using run' x Inr det by (auto simp: bindE_def detail_reads_only_def split: prod.splits sum.splits) (metis snd_conv)+
    moreover have "same_access_tables (db w) (db w2) \<or>
        link_accepted (hash_project_share_token s (trim_space token)) (env_now (env w) (calls w)) uid (db w) (db w2)"
      using wp_InrD [OF wp_accept_link_tx w2(1)] op ok by simp
    ultimately show ?thesis using w2(2) False by simp
  qed
qed

section \<open>A revoked link stays dead\<close>

definition dead_link :: "string \<Rightarrow> db \<Rightarrow> bool" where
  "dead_link h d \<longleftrightarrow> (\<exists>l\<in>set (share_links d). shl_TokenHash l = h) \<and>
     (\<forall>l\<in>set (share_links d). shl_TokenHash l = h \<longrightarrow> shl_Status l \<noteq> ProjectShareLinkStatusActive)"

lemma dead_link_other [simp]: "dead_link h (d\<lparr>collaborators := cs\<rparr>) = dead_link h d"
  "dead_link h (d\<lparr>project_activities := as\<rparr>) = dead_link h d"
  by (simp_all add: dead_link_def)

text \<open>Revoking rows keeps the digest of each and activates none.\<close>

lemma revoked_row:
  assumes "x \<in> set (update_rows p (\<lambda>l. l\<lparr>shl_Status := ProjectShareLinkStatusRevoked, shl_RevokedAt := t\<rparr>) rs)"
  obtains l where "l \<in> set rs" "shl_TokenHash x = shl_TokenHash l"
    "p l \<and> shl_Status x = ProjectShareLinkStatusRevoked \<or> \<not> p l \<and> x = l"
  using assms by (auto simp: set_update_rows split: if_splits)

lemma revoked_row_exists:
  "l \<in> set rs \<Longrightarrow> \<exists>x\<in>set (update_rows p (\<lambda>l. l\<lparr>shl_Status := ProjectShareLinkStatusRevoked, shl_RevokedAt := t\<rparr>) rs).
     shl_TokenHash x = shl_TokenHash l"
  by (induction rs) (auto simp: update_rows_def)

lemma revoked_not_active [simp]: "ProjectShareLinkStatusRevoked \<noteq> ProjectShareLinkStatusActive"
  by (simp add: ProjectShareLinkStatusRevoked_def ProjectShareLinkStatusActive_def)

lemma dead_link_update:
  assumes "dead_link h d"
  shows "dead_link h (d\<lparr>share_links := update_rows p
     (\<lambda>l. l\<lparr>shl_Status := ProjectShareLinkStatusRevoked, shl_RevokedAt := t\<rparr>) (share_links d)\<rparr>)"
proof -
  obtain l where "l \<in> set (share_links d)" "shl_TokenHash l = h" using assms by (auto simp: dead_link_def)
  then show ?thesis using assms revoked_row_exists [of l "share_links d" p t]
    by (auto simp: dead_link_def elim!: revoked_row)
qed

lemma dead_link_new:
  "dead_link h d \<Longrightarrow> \<forall>x\<in>set (share_links d). \<not> (shl_ID x = shl_ID l \<or> shl_TokenHash x = shl_TokenHash l) \<Longrightarrow>
    dead_link h (d\<lparr>share_links := share_links d @ [l]\<rparr>)"
  by (auto simp: dead_link_def)

lemma keeps_dead_activity [keeps_intros]: "keeps (on_db (dead_link h)) (record_project_activity pid uid t ev m)"
  by (rule keeps_record_activity) simp

lemma keeps_dead_upsert [keeps_intros]: "keeps (on_db (dead_link h)) (upsert_collaborator c)"
  by (rule keeps_upsert_collaborator) simp

lemma keeps_dead_op:
  assumes "detail_reads_only s"
  shows "keeps (on_db (dead_link h)) (run_sharing s op)"
proof (cases op)
  case (CreateShareLink pid uid role expires url)
  show ?thesis unfolding CreateShareLink run_sharing.simps done_with_def create_project_share_link_def insert_share_link_def Let_def
    by (intro keeps_intros dead_link_new) auto
next
  case (AcceptShareLink token uid)
  have "keeps (on_db (dead_link h)) (accept_link_tx h' now uid)" for h' now
    unfolding accept_link_tx_def by (intro keeps_intros)
  from keeps_accept [OF assms this] show ?thesis
    unfolding AcceptShareLink run_sharing.simps done_with_def by (intro keeps_intros)
qed (auto simp: done_with_def add_project_collaborator_def update_project_collaborator_def update_collaborators_def
    remove_project_collaborator_def delete_collaborators_def revoke_project_share_link_def update_share_links_def
    intro!: keeps_intros dead_link_update)

lemma revoke_kills:
  assumes ok: "sharing_ok (db w)" and l: "l \<in> set (share_links (db w))" "shl_ID l = linkID"
    and run: "revoke_project_share_link pid uid linkID w = (Inr u, w')"
  shows "dead_link (shl_TokenHash l) (db w')"
proof -
  obtain p w1 where p: "require_project_owner pid uid w = (Inr p, w1)"
    and rest: "(if linkID = uuid_nil then throw ErrInvalidProjectShareLink
     else bindE (workspace_of_project p) (\<lambda>wid.
       bindE now_utc (\<lambda>now.
       transaction (
         bindE (update_share_links (\<lambda>l. shl_ID l = linkID \<and> shl_WorkspaceID l = wid \<and> shl_ProjectID l = pid
             \<and> shl_Status l = ProjectShareLinkStatusActive)
           (\<lambda>l. l\<lparr>shl_Status := ProjectShareLinkStatusRevoked, shl_RevokedAt := Some now\<rparr>)) (\<lambda>n.
         if n = 0 then throw ErrRecordNotFound
         else record_project_activity pid uid None (ProjectActivityOther ''share_link_revoked'')
           [(''share_link_id'', uuid_text linkID)]))))) w1 = (Inr u, w')"
    using run by (auto simp: revoke_project_share_link_def bindE_Inr)
  have db1: "db w1 = db w" using db_kept [OF keeps_owner p] .
  define wid where "wid = project_workspace_id (personal_workspace_id w1) p"
  define P :: "project_share_link \<Rightarrow> bool" where "P = (\<lambda>l. shl_ID l = linkID \<and> shl_WorkspaceID l = wid \<and> shl_ProjectID l = pid
             \<and> shl_Status l = ProjectShareLinkStatusActive)"
  define now where "now = env_now (env w1) (calls w1)"
  define d where "d = (db w)\<lparr>share_links := update_rows P
      (\<lambda>l. l\<lparr>shl_Status := ProjectShareLinkStatusRevoked, shl_RevokedAt := Some now\<rparr>) (share_links (db w))\<rparr>"
  have "transaction (bindE (update_share_links P (\<lambda>l. l\<lparr>shl_Status := ProjectShareLinkStatusRevoked, shl_RevokedAt := Some now\<rparr>))
      (\<lambda>n. if n = 0 then throw ErrRecordNotFound
         else record_project_activity pid uid None (ProjectActivityOther ''share_link_revoked'')
           [(''share_link_id'', uuid_text linkID)])) (tick w1) = (Inr u, w')"
    using rest by (simp add: workspace_of_project_def P_def wid_def now_def split: if_splits)
  then obtain w2 where "bindE (update_share_links P (\<lambda>l. l\<lparr>shl_Status := ProjectShareLinkStatusRevoked, shl_RevokedAt := Some now\<rparr>))
      (\<lambda>n. if n = 0 then throw ErrRecordNotFound
         else record_project_activity pid uid None (ProjectActivityOther ''share_link_revoked'')
           [(''share_link_id'', uuid_text linkID)]) (tick w1) = (Inr u, w2)" "w' = tick w2"
    by (blast dest: transaction_Inr)
  moreover define w3 where "w3 = (tick (tick w1))\<lparr>db := d\<rparr>"
  ultimately have n: "count_rows P (share_links (db w)) \<noteq> 0" "record_project_activity pid uid None
      (ProjectActivityOther ''share_link_revoked'') [(''share_link_id'', uuid_text linkID)] w3 = (Inr u, w2)"
    by (auto simp: bindE_Inr update_share_links_def d_def db1 dest!: exec_Inr split: if_splits)
  from n(1) obtain l' where l': "l' \<in> set (share_links (db w))" "P l'" by auto
  have ids: "l' = l" using l' l ok by (auto simp: P_def sharing_ok_def distinct_map dest: inj_onD)
  have uniq: "x = l" if "x \<in> set (share_links (db w))" "shl_TokenHash x = shl_TokenHash l" for x
    using that l ok by (auto simp: sharing_ok_def distinct_map dest: inj_onD)
  have "shl_Status x \<noteq> ProjectShareLinkStatusActive"
    if x: "x \<in> set (share_links d)" "shl_TokenHash x = shl_TokenHash l" for x
  proof -
    obtain l0 where l0: "l0 \<in> set (share_links (db w))" "shl_TokenHash x = shl_TokenHash l0"
      "P l0 \<and> shl_Status x = ProjectShareLinkStatusRevoked \<or> \<not> P l0 \<and> x = l0"
      using x(1) by (auto simp: d_def elim!: revoked_row)
    have "l0 = l" by (rule uniq) (use l0 x in simp_all)
    then show ?thesis using l0(3) l'(2) ids by auto
  qed
  then have "dead_link (shl_TokenHash l) d"
    using revoked_row_exists [OF l(1), of P "Some now"] by (auto simp: dead_link_def d_def)
  then have "dead_link (shl_TokenHash l) (db w2)"
    using keeps_dbD [OF keeps_dead_activity n(2)] by (simp add: w3_def)
  then show ?thesis using \<open>w' = tick w2\<close> by simp
qed

lemma accept_dead:
  assumes "dead_link (hash_project_share_token s (trim_space token)) (db w)"
  shows "\<exists>e. fst (accept_project_share_link s token uid w) = Inl e"
proof -
  let ?h = "hash_project_share_token s (trim_space token)"
  have none: "find (link_usable ?h now) (share_links (db w)) = None" for now
    using assms by (auto simp: find_None_set dead_link_def link_usable_def)
  have "\<exists>e. fst (transaction (accept_link_tx ?h now uid) (tick w)) = Inl e" for now
  proof -
    obtain r w1 where r: "first_row (\<lambda>d. find (link_usable ?h now) (share_links d)) (tick w) = (r, w1)" by fastforce
    then obtain e where "r = Inl e" using none by (cases r) (auto dest!: first_row_Inr)
    then show ?thesis using r by (simp add: transaction_def accept_link_tx_def bindE_def)
  qed
  then obtain e w1 where "transaction (accept_link_tx ?h (env_now (env w) (calls w)) uid) (tick w) = (Inl e, w1)"
    by (metis prod.collapse)
  then show ?thesis
    by (cases "trim_space token = '''' \<or> uid = uuid_nil")
      (auto simp: accept_project_share_link_def Let_def bindE_def now_utc_def)
qed

section \<open>Properties\<close>

text \<open>
  C36: Every collaborator row carries one of the two roles that can be shared, a user has at most one
  row per project and the owner of a project none; the same roles are all a share link can carry, and
  its token digest is its own: any sequence of requests of any users keeps it so, whatever statements
  fail.
\<close>

theorem shared_roles_typed:
  assumes "sharing_ok (db w)" "detail_reads_only s" "run_sharing_requests s ops w = (r, w')"
  shows "sharing_ok (db w') \<and> projects (db w') = projects (db w)"
proof -
  have "keeps (on_db (sharing_in (projects (db w)))) (run_sharing_requests s ops)"
    by (rule keeps_requests) (rule keeps_sharing_op [OF assms(2)])
  from keeps_dbD [OF this assms(3)] show ?thesis using assms(1) by (simp add: sharing_in_def)
qed

text \<open>
  C34: Accepting a share link changes nobody's access but the accepting user's, to the one project of
  an active link with the digest of the token that has not expired, and only upwards: the user gets
  the role of the link, which ranks above the role held before. A failing statement changes nothing.
\<close>

theorem share_link_raises_access_only:
  assumes "faults_opaque w" "sharing_ok (db w)" "detail_reads_only s"
    and "accept_project_share_link s token uid w = (r, w')"
  shows "(\<forall>u q. project_access_of (db w') u q = project_access_of (db w) u q) \<or>
    (\<exists>l p. l \<in> set (share_links (db w)) \<and>
      link_usable (hash_project_share_token s (trim_space token)) (env_now (env w) (calls w)) l \<and>
      find_project (shl_ProjectID l) (db w) = Some p \<and> access_rank (db w) uid p < project_role_rank (shl_Role l) \<and>
      project_access_of (db w') uid p = Some (shl_Role l, ProjectAccessSourceDirectShare) \<and>
      (\<forall>u q. (u, proj_ID q) \<noteq> (uid, proj_ID p) \<longrightarrow> project_access_of (db w') u q = project_access_of (db w) u q))"
proof (cases "same_access_tables (db w) (db w')")
  case True
  then show ?thesis by (simp add: access_same)
next
  case False
  then show ?thesis using accept_link_effect [OF assms] link_accepted_access by blast
qed

text \<open>
  C35: Once the owner has revoked a link, its token is refused for good: after any later requests,
  whoever sends it, the acceptance fails.
\<close>

theorem revoked_link_stays_dead:
  assumes "sharing_ok (db w)" "l \<in> set (share_links (db w))"
    and "shl_TokenHash l = hash_project_share_token s (trim_space token)"
    and "revoke_project_share_link pid owner (shl_ID l) w = (Inr (), w1)"
    and "detail_reads_only s" "run_sharing_requests s ops w1 = (r, w2)"
  shows "\<exists>e. fst (accept_project_share_link s token uid w2) = Inl e"
proof (rule accept_dead)
  have "dead_link (hash_project_share_token s (trim_space token)) (db w1)"
    using revoke_kills [OF assms(1,2) refl assms(4)] assms(3) by simp
  moreover have "keeps (on_db (dead_link h)) (run_sharing_requests s ops)" for h
    by (rule keeps_requests) (rule keeps_dead_op [OF assms(5)])
  ultimately show "dead_link (hash_project_share_token s (trim_space token)) (db w2)"
    using keeps_dbD assms(6) by blast
qed

section \<open>Concrete runs\<close>

definition plain_sharing :: sharing_service where
  "plain_sharing = \<lparr>shs_sha256 = id, shs_random = (\<lambda>_. Inr ''r''), shs_lower = id,
     shs_get_project = (\<lambda>_ _. ret ''editor'')\<rparr>"

definition sample_link :: project_share_link where
  "sample_link = \<lparr>shl_ID = 40, shl_WorkspaceID = 3, shl_ProjectID = 2, shl_CreatedBy = 4, shl_TokenHash = ''74'',
     shl_Role = ''editor'', shl_Status = ''active'', shl_ExpiresAt = None, shl_CreatedAt = 0, shl_RevokedAt = None\<rparr>"

definition shared_db :: db where
  "shared_db = empty_db\<lparr>projects := [sample_project], workspaces := [sample_workspace], share_links := [sample_link]\<rparr>"

lemma shared_rows: "projects shared_db = [sample_project]" "share_links shared_db = [sample_link]"
  "collaborators shared_db = []" "workspaces shared_db = [sample_workspace]" "members shared_db = []"
  "project_activities shared_db = []"
  by (simp_all add: shared_db_def empty_db_def)

lemma shared_ok: "sharing_ok shared_db" "detail_reads_only plain_sharing"
  by (simp_all add: sharing_ok_def shared_rows link_allowed_def shared_roles_def sample_link_def
      ProjectShareLinkStatusActive_def detail_reads_only_def plain_sharing_def)

lemma plain_token: "hash_project_share_token plain_sharing (trim_space ''t'') = ''74''"
  by code_simp

theorem shared_roles_typed_witness:
  "\<exists>r w'. run_sharing_requests plain_sharing [AcceptShareLink ''t'' 9, RemoveCollaborator 2 4 9] (start_world shared_db) = (r, w') \<and>
    sharing_ok (db w') \<and> projects (db w') = [sample_project]"
proof -
  obtain r w' where run: "run_sharing_requests plain_sharing [AcceptShareLink ''t'' 9, RemoveCollaborator 2 4 9] (start_world shared_db) = (r, w')"
    by fastforce
  show ?thesis
    using shared_roles_typed [of "start_world shared_db" plain_sharing, OF _ _ run] run shared_ok by (auto simp: shared_rows)
qed

theorem share_link_raises_access_only_witness:
  "\<exists>r w'. accept_project_share_link plain_sharing ''t'' 9 (start_world shared_db) = (r, w') \<and>
    ((\<forall>u q. project_access_of (db w') u q = project_access_of shared_db u q) \<or>
     project_access_of (db w') 9 sample_project = Some (''editor'', ProjectAccessSourceDirectShare))"
proof -
  obtain r w' where run: "accept_project_share_link plain_sharing ''t'' 9 (start_world shared_db) = (r, w')" by fastforce
  have "find_project 2 shared_db = Some sample_project" by (simp add: find_project_def shared_rows sample_project_def)
  then show ?thesis
    using share_link_raises_access_only [of "start_world shared_db", OF _ _ shared_ok(2) run] run shared_ok(1)
    by (auto simp: no_fault_opaque shared_rows sample_link_def)
qed

lemma sample_project_rows: "proj_ID sample_project = 2" "proj_UserID sample_project = 4"
  "project_workspace_id pws sample_project = 3"
  by (simp_all add: sample_project_def project_workspace_id_def)

lemma sample_revoke: "\<exists>w1. revoke_project_share_link 2 4 40 (start_world shared_db) = (Inr (), w1)"
proof -
  have none: "project_activities d = [] \<Longrightarrow> latest_activity wid pid d = 0" for wid pid d
    by (simp add: latest_activity_def)
  show ?thesis
    by (simp add: revoke_project_share_link_def require_project_owner_def bindE_bindE_app bindE_first_row_ok find_project_def
      shared_rows sample_project_rows workspace_of_project_def transaction_def update_share_links_def bindE_exec_ok
      record_project_activity_def create_project_activity_def hook_workspace_def bindE_select_ok bindE_create_row_ok none
      sample_link_def ProjectShareLinkStatusActive_def create_row_ok)
qed

theorem revoked_link_stays_dead_witness:
  "\<exists>w1 e. revoke_project_share_link 2 4 40 (start_world shared_db) = (Inr (), w1) \<and>
    fst (accept_project_share_link plain_sharing ''t'' 9 w1) = Inl e"
proof -
  obtain w1 where w1: "revoke_project_share_link 2 4 40 (start_world shared_db) = (Inr (), w1)" using sample_revoke by blast
  have "shl_TokenHash sample_link = hash_project_share_token plain_sharing (trim_space ''t'')" "shl_ID sample_link = 40"
    by (simp_all add: sample_link_def plain_token)
  then show ?thesis
    using revoked_link_stays_dead [of "start_world shared_db" sample_link plain_sharing "''t''" 2 4 w1 "[]" "Inr ()" w1 9]
      w1 shared_ok by (auto simp: shared_rows)
qed

end
