(* ===== verification/Browser_Coordination.thy ===== *)
theory Browser_Coordination
  imports Stream_Gate Go_Encoding
begin

text \<open>
  What \<open>services/browser_session\<close> keeps in Redis (\<open>service.go\<close>, \<open>status.go\<close>, \<open>redis.go\<close>,
  \<open>tokens.go\<close>): the lock of the active session of a user and platform, the quota sets, the live
  state of a session, the stream token and the hash of the current one, the heartbeat of the worker
  and the set of sessions to clean up. The two clients of the service may be two servers; their
  keys are disjoint, so one keyspace stands for both, and each client may be absent.
\<close>

section \<open>Errors, constants and statuses\<close>

definition ErrActiveSessionExists :: err where
  "ErrActiveSessionExists = ErrSentinel ''an active session already exists for this platform''"
definition ErrPlatformNotSupported :: err where
  "ErrPlatformNotSupported = ErrSentinel ''platform does not support remote browser sessions''"
definition ErrSessionNotFound :: err where
  "ErrSessionNotFound = ErrSentinel ''session not found''"
definition ErrSessionForbidden :: err where
  "ErrSessionForbidden = ErrSentinel ''session does not belong to the authenticated user''"
definition ErrSessionGone :: err where
  "ErrSessionGone = ErrSentinel ''session has expired''"
definition ErrInvalidStreamToken :: err where
  "ErrInvalidStreamToken = ErrSentinel ''invalid or expired stream token''"
definition ErrStreamTokenGone :: err where
  "ErrStreamTokenGone = ErrSentinel ''stream token has expired or already been consumed''"
definition ErrSessionNotReady :: err where
  "ErrSessionNotReady = ErrSentinel ''session is not ready for capture''"
definition ErrLoginNotDetected :: err where
  "ErrLoginNotDetected = ErrSentinel ''login not detected''"
definition ErrUserQuotaExceeded :: err where
  "ErrUserQuotaExceeded = ErrSentinel ''browser session user concurrency quota exceeded''"
definition ErrTenantQuotaExceeded :: err where
  "ErrTenantQuotaExceeded = ErrSentinel ''browser session tenant concurrency quota exceeded''"
definition ErrWorkerPoolExhausted :: err where
  "ErrWorkerPoolExhausted = ErrSentinel ''browser worker session pool exhausted''"
definition ErrSessionAccountForbidden :: err where
  "ErrSessionAccountForbidden = ErrSentinel ''platform account access denied''"

lemmas session_errors = ErrActiveSessionExists_def ErrPlatformNotSupported_def ErrSessionNotFound_def
  ErrSessionForbidden_def ErrSessionGone_def ErrInvalidStreamToken_def ErrStreamTokenGone_def
  ErrSessionNotReady_def ErrLoginNotDetected_def ErrUserQuotaExceeded_def ErrTenantQuotaExceeded_def
  ErrWorkerPoolExhausted_def ErrSessionAccountForbidden_def

definition pending_session_stale_after :: duration where "pending_session_stale_after = 2 * minute"
definition browser_session_ttl :: duration where "browser_session_ttl = 15 * minute"
definition browser_session_redis_grace :: duration where "browser_session_redis_grace = minute"
definition stream_token_max_ttl :: duration where "stream_token_max_ttl = 5 * minute"

lemmas session_durations [go_consts] = pending_session_stale_after_def browser_session_ttl_def
  browser_session_redis_grace_def stream_token_max_ttl_def

abbreviation "BrowserSessionStatusPending \<equiv> ''pending''"
abbreviation "BrowserSessionStatusReady \<equiv> ''ready''"
abbreviation "BrowserSessionStatusLoginDetected \<equiv> ''login_detected''"
abbreviation "BrowserSessionStatusCapturing \<equiv> ''capturing''"
abbreviation "BrowserSessionStatusConnected \<equiv> ''connected''"
abbreviation "BrowserSessionStatusExpired \<equiv> ''expired''"
abbreviation "BrowserSessionStatusFailed \<equiv> ''failed''"

definition is_streamable_browser_session_status :: "string \<Rightarrow> bool" where
  "is_streamable_browser_session_status status \<longleftrightarrow>
     status = BrowserSessionStatusReady \<or> status = BrowserSessionStatusLoginDetected \<or>
     status = BrowserSessionStatusCapturing"

definition is_terminal_browser_session_status :: "string \<Rightarrow> bool" where
  "is_terminal_browser_session_status status \<longleftrightarrow>
     status = BrowserSessionStatusConnected \<or> status = BrowserSessionStatusExpired \<or>
     status = BrowserSessionStatusFailed"

definition active_browser_session_statuses :: "string list" where
  "active_browser_session_statuses =
     [BrowserSessionStatusPending, BrowserSessionStatusReady, BrowserSessionStatusLoginDetected,
      BrowserSessionStatusCapturing]"

section \<open>Configuration\<close>

record quota_config =
  qc_User :: int
  qc_Tenant :: int

definition quota_config_from_env :: "(string \<Rightarrow> string) \<Rightarrow> quota_config" where
  "quota_config_from_env getenv =
     \<lparr>qc_User = env_int64 getenv ''BROWSER_SESSION_USER_CONCURRENCY_LIMIT'' 2,
      qc_Tenant = env_int64 getenv ''BROWSER_SESSION_TENANT_CONCURRENCY_LIMIT'' 10\<rparr>"

definition normalize_quota_config :: "quota_config \<Rightarrow> quota_config" where
  "normalize_quota_config config =
     \<lparr>qc_User = (if qc_User config < 0 then 0 else qc_User config),
      qc_Tenant = (if qc_Tenant config < 0 then 0 else qc_Tenant config)\<rparr>"

definition default_tenant_id :: string where "default_tenant_id = ''default''"

definition normalize_tenant_id :: "string \<Rightarrow> string" where
  "normalize_tenant_id tenantID =
     (let t = trim_space tenantID in if t = [] then default_tenant_id else t)"

text \<open>The live state of a session and the metadata of its token, both stored as JSON.\<close>

record live_state =
  ls_SessionID :: uuid
  ls_UserID :: uuid
  ls_TenantID :: string
  ls_Platform :: string
  ls_Status :: string
  ls_WorkerSessionRef :: string
  ls_CurrentURL :: string
  ls_LoginDetected :: bool
  ls_MissingCookies :: "string list"
  ls_Message :: string
  ls_CreatedAt :: time
  ls_ExpiresAt :: time
  ls_UpdatedAt :: time

record token_meta =
  tm_SessionID :: uuid
  tm_UserID :: uuid
  tm_Platform :: string
  tm_Purpose :: string
  tm_IssuedAt :: time
  tm_ExpiresAt :: time

record runtime_endpoint =
  re_Host :: string
  re_Port :: int

record runtime_reference =
  rr_CdpEndpoint :: runtime_endpoint
  rr_CleanupLabels :: "(string \<times> string) list option"
  rr_Driver :: string
  rr_RuntimeID :: string
  rr_StreamEndpoint :: runtime_endpoint

text \<open>
  The library functions without a definition here: \<open>strings.ToLower\<close> outside ASCII, \<open>uuid.Parse\<close>,
  JSON, SHA-256, and the keys with a prefix that a \<open>SCAN\<close> finds at a time of the server.
\<close>

record browser_lib =
  bl_ulow :: "string \<Rightarrow> string"
  bl_parse_uuid :: "string \<Rightarrow> uuid option"
  bl_enc_live :: "live_state \<Rightarrow> string"
  bl_dec_live :: "string \<Rightarrow> err + live_state"
  bl_enc_meta :: "token_meta \<Rightarrow> string"
  bl_dec_meta :: "string \<Rightarrow> err + token_meta"
  bl_enc_reference :: "runtime_reference \<Rightarrow> string"
  bl_sha256 :: "string \<Rightarrow> string"
  bl_scan :: "int \<Rightarrow> keyspace \<Rightarrow> string \<Rightarrow> string list"

text \<open>Which Redis clients the service has, and its quotas.\<close>

record redis_clients =
  rc_coordination :: bool
  rc_continuity :: bool
  rc_quota :: quota_config

section \<open>Keys\<close>

definition active_key :: "browser_lib \<Rightarrow> uuid \<Rightarrow> string \<Rightarrow> string" where
  "active_key lib userID platform = ''mpp:browser:active:'' @
     key_tag (bl_ulow lib) ''user'' (uuid_text userID) @ '':'' @ key_part (bl_ulow lib) platform"

definition quota_user_key :: "uuid \<Rightarrow> string" where
  "quota_user_key userID = ''mpp:browser:quota:user:'' @ uuid_text userID"

definition quota_tenant_key :: "string \<Rightarrow> string" where
  "quota_tenant_key tenantID = ''mpp:browser:quota:tenant:'' @ normalize_tenant_id tenantID"

definition session_key :: "browser_lib \<Rightarrow> uuid \<Rightarrow> string" where
  "session_key lib sessionID = ''mpp:browser:session:'' @
     key_tag (bl_ulow lib) ''session'' (uuid_text sessionID)"

definition stream_token_prefix :: "browser_lib \<Rightarrow> uuid \<Rightarrow> string" where
  "stream_token_prefix lib sessionID = ''mpp:browser:stream-token:'' @
     key_tag (bl_ulow lib) ''session'' (uuid_text sessionID) @ '':''"

definition stream_token_key :: "browser_lib \<Rightarrow> uuid \<Rightarrow> string \<Rightarrow> string" where
  "stream_token_key lib sessionID tokenHash =
     stream_token_prefix lib sessionID @ key_part (bl_ulow lib) tokenHash"

definition stream_current_key :: "browser_lib \<Rightarrow> uuid \<Rightarrow> string" where
  "stream_current_key lib sessionID = ''mpp:browser:stream-current:'' @
     key_tag (bl_ulow lib) ''session'' (uuid_text sessionID)"

definition worker_heartbeat_key :: "string \<Rightarrow> string" where
  "worker_heartbeat_key ref = ''mpp:browser:worker-heartbeat:'' @ ref"

definition cleanup_key :: string where "cleanup_key = ''mpp:browser:cleanup''"

lemmas browser_key_defs = active_key_def quota_user_key_def quota_tenant_key_def session_key_def
  stream_token_prefix_def stream_token_key_def stream_current_key_def worker_heartbeat_key_def
  cleanup_key_def

section \<open>Commands and scripts\<close>

definition cmd_setnx :: "string \<Rightarrow> string \<Rightarrow> int \<Rightarrow> bool redis_cmd" where
  "cmd_setnx k s ms now ks = (case live_entry now ks k of
      Some e \<Rightarrow> (Inr False, ks)
    | None \<Rightarrow> (Inr True, ks(k \<mapsto> \<lparr>ent_value = RStr s, ent_expires = Some (now + ms)\<rparr>)))"

definition cmd_exists :: "string \<Rightarrow> bool redis_cmd" where
  "cmd_exists k now ks = (Inr (live_entry now ks k \<noteq> None), ks)"

text \<open>\<open>ZRANGE k -inf x BYSCORE\<close>: the members with a score up to \<open>x\<close> by score, then by name.\<close>

fun name_less :: "string \<Rightarrow> string \<Rightarrow> bool" where
  "name_less [] t = (t \<noteq> [])"
| "name_less (c # s) [] = False"
| "name_less (c # s) (d # t) = (byte_of c < byte_of d \<or> c = d \<and> name_less s t)"

fun insert_member :: "string \<times> int \<Rightarrow> (string \<times> int) list \<Rightarrow> (string \<times> int) list" where
  "insert_member p [] = [p]"
| "insert_member p (q # qs) =
     (if snd p < snd q \<or> snd p = snd q \<and> name_less (fst p) (fst q) then p # q # qs
      else q # insert_member p qs)"

definition cmd_zrangebyscore :: "string \<Rightarrow> int \<Rightarrow> string list redis_cmd" where
  "cmd_zrangebyscore k x now ks = (case live_entry now ks k of
      None \<Rightarrow> (Inr [], ks)
    | Some e \<Rightarrow> (case ent_value e of
        RZset zs \<Rightarrow> (Inr (map fst (foldr insert_member (filter (\<lambda>p. snd p \<le> x) zs) [])), ks)
      | _ \<Rightarrow> (Inl wrong_type, ks)))"

definition cmd_scan :: "browser_lib \<Rightarrow> string \<Rightarrow> string list redis_cmd" where
  "cmd_scan lib prefix now ks = (Inr (bl_scan lib now ks prefix), ks)"

text \<open>\<open>redis.call("GET", k)\<close> in a script: false for a missing key.\<close>

definition script_get :: "string \<Rightarrow> string option redis_cmd" where
  "script_get k now ks = (case cmd_get k now ks of
      (Inr s, ks') \<Rightarrow> (Inr (Some s), ks')
    | (Inl e, ks') \<Rightarrow> if e = ErrRedisNil then (Inr None, ks') else (Inl e, ks'))"

definition consume_token_script :: "string \<Rightarrow> string \<Rightarrow> string \<Rightarrow> redis_any redis_cmd" where
  "consume_token_script tokenKey currentKey tokenHash =
     then_cmd (script_get currentKey) (\<lambda>current.
       if current \<noteq> Some tokenHash then reply AnyNil
       else then_cmd (script_get tokenKey) (\<lambda>payload. case payload of
         None \<Rightarrow> reply AnyNil
       | Some p \<Rightarrow> then_cmd (cmd_del tokenKey) (\<lambda>_. then_cmd (cmd_del currentKey) (\<lambda>_. reply (AnyStr p)))))"

definition release_active_script :: "string \<Rightarrow> string \<Rightarrow> redis_any redis_cmd" where
  "release_active_script key v =
     then_cmd (script_get key) (\<lambda>held.
       if held = Some v then then_cmd (cmd_del key) (\<lambda>_. reply (AnyInt 1)) else reply (AnyInt 0))"

text \<open>\<open>Eval(...).Result()\<close>: a nil reply is \<open>redis.Nil\<close>.\<close>

definition eval_result :: "redis_any redis_cmd \<Rightarrow> ('z redis_world_scheme, redis_any) io" where
  "eval_result script =
     bindE (redis_do script) (\<lambda>v. if v = AnyNil then throw ErrRedisNil else ret v)"

text \<open>Milliseconds of an expiry as the client sends it.\<close>

definition px :: "duration \<Rightarrow> int" where
  "px ttl = max 1 (ttl div millisecond)"

text \<open>\<open>Get\<close> where a missing key is not an error.\<close>

definition redis_get_opt :: "string \<Rightarrow> ('z redis_world_scheme, string option) io" where
  "redis_get_opt k = bindE (tryE (redis_do (cmd_get k))) (\<lambda>r. case r of
      Inr s \<Rightarrow> ret (Some s)
    | Inl e \<Rightarrow> if err_is e ErrRedisNil then ret None else throw e)"

section \<open>Lock of the active session\<close>

definition live_ttl :: "time \<Rightarrow> ('z redis_world_scheme, duration) io" where
  "live_ttl expiresAt = bindE time_now (\<lambda>t.
     let ttl = expiresAt - t + browser_session_redis_grace in
     ret (if ttl \<le> 0 then browser_session_redis_grace else ttl))"

definition acquire_redis_active_session ::
  "browser_lib \<Rightarrow> redis_clients \<Rightarrow> uuid \<Rightarrow> string \<Rightarrow> uuid \<Rightarrow> time \<Rightarrow> ('z redis_world_scheme, bool) io" where
  "acquire_redis_active_session lib s userID platform sessionID expiresAt =
     (if \<not> rc_coordination s then ret True
      else bindE (live_ttl expiresAt) (\<lambda>ttl.
        redis_do (cmd_setnx (active_key lib userID platform) (uuid_text sessionID) (px ttl))))"

definition release_redis_active_session_value ::
  "browser_lib \<Rightarrow> redis_clients \<Rightarrow> uuid \<Rightarrow> string \<Rightarrow> string \<Rightarrow> ('z redis_world_scheme, unit) io" where
  "release_redis_active_session_value lib s userID platform activeValue =
     (if \<not> rc_coordination s then ret ()
      else bindE (eval_result (release_active_script (active_key lib userID platform) activeValue)) (\<lambda>_. ret ()))"

definition release_redis_active_session ::
  "browser_lib \<Rightarrow> redis_clients \<Rightarrow> uuid \<Rightarrow> string \<Rightarrow> uuid \<Rightarrow> ('z redis_world_scheme, unit) io" where
  "release_redis_active_session lib s userID platform sessionID =
     release_redis_active_session_value lib s userID platform (uuid_text sessionID)"

section \<open>Quotas\<close>

record quota_scope =
  qs_name :: string
  qs_key :: string
  qs_limit :: int
  qs_err :: err

text \<open>The script is the one of the stream gate.\<close>

definition acquire_quota_scope ::
  "quota_scope \<Rightarrow> uuid \<Rightarrow> time \<Rightarrow> duration \<Rightarrow> ('z redis_world_scheme, bool) io" where
  "acquire_quota_scope scope sessionID expiresAt ttl =
     bindE time_now (\<lambda>t.
     bindE (eval_result (acquire_scope_script (qs_key scope) (t div millisecond)
         (expiresAt div millisecond) (ttl div millisecond) (uuid_text sessionID) (qs_limit scope))) (\<lambda>v.
       case redis_int64 v of
         None \<Rightarrow> throw (ErrText ''redis: unexpected type for Int'')
       | Some n \<Rightarrow> ret (n = 1)))"

definition release_quota_scopes :: "quota_scope list \<Rightarrow> uuid \<Rightarrow> ('z redis_world_scheme, unit) io" where
  "release_quota_scopes scopes sessionID =
     bindE (collect_errors (map (\<lambda>scope.
         bindE (tryE (redis_do (cmd_zrem (qs_key scope) (uuid_text sessionID)))) (\<lambda>r. case r of
           Inr _ \<Rightarrow> ret ()
         | Inl e \<Rightarrow> throw (ErrWrap (qs_name scope @ '' quota release'') e))) scopes)) (\<lambda>es.
     case join_errors es of None \<Rightarrow> ret () | Some e \<Rightarrow> throw e)"

definition give_back_quota :: "err \<Rightarrow> quota_scope list \<Rightarrow> uuid \<Rightarrow> ('z redis_world_scheme, unit) io" where
  "give_back_quota e acquired sessionID =
     bindE (tryE (release_quota_scopes acquired sessionID)) (\<lambda>r. case r of
       Inl cleanupErr \<Rightarrow> throw (ErrJoin e cleanupErr)
     | Inr _ \<Rightarrow> throw e)"

fun acquire_quota_scopes ::
  "uuid \<Rightarrow> time \<Rightarrow> duration \<Rightarrow> quota_scope list \<Rightarrow> quota_scope list \<Rightarrow> ('z redis_world_scheme, unit) io" where
  "acquire_quota_scopes sessionID expiresAt ttl [] acquired = ret ()"
| "acquire_quota_scopes sessionID expiresAt ttl (scope # scopes) acquired =
     bindE (tryE (acquire_quota_scope scope sessionID expiresAt ttl)) (\<lambda>r. case r of
       Inl e \<Rightarrow> give_back_quota e acquired sessionID
     | Inr ok \<Rightarrow>
         if \<not> ok then give_back_quota (qs_err scope) acquired sessionID
         else acquire_quota_scopes sessionID expiresAt ttl scopes (acquired @ [scope]))"

definition quota_scopes :: "quota_config \<Rightarrow> uuid \<Rightarrow> string \<Rightarrow> quota_scope list" where
  "quota_scopes config userID tenantID =
     [\<lparr>qs_name = ''user'', qs_key = quota_user_key userID, qs_limit = qc_User config,
       qs_err = ErrUserQuotaExceeded\<rparr>,
      \<lparr>qs_name = ''tenant'', qs_key = quota_tenant_key tenantID, qs_limit = qc_Tenant config,
       qs_err = ErrTenantQuotaExceeded\<rparr>]"

definition acquire_redis_concurrency_quota ::
  "redis_clients \<Rightarrow> uuid \<Rightarrow> string \<Rightarrow> uuid \<Rightarrow> time \<Rightarrow> ('z redis_world_scheme, unit) io" where
  "acquire_redis_concurrency_quota s userID tenantID sessionID expiresAt =
     (if \<not> rc_coordination s then ret ()
      else let config = rc_quota s in
        if qc_User config = 0 \<and> qc_Tenant config = 0 then ret ()
        else bindE (live_ttl expiresAt) (\<lambda>ttl.
          let ttl = (if ttl \<le> 0 then browser_session_redis_grace else ttl) in
          acquire_quota_scopes sessionID expiresAt ttl (quota_scopes config userID tenantID) []))"

definition release_redis_concurrency_quota ::
  "redis_clients \<Rightarrow> uuid \<Rightarrow> string \<Rightarrow> uuid \<Rightarrow> ('z redis_world_scheme, unit) io" where
  "release_redis_concurrency_quota s userID tenantID sessionID =
     (if \<not> rc_coordination s then ret ()
      else release_quota_scopes
        [\<lparr>qs_name = '''', qs_key = quota_user_key userID, qs_limit = 0, qs_err = ErrUserQuotaExceeded\<rparr>,
         \<lparr>qs_name = '''', qs_key = quota_tenant_key tenantID, qs_limit = 0, qs_err = ErrTenantQuotaExceeded\<rparr>]
        sessionID)"

section \<open>Live state, heartbeat and cleanup set\<close>

definition get_redis_live_session ::
  "browser_lib \<Rightarrow> redis_clients \<Rightarrow> uuid \<Rightarrow> ('z redis_world_scheme, live_state option) io" where
  "get_redis_live_session lib s sessionID =
     (if \<not> rc_continuity s then ret None
      else bindE (redis_get_opt (session_key lib sessionID)) (\<lambda>raw. case raw of
        None \<Rightarrow> ret None
      | Some text \<Rightarrow> bindE (liftS (bl_dec_live lib text)) (\<lambda>st. ret (Some st))))"

definition save_redis_live_session ::
  "browser_lib \<Rightarrow> redis_clients \<Rightarrow> live_state \<Rightarrow> ('z redis_world_scheme, unit) io" where
  "save_redis_live_session lib s st =
     (if \<not> rc_continuity s then ret ()
      else bindE (if ls_TenantID st = []
        then bindE (get_redis_live_session lib s (ls_SessionID st)) (\<lambda>existing. case existing of
          Some old \<Rightarrow> ret (st\<lparr>ls_TenantID := ls_TenantID old\<rparr>)
        | None \<Rightarrow> ret st)
        else ret st) (\<lambda>st.
      bindE time_now (\<lambda>t.
      let st = st\<lparr>ls_TenantID := normalize_tenant_id (ls_TenantID st), ls_UpdatedAt := t\<rparr> in
      bindE (live_ttl (ls_ExpiresAt st)) (\<lambda>ttl.
      bindE (redis_do (cmd_set (session_key lib (ls_SessionID st)) (bl_enc_live lib st) (px ttl))) (\<lambda>_.
      redis_do (cmd_zadd cleanup_key (ls_ExpiresAt st div millisecond) (uuid_text (ls_SessionID st))))))))"

definition redis_session_tenant_id ::
  "browser_lib \<Rightarrow> redis_clients \<Rightarrow> string \<Rightarrow> uuid \<Rightarrow> ('z redis_world_scheme, string) io" where
  "redis_session_tenant_id lib s tenantID sessionID =
     (let tenantID = normalize_tenant_id tenantID in
      if tenantID \<noteq> default_tenant_id then ret tenantID
      else bindE (get_redis_live_session lib s sessionID) (\<lambda>st. case st of
        Some st \<Rightarrow> ret (if ls_TenantID st \<noteq> [] then normalize_tenant_id (ls_TenantID st) else tenantID)
      | None \<Rightarrow> ret tenantID))"

definition delete_redis_live_session ::
  "browser_lib \<Rightarrow> redis_clients \<Rightarrow> uuid \<Rightarrow> ('z redis_world_scheme, unit) io" where
  "delete_redis_live_session lib s sessionID =
     (if \<not> rc_continuity s then ret () else redis_do (cmd_del (session_key lib sessionID)))"

definition redis_worker_heartbeat_alive ::
  "redis_clients \<Rightarrow> string \<Rightarrow> ('z redis_world_scheme, bool) io" where
  "redis_worker_heartbeat_alive s ref =
     (if \<not> rc_continuity s \<or> ref = [] then ret True else redis_do (cmd_exists (worker_heartbeat_key ref)))"

definition delete_redis_worker_heartbeat :: "redis_clients \<Rightarrow> string \<Rightarrow> ('z redis_world_scheme, unit) io" where
  "delete_redis_worker_heartbeat s ref =
     (if \<not> rc_continuity s \<or> ref = [] then ret () else redis_do (cmd_del (worker_heartbeat_key ref)))"

definition remove_redis_cleanup_member :: "redis_clients \<Rightarrow> uuid \<Rightarrow> ('z redis_world_scheme, unit) io" where
  "remove_redis_cleanup_member s sessionID =
     (if \<not> rc_continuity s then ret () else redis_do (cmd_zrem cleanup_key (uuid_text sessionID)))"

section \<open>Stream tokens\<close>

definition hash_stream_token :: "browser_lib \<Rightarrow> string \<Rightarrow> string" where
  "hash_stream_token lib token = hex_encode (bl_sha256 lib token)"

definition stream_token_expires_at ::
  "time \<Rightarrow> time option \<Rightarrow> ('z redis_world_scheme, time) io" where
  "stream_token_expires_at sessionExpiresAt issuedAt = bindE time_now (\<lambda>t.
     let now = (case issuedAt of Some i \<Rightarrow> if i \<noteq> 0 then i else t | None \<Rightarrow> t);
         ttl = min (sessionExpiresAt - now) stream_token_max_ttl in
     ret (if ttl \<le> 0 then now else now + ttl))"

definition stream_token_valid_until :: "remote_browser_session \<Rightarrow> ('z redis_world_scheme, time) io" where
  "stream_token_valid_until session =
     (if rbs_ConnectTokenExpiresAt session \<noteq> 0 then ret (rbs_ConnectTokenExpiresAt session)
      else stream_token_expires_at (rbs_ExpiresAt session) (Some (rbs_CreatedAt session)))"

definition rotate_redis_stream_token ::
  "browser_lib \<Rightarrow> redis_clients \<Rightarrow> uuid \<Rightarrow> uuid \<Rightarrow> string \<Rightarrow> string \<Rightarrow> time \<Rightarrow> ('z redis_world_scheme, time) io" where
  "rotate_redis_stream_token lib s sessionID userID platform tokenHash sessionExpiresAt =
     bindE (stream_token_expires_at sessionExpiresAt None) (\<lambda>expiresAt.
     bindE time_now (\<lambda>t.
     let ttl = expiresAt - t in
     if ttl \<le> 0 then throw ErrInvalidStreamToken
     else if \<not> rc_coordination s then ret expiresAt
     else bindE time_now (\<lambda>issued.
       let payload = bl_enc_meta lib \<lparr>tm_SessionID = sessionID, tm_UserID = userID, tm_Platform = platform,
             tm_Purpose = ''stream'', tm_IssuedAt = issued, tm_ExpiresAt = expiresAt\<rparr>;
           currentKey = stream_current_key lib sessionID;
           tokenKey = stream_token_key lib sessionID tokenHash in
       bindE (redis_get_opt currentKey) (\<lambda>old.
       bindE (redis_do (cmd_set tokenKey payload (px ttl))) (\<lambda>_.
       bindE (tryE (redis_do (cmd_set currentKey tokenHash (px ttl)))) (\<lambda>r. case r of
         Inl e \<Rightarrow> bindE (ignoreE (redis_do (cmd_del tokenKey))) (\<lambda>_. throw e)
       | Inr _ \<Rightarrow> bindE (case old of
           Some oldHash \<Rightarrow>
             if oldHash \<noteq> [] \<and> oldHash \<noteq> tokenHash
             then ignoreE (redis_do (cmd_del (stream_token_key lib sessionID oldHash))) else ret ()
         | None \<Rightarrow> ret ()) (\<lambda>_. ret expiresAt)))))))"

definition read_redis_stream_token ::
  "browser_lib \<Rightarrow> redis_clients \<Rightarrow> uuid \<Rightarrow> string \<Rightarrow> bool \<Rightarrow> ('z redis_world_scheme, token_meta option) io" where
  "read_redis_stream_token lib s sessionID tokenHash consume =
     (if \<not> rc_coordination s then ret None
      else bindE (if consume
        then bindE (tryE (eval_result (consume_token_script (stream_token_key lib sessionID tokenHash)
               (stream_current_key lib sessionID) tokenHash))) (\<lambda>r. case r of
             Inl e \<Rightarrow> if err_is e ErrRedisNil then ret None else throw e
           | Inr (AnyStr v) \<Rightarrow> ret (Some v)
           | Inr _ \<Rightarrow> throw (ErrText ''unexpected redis stream token payload type''))
        else bindE (redis_get_opt (stream_current_key lib sessionID)) (\<lambda>current. case current of
            None \<Rightarrow> ret None
          | Some currentHash \<Rightarrow>
              if currentHash \<noteq> tokenHash then ret None
              else redis_get_opt (stream_token_key lib sessionID tokenHash))) (\<lambda>raw.
      case raw of
        None \<Rightarrow> ret None
      | Some text \<Rightarrow> bindE (liftS (bl_dec_meta lib text)) (\<lambda>meta. ret (Some meta))))"

fun add_new_keys :: "string list \<Rightarrow> string list \<Rightarrow> string list" where
  "add_new_keys keys [] = keys"
| "add_new_keys keys (k # ks) = add_new_keys (if k \<in> set keys then keys else keys @ [k]) ks"

definition delete_redis_stream_token ::
  "browser_lib \<Rightarrow> redis_clients \<Rightarrow> uuid \<Rightarrow> ('z redis_world_scheme, unit) io" where
  "delete_redis_stream_token lib s sessionID =
     (if \<not> rc_coordination s then ret ()
      else let currentKey = stream_current_key lib sessionID in
        bindE (redis_get_opt currentKey) (\<lambda>current.
        let keys = currentKey # (case current of
              Some h \<Rightarrow> if h \<noteq> [] then [stream_token_key lib sessionID h] else []
            | None \<Rightarrow> []) in
        bindE (redis_do (cmd_scan lib (stream_token_prefix lib sessionID))) (\<lambda>found.
        bindE (collect_errors (map (\<lambda>k. redis_do (cmd_del k)) (add_new_keys keys found))) (\<lambda>es.
        case join_errors es of None \<Rightarrow> ret () | Some e \<Rightarrow> throw e))))"

definition has_current_stream_token ::
  "browser_lib \<Rightarrow> redis_clients \<Rightarrow> remote_browser_session \<Rightarrow> ('z redis_world_scheme, bool) io" where
  "has_current_stream_token lib s session =
     (if \<not> rc_coordination s
      then if rbs_ConnectTokenHash session = [] then ret False
        else bindE (stream_token_valid_until session) (\<lambda>until. bindE time_now (\<lambda>t. ret (t < until)))
      else bindE (redis_get_opt (stream_current_key lib (rbs_ID session))) (\<lambda>current. case current of
          None \<Rightarrow> ret False
        | Some h \<Rightarrow>
            if h = [] then ret False
            else bindE (redis_get_opt (stream_token_key lib (rbs_ID session) h)) (\<lambda>payload.
              ret (payload \<noteq> None))))"

definition browser_session_stream_url :: "uuid \<Rightarrow> string \<Rightarrow> string" where
  "browser_session_stream_url sessionID token =
     (let base = ''api/user/dashboard/browser-sessions/'' @ uuid_text sessionID @ ''/stream/'' @ token in
      ''/'' @ base @ ''/vnc.html?autoconnect=true&path='' @ query_escape (base @ ''/websockify'') @ ''&resize=scale'')"

section \<open>Cleanup\<close>

definition cleanup_redis_session_for_tenant ::
  "browser_lib \<Rightarrow> redis_clients \<Rightarrow> uuid \<Rightarrow> string \<Rightarrow> string \<Rightarrow> uuid \<Rightarrow> string \<Rightarrow> ('z redis_world_scheme, unit) io" where
  "cleanup_redis_session_for_tenant lib s userID tenantID platform sessionID ref =
     (if \<not> rc_coordination s \<and> \<not> rc_continuity s then ret ()
      else bindE (redis_session_tenant_id lib s tenantID sessionID) (\<lambda>tenantID.
        bindE (collect_errors
          [release_redis_active_session lib s userID platform sessionID,
           release_redis_concurrency_quota s userID tenantID sessionID,
           delete_redis_stream_token lib s sessionID,
           delete_redis_live_session lib s sessionID,
           delete_redis_worker_heartbeat s ref,
           remove_redis_cleanup_member s sessionID]) (\<lambda>es.
        case join_errors es of None \<Rightarrow> ret () | Some e \<Rightarrow> throw e)))"

definition cleanup_redis_session ::
  "browser_lib \<Rightarrow> redis_clients \<Rightarrow> uuid \<Rightarrow> string \<Rightarrow> uuid \<Rightarrow> string \<Rightarrow> ('z redis_world_scheme, unit) io" where
  "cleanup_redis_session lib s userID platform sessionID ref =
     cleanup_redis_session_for_tenant lib s userID '''' platform sessionID ref"

end
