(* ===== verification/Browser_Session.thy ===== *)
theory Browser_Session
  imports Browser_Coordination Platform_Account
begin

text \<open>
  The service of \<open>services/browser_session\<close> (\<open>start.go\<close>, \<open>active.go\<close>, \<open>authorization.go\<close>,
  \<open>read.go\<close>, \<open>complete.go\<close>, \<open>cleanup.go\<close>): starting a remote browser session under the lock of the
  active session, recovering a stale lock, reading its state and its stream endpoint, completing
  and cancelling it, and the sweep over expired sessions. The browser worker answers from a script,
  as the other external systems do; the cookie store is a port.
\<close>

section \<open>World\<close>

text \<open>Cookies, domain rules and cookie requirements only pass through: they are their JSON texts.\<close>

type_synonym worker_cookie = string

record account_profile =
  ap_Username :: string
  ap_AvatarURL :: string
  ap_PlatformUserID :: string

record browser_adapter =
  ba_LoginURL :: string
  ba_AllowedDomains :: "string list"
  ba_RequiredCookies :: "string list"

record worker_start_request =
  wr_SessionID :: uuid
  wr_UserID :: uuid
  wr_Platform :: string
  wr_LoginURL :: string
  wr_AllowedDomains :: "string list"
  wr_RequiredCookies :: "string list"
  wr_TTLSeconds :: int
  wr_InitialCookies :: "worker_cookie list"
  wr_Viewport :: "int \<times> int"

record worker_start_response =
  sr_WorkerSessionRef :: string
  sr_StreamEndpointRef :: string
  sr_RuntimeReference :: runtime_reference

record worker_state =
  wk_CurrentURL :: string
  wk_LoginDetected :: bool
  wk_MissingCookies :: "string list"
  wk_Message :: string

record capture_response =
  cr_Status :: string
  cr_Cookies :: "worker_cookie list"
  cr_Account :: account_profile
  cr_MissingCookies :: "string list"

text \<open>What the service asks of the worker and of the account cache, in order.\<close>

datatype browser_call =
    WorkerStarts worker_start_request
  | WorkerCaptures string
  | WorkerStops string
  | CacheInvalidated uuid string

record browser_world = redis_world +
  bw_core :: world
  bw_start :: "nat \<Rightarrow> err + worker_start_response"
  bw_state :: "nat \<Rightarrow> err + worker_state"
  bw_capture :: "nat \<Rightarrow> err + capture_response"
  bw_stop :: "nat \<Rightarrow> err option"
  bw_rand :: "nat \<Rightarrow> err + string"
  bw_log :: "browser_call list"

type_synonym 'a browser = "(browser_world, 'a) io"

definition on_core :: "'a mpp \<Rightarrow> 'a browser" where
  "on_core m w = (case m (bw_core w) of (r, c) \<Rightarrow> (r, w\<lparr>bw_core := c\<rparr>))"

text \<open>A transaction of the database whose body also calls the worker and Redis.\<close>

definition core_transaction :: "'a browser \<Rightarrow> 'a browser" where
  "core_transaction m w = (case m w of
      (Inl e, w') \<Rightarrow> (Inl e, w'\<lparr>bw_core := (bw_core w')\<lparr>db := db (bw_core w)\<rparr>\<rparr>)
    | (Inr x, w') \<Rightarrow> (case env_fault (env (bw_core w')) (calls (bw_core w')) of
        Some e \<Rightarrow> (Inl e, w'\<lparr>bw_core := (tick (bw_core w'))\<lparr>db := db (bw_core w)\<rparr>\<rparr>)
      | None \<Rightarrow> (Inr x, w'\<lparr>bw_core := tick (bw_core w')\<rparr>)))"

definition log_call :: "browser_call \<Rightarrow> browser_world \<Rightarrow> browser_world" where
  "log_call c w = w\<lparr>bw_log := bw_log w @ [c]\<rparr>"

definition worker_create_session :: "worker_start_request \<Rightarrow> worker_start_response browser" where
  "worker_create_session req w = (bw_start w (rw_calls w), rw_tick (log_call (WorkerStarts req) w))"

definition worker_get_session :: "string \<Rightarrow> worker_state browser" where
  "worker_get_session ref w = (bw_state w (rw_calls w), rw_tick w)"

definition worker_capture_session :: "string \<Rightarrow> capture_response browser" where
  "worker_capture_session ref w = (bw_capture w (rw_calls w), rw_tick (log_call (WorkerCaptures ref) w))"

definition worker_stop_session :: "string \<Rightarrow> unit browser" where
  "worker_stop_session ref w =
     (case bw_stop w (rw_calls w) of Some e \<Rightarrow> Inl e | None \<Rightarrow> Inr (),
      rw_tick (log_call (WorkerStops ref) w))"

definition rand_read :: "string browser" where
  "rand_read w = (bw_rand w (rw_calls w), rw_tick w)"

section \<open>Service\<close>

text \<open>\<open>publisher.CookieStore\<close>: load and save for an account.\<close>

record cookie_store =
  cs_load :: "uuid \<Rightarrow> uuid \<Rightarrow> string \<Rightarrow> worker_cookie list mpp"
  cs_save :: "uuid \<Rightarrow> uuid \<Rightarrow> uuid \<Rightarrow> string \<Rightarrow> worker_cookie list \<Rightarrow> account_profile \<Rightarrow> unit mpp"

record browser_service =
  bs_lib :: browser_lib
  bs_clients :: redis_clients
  bs_adapters :: "string \<Rightarrow> browser_adapter option"
  bs_cookies :: cookie_store
  bs_invalidator :: bool

definition ErrCookieNotFound :: err where
  "ErrCookieNotFound = ErrSentinel ''no saved cookies exist for the user/platform''"
definition ErrCookieValidationFailed :: err where
  "ErrCookieValidationFailed = ErrSentinel ''required cookies are missing or expired''"
definition ErrBrowserWorkerPoolExhausted :: err where
  "ErrBrowserWorkerPoolExhausted = ErrSentinel ''browser worker session pool exhausted''"

definition register_adapter :: "string \<Rightarrow> browser_adapter \<Rightarrow> browser_service \<Rightarrow> browser_service" where
  "register_adapter platform a s = s\<lparr>bs_adapters := (bs_adapters s)(platform \<mapsto> a)\<rparr>"

definition use_redis_coordination :: "bool \<Rightarrow> browser_service \<Rightarrow> browser_service" where
  "use_redis_coordination client s =
     (if \<not> client then s else s\<lparr>bs_clients := (bs_clients s)\<lparr>rc_coordination := True\<rparr>\<rparr>)"

definition use_redis_continuity :: "bool \<Rightarrow> browser_service \<Rightarrow> browser_service" where
  "use_redis_continuity client s =
     (if \<not> client then s else s\<lparr>bs_clients := (bs_clients s)\<lparr>rc_continuity := True\<rparr>\<rparr>)"

definition use_redis :: "bool \<Rightarrow> browser_service \<Rightarrow> browser_service" where
  "use_redis client s = use_redis_continuity client (use_redis_coordination client s)"

definition use_quota_config :: "quota_config \<Rightarrow> browser_service \<Rightarrow> browser_service" where
  "use_quota_config config s = s\<lparr>bs_clients := (bs_clients s)\<lparr>rc_quota := normalize_quota_config config\<rparr>\<rparr>"

subsection \<open>Statements on the table of sessions\<close>

definition find_session :: "uuid \<Rightarrow> db \<Rightarrow> remote_browser_session option" where
  "find_session i d = find (\<lambda>s. rbs_ID s = i) (browser_sessions d)"

definition find_user_session :: "uuid \<Rightarrow> uuid \<Rightarrow> db \<Rightarrow> remote_browser_session option" where
  "find_user_session i uid d = find (\<lambda>s. rbs_ID s = i \<and> rbs_UserID s = uid) (browser_sessions d)"

definition set_sessions ::
  "(remote_browser_session \<Rightarrow> bool) \<Rightarrow> (remote_browser_session \<Rightarrow> remote_browser_session) \<Rightarrow> nat mpp" where
  "set_sessions p f = exec (\<lambda>d. (count_rows p (browser_sessions d),
     d\<lparr>browser_sessions := update_rows p f (browser_sessions d)\<rparr>))"

text \<open>\<open>Model(session).Updates\<close>: by the two columns of the primary key.\<close>

definition update_session ::
  "remote_browser_session \<Rightarrow> (remote_browser_session \<Rightarrow> remote_browser_session) \<Rightarrow> unit browser" where
  "update_session s f = bindE (on_core (set_sessions
     (\<lambda>x. rbs_ID x = rbs_ID s \<and> rbs_CreatedAt x = rbs_CreatedAt s) f)) (\<lambda>_. ret ())"

definition set_session_status :: "remote_browser_session \<Rightarrow> string \<Rightarrow> unit browser" where
  "set_session_status s status = update_session s (\<lambda>x. x\<lparr>rbs_Status := status\<rparr>)"

definition active_of :: "uuid \<Rightarrow> string \<Rightarrow> remote_browser_session \<Rightarrow> bool" where
  "active_of uid platform s \<longleftrightarrow> rbs_UserID s = uid \<and> rbs_Platform s = platform \<and>
     rbs_Status s \<in> set active_browser_session_statuses"

definition create_session :: "remote_browser_session \<Rightarrow> remote_browser_session browser" where
  "create_session s =
     bindE (if rbs_ID s = uuid_nil then on_core uuid_new else ret uuid_nil) (\<lambda>fresh.
     bindE (if rbs_CreatedAt s = 0 then time_now else ret 0) (\<lambda>t.
     let s = remote_browser_session_before_create fresh t s in
     bindE (on_core (create_row browser_sessions (\<lambda>rs d. d\<lparr>browser_sessions := rs\<rparr>)
         (\<lambda>a b. rbs_ID a = rbs_ID b \<and> rbs_CreatedAt a = rbs_CreatedAt b) s)) (\<lambda>_. ret s)))"

section \<open>Authorization\<close>

definition find_session_account :: "uuid \<Rightarrow> uuid \<Rightarrow> string \<Rightarrow> db \<Rightarrow> platform_account option" where
  "find_session_account aid wid platform d = find (\<lambda>a. acct_ID a = aid \<and> acct_WorkspaceID a = Some wid \<and>
     acct_Platform a = platform) (accounts d)"

definition authorize_session_account :: "uuid \<Rightarrow> uuid \<Rightarrow> uuid \<Rightarrow> string \<Rightarrow> uuid mpp" where
  "authorize_session_account uid wid aid platform =
     bindE (tryE (first_row (find_session_account aid wid platform))) (\<lambda>r. case r of
       Inl e \<Rightarrow> if err_is e ErrRecordNotFound then throw ErrSessionAccountForbidden else throw e
     | Inr a \<Rightarrow> bindE (tryE (require_account_use uid a uuid_nil)) (\<lambda>r. case r of
         Inl e \<Rightarrow> if err_is e ErrPlatformAccountForbidden then throw ErrSessionAccountForbidden else throw e
       | Inr _ \<Rightarrow> (case acct_WorkspaceID a of
           None \<Rightarrow> throw ErrSessionAccountForbidden | Some wid \<Rightarrow> ret wid)))"

definition require_session_account_connect :: "uuid \<Rightarrow> uuid \<Rightarrow> unit mpp" where
  "require_session_account_connect uid wid =
     bindE (tryE (require_workspace_account_connect wid uid)) (\<lambda>r. case r of
       Inl e \<Rightarrow> if err_is e ErrForbidden \<or> err_is e ErrRecordNotFound
                then throw ErrSessionAccountForbidden else throw e
     | Inr _ \<Rightarrow> ret ())"

definition authorize_session_target :: "uuid \<Rightarrow> uuid \<Rightarrow> uuid \<Rightarrow> string \<Rightarrow> uuid mpp" where
  "authorize_session_target uid wid aid platform =
     bindE (asks (\<lambda>w. personal_workspace_id w uid)) (\<lambda>personal.
       let wid = (if wid = uuid_nil then personal else wid) in
       if aid \<noteq> uuid_nil then authorize_session_account uid wid aid platform
       else bindE (require_session_account_connect uid wid) (\<lambda>_. ret wid))"

section \<open>Active sessions in the database\<close>

definition expire_stale_session :: "remote_browser_session \<Rightarrow> string \<Rightarrow> unit browser" where
  "expire_stale_session session message = update_session session
     (\<lambda>x. x\<lparr>rbs_Status := BrowserSessionStatusExpired, rbs_ErrorMessage := message\<rparr>)"

fun some_active :: "time \<Rightarrow> remote_browser_session list \<Rightarrow> bool browser" where
  "some_active now [] = ret False"
| "some_active now (session # rest) =
     (if rbs_ExpiresAt session < now
      then bindE (expire_stale_session session ''session expired'') (\<lambda>_. some_active now rest)
      else if rbs_WorkerSessionRef session = []
      then if now < rbs_CreatedAt session + pending_session_stale_after then ret True
        else bindE (expire_stale_session session ''worker session reference is missing'') (\<lambda>_. some_active now rest)
      else bindE (tryE (worker_get_session (rbs_WorkerSessionRef session))) (\<lambda>r. case r of
        Inl _ \<Rightarrow> bindE (expire_stale_session session ''worker session is unavailable'') (\<lambda>_. some_active now rest)
      | Inr _ \<Rightarrow> ret True))"

definition active_session_exists :: "uuid \<Rightarrow> string \<Rightarrow> time \<Rightarrow> bool browser" where
  "active_session_exists uid platform now =
     bindE (on_core (select (\<lambda>d. filter (active_of uid platform) (browser_sessions d)))) (some_active now)"

definition expire_superseded_active_rows :: "uuid \<Rightarrow> string \<Rightarrow> unit browser" where
  "expire_superseded_active_rows uid platform =
     bindE (on_core (set_sessions (active_of uid platform)
       (\<lambda>x. x\<lparr>rbs_Status := BrowserSessionStatusExpired,
              rbs_ErrorMessage := ''superseded by redis active-session lock recovery''\<rparr>))) (\<lambda>_. ret ())"

definition expire_redis_active_session_row :: "uuid \<Rightarrow> string \<Rightarrow> unit browser" where
  "expire_redis_active_session_row sid message =
     bindE (on_core (set_sessions
       (\<lambda>x. rbs_ID x = sid \<and> rbs_Status x \<in> set active_browser_session_statuses)
       (\<lambda>x. x\<lparr>rbs_Status := BrowserSessionStatusExpired, rbs_ErrorMessage := message,
              rbs_ConnectTokenHash := ''''\<rparr>))) (\<lambda>_. ret ())"

section \<open>Recovering a stale lock\<close>

definition cleanup_recovered_redis_active_session ::
  "browser_service \<Rightarrow> uuid \<Rightarrow> string \<Rightarrow> uuid \<Rightarrow> string \<Rightarrow> string \<Rightarrow> unit browser" where
  "cleanup_recovered_redis_active_session s uid platform sid ref message =
     bindE (expire_redis_active_session_row sid message) (\<lambda>_.
       cleanup_redis_session (bs_lib s) (bs_clients s) uid platform sid ref)"

text \<open>
  What the stored live state says about the lock: whose it is, whether it is over, or whether the
  worker has to be asked.
\<close>

datatype lock_verdict =
    LockForeign
  | LockOver
  | LockPending
  | LockAbandoned
  | LockAskWorker

definition judge_lock :: "uuid \<Rightarrow> string \<Rightarrow> time \<Rightarrow> live_state \<Rightarrow> lock_verdict" where
  "judge_lock uid platform now st =
     (if ls_UserID st \<noteq> uid \<or> ls_Platform st \<noteq> platform then LockForeign
      else if ls_ExpiresAt st < now \<or> is_terminal_browser_session_status (ls_Status st) then LockOver
      else if ls_WorkerSessionRef st = []
      then if now < ls_CreatedAt st + pending_session_stale_after then LockPending else LockAbandoned
      else LockAskWorker)"

text \<open>The result is whether the lock may be taken again; an error takes precedence over it.\<close>

definition recover_redis_active_session_lock ::
  "browser_service \<Rightarrow> uuid \<Rightarrow> string \<Rightarrow> time \<Rightarrow> bool browser" where
  "recover_redis_active_session_lock s uid platform now =
     (let lib = bs_lib s; cl = bs_clients s;
          take = (\<lambda>m. bindE m (\<lambda>_. ret True)) in
      if \<not> rc_coordination cl then ret False
      else bindE (redis_get_opt (active_key lib uid platform)) (\<lambda>held. case held of
        None \<Rightarrow> ret True
      | Some activeValue \<Rightarrow> (case bl_parse_uuid lib activeValue of
          None \<Rightarrow> take (release_redis_active_session_value lib cl uid platform activeValue)
        | Some sid \<Rightarrow> bindE (get_redis_live_session lib cl sid) (\<lambda>st. case st of
            None \<Rightarrow> take (cleanup_recovered_redis_active_session s uid platform sid '''' ''redis live session missing'')
          | Some st \<Rightarrow> (case judge_lock uid platform now st of
              LockForeign \<Rightarrow> take (release_redis_active_session_value lib cl uid platform activeValue)
            | LockOver \<Rightarrow> take (cleanup_recovered_redis_active_session s uid platform sid
                  (ls_WorkerSessionRef st) ''session expired'')
            | LockPending \<Rightarrow> ret False
            | LockAbandoned \<Rightarrow> take (cleanup_recovered_redis_active_session s uid platform sid ''''
                  ''worker session reference is missing'')
            | LockAskWorker \<Rightarrow>
                bindE (redis_worker_heartbeat_alive cl (ls_WorkerSessionRef st)) (\<lambda>alive.
                bindE (tryE (worker_get_session (ls_WorkerSessionRef st))) (\<lambda>r. case r of
                  Inr _ \<Rightarrow> ret False
                | Inl _ \<Rightarrow> take (cleanup_recovered_redis_active_session s uid platform sid
                    (ls_WorkerSessionRef st)
                    (if \<not> alive then ''worker heartbeat missing'' else ''worker session is unavailable'')))))))))"

section \<open>Starting a session\<close>

fun dec_text :: "nat \<Rightarrow> string" where
  "dec_text n = (if n < 10 then [char_of (48 + n)] else dec_text (n div 10) @ [char_of (48 + n mod 10)])"

definition int_text :: "int \<Rightarrow> string" where
  "int_text i = (if i < 0 then ''-'' @ dec_text (nat (- i)) else dec_text (nat i))"

definition validate_worker_runtime_endpoint :: "string \<Rightarrow> runtime_endpoint \<Rightarrow> err + unit" where
  "validate_worker_runtime_endpoint name endpoint =
     (if trim_space (re_Host endpoint) = [] then Inl (ErrText (name @ ''.host is required''))
      else if re_Port endpoint \<le> 0 \<or> 65535 < re_Port endpoint
      then Inl (ErrText (name @ ''.port is invalid: '' @ int_text (re_Port endpoint)))
      else Inr ())"

definition validate_worker_runtime_reference :: "browser_lib \<Rightarrow> runtime_reference \<Rightarrow> err + string" where
  "validate_worker_runtime_reference lib reference =
     (if trim_space (rr_Driver reference) = [] then Inl (ErrText ''runtime reference driver is required'')
      else if trim_space (rr_RuntimeID reference) = []
      then Inl (ErrText ''runtime reference runtime_id is required'')
      else case validate_worker_runtime_endpoint ''runtime reference cdp_endpoint'' (rr_CdpEndpoint reference) of
        Inl e \<Rightarrow> Inl e
      | Inr _ \<Rightarrow> (case validate_worker_runtime_endpoint ''runtime reference stream_endpoint''
            (rr_StreamEndpoint reference) of
          Inl e \<Rightarrow> Inl e
        | Inr _ \<Rightarrow> Inr (bl_enc_reference lib reference)))"

definition is_active_session_uniqueness_error :: "browser_lib \<Rightarrow> err \<Rightarrow> bool" where
  "is_active_session_uniqueness_error lib e =
     (let message = to_lower (bl_ulow lib) (err_text e) in
      contains message ''ux_remote_browser_sessions_active_user_platform'' \<or>
      contains message ''unique'' \<and> contains message ''remote_browser_sessions'' \<and>
      contains message ''user_id'' \<and> contains message ''platform'')"

definition generate_stream_token :: "browser_lib \<Rightarrow> (string \<times> string) browser" where
  "generate_stream_token lib = bindE rand_read (\<lambda>b.
     let token = b64_encode b in ret (token, hash_stream_token lib token))"

text \<open>PostgreSQL takes the advisory lock first; it orders the transactions and changes no row.\<close>

definition create_session_with_database_active_guard ::
  "browser_service \<Rightarrow> remote_browser_session \<Rightarrow> time \<Rightarrow> remote_browser_session browser" where
  "create_session_with_database_active_guard s session now =
     core_transaction (
       bindE (on_core (exec (\<lambda>d. (0, d)))) (\<lambda>_.
       bindE (active_session_exists (rbs_UserID session) (rbs_Platform session) now) (\<lambda>active.
       if active then throw ErrActiveSessionExists
       else bindE (tryE (create_session session)) (\<lambda>r. case r of
         Inr session \<Rightarrow> ret session
       | Inl e \<Rightarrow> throw (if is_active_session_uniqueness_error (bs_lib s) e then ErrActiveSessionExists else e)))))"

text \<open>The lock, the rows it supersedes and the quotas.\<close>

definition lock_or_recover :: "browser_service \<Rightarrow> uuid \<Rightarrow> string \<Rightarrow> uuid \<Rightarrow> time \<Rightarrow> time \<Rightarrow> unit browser" where
  "lock_or_recover s uid platform sid expiresAt now =
     (let acquire = acquire_redis_active_session (bs_lib s) (bs_clients s) uid platform sid expiresAt in
      bindE acquire (\<lambda>acquired.
      if acquired then ret ()
      else bindE (recover_redis_active_session_lock s uid platform now) (\<lambda>recovered.
        if \<not> recovered then throw ErrActiveSessionExists
        else bindE acquire (\<lambda>acquired. if \<not> acquired then throw ErrActiveSessionExists else ret ()))))"

definition claim_active_session ::
  "browser_service \<Rightarrow> uuid \<Rightarrow> string \<Rightarrow> string \<Rightarrow> uuid \<Rightarrow> time \<Rightarrow> time \<Rightarrow> unit browser" where
  "claim_active_session s uid tenantID platform sid expiresAt now =
     (let giveUp = (\<lambda>e. bindE (ignoreE (release_redis_active_session (bs_lib s) (bs_clients s) uid platform sid))
            (\<lambda>_. throw e)) in
      bindE (lock_or_recover s uid platform sid expiresAt now) (\<lambda>_.
      bindE (tryE (expire_superseded_active_rows uid platform)) (\<lambda>r. case r of
        Inl e \<Rightarrow> giveUp e
      | Inr _ \<Rightarrow> bindE (tryE (acquire_redis_concurrency_quota (bs_clients s) uid tenantID sid expiresAt)) (\<lambda>r. case r of
          Inl e \<Rightarrow> giveUp e
        | Inr _ \<Rightarrow> ret ()))))"

record start_response =
  sp_SessionID :: uuid
  sp_Status :: string
  sp_StreamURL :: string
  sp_StreamTokenExpiresAt :: time
  sp_ExpiresAt :: time

text \<open>What a start does about Redis, and about the worker and the row, when it fails.\<close>

definition drop_redis :: "browser_service \<Rightarrow> uuid \<Rightarrow> string \<Rightarrow> string \<Rightarrow> uuid \<Rightarrow> string \<Rightarrow> unit browser" where
  "drop_redis s uid tenantID platform sid ref = ignoreE
     (cleanup_redis_session_for_tenant (bs_lib s) (bs_clients s) uid tenantID platform sid ref)"

definition abort_start ::
  "browser_service \<Rightarrow> uuid \<Rightarrow> string \<Rightarrow> string \<Rightarrow> uuid \<Rightarrow> string \<Rightarrow> remote_browser_session \<Rightarrow> err \<Rightarrow> 'a browser" where
  "abort_start s uid tenantID platform sid ref session e =
     bindE (ignoreE (worker_stop_session ref)) (\<lambda>_.
     bindE (drop_redis s uid tenantID platform sid ref) (\<lambda>_.
     bindE (ignoreE (set_session_status session BrowserSessionStatusFailed)) (\<lambda>_. throw e)))"

definition pending_live_state :: "uuid \<Rightarrow> uuid \<Rightarrow> string \<Rightarrow> string \<Rightarrow> time \<Rightarrow> time \<Rightarrow> live_state" where
  "pending_live_state sid uid tenantID platform createdAt expiresAt =
     \<lparr>ls_SessionID = sid, ls_UserID = uid, ls_TenantID = tenantID, ls_Platform = platform,
      ls_Status = BrowserSessionStatusPending, ls_WorkerSessionRef = '''', ls_CurrentURL = '''',
      ls_LoginDetected = False, ls_MissingCookies = [], ls_Message = '''', ls_CreatedAt = createdAt,
      ls_ExpiresAt = expiresAt, ls_UpdatedAt = 0\<rparr>"

text \<open>From the ready worker to the answer: the row, the live state and the token.\<close>

definition publish_worker ::
  "browser_service \<Rightarrow> uuid \<Rightarrow> string \<Rightarrow> string \<Rightarrow> uuid \<Rightarrow> string \<Rightarrow> string \<Rightarrow> remote_browser_session \<Rightarrow> time \<Rightarrow>
     time \<Rightarrow> worker_start_response \<Rightarrow> start_response browser" where
  "publish_worker s uid tenantID platform sid token tokenHash session now expiresAt resp =
     (let lib = bs_lib s; cl = bs_clients s; ref = sr_WorkerSessionRef resp in
      case validate_worker_runtime_reference lib (sr_RuntimeReference resp) of
        Inl e \<Rightarrow> abort_start s uid tenantID platform sid ref session
          (ErrWrap ''worker returned invalid runtime reference'' e)
      | Inr reference \<Rightarrow>
        bindE (tryE (update_session session (\<lambda>x. x\<lparr>rbs_Status := BrowserSessionStatusReady,
            rbs_WorkerSessionRef := ref, rbs_RuntimeReference := reference,
            rbs_StreamEndpointRef := sr_StreamEndpointRef resp\<rparr>))) (\<lambda>r. case r of
          Inl e \<Rightarrow> bindE (ignoreE (worker_stop_session ref)) (\<lambda>_.
            bindE (drop_redis s uid tenantID platform sid ref) (\<lambda>_. throw e))
        | Inr _ \<Rightarrow>
          bindE (tryE (save_redis_live_session lib cl ((pending_live_state sid uid tenantID platform now expiresAt)
              \<lparr>ls_Status := BrowserSessionStatusReady, ls_WorkerSessionRef := ref\<rparr>))) (\<lambda>r. case r of
            Inl e \<Rightarrow> abort_start s uid tenantID platform sid ref session e
          | Inr _ \<Rightarrow>
            bindE (tryE (rotate_redis_stream_token lib cl sid uid platform tokenHash expiresAt)) (\<lambda>r. case r of
              Inl e \<Rightarrow> abort_start s uid tenantID platform sid ref session e
            | Inr tokenExpiresAt \<Rightarrow>
              bindE (tryE (update_session session (\<lambda>x. x\<lparr>rbs_ConnectTokenExpiresAt := tokenExpiresAt\<rparr>))) (\<lambda>r.
                case r of
                  Inl e \<Rightarrow> abort_start s uid tenantID platform sid ref session e
                | Inr _ \<Rightarrow> ret \<lparr>sp_SessionID = sid, sp_Status = BrowserSessionStatusReady,
                    sp_StreamURL = browser_session_stream_url sid token,
                    sp_StreamTokenExpiresAt = tokenExpiresAt, sp_ExpiresAt = expiresAt\<rparr>)))))"

definition start_worker ::
  "browser_service \<Rightarrow> browser_adapter \<Rightarrow> uuid \<Rightarrow> string \<Rightarrow> uuid \<Rightarrow> string \<Rightarrow> uuid \<Rightarrow> string \<Rightarrow> string \<Rightarrow>
     remote_browser_session \<Rightarrow> time \<Rightarrow> time \<Rightarrow> start_response browser" where
  "start_worker s adapter uid tenantID accountID platform sid token tokenHash session now expiresAt =
     bindE (tryE (on_core (cs_load (bs_cookies s) uid accountID platform))) (\<lambda>r.
       let request = (\<lambda>cookies. \<lparr>wr_SessionID = sid, wr_UserID = uid, wr_Platform = platform,
             wr_LoginURL = ba_LoginURL adapter, wr_AllowedDomains = ba_AllowedDomains adapter,
             wr_RequiredCookies = ba_RequiredCookies adapter, wr_TTLSeconds = 900,
             wr_InitialCookies = cookies, wr_Viewport = (1366, 768)\<rparr>);
           create = (\<lambda>cookies. bindE (tryE (worker_create_session (request cookies))) (\<lambda>r. case r of
             Inl e \<Rightarrow> bindE (ignoreE (set_session_status session BrowserSessionStatusFailed)) (\<lambda>_.
               bindE (drop_redis s uid tenantID platform sid '''') (\<lambda>_.
               throw (if err_is e ErrBrowserWorkerPoolExhausted then ErrWorkerPoolExhausted
                      else ErrWrap ''worker failed to create session'' e)))
           | Inr resp \<Rightarrow> publish_worker s uid tenantID platform sid token tokenHash session now expiresAt resp)) in
       case r of
         Inr cookies \<Rightarrow> create cookies
       | Inl e \<Rightarrow>
           if \<not> err_is e ErrCookieNotFound \<and> \<not> err_is e ErrCookieValidationFailed
           then bindE (ignoreE (set_session_status session BrowserSessionStatusFailed)) (\<lambda>_.
             bindE (drop_redis s uid '''' platform sid '''') (\<lambda>_. throw e))
           else create [])"

definition open_session ::
  "browser_service \<Rightarrow> browser_adapter \<Rightarrow> uuid \<Rightarrow> string \<Rightarrow> uuid \<Rightarrow> uuid \<Rightarrow> string \<Rightarrow> uuid \<Rightarrow> time \<Rightarrow> time \<Rightarrow>
     start_response browser" where
  "open_session s adapter uid tenantID wid accountID platform sid now expiresAt =
     (let lib = bs_lib s; cl = bs_clients s; drop = drop_redis s uid tenantID platform sid '''' in
      bindE (tryE (generate_stream_token lib)) (\<lambda>r. case r of
        Inl e \<Rightarrow> bindE drop (\<lambda>_. throw e)
      | Inr (token, tokenHash) \<Rightarrow>
        bindE (stream_token_expires_at expiresAt (Some now)) (\<lambda>tokenExpiresAt.
        let session = \<lparr>rbs_ID = sid, rbs_UserID = uid, rbs_WorkspaceID = Some wid,
              rbs_PlatformAccountID = (if accountID \<noteq> uuid_nil then Some accountID else None),
              rbs_Platform = platform, rbs_Status = BrowserSessionStatusPending, rbs_WorkerSessionRef = '''',
              rbs_RuntimeReference = ''{}'', rbs_StreamEndpointRef = '''', rbs_ConnectTokenHash = tokenHash,
              rbs_ConnectTokenExpiresAt = tokenExpiresAt, rbs_ErrorMessage = '''', rbs_CreatedAt = now,
              rbs_ExpiresAt = expiresAt, rbs_CompletedAt = None\<rparr> in
        bindE (if \<not> rc_coordination cl then create_session_with_database_active_guard s session now
          else bindE (tryE (create_session session)) (\<lambda>r. case r of
            Inr session \<Rightarrow> ret session
          | Inl e \<Rightarrow> bindE drop (\<lambda>_.
              throw (if is_active_session_uniqueness_error lib e then ErrActiveSessionExists else e)))) (\<lambda>session.
        bindE (tryE (save_redis_live_session lib cl (pending_live_state sid uid tenantID platform now expiresAt))) (\<lambda>r.
          case r of
            Inl e \<Rightarrow> bindE drop (\<lambda>_.
              bindE (ignoreE (set_session_status session BrowserSessionStatusFailed)) (\<lambda>_. throw e))
          | Inr _ \<Rightarrow> start_worker s adapter uid tenantID accountID platform sid token tokenHash session now
              expiresAt)))))"

definition start_session_for_workspace ::
  "browser_service \<Rightarrow> uuid \<Rightarrow> string \<Rightarrow> uuid \<Rightarrow> uuid \<Rightarrow> string \<Rightarrow> bool \<Rightarrow> start_response browser" where
  "start_session_for_workspace s uid tenantID wid accountID platform authorizeTarget =
     (case bs_adapters s platform of
        None \<Rightarrow> throw ErrPlatformNotSupported
      | Some adapter \<Rightarrow>
        let tenantID = normalize_tenant_id tenantID in
        bindE (on_core (if authorizeTarget then authorize_session_target uid wid accountID platform
          else if wid = uuid_nil then asks (\<lambda>w. personal_workspace_id w uid) else ret wid)) (\<lambda>wid.
        bindE time_now (\<lambda>now.
        bindE (on_core uuid_new) (\<lambda>sid.
        let expiresAt = now + browser_session_ttl in
        bindE (if rc_coordination (bs_clients s)
          then claim_active_session s uid tenantID platform sid expiresAt now else ret ()) (\<lambda>_.
        open_session s adapter uid tenantID wid accountID platform sid now expiresAt)))))"

definition start_session :: "browser_service \<Rightarrow> uuid \<Rightarrow> string \<Rightarrow> start_response browser" where
  "start_session s uid platform = start_session_for_workspace s uid '''' uuid_nil uuid_nil platform True"

definition register_session :: "browser_service \<Rightarrow> remote_browser_session \<Rightarrow> string \<Rightarrow> unit browser" where
  "register_session s session tokenHash =
     (let lib = bs_lib s; cl = bs_clients s in
      bindE (create_session session) (\<lambda>session.
      if rc_continuity cl \<or> rc_coordination cl
      then bindE (save_redis_live_session lib cl ((pending_live_state (rbs_ID session) (rbs_UserID session) ''''
            (rbs_Platform session) (rbs_CreatedAt session) (rbs_ExpiresAt session))
            \<lparr>ls_Status := rbs_Status session, ls_WorkerSessionRef := rbs_WorkerSessionRef session\<rparr>)) (\<lambda>_.
        if rc_coordination cl
        then bindE (rotate_redis_stream_token lib cl (rbs_ID session) (rbs_UserID session)
          (rbs_Platform session) tokenHash (rbs_ExpiresAt session)) (\<lambda>_. ret ())
        else ret ())
      else ret ()))"

section \<open>Completing and cancelling\<close>

fun join_text :: "string \<Rightarrow> string list \<Rightarrow> string" where
  "join_text sep [] = []"
| "join_text sep [x] = x"
| "join_text sep (x # xs) = x @ sep @ join_text sep xs"

definition invalidate_account_cache :: "browser_service \<Rightarrow> uuid \<Rightarrow> string \<Rightarrow> unit browser" where
  "invalidate_account_cache s wid platform w =
     (if \<not> bs_invalidator s \<or> wid = uuid_nil then (Inr (), w)
      else (Inr (), log_call (CacheInvalidated wid platform) w))"

text \<open>The row and the live state as a step of the completion leaves them; errors are ignored.\<close>

definition note_session ::
  "browser_service \<Rightarrow> remote_browser_session \<Rightarrow> string \<Rightarrow> string \<Rightarrow>
     (remote_browser_session \<Rightarrow> remote_browser_session) \<Rightarrow> unit browser" where
  "note_session s session status message f =
     bindE (ignoreE (update_session session f)) (\<lambda>_.
     ignoreE (save_redis_live_session (bs_lib s) (bs_clients s)
       ((pending_live_state (rbs_ID session) (rbs_UserID session) '''' (rbs_Platform session)
           (rbs_CreatedAt session) (rbs_ExpiresAt session))
         \<lparr>ls_Status := status, ls_WorkerSessionRef := rbs_WorkerSessionRef session, ls_Message := message\<rparr>)))"

definition back_to_ready :: "browser_service \<Rightarrow> remote_browser_session \<Rightarrow> string \<Rightarrow> err \<Rightarrow> 'a browser" where
  "back_to_ready s session message e =
     bindE (note_session s session BrowserSessionStatusReady message
       (\<lambda>x. x\<lparr>rbs_Status := BrowserSessionStatusReady\<rparr>)) (\<lambda>_. throw e)"

record complete_response =
  co_SessionID :: uuid
  co_Platform :: string
  co_Status :: string
  co_Username :: string
  co_AvatarURL :: string
  co_Message :: string

definition save_captured ::
  "browser_service \<Rightarrow> uuid \<Rightarrow> uuid \<Rightarrow> remote_browser_session \<Rightarrow> capture_response \<Rightarrow> complete_response browser" where
  "save_captured s uid sid session capture =
     bindE (on_core (asks (\<lambda>w. personal_workspace_id w uid))) (\<lambda>personal.
     let profile = cr_Account capture;
         wid = (case rbs_WorkspaceID session of Some wid \<Rightarrow> wid | None \<Rightarrow> personal);
         aid = (case rbs_PlatformAccountID session of Some aid \<Rightarrow> aid | None \<Rightarrow> uuid_nil) in
     bindE (tryE (on_core (authorize_session_target uid wid aid (rbs_Platform session)))) (\<lambda>r. case r of
       Inl e \<Rightarrow> back_to_ready s session (err_text e) e
     | Inr wid \<Rightarrow>
       bindE (tryE (on_core (cs_save (bs_cookies s) uid wid aid (rbs_Platform session)
           (cr_Cookies capture) profile))) (\<lambda>r. case r of
         Inl e \<Rightarrow> back_to_ready s session (err_text e) (ErrWrap ''failed to save cookies'' e)
       | Inr _ \<Rightarrow>
         bindE (invalidate_account_cache s wid (rbs_Platform session)) (\<lambda>_.
         bindE time_now (\<lambda>now.
         bindE (ignoreE (update_session session (\<lambda>x. x\<lparr>rbs_Status := BrowserSessionStatusConnected,
             rbs_CompletedAt := Some now\<rparr>))) (\<lambda>_.
         bindE (ignoreE (worker_stop_session (rbs_WorkerSessionRef session))) (\<lambda>_.
         bindE (ignoreE (cleanup_redis_session (bs_lib s) (bs_clients s) (rbs_UserID session)
             (rbs_Platform session) (rbs_ID session) (rbs_WorkerSessionRef session))) (\<lambda>_.
         ret \<lparr>co_SessionID = sid, co_Platform = rbs_Platform session,
              co_Status = BrowserSessionStatusConnected, co_Username = ap_Username profile,
              co_AvatarURL = ap_AvatarURL profile, co_Message = ''Account connected successfully''\<rparr>))))))))"

definition complete_session :: "browser_service \<Rightarrow> uuid \<Rightarrow> uuid \<Rightarrow> complete_response browser" where
  "complete_session s uid sid =
     bindE (tryE (on_core (first_row (find_user_session sid uid)))) (\<lambda>r. case r of
       Inl _ \<Rightarrow> throw ErrSessionNotFound
     | Inr session \<Rightarrow>
       if rbs_Status session = BrowserSessionStatusConnected
       then throw (ErrSuffix ErrSessionNotReady ''session already completed'')
       else if \<not> is_streamable_browser_session_status (rbs_Status session) then throw ErrSessionNotReady
       else bindE (note_session s session BrowserSessionStatusCapturing ''''
           (\<lambda>x. x\<lparr>rbs_Status := BrowserSessionStatusCapturing\<rparr>)) (\<lambda>_.
         bindE (tryE (worker_capture_session (rbs_WorkerSessionRef session))) (\<lambda>r. case r of
           Inl e \<Rightarrow> bindE (note_session s session BrowserSessionStatusReady (err_text e)
               (\<lambda>x. x\<lparr>rbs_Status := BrowserSessionStatusReady, rbs_ErrorMessage := err_text e\<rparr>)) (\<lambda>_.
             throw (ErrWrap ''capture failed'' e))
         | Inr capture \<Rightarrow>
           if cr_Status capture \<noteq> ''login_detected'' then
             let message = (if cr_MissingCookies capture \<noteq> []
                   then ''missing required cookies: '' @ join_text '', '' (cr_MissingCookies capture)
                   else ''login not detected yet'') in
             back_to_ready s session message (ErrSuffix ErrLoginNotDetected message)
           else save_captured s uid sid session capture)))"

definition cancel_session :: "browser_service \<Rightarrow> uuid \<Rightarrow> uuid \<Rightarrow> unit browser" where
  "cancel_session s uid sid =
     bindE (tryE (on_core (first_row (find_user_session sid uid)))) (\<lambda>r. case r of
       Inl _ \<Rightarrow> throw ErrSessionNotFound
     | Inr session \<Rightarrow>
       bindE (if rbs_WorkerSessionRef session \<noteq> []
         then ignoreE (worker_stop_session (rbs_WorkerSessionRef session)) else ret ()) (\<lambda>_.
       bindE (ignoreE (cleanup_redis_session (bs_lib s) (bs_clients s) (rbs_UserID session)
           (rbs_Platform session) (rbs_ID session) (rbs_WorkerSessionRef session))) (\<lambda>_.
       update_session session (\<lambda>x. x\<lparr>rbs_Status := BrowserSessionStatusExpired, rbs_ConnectTokenHash := ''''\<rparr>))))"

section \<open>Reading a session and its stream\<close>

record session_response =
  se_SessionID :: uuid
  se_Platform :: string
  se_Status :: string
  se_StreamURL :: string
  se_StreamTokenExpiresAt :: time
  se_ExpiresAt :: time
  se_Message :: string

text \<open>\<open>gorm\<close> writes the updated columns into the session that was handed to it as well.\<close>

definition lost_worker ::
  "browser_service \<Rightarrow> remote_browser_session \<Rightarrow> live_state \<Rightarrow> bool \<Rightarrow> remote_browser_session browser" where
  "lost_worker s session st alive =
     bindE time_now (\<lambda>now.
       if \<not> alive \<or> ls_ExpiresAt st < now then
         let (status, message) =
               (if ls_ExpiresAt st < now then (BrowserSessionStatusExpired, ''session expired'')
                else (BrowserSessionStatusFailed,
                  if \<not> alive then ''worker heartbeat missing'' else ''worker session is unavailable''));
             f = (\<lambda>x. x\<lparr>rbs_Status := status, rbs_ErrorMessage := message, rbs_ConnectTokenHash := ''''\<rparr>) in
         bindE (ignoreE (update_session session f)) (\<lambda>_.
         bindE (ignoreE (cleanup_redis_session (bs_lib s) (bs_clients s) (rbs_UserID session)
             (rbs_Platform session) (rbs_ID session) (ls_WorkerSessionRef st))) (\<lambda>_.
         ret (f session)))
       else ret session)"

definition seen_worker ::
  "browser_service \<Rightarrow> remote_browser_session \<Rightarrow> live_state \<Rightarrow> worker_state \<Rightarrow> remote_browser_session browser" where
  "seen_worker s session st wk =
     (let nextStatus = (if wk_LoginDetected wk then BrowserSessionStatusLoginDetected else ls_Status st);
          st = st\<lparr>ls_Status := nextStatus, ls_CurrentURL := wk_CurrentURL wk,
                 ls_LoginDetected := wk_LoginDetected wk, ls_MissingCookies := wk_MissingCookies wk,
                 ls_Message := wk_Message wk\<rparr> in
      bindE (ignoreE (save_redis_live_session (bs_lib s) (bs_clients s) st)) (\<lambda>_.
      bindE (if nextStatus \<noteq> rbs_Status session then ignoreE (set_session_status session nextStatus)
        else ret ()) (\<lambda>_.
      ret (session\<lparr>rbs_Status := nextStatus, rbs_ErrorMessage := wk_Message wk\<rparr>))))"

definition refresh_session :: "browser_service \<Rightarrow> remote_browser_session \<Rightarrow> remote_browser_session browser" where
  "refresh_session s session =
     bindE (get_redis_live_session (bs_lib s) (bs_clients s) (rbs_ID session)) (\<lambda>st. case st of
       None \<Rightarrow> ret session
     | Some st \<Rightarrow>
       let session = session\<lparr>rbs_Status := ls_Status st, rbs_WorkerSessionRef := ls_WorkerSessionRef st,
             rbs_ErrorMessage := ls_Message st, rbs_ExpiresAt := ls_ExpiresAt st\<rparr> in
       if ls_WorkerSessionRef st \<noteq> [] \<and> \<not> is_terminal_browser_session_status (ls_Status st)
       then bindE (redis_worker_heartbeat_alive (bs_clients s) (ls_WorkerSessionRef st)) (\<lambda>alive.
         bindE (tryE (worker_get_session (ls_WorkerSessionRef st))) (\<lambda>r. case r of
           Inl _ \<Rightarrow> lost_worker s session st alive
         | Inr wk \<Rightarrow> seen_worker s session st wk))
       else ret session)"

definition renew_stream_url ::
  "browser_service \<Rightarrow> uuid \<Rightarrow> remote_browser_session \<Rightarrow> session_response \<Rightarrow> session_response browser" where
  "renew_stream_url s uid session resp =
     bindE (generate_stream_token (bs_lib s)) (\<lambda>(token, tokenHash).
     bindE (rotate_redis_stream_token (bs_lib s) (bs_clients s) (rbs_ID session) uid (rbs_Platform session)
         tokenHash (rbs_ExpiresAt session)) (\<lambda>tokenExpiresAt.
     bindE (if \<not> rc_coordination (bs_clients s)
       then update_session session (\<lambda>x. x\<lparr>rbs_ConnectTokenHash := tokenHash,
           rbs_ConnectTokenExpiresAt := tokenExpiresAt\<rparr>) else ret ()) (\<lambda>_.
     ret (resp\<lparr>se_StreamURL := browser_session_stream_url (rbs_ID session) token,
               se_StreamTokenExpiresAt := tokenExpiresAt\<rparr>))))"

definition get_session :: "browser_service \<Rightarrow> uuid \<Rightarrow> uuid \<Rightarrow> session_response browser" where
  "get_session s uid sid =
     bindE (tryE (on_core (first_row (find_user_session sid uid)))) (\<lambda>r. case r of
       Inl e \<Rightarrow> throw (if err_is e ErrRecordNotFound then ErrSessionNotFound else e)
     | Inr session \<Rightarrow>
       bindE (refresh_session s session) (\<lambda>session.
       bindE time_now (\<lambda>now.
       bindE (if rbs_ExpiresAt session < now \<and> \<not> is_terminal_browser_session_status (rbs_Status session)
         then bindE (cancel_session s uid sid) (\<lambda>_.
           if rc_continuity (bs_clients s) \<or> rc_coordination (bs_clients s) then throw ErrSessionGone
           else ret (session\<lparr>rbs_Status := BrowserSessionStatusExpired\<rparr>))
         else ret session) (\<lambda>session.
       let resp = \<lparr>se_SessionID = sid, se_Platform = rbs_Platform session, se_Status = rbs_Status session,
             se_StreamURL = '''', se_StreamTokenExpiresAt = 0, se_ExpiresAt = rbs_ExpiresAt session,
             se_Message = rbs_ErrorMessage session\<rparr> in
       bindE (has_current_stream_token (bs_lib s) (bs_clients s) session) (\<lambda>current.
         if is_streamable_browser_session_status (rbs_Status session) \<and>
            rbs_StreamEndpointRef session \<noteq> [] \<and> \<not> current
         then renew_stream_url s uid session resp else ret resp)))))"

definition get_stream_endpoint ::
  "browser_service \<Rightarrow> uuid \<Rightarrow> uuid \<Rightarrow> string \<Rightarrow> bool \<Rightarrow> string browser" where
  "get_stream_endpoint s uid sid token consume =
     (if token = [] then throw ErrInvalidStreamToken
      else if uid = uuid_nil then throw ErrSessionForbidden
      else bindE (tryE (on_core (first_row (find_session sid)))) (\<lambda>r. case r of
        Inl e \<Rightarrow> throw (if err_is e ErrRecordNotFound then ErrSessionNotFound else e)
      | Inr session \<Rightarrow>
        if rbs_UserID session \<noteq> uid then throw ErrSessionForbidden
        else bindE time_now (\<lambda>now.
        if rbs_ExpiresAt session < now \<or> \<not> is_streamable_browser_session_status (rbs_Status session)
        then throw ErrStreamTokenGone
        else let tokenHash = hash_stream_token (bs_lib s) token in
          if rc_coordination (bs_clients s)
          then bindE (read_redis_stream_token (bs_lib s) (bs_clients s) sid tokenHash consume) (\<lambda>meta. case meta of
              None \<Rightarrow> throw ErrStreamTokenGone
            | Some m \<Rightarrow>
                if tm_SessionID m \<noteq> sid \<or> tm_Platform m \<noteq> rbs_Platform session \<or> tm_Purpose m \<noteq> ''stream''
                then throw ErrInvalidStreamToken
                else if tm_UserID m \<noteq> uid then throw ErrSessionForbidden
                else bindE time_now (\<lambda>t.
                  if tm_ExpiresAt m < t then throw ErrStreamTokenGone else ret (rbs_StreamEndpointRef session)))
          else bindE (stream_token_valid_until session) (\<lambda>until.
            if \<not> now < until then throw ErrStreamTokenGone
            else if tokenHash \<noteq> rbs_ConnectTokenHash session then throw ErrInvalidStreamToken
            else bindE (if consume then update_session session (\<lambda>x. x\<lparr>rbs_ConnectTokenHash := ''''\<rparr>)
                else ret ()) (\<lambda>_.
              if rbs_StreamEndpointRef session = [] then throw ErrSessionNotFound
              else ret (rbs_StreamEndpointRef session))))))"

section \<open>The sweep over expired sessions\<close>

definition cleanup_expired_session :: "browser_service \<Rightarrow> uuid \<Rightarrow> unit browser" where
  "cleanup_expired_session s sid =
     bindE (tryE (on_core (first_row (find_session sid)))) (\<lambda>r. case r of
       Inl e \<Rightarrow> if err_is e ErrRecordNotFound then remove_redis_cleanup_member (bs_clients s) sid else throw e
     | Inr session \<Rightarrow>
       let clean = cleanup_redis_session (bs_lib s) (bs_clients s) (rbs_UserID session) (rbs_Platform session)
             (rbs_ID session) (rbs_WorkerSessionRef session) in
       if is_terminal_browser_session_status (rbs_Status session) then clean
       else bindE (if rbs_WorkerSessionRef session \<noteq> []
           then ignoreE (worker_stop_session (rbs_WorkerSessionRef session)) else ret ()) (\<lambda>_.
         bindE (update_session session (\<lambda>x. x\<lparr>rbs_Status := BrowserSessionStatusExpired,
             rbs_ErrorMessage := ''session expired'', rbs_ConnectTokenHash := ''''\<rparr>)) (\<lambda>_. clean)))"

fun cleanup_members :: "browser_service \<Rightarrow> string list \<Rightarrow> unit browser" where
  "cleanup_members s [] = ret ()"
| "cleanup_members s (raw # rest) = (case bl_parse_uuid (bs_lib s) raw of
      None \<Rightarrow> bindE (ignoreE (redis_do (cmd_zrem cleanup_key raw))) (\<lambda>_. cleanup_members s rest)
    | Some sid \<Rightarrow> bindE (cleanup_expired_session s sid) (\<lambda>_. cleanup_members s rest))"

definition cleanup_expired_sessions :: "browser_service \<Rightarrow> time \<Rightarrow> unit browser" where
  "cleanup_expired_sessions s now =
     (if \<not> rc_continuity (bs_clients s) then ret ()
      else bindE (redis_do (cmd_zrangebyscore cleanup_key (now div millisecond))) (cleanup_members s))"

section \<open>A sample service\<close>

text \<open>
  For concrete runs: a library whose hash is the identity and whose JSON of the live state and the
  token metadata is a fixed text, a worker that is always there, no failures.
\<close>

definition sample_reference :: runtime_reference where
  "sample_reference = \<lparr>rr_CdpEndpoint = \<lparr>re_Host = ''cdp'', re_Port = 9222\<rparr>, rr_CleanupLabels = None,
     rr_Driver = ''docker'', rr_RuntimeID = ''r1'', rr_StreamEndpoint = \<lparr>re_Host = ''vnc'', re_Port = 5900\<rparr>\<rparr>"

definition sample_live :: live_state where
  "sample_live = (pending_live_state 5 4 ''default'' ''zhihu'' 1 (1 + browser_session_ttl))
     \<lparr>ls_Status := BrowserSessionStatusReady, ls_WorkerSessionRef := ''w1''\<rparr>"

definition sample_meta :: token_meta where
  "sample_meta = \<lparr>tm_SessionID = 5, tm_UserID = 4, tm_Platform = ''zhihu'', tm_Purpose = ''stream'',
     tm_IssuedAt = 1, tm_ExpiresAt = 1 + stream_token_max_ttl\<rparr>"

definition sample_browser_lib :: browser_lib where
  "sample_browser_lib = \<lparr>bl_ulow = id, bl_parse_uuid = (\<lambda>t. if t = uuid_text 5 then Some 5 else None),
     bl_enc_live = (\<lambda>_. ''live''), bl_dec_live = (\<lambda>_. Inr sample_live), bl_enc_meta = (\<lambda>_. ''meta''),
     bl_dec_meta = (\<lambda>_. Inr sample_meta), bl_enc_reference = (\<lambda>_. ''{}''), bl_sha256 = id,
     bl_scan = (\<lambda>_ _ _. [])\<rparr>"

definition sample_browser_service :: "bool \<Rightarrow> browser_service" where
  "sample_browser_service withRedis = \<lparr>bs_lib = sample_browser_lib,
     bs_clients = \<lparr>rc_coordination = withRedis, rc_continuity = withRedis, rc_quota = \<lparr>qc_User = 2, qc_Tenant = 10\<rparr>\<rparr>,
     bs_adapters = (\<lambda>_. Some \<lparr>ba_LoginURL = ''u'', ba_AllowedDomains = [], ba_RequiredCookies = []\<rparr>),
     bs_cookies = \<lparr>cs_load = (\<lambda>_ _ _. ret []), cs_save = (\<lambda>_ _ _ _ _ _. ret ())\<rparr>, bs_invalidator = True\<rparr>"

definition sample_browser_session :: remote_browser_session where
  "sample_browser_session = \<lparr>rbs_ID = 5, rbs_UserID = 4, rbs_WorkspaceID = None, rbs_PlatformAccountID = None,
     rbs_Platform = ''zhihu'', rbs_Status = BrowserSessionStatusReady, rbs_WorkerSessionRef = ''w1'',
     rbs_RuntimeReference = ''{}'', rbs_StreamEndpointRef = ''ep'', rbs_ConnectTokenHash = '''',
     rbs_ConnectTokenExpiresAt = 1 + stream_token_max_ttl, rbs_ErrorMessage = '''', rbs_CreatedAt = 1,
     rbs_ExpiresAt = 1 + browser_session_ttl, rbs_CompletedAt = None\<rparr>"

definition sample_browser_world :: "keyspace \<Rightarrow> remote_browser_session list \<Rightarrow> browser_world" where
  "sample_browser_world ks rows = \<lparr>rw_keys = ks, rw_calls = 0, rw_fault = (\<lambda>_. None), rw_now = (\<lambda>n. int n + 2),
     bw_core = start_world (empty_db\<lparr>browser_sessions := rows\<rparr>),
     bw_start = (\<lambda>_. Inr \<lparr>sr_WorkerSessionRef = ''w2'', sr_StreamEndpointRef = ''ep2'',
       sr_RuntimeReference = sample_reference\<rparr>),
     bw_state = (\<lambda>_. Inr \<lparr>wk_CurrentURL = '''', wk_LoginDetected = False, wk_MissingCookies = [], wk_Message = ''''\<rparr>),
     bw_capture = (\<lambda>_. Inr \<lparr>cr_Status = ''login_detected'', cr_Cookies = [],
       cr_Account = \<lparr>ap_Username = ''ann'', ap_AvatarURL = '''', ap_PlatformUserID = ''p''\<rparr>, cr_MissingCookies = []\<rparr>),
     bw_stop = (\<lambda>_. None), bw_rand = (\<lambda>_. Inr ''fresh''), bw_log = []\<rparr>"

lemmas sample_browser_defs = sample_reference_def sample_live_def sample_meta_def sample_browser_lib_def
  sample_browser_service_def sample_browser_session_def sample_browser_world_def

end
