(* ===== verification/Browser_Token.thy ===== *)
theory Browser_Token
  imports Browser_Session
begin

text \<open>
  Stream tokens are single use: once a consuming read has given the endpoint, no later read of the
  same token gives one, whatever the service does in between and whatever fails. With Redis the
  script deletes the current hash of the session, and only a new token writes it again; without
  Redis the row of the session loses its hash.
\<close>

named_theorems token_keeps \<open>computations that keep a token dead\<close>

section \<open>The current hash of a session\<close>

definition other_hash :: "string \<Rightarrow> string \<Rightarrow> keyspace \<Rightarrow> bool" where
  "other_hash ck H ks \<longleftrightarrow> (\<forall>e. ks ck = Some e \<longrightarrow> ent_value e \<noteq> RStr H)"

lemma other_hash_upd: "other_hash ck H ks \<Longrightarrow> k = ck \<longrightarrow> ent_value e \<noteq> RStr H \<Longrightarrow> other_hash ck H (ks(k \<mapsto> e))"
  by (simp add: other_hash_def)

lemma other_hash_del: "other_hash ck H ks \<Longrightarrow> other_hash ck H (ks(k := None))"
  by (simp add: other_hash_def)

lemma live_entry_Some: "live_entry now ks k = Some e \<Longrightarrow> ks k = Some e"
  by (simp add: live_entry_def split: option.splits if_splits)

lemma keeps_other_hash [token_keeps]:
  "keeps (other_hash ck H) (cmd_get k now)"
  "keeps (other_hash ck H) (script_get k now)"
  "keeps (other_hash ck H) (cmd_del k now)"
  "keeps (other_hash ck H) (cmd_exists k now)"
  "keeps (other_hash ck H) (cmd_scan lib p now)"
  "keeps (other_hash ck H) (cmd_zrangebyscore k x now)"
  "keeps (other_hash ck H) (cmd_zcard k now)"
  "k \<noteq> ck \<or> v \<noteq> H \<Longrightarrow> keeps (other_hash ck H) (cmd_set k v ms now)"
  "k \<noteq> ck \<or> v \<noteq> H \<Longrightarrow> keeps (other_hash ck H) (cmd_setnx k v ms now)"
  by (auto simp: keeps_def cmd_get_def script_get_def cmd_del_def cmd_exists_def cmd_scan_def
      cmd_zrangebyscore_def cmd_zcard_def cmd_set_def cmd_setnx_def other_hash_upd other_hash_del
      split: option.splits redis_value.splits prod.splits sum.splits)

lemma keeps_other_hash_z [token_keeps]:
  "keeps (other_hash ck H) (cmd_zedit k f now)"
  "keeps (other_hash ck H) (cmd_zadd k x m now)"
  "keeps (other_hash ck H) (cmd_pexpire k ms now)"
  by (auto simp: keeps_def cmd_zedit_def cmd_zadd_def cmd_pexpire_def store_zset_def other_hash_def
      dest!: live_entry_Some split: option.splits redis_value.splits)

lemmas keeps_scripts [token_keeps] = keeps_then_cmd keeps_reply

lemma keeps_redis_branches [token_keeps]:
  "(b \<Longrightarrow> keeps I (m now)) \<Longrightarrow> (\<not> b \<Longrightarrow> keeps I (n now)) \<Longrightarrow> keeps I ((if b then m else n) now)"
  "(r = None \<Longrightarrow> keeps I (m now)) \<Longrightarrow> (\<And>x. keeps I (f x now)) \<Longrightarrow>
     keeps I ((case r of None \<Rightarrow> m | Some x \<Rightarrow> f x) now)"
  by (auto split: option.split)

lemma keeps_other_hash_scripts [token_keeps]:
  "keeps (other_hash ck H) (cmd_zrem k m now)"
  "keeps (other_hash ck H) (cmd_zremrangebyscore k x now)"
  "keeps (other_hash ck H) (release_active_script k v now)"
  "keeps (other_hash ck H) (consume_token_script k k' v now)"
  "keeps (other_hash ck H) (acquire_scope_script k a b c m l now)"
  unfolding cmd_zrem_def cmd_zremrangebyscore_def release_active_script_def consume_token_script_def
    acquire_scope_script_def by (intro token_keeps)+

section \<open>The row of a session\<close>

definition other_row :: "uuid \<Rightarrow> string \<Rightarrow> remote_browser_session list \<Rightarrow> bool" where
  "other_row sid H rows \<longleftrightarrow> (\<forall>x. find (\<lambda>s. rbs_ID s = sid) rows = Some x \<longrightarrow> rbs_ConnectTokenHash x \<noteq> H)"

definition keeps_other :: "string \<Rightarrow> (remote_browser_session \<Rightarrow> remote_browser_session) \<Rightarrow> bool" where
  "keeps_other H f \<longleftrightarrow> (\<forall>x. rbs_ID (f x) = rbs_ID x \<and>
     (rbs_ConnectTokenHash x \<noteq> H \<longrightarrow> rbs_ConnectTokenHash (f x) \<noteq> H))"

lemma find_map_key: "(\<And>x. k (g x) = k x) \<Longrightarrow> find (\<lambda>x. k x = a) (map g xs) = map_option g (find (\<lambda>x. k x = a) xs)"
  by (induction xs) auto

lemma other_row_update: "keeps_other H f \<Longrightarrow> other_row sid H rows \<Longrightarrow> other_row sid H (update_rows p f rows)"
  by (auto simp: other_row_def update_rows_def keeps_other_def find_map_key [where k = rbs_ID])

lemma find_append_None: "find p (xs @ ys) = (case find p xs of Some x \<Rightarrow> Some x | None \<Rightarrow> find p ys)"
  by (induction xs) auto

lemma other_row_append: "rbs_ConnectTokenHash x \<noteq> H \<Longrightarrow> other_row sid H rows \<Longrightarrow> other_row sid H (rows @ [x])"
  by (auto simp: other_row_def find_append_None split: option.splits)

section \<open>A dead token\<close>

definition dead_token :: "bool \<Rightarrow> browser_lib \<Rightarrow> uuid \<Rightarrow> string \<Rightarrow> browser_world \<Rightarrow> bool" where
  "dead_token coordination lib sid H w \<longleftrightarrow>
     (coordination \<longrightarrow> other_hash (stream_current_key lib sid) H (rw_keys w)) \<and>
     (\<not> coordination \<longrightarrow> other_row sid H (browser_sessions (db (bw_core w)))) \<and>
     (\<forall>n b. bw_rand w n = Inr b \<longrightarrow> hash_stream_token lib (b64_encode b) \<noteq> H)"

lemma bw_tick_sels [simp]:
  "bw_core (rw_tick w) = bw_core w" "bw_rand (rw_tick w) = bw_rand w" "bw_log (rw_tick w) = bw_log w"
  by (simp_all add: rw_tick_def)

lemma log_call_sels [simp]:
  "rw_keys (log_call c w) = rw_keys w" "bw_core (log_call c w) = bw_core w" "bw_rand (log_call c w) = bw_rand w"
  by (simp_all add: log_call_def)

lemma redis_do_bw [simp]: "bw_core (snd (redis_do cmd w)) = bw_core w" "bw_rand (snd (redis_do cmd w)) = bw_rand w"
  by (simp_all add: redis_do_def rw_tick_def split: option.split redis_fault.split prod.split)

lemma dead_redis_do [token_keeps]:
  assumes "\<And>now. keeps (other_hash (stream_current_key lib sid) H) (cmd now)"
  shows "keeps (dead_token co lib sid H) (redis_do cmd)"
proof -
  have "dead_token co lib sid H (snd (redis_do cmd w))" if w: "dead_token co lib sid H w" for w
    using redis_do_keys [of cmd w] assms w by (auto simp: keeps_def dead_token_def)
  then show ?thesis by (simp add: keeps_def)
qed

lemma dead_calls [token_keeps]:
  "keeps (dead_token co lib sid H) time_now"
  "keeps (dead_token co lib sid H) (worker_create_session req)"
  "keeps (dead_token co lib sid H) (worker_get_session ref)"
  "keeps (dead_token co lib sid H) (worker_capture_session ref)"
  "keeps (dead_token co lib sid H) (worker_stop_session ref)"
  "keeps (dead_token co lib sid H) (invalidate_account_cache s wid platform)"
  by (simp_all add: keeps_def time_now_def worker_create_session_def worker_get_session_def
      worker_capture_session_def worker_stop_session_def invalidate_account_cache_def dead_token_def)

lemma dead_on_core:
  assumes "keeps (on_db (\<lambda>d. other_row sid H (browser_sessions d))) m"
  shows "keeps (dead_token co lib sid H) (on_core m)"
  using assms by (auto simp: keeps_def on_core_def dead_token_def on_db_def split: prod.splits)

lemma dead_core_transaction [token_keeps]:
  assumes "keeps (dead_token co lib sid H) m" shows "keeps (dead_token co lib sid H) (core_transaction m)"
proof -
  have "dead_token co lib sid H (snd (core_transaction m w))" if w: "dead_token co lib sid H w" for w
  proof -
    have "dead_token co lib sid H (snd (m w))" using assms w by (simp add: keeps_def)
    with w show ?thesis
      by (auto simp: core_transaction_def dead_token_def split: prod.splits sum.splits option.splits)
  qed
  then show ?thesis by (simp add: keeps_def)
qed

section \<open>Every operation keeps a token dead\<close>

lemma key_apart [simp]:
  "active_key lib u p \<noteq> stream_current_key lib sid" "session_key lib i \<noteq> stream_current_key lib sid"
  "stream_token_key lib i h \<noteq> stream_current_key lib sid"
  by (simp_all add: browser_key_defs)

lemma dead_redis_ops [token_keeps]:
  "keeps (dead_token co lib sid H) (redis_get_opt k)"
  "(\<And>now. keeps (other_hash (stream_current_key lib sid) H) (c now)) \<Longrightarrow>
     keeps (dead_token co lib sid H) (eval_result c)"
  "keeps (dead_token co lib sid H) (live_ttl t)"
  "keeps (dead_token co lib sid H) (stream_token_expires_at t i)"
  "keeps (dead_token co lib sid H) (stream_token_valid_until session)"
  unfolding redis_get_opt_def eval_result_def live_ttl_def stream_token_expires_at_def
    stream_token_valid_until_def Let_def
  by (intro keeps_intros token_keeps; assumption)+

lemma dead_lock_ops [token_keeps]:
  "keeps (dead_token co lib sid H) (acquire_redis_active_session lib cl u p i t)"
  "keeps (dead_token co lib sid H) (release_redis_active_session_value lib cl u p v)"
  "keeps (dead_token co lib sid H) (release_redis_active_session lib cl u p i)"
  unfolding acquire_redis_active_session_def release_redis_active_session_value_def
    release_redis_active_session_def
  by (intro keeps_intros token_keeps; simp)+

lemma dead_release_quota [token_keeps]: "keeps (dead_token co lib sid H) (release_quota_scopes scopes i)"
  unfolding release_quota_scopes_def
  by (intro keeps_intros token_keeps keeps_collect_errors; auto intro!: keeps_intros token_keeps)

lemma dead_quota_scopes [token_keeps]:
  "keeps (dead_token co lib sid H) (acquire_quota_scopes i t ttl scopes acquired)"
proof (induction scopes arbitrary: acquired)
  case (Cons scope scopes)
  then show ?case
    unfolding acquire_quota_scopes.simps give_back_quota_def acquire_quota_scope_def
    by (intro keeps_intros token_keeps)
qed (simp add: keeps_intros)

lemma dead_quota_ops [token_keeps]:
  "keeps (dead_token co lib sid H) (acquire_redis_concurrency_quota cl u tn i t)"
  "keeps (dead_token co lib sid H) (release_redis_concurrency_quota cl u tn i)"
  unfolding acquire_redis_concurrency_quota_def release_redis_concurrency_quota_def Let_def
  by (intro keeps_intros token_keeps)+

lemma dead_live_ops [token_keeps]:
  "keeps (dead_token co lib sid H) (get_redis_live_session lib cl i)"
  "keeps (dead_token co lib sid H) (delete_redis_live_session lib cl i)"
  "keeps (dead_token co lib sid H) (redis_worker_heartbeat_alive cl ref)"
  "keeps (dead_token co lib sid H) (delete_redis_worker_heartbeat cl ref)"
  "keeps (dead_token co lib sid H) (remove_redis_cleanup_member cl i)"
  unfolding get_redis_live_session_def delete_redis_live_session_def redis_worker_heartbeat_alive_def
    delete_redis_worker_heartbeat_def remove_redis_cleanup_member_def
  by (intro keeps_intros token_keeps)+

lemma dead_save_live [token_keeps]:
  "keeps (dead_token co lib sid H) (save_redis_live_session lib cl st)"
  "keeps (dead_token co lib sid H) (redis_session_tenant_id lib cl tn i)"
  unfolding save_redis_live_session_def redis_session_tenant_id_def Let_def
  by (intro keeps_intros token_keeps; simp)+

lemma dead_rotate [token_keeps]:
  "h \<noteq> H \<Longrightarrow> keeps (dead_token co lib sid H) (rotate_redis_stream_token lib cl i u p h t)"
  unfolding rotate_redis_stream_token_def Let_def by (intro keeps_intros token_keeps; simp)

lemma dead_token_ops [token_keeps]:
  "keeps (dead_token co lib sid H) (read_redis_stream_token lib cl i h c)"
  "keeps (dead_token co lib sid H) (delete_redis_stream_token lib cl i)"
  "keeps (dead_token co lib sid H) (has_current_stream_token lib cl session)"
proof -
  show "keeps (dead_token co lib sid H) (read_redis_stream_token lib cl i h c)"
    unfolding read_redis_stream_token_def
    by (intro keeps_intros token_keeps) (auto split: redis_any.split intro: keeps_intros)
  show "keeps (dead_token co lib sid H) (delete_redis_stream_token lib cl i)"
    unfolding delete_redis_stream_token_def Let_def
    by (intro keeps_intros token_keeps keeps_collect_errors; auto intro!: keeps_intros token_keeps)
  show "keeps (dead_token co lib sid H) (has_current_stream_token lib cl session)"
    unfolding has_current_stream_token_def by (intro keeps_intros token_keeps)
qed

lemma dead_cleanup [token_keeps]:
  "keeps (dead_token co lib sid H) (cleanup_redis_session_for_tenant lib cl u tn p i ref)"
  "keeps (dead_token co lib sid H) (cleanup_redis_session lib cl u p i ref)"
proof -
  show c: "keeps (dead_token co lib sid H) (cleanup_redis_session_for_tenant lib cl u tn p i ref)" for tn
    unfolding cleanup_redis_session_for_tenant_def
    by (intro keeps_intros token_keeps keeps_collect_errors; auto intro!: keeps_intros token_keeps)
  show "keeps (dead_token co lib sid H) (cleanup_redis_session lib cl u p i ref)"
    unfolding cleanup_redis_session_def by (rule c)
qed

text \<open>Statements on the table.\<close>

lemma keeps_other_simps [simp]:
  "keeps_other H (\<lambda>x. x\<lparr>rbs_Status := a\<rparr>)"
  "keeps_other H (\<lambda>x. x\<lparr>rbs_Status := a, rbs_ErrorMessage := b\<rparr>)"
  "keeps_other H (\<lambda>x. x\<lparr>rbs_Status := a, rbs_CompletedAt := c\<rparr>)"
  "keeps_other H (\<lambda>x. x\<lparr>rbs_Status := a, rbs_WorkerSessionRef := r, rbs_RuntimeReference := g,
     rbs_StreamEndpointRef := e\<rparr>)"
  "keeps_other H (\<lambda>x. x\<lparr>rbs_ConnectTokenExpiresAt := t\<rparr>)"
  "h \<noteq> H \<Longrightarrow> keeps_other H (\<lambda>x. x\<lparr>rbs_ConnectTokenHash := h\<rparr>)"
  "h \<noteq> H \<Longrightarrow> keeps_other H (\<lambda>x. x\<lparr>rbs_ConnectTokenHash := h, rbs_ConnectTokenExpiresAt := t\<rparr>)"
  "h \<noteq> H \<Longrightarrow> keeps_other H (\<lambda>x. x\<lparr>rbs_Status := a, rbs_ConnectTokenHash := h\<rparr>)"
  "h \<noteq> H \<Longrightarrow> keeps_other H (\<lambda>x. x\<lparr>rbs_Status := a, rbs_ErrorMessage := b, rbs_ConnectTokenHash := h\<rparr>)"
  by (simp_all add: keeps_other_def)

lemma dead_set_sessions [token_keeps]:
  "keeps_other H f \<Longrightarrow> keeps (dead_token co lib sid H) (on_core (set_sessions p f))"
  unfolding set_sessions_def by (intro dead_on_core keeps_intros) (simp add: other_row_update)

lemma dead_rows [token_keeps]:
  "keeps_other H f \<Longrightarrow> keeps (dead_token co lib sid H) (update_session session f)"
  "keeps (dead_token co lib sid H) (set_session_status session status)"
  "rbs_ConnectTokenHash session \<noteq> H \<Longrightarrow> keeps (dead_token co lib sid H) (create_session session)"
  unfolding update_session_def set_session_status_def create_session_def Let_def
  by (intro keeps_intros token_keeps dead_on_core;
      simp add: other_row_append remote_browser_session_before_create_def)+

lemma dead_core_reads [token_keeps]:
  "keeps (dead_token co lib sid H) (on_core (first_row q))"
  "keeps (dead_token co lib sid H) (on_core (select q'))"
  "keeps (dead_token co lib sid H) (on_core (asks f))"
  "keeps (dead_token co lib sid H) (on_core uuid_new)"
  "keeps (dead_token co lib sid H) (on_core (exec (\<lambda>d. (0, d))))"
  by (intro dead_on_core keeps_intros; simp)+

lemma keeps_session_target: "keeps (on_db J) (authorize_session_target uid wid aid platform)"
  unfolding authorize_session_target_def authorize_session_account_def require_session_account_connect_def
    require_workspace_account_connect_def Let_def
  by (intro keeps_intros keeps_account_use)

lemmas dead_session_target [token_keeps] = dead_on_core [OF keeps_session_target]

text \<open>The cookie store works on the accounts: it leaves the sessions alone.\<close>

definition store_frame :: "cookie_store \<Rightarrow> bool" where
  "store_frame c \<longleftrightarrow> (\<forall>J.
     (\<forall>u a p. keeps (on_db (\<lambda>d. J (browser_sessions d))) (cs_load c u a p)) \<and>
     (\<forall>u w a p cs pr. keeps (on_db (\<lambda>d. J (browser_sessions d))) (cs_save c u w a p cs pr)))"

lemma dead_store [token_keeps]:
  "store_frame c \<Longrightarrow> keeps (dead_token co lib sid H) (on_core (cs_load c u a p))"
  "store_frame c \<Longrightarrow> keeps (dead_token co lib sid H) (on_core (cs_save c u w a p cs pr))"
  by (rule dead_on_core, simp add: store_frame_def)+

section \<open>The operations of the service\<close>

lemma dead_some_active [token_keeps]: "keeps (dead_token co lib sid H) (some_active now rows)"
proof (induction rows)
  case (Cons r rows)
  show ?case
    unfolding some_active.simps expire_stale_session_def by (intro keeps_intros token_keeps Cons; simp)
qed (simp only: some_active.simps keeps_ret)

lemma dead_active_ops:
  fixes s :: browser_service
  assumes "H \<noteq> []"
  shows "keeps (dead_token co (bs_lib s) sid H) (active_session_exists uid platform now)"
    and "keeps (dead_token co (bs_lib s) sid H) (expire_superseded_active_rows uid platform)"
    and "keeps (dead_token co (bs_lib s) sid H) (expire_redis_active_session_row i message)"
    and "keeps (dead_token co (bs_lib s) sid H) (cleanup_recovered_redis_active_session s uid platform i ref message)"
  unfolding cleanup_recovered_redis_active_session_def active_session_exists_def
    expire_superseded_active_rows_def expire_redis_active_session_row_def
  using assms by (intro keeps_intros token_keeps; simp)+

lemma dead_recover:
  assumes "H \<noteq> []"
  shows "keeps (dead_token co (bs_lib s) sid H) (recover_redis_active_session_lock s uid platform now)"
  unfolding recover_redis_active_session_lock_def Let_def
  by (auto split: lock_verdict.split intro!: keeps_intros token_keeps dead_active_ops assms)

lemma dead_claim:
  assumes "H \<noteq> []"
  shows "keeps (dead_token co (bs_lib s) sid H) (claim_active_session s uid tn platform i t now)"
  unfolding claim_active_session_def lock_or_recover_def Let_def
  by (intro keeps_intros token_keeps dead_active_ops dead_recover assms)

lemma dead_abort [token_keeps]:
  "keeps (dead_token co (bs_lib s) sid H) (drop_redis s uid tn platform i ref)"
  "keeps (dead_token co (bs_lib s) sid H) (abort_start s uid tn platform i ref session e)"
  unfolding abort_start_def drop_redis_def by (intro keeps_intros token_keeps)+

text \<open>A token made from a random reading has another hash.\<close>

lemma dead_generate:
  assumes "\<And>token h. h \<noteq> H \<Longrightarrow> keeps (dead_token co lib sid H) (f (Inr (token, h)))"
    and "\<And>e. keeps (dead_token co lib sid H) (f (Inl e))"
  shows "keeps (dead_token co lib sid H) (bindE (tryE (generate_stream_token lib)) f)"
proof -
  have "dead_token co lib sid H (snd (bindE (tryE (generate_stream_token lib)) f w))"
    if w: "dead_token co lib sid H w" for w
  proof -
    have t: "dead_token co lib sid H (rw_tick w)" using w by (simp add: dead_token_def)
    show ?thesis
    proof (cases "bw_rand w (rw_calls w)")
      case (Inl e)
      with keepsD [OF assms(2) t] show ?thesis by (simp add: generate_stream_token_def rand_read_def bindE_def tryE_def)
    next
      case (Inr b)
      with w have "hash_stream_token lib (b64_encode b) \<noteq> H" by (auto simp: dead_token_def)
      from keepsD [OF assms(1) [OF this] t] Inr show ?thesis
        by (simp add: generate_stream_token_def rand_read_def bindE_def tryE_def Let_def ret_def)
    qed
  qed
  then show ?thesis by (simp add: keeps_def)
qed

lemma dead_publish [token_keeps]:
  "h \<noteq> H \<Longrightarrow> keeps (dead_token co (bs_lib s) sid H)
     (publish_worker s uid tn platform i token h session now t resp)"
  unfolding publish_worker_def Let_def by (intro keeps_intros token_keeps; simp)

lemma dead_start_worker [token_keeps]:
  "h \<noteq> H \<Longrightarrow> store_frame (bs_cookies s) \<Longrightarrow> keeps (dead_token co (bs_lib s) sid H)
     (start_worker s adapter uid tn aid platform i token h session now t)"
  unfolding start_worker_def Let_def by (intro keeps_intros token_keeps)

lemma dead_guard [token_keeps]:
  assumes "H \<noteq> []" "rbs_ConnectTokenHash session \<noteq> H"
  shows "keeps (dead_token co (bs_lib s) sid H) (create_session_with_database_active_guard s session now)"
  unfolding create_session_with_database_active_guard_def
  by (intro dead_core_transaction keeps_intros token_keeps dead_active_ops assms)

lemma dead_open:
  assumes "H \<noteq> []" "store_frame (bs_cookies s)"
  shows "keeps (dead_token co (bs_lib s) sid H)
     (open_session s adapter uid tn wid aid platform i now t)"
  unfolding open_session_def Let_def
  by (rule dead_generate; simp only: sum.case prod.case;
      intro keeps_intros token_keeps assms; simp)

lemma dead_start:
  assumes "H \<noteq> []" "store_frame (bs_cookies s)"
  shows "keeps (dead_token co (bs_lib s) sid H) (start_session_for_workspace s uid tn wid aid platform auth)"
  unfolding start_session_for_workspace_def Let_def
  by (intro keeps_intros token_keeps dead_claim dead_open dead_on_core keeps_session_target assms)

lemma dead_note [token_keeps]:
  "keeps_other H f \<Longrightarrow> keeps (dead_token co (bs_lib s) sid H) (note_session s session st m f)"
  "keeps (dead_token co (bs_lib s) sid H) (back_to_ready s session m e)"
  unfolding back_to_ready_def note_session_def by (intro keeps_intros token_keeps; simp)+

lemma dead_complete:
  assumes "store_frame (bs_cookies s)"
  shows "keeps (dead_token co (bs_lib s) sid H) (complete_session s uid i)"
  unfolding complete_session_def save_captured_def Let_def
  by (intro keeps_intros token_keeps assms; simp)

lemma dead_cancel:
  assumes "H \<noteq> []" shows "keeps (dead_token co (bs_lib s) sid H) (cancel_session s uid i)"
  unfolding cancel_session_def using assms by (intro keeps_intros token_keeps; simp)

lemma dead_refresh:
  assumes "H \<noteq> []"
  shows "keeps (dead_token co (bs_lib s) sid H) (refresh_session s session)"
  unfolding refresh_session_def lost_worker_def seen_worker_def Let_def
  by (intro keeps_intros token_keeps; simp add: assms [symmetric])

lemma dead_renew:
  "keeps (dead_token co (bs_lib s) sid H) (renew_stream_url s uid session resp)"
proof -
  have "renew_stream_url s uid session resp = bindE (tryE (generate_stream_token (bs_lib s))) (\<lambda>r. case r of
      Inl e \<Rightarrow> throw e
    | Inr (token, tokenHash) \<Rightarrow>
      bindE (rotate_redis_stream_token (bs_lib s) (bs_clients s) (rbs_ID session) uid (rbs_Platform session)
          tokenHash (rbs_ExpiresAt session)) (\<lambda>tokenExpiresAt.
      bindE (if \<not> rc_coordination (bs_clients s)
        then update_session session (\<lambda>x. x\<lparr>rbs_ConnectTokenHash := tokenHash,
            rbs_ConnectTokenExpiresAt := tokenExpiresAt\<rparr>) else ret ()) (\<lambda>_.
      ret (resp\<lparr>se_StreamURL := browser_session_stream_url (rbs_ID session) token,
                se_StreamTokenExpiresAt := tokenExpiresAt\<rparr>))))"
    by (rule ext) (simp add: renew_stream_url_def bindE_def tryE_def split: prod.splits sum.splits)
  moreover have "keeps (dead_token co (bs_lib s) sid H) \<dots>"
    by (rule dead_generate; simp only: sum.case prod.case; intro keeps_intros token_keeps; simp)
  ultimately show ?thesis by simp
qed

lemma dead_get:
  assumes "H \<noteq> []" shows "keeps (dead_token co (bs_lib s) sid H) (get_session s uid i)"
  unfolding get_session_def Let_def
  by (intro keeps_intros token_keeps dead_refresh dead_renew dead_cancel assms)

lemma dead_endpoint:
  assumes "H \<noteq> []" shows "keeps (dead_token co (bs_lib s) sid H) (get_stream_endpoint s uid i token c)"
  unfolding get_stream_endpoint_def Let_def using assms by (intro keeps_intros token_keeps; simp)

lemma dead_sweep:
  assumes "H \<noteq> []" shows "keeps (dead_token co (bs_lib s) sid H) (cleanup_expired_sessions s now)"
proof -
  have "keeps (dead_token co (bs_lib s) sid H) (cleanup_expired_session s i)" for i
    unfolding cleanup_expired_session_def Let_def using assms by (intro keeps_intros token_keeps; simp)
  then have "keeps (dead_token co (bs_lib s) sid H) (cleanup_members s ids)" for ids
    by (induction ids) (auto intro!: keeps_intros token_keeps simp del: throw_app ret_app)
  then show ?thesis unfolding cleanup_expired_sessions_def by (intro keeps_intros token_keeps)
qed

section \<open>Runs of the service\<close>

datatype browser_op =
    OpStart uuid string uuid uuid string bool
  | OpGet uuid uuid
  | OpEndpoint uuid uuid string bool
  | OpComplete uuid uuid
  | OpCancel uuid uuid
  | OpSweep time

fun browser_step :: "browser_service \<Rightarrow> browser_op \<Rightarrow> browser_world \<Rightarrow> browser_world" where
  "browser_step s (OpStart uid tn wid aid platform auth) w =
     snd (start_session_for_workspace s uid tn wid aid platform auth w)"
| "browser_step s (OpGet uid sid) w = snd (get_session s uid sid w)"
| "browser_step s (OpEndpoint uid sid token consume) w = snd (get_stream_endpoint s uid sid token consume w)"
| "browser_step s (OpComplete uid sid) w = snd (complete_session s uid sid w)"
| "browser_step s (OpCancel uid sid) w = snd (cancel_session s uid sid w)"
| "browser_step s (OpSweep now) w = snd (cleanup_expired_sessions s now w)"

definition browser_run :: "browser_service \<Rightarrow> browser_op list \<Rightarrow> browser_world \<Rightarrow> browser_world" where
  "browser_run s = fold (browser_step s)"

lemma dead_run:
  assumes "H \<noteq> []" "store_frame (bs_cookies s)" "dead_token co (bs_lib s) sid H w"
  shows "dead_token co (bs_lib s) sid H (browser_run s ops w)"
proof -
  have "dead_token co (bs_lib s) sid H (browser_step s op w)" if "dead_token co (bs_lib s) sid H w" for op w
    using that assms(1,2)
    by (cases op) (simp_all add: keepsD dead_start dead_get dead_endpoint dead_complete dead_cancel dead_sweep)
  then show ?thesis using assms(3) unfolding browser_run_def by (induction ops arbitrary: w) simp_all
qed

section \<open>A dead token is refused, and a consumed one is dead\<close>

lemma on_core_Inr: "on_core m w = (Inr x, w') \<Longrightarrow> \<exists>c. m (bw_core w) = (Inr x, c) \<and> w' = w\<lparr>bw_core := c\<rparr>"
  by (auto simp: on_core_def split: prod.splits)

lemma tryE_Inr: "tryE m w = (Inr r, w') \<longleftrightarrow> m w = (r, w')"
  by (auto simp: tryE_def split: prod.splits)

lemma redis_get_opt_Some:
  "redis_get_opt k w = (Inr (Some v), w') \<Longrightarrow> \<exists>e. rw_keys w k = Some e \<and> ent_value e = RStr v"
  by (auto simp: redis_get_opt_def bindE_Inr tryE_Inr cmd_get_def dest!: redis_do_ok live_entry_Some
      split: prod.splits sum.splits option.splits redis_value.splits if_splits)

lemma script_get_Inr: "script_get k now ks = (Inr v, ks') \<Longrightarrow>
    ks' = ks \<and> (\<forall>x. v = Some x \<longrightarrow> (\<exists>e. ks k = Some e \<and> ent_value e = RStr x))"
  by (auto simp: script_get_def cmd_get_def dest!: live_entry_Some
      split: option.splits redis_value.splits if_splits)

lemma eval_consume:
  assumes "eval_result (consume_token_script tk ck H) w = (Inr v, w')"
  shows "(\<exists>e. rw_keys w ck = Some e \<and> ent_value e = RStr H) \<and> rw_keys w' ck = None"
proof -
  have "v \<noteq> AnyNil" "consume_token_script tk ck H (rw_ms w) (rw_keys w) = (Inr v, rw_keys w')"
    using assms by (auto simp: eval_result_def bindE_Inr dest!: redis_do_ok split: if_splits)
  then show ?thesis
    by (auto simp: consume_token_script_def then_cmd_def bindE_Inr cmd_del_def reply_def
        dest!: script_get_Inr split: option.splits if_splits) (metis fun_upd_same)
qed

lemma read_token_current:
  assumes "read_redis_stream_token lib cl sid H c w = (Inr (Some m), w')"
  shows "\<not> other_hash (stream_current_key lib sid) H (rw_keys w) \<and>
    (c \<longrightarrow> rw_keys w' (stream_current_key lib sid) = None)"
  using assms
  by (auto simp: read_redis_stream_token_def bindE_Inr tryE_Inr other_hash_def liftS_def ret_def throw_def
      dest!: redis_get_opt_Some eval_consume split: prod.splits if_splits sum.splits option.splits redis_any.splits)

lemma first_session:
  assumes "on_core (first_row (find_session sid)) w = (Inr x, w')"
  shows "find (\<lambda>s. rbs_ID s = sid) (browser_sessions (db (bw_core w))) = Some x"
    and "rw_keys w' = rw_keys w" "db (bw_core w') = db (bw_core w)" "bw_rand w' = bw_rand w"
  using on_core_Inr [OF assms] by (auto simp: find_session_def dest!: first_row_Inr)

lemma valid_until_frame: "stream_token_valid_until session w = (r, w') \<Longrightarrow>
    rw_keys w' = rw_keys w \<and> bw_core w' = bw_core w \<and> bw_rand w' = bw_rand w"
  by (auto simp: stream_token_valid_until_def stream_token_expires_at_def time_now_def Let_def bindE_def split: if_splits)

lemma endpoint_rand: "keeps (\<lambda>v. bw_rand v = R) (get_stream_endpoint s uid sid token c)"
proof -
  have p: "keeps (\<lambda>v. bw_rand v = R) (redis_do cmd)" "keeps (\<lambda>v. bw_rand v = R) time_now"
    "keeps (\<lambda>v. bw_rand v = R) (on_core m)" for cmd :: "'x redis_cmd" and m :: "'y mpp"
    by (auto simp: keeps_def time_now_def on_core_def split: prod.splits)
  show ?thesis
    unfolding get_stream_endpoint_def read_redis_stream_token_def redis_get_opt_def eval_result_def
      update_session_def stream_token_valid_until_def stream_token_expires_at_def Let_def
    by (intro keeps_intros p) (auto split: redis_any.split intro: keeps_intros)
qed

lemma dead_token_refused:
  assumes "dead_token (rc_coordination (bs_clients s)) (bs_lib s) sid (hash_stream_token (bs_lib s) token) w"
  shows "\<exists>e. fst (get_stream_endpoint s uid sid token c w) = Inl e"
proof (cases "get_stream_endpoint s uid sid token c w")
  case (Pair r w')
  show ?thesis
  proof (cases r)
    case (Inr ep)
    let ?H = "hash_stream_token (bs_lib s) token"
    obtain x w1 where f: "on_core (first_row (find_session sid)) w = (Inr x, w1)"
      using Pair Inr by (auto simp: get_stream_endpoint_def split: if_splits prod.splits sum.splits)
    note fs = first_session [OF f]
    show ?thesis
    proof (cases "rc_coordination (bs_clients s)")
      case True
      have "other_hash (stream_current_key (bs_lib s) sid) ?H (rw_keys (rw_tick w1))"
        using assms True fs(2) by (simp add: dead_token_def)
      then have "read_redis_stream_token (bs_lib s) (bs_clients s) sid ?H c (rw_tick w1) \<noteq> (Inr (Some m), v)" for m v
        using read_token_current by blast
      with Pair Inr f True show ?thesis
        by (auto simp: get_stream_endpoint_def bindE_Inr time_now_def Let_def split: if_splits option.splits)
    next
      case False
      have "rbs_ConnectTokenHash x \<noteq> ?H" using assms False fs(1) by (auto simp: dead_token_def other_row_def)
      with Pair Inr f False show ?thesis
        by (auto simp: get_stream_endpoint_def bindE_Inr time_now_def Let_def split: if_splits)
    qed
  qed (use Pair in simp)
qed

lemma consumed_token_dead:
  assumes "get_stream_endpoint s uid sid token True w = (Inr ep, w')"
    and rand: "\<And>n b. bw_rand w n = Inr b \<Longrightarrow>
      hash_stream_token (bs_lib s) (b64_encode b) \<noteq> hash_stream_token (bs_lib s) token"
    and H: "hash_stream_token (bs_lib s) token \<noteq> []"
  shows "dead_token (rc_coordination (bs_clients s)) (bs_lib s) sid (hash_stream_token (bs_lib s) token) w'"
proof -
  let ?H = "hash_stream_token (bs_lib s) token"
  obtain x w1 where f: "on_core (first_row (find_session sid)) w = (Inr x, w1)"
    using assms(1) by (auto simp: get_stream_endpoint_def split: if_splits prod.splits sum.splits)
  note fs = first_session [OF f]
  have r': "bw_rand w' = bw_rand w" using keepsD2 [OF endpoint_rand assms(1)] by simp
  show ?thesis
  proof (cases "rc_coordination (bs_clients s)")
    case True
    obtain m w2 where "read_redis_stream_token (bs_lib s) (bs_clients s) sid ?H True (rw_tick w1) = (Inr (Some m), w2)"
      "rw_keys w' = rw_keys w2"
      using assms(1) f True
      by (auto simp: get_stream_endpoint_def bindE_Inr time_now_def Let_def split: if_splits option.splits)
    with True r' rand show ?thesis using read_token_current by (fastforce simp: dead_token_def other_hash_def)
  next
    case False
    obtain w2 w3 where "update_session x (\<lambda>x. x\<lparr>rbs_ConnectTokenHash := ''''\<rparr>) w2 = (Inr (), w3)"
      "bw_core w' = bw_core w3" "db (bw_core w2) = db (bw_core w)"
      using assms(1) f False fs(3)
      by (auto simp: get_stream_endpoint_def bindE_Inr time_now_def Let_def dest!: valid_until_frame split: if_splits)
    then have "browser_sessions (db (bw_core w')) = update_rows
        (\<lambda>y. rbs_ID y = rbs_ID x \<and> rbs_CreatedAt y = rbs_CreatedAt x) (\<lambda>x. x\<lparr>rbs_ConnectTokenHash := ''''\<rparr>)
        (browser_sessions (db (bw_core w)))"
      by (auto simp: update_session_def bindE_Inr set_sessions_def dest!: on_core_Inr exec_Inr)
    then have "other_row sid ?H (browser_sessions (db (bw_core w')))"
      using fs(1) H find_Some_set [OF fs(1)] by (auto simp: other_row_def update_rows_def find_map_key [where k = rbs_ID])
    with False r' rand show ?thesis by (simp add: dead_token_def)
  qed
qed

text \<open>
  C6: A stream token is single use. Once a consuming read has given the endpoint of a session, no
  later read of that token gives one, by whoever, consuming or not, after any run of starts, reads,
  completions, cancellations and sweeps, whatever statements, commands and worker calls fail -
  provided the random source does not repeat the token.
\<close>

theorem stream_token_single_use:
  assumes "get_stream_endpoint s uid sid token True w = (Inr ep, w1)"
    and "\<And>n b. bw_rand w n = Inr b \<Longrightarrow>
      hash_stream_token (bs_lib s) (b64_encode b) \<noteq> hash_stream_token (bs_lib s) token"
    and "hash_stream_token (bs_lib s) token \<noteq> []"
    and "store_frame (bs_cookies s)"
  shows "\<exists>e. fst (get_stream_endpoint s uid' sid token consume (browser_run s ops w1)) = Inl e"
  by (rule dead_token_refused [OF dead_run [OF assms(3,4) consumed_token_dead [OF assms(1-3)]]])

definition token_space :: keyspace where
  "token_space k =
     (if k = stream_current_key sample_browser_lib 5
      then Some \<lparr>ent_value = RStr (hash_stream_token sample_browser_lib ''abc''), ent_expires = None\<rparr>
      else if k = stream_token_key sample_browser_lib 5 (hash_stream_token sample_browser_lib ''abc'')
      then Some \<lparr>ent_value = RStr ''meta'', ent_expires = None\<rparr> else None)"

lemma sample_browser_sels [simp]:
  "bl_dec_meta sample_browser_lib t = Inr sample_meta" "bl_sha256 sample_browser_lib t = t"
  "bl_dec_live sample_browser_lib t = Inr sample_live" "bl_enc_live sample_browser_lib st = ''live''"
  "bl_enc_reference sample_browser_lib r = ''{}''" "bl_scan sample_browser_lib n ks k = []"
  "bl_parse_uuid sample_browser_lib t = (if t = uuid_text 5 then Some 5 else None)"
  "bl_enc_meta sample_browser_lib m = ''meta''"
  "bs_lib (sample_browser_service b) = sample_browser_lib"
  "rc_coordination (bs_clients (sample_browser_service b)) = b"
  "rc_continuity (bs_clients (sample_browser_service b)) = b"
  by (simp_all add: sample_browser_lib_def sample_browser_service_def)

lemma sample_world_sels [simp]:
  "rw_keys (sample_browser_world ks rows) = ks" "rw_fault (sample_browser_world ks rows) n = None"
  "rw_now (sample_browser_world ks rows) n = int n + 2" "rw_calls (sample_browser_world ks rows) = 0"
  "bw_core (sample_browser_world ks rows) = start_world (empty_db\<lparr>browser_sessions := rows\<rparr>)"
  "bw_rand (sample_browser_world ks rows) n = Inr ''fresh''"
  by (simp_all add: sample_browser_world_def)

lemma sample_script:
  "consume_token_script (stream_token_key sample_browser_lib 5 (hash_stream_token sample_browser_lib ''abc''))
     (stream_current_key sample_browser_lib 5) (hash_stream_token sample_browser_lib ''abc'') now token_space =
   (Inr (AnyStr ''meta''), token_space
     (stream_token_key sample_browser_lib 5 (hash_stream_token sample_browser_lib ''abc'') := None,
      stream_current_key sample_browser_lib 5 := None))"
  by (simp add: consume_token_script_def then_cmd_def script_get_def cmd_get_def cmd_del_def reply_def
      bindE_def live_entry_def entry_live_def token_space_def)

lemma sample_consume:
  "get_stream_endpoint (sample_browser_service True) 4 5 ''abc'' True
     (sample_browser_world token_space [sample_browser_session]) =
   (Inr ''ep'', snd (get_stream_endpoint (sample_browser_service True) 4 5 ''abc'' True
     (sample_browser_world token_space [sample_browser_session])))"
proof -
  have "fst (get_stream_endpoint (sample_browser_service True) 4 5 ''abc'' True
     (sample_browser_world token_space [sample_browser_session])) = Inr ''ep''"
    by (simp add: get_stream_endpoint_def Let_def tryE_def on_core_def first_row_ok find_session_def
      empty_db_def sample_browser_session_def is_streamable_browser_session_status_def time_now_def
      read_redis_stream_token_def eval_result_def redis_do_def sample_script bindE_def liftS_def
      sample_meta_def go_consts)
  then show ?thesis by (metis prod.collapse)
qed

lemma sample_store_frame: "store_frame (bs_cookies (sample_browser_service b))"
  by (simp add: store_frame_def sample_browser_service_def keeps_ret)

theorem stream_token_single_use_witness:
  "\<exists>e. fst (get_stream_endpoint (sample_browser_service True) 4 5 ''abc'' False
     (browser_run (sample_browser_service True) [OpGet 4 5, OpEndpoint 4 5 ''abc'' True]
       (snd (get_stream_endpoint (sample_browser_service True) 4 5 ''abc'' True
         (sample_browser_world token_space [sample_browser_session]))))) = Inl e"
proof (rule stream_token_single_use [OF sample_consume _ _ sample_store_frame])
  show "hash_stream_token (bs_lib (sample_browser_service True)) ''abc'' \<noteq> []"
    by (simp add: hash_stream_token_def hex_encode_def)
  show "hash_stream_token (bs_lib (sample_browser_service True)) (b64_encode b) \<noteq>
      hash_stream_token (bs_lib (sample_browser_service True)) ''abc''"
    if "bw_rand (sample_browser_world token_space [sample_browser_session]) n = Inr b" for n b
    using that
    by (auto simp: hash_stream_token_def hex_encode_def)
qed

end
