(* ===== verification/Browser_Lock.thy ===== *)
theory Browser_Lock
  imports Browser_Token
begin

text \<open>
  The lock of the active session: a start that fails does not leave it behind, a healthy holder
  keeps it, and a holder whose live state is not stored yet loses it. Then what a completion and a
  cancellation do to the row.
\<close>

named_theorems lock_keeps \<open>computations that leave the lock alone\<close>

section \<open>A lock that is not left behind\<close>

text \<open>
  Seen from a state before: an entry of the lock key is the old one, or expired, or holds the
  value \<open>own\<close>. The stored live states can be read.
\<close>

definition lock_space :: "browser_lib \<Rightarrow> string \<Rightarrow> string option \<Rightarrow> keyspace \<Rightarrow> int \<Rightarrow> keyspace \<Rightarrow> bool" where
  "lock_space lib K own ks0 ms ks \<longleftrightarrow>
     (\<forall>e. ks K = Some e \<longrightarrow> ks0 K = Some e \<or> \<not> entry_live ms e \<or> (\<exists>v. own = Some v \<and> ent_value e = RStr v)) \<and>
     (\<forall>i e. ks (session_key lib i) = Some e \<longrightarrow> (\<exists>t st. ent_value e = RStr t \<and> bl_dec_live lib t = Inr st))"

definition readable :: "browser_lib \<Rightarrow> bool" where
  "readable lib \<longleftrightarrow> (\<forall>st. \<exists>st'. bl_dec_live lib (bl_enc_live lib st) = Inr st')"

definition calm_redis :: "'z redis_world_scheme \<Rightarrow> bool" where
  "calm_redis w \<longleftrightarrow> (\<forall>n. rw_fault w n = None) \<and> (\<forall>m n. m \<le> n \<longrightarrow> rw_now w m \<le> rw_now w n)"

definition lock_inv :: "browser_lib \<Rightarrow> string \<Rightarrow> string option \<Rightarrow> keyspace \<Rightarrow> browser_world \<Rightarrow> bool" where
  "lock_inv lib K own ks0 w \<longleftrightarrow> calm_redis w \<and> lock_space lib K own ks0 (rw_ms w) (rw_keys w)"

lemma lock_space_later: "lock_space lib K own ks0 a ks \<Longrightarrow> a \<le> b \<Longrightarrow> lock_space lib K own ks0 b ks"
  unfolding lock_space_def by (meson entry_live_later)

lemma lock_space_own: "lock_space lib K None ks0 a ks \<Longrightarrow> lock_space lib K own ks0 a ks"
  unfolding lock_space_def by blast

lemma lock_inv_own: "lock_inv lib K None ks0 w \<Longrightarrow> lock_inv lib K own ks0 w"
  unfolding lock_inv_def using lock_space_own by blast

lemma calm_redis_ms: "calm_redis w \<Longrightarrow> rw_ms w \<le> rw_ms (rw_tick w)"
  by (simp add: calm_redis_def rw_ms_def zdiv_mono1 millisecond_def)

lemma calm_redis_do:
  "calm_redis w \<Longrightarrow> redis_do cmd w = (case cmd (rw_ms w) (rw_keys w) of (r, ks) \<Rightarrow> (r, rw_tick (w\<lparr>rw_keys := ks\<rparr>)))"
  by (simp add: calm_redis_def redis_do_def)

lemma rw_ms_update [simp]: "rw_ms (w\<lparr>rw_keys := ks\<rparr>) = rw_ms w" "rw_ms (w\<lparr>bw_core := c\<rparr>) = rw_ms w"
  "rw_ms (log_call x w) = rw_ms w"
  by (simp_all add: rw_ms_def log_call_def)

lemma calm_redis_same [simp]: "calm_redis (rw_tick w) = calm_redis w" "calm_redis (w\<lparr>rw_keys := ks\<rparr>) = calm_redis w"
  "calm_redis (w\<lparr>bw_core := c\<rparr>) = calm_redis w" "calm_redis (log_call x w) = calm_redis w"
  by (simp_all add: calm_redis_def log_call_def rw_tick_def)

lemma lock_inv_tick [simp]: "lock_inv lib K own ks0 w \<Longrightarrow> lock_inv lib K own ks0 (rw_tick w)"
  using calm_redis_ms lock_space_later by (fastforce simp: lock_inv_def)

lemma lock_inv_sels [simp]:
  "lock_inv lib K own ks0 (w\<lparr>bw_core := c\<rparr>) = lock_inv lib K own ks0 w"
  "lock_inv lib K own ks0 (log_call x w) = lock_inv lib K own ks0 w"
  by (simp_all add: lock_inv_def)

text \<open>A write under another key, or of a readable live state.\<close>

lemma lock_space_upd:
  "lock_space lib K own ks0 ms ks \<Longrightarrow> k \<noteq> K \<Longrightarrow>
   (\<And>i. k = session_key lib i \<Longrightarrow> \<exists>t st. ent_value e = RStr t \<and> bl_dec_live lib t = Inr st) \<Longrightarrow>
   lock_space lib K own ks0 ms (ks(k \<mapsto> e))"
  by (auto simp: lock_space_def)

lemma lock_space_del: "lock_space lib K own ks0 ms ks \<Longrightarrow> lock_space lib K own ks0 ms (ks(k := None))"
  by (auto simp: lock_space_def)

definition quiet_key :: "browser_lib \<Rightarrow> string \<Rightarrow> string \<Rightarrow> bool" where
  "quiet_key lib K k \<longleftrightarrow> k \<noteq> K \<and> (\<forall>i. k \<noteq> session_key lib i)"

lemma quiet_upd: "quiet_key lib K k \<Longrightarrow> lock_space lib K own ks0 ms ks \<Longrightarrow> lock_space lib K own ks0 ms (ks(k \<mapsto> e))"
  by (rule lock_space_upd) (auto simp: quiet_key_def)

lemma lock_cmds [lock_keeps]:
  "keeps (lock_space lib K own ks0 ms) (cmd_get k ms)"
  "keeps (lock_space lib K own ks0 ms) (script_get k ms)"
  "keeps (lock_space lib K own ks0 ms) (cmd_del k ms)"
  "keeps (lock_space lib K own ks0 ms) (cmd_exists k ms)"
  "keeps (lock_space lib K own ks0 ms) (cmd_scan lib' p ms)"
  "keeps (lock_space lib K own ks0 ms) (cmd_zrangebyscore k x ms)"
  "keeps (lock_space lib K own ks0 ms) (cmd_zcard k ms)"
  "quiet_key lib K k \<Longrightarrow> keeps (lock_space lib K own ks0 ms) (cmd_set k v d ms)"
  "quiet_key lib K k \<Longrightarrow> keeps (lock_space lib K own ks0 ms) (cmd_zadd k x m ms)"
  "quiet_key lib K k \<Longrightarrow> keeps (lock_space lib K own ks0 ms) (cmd_pexpire k x ms)"
  "quiet_key lib K k \<Longrightarrow> keeps (lock_space lib K own ks0 ms) (cmd_zedit k f ms)"
  by (auto simp: keeps_def cmd_get_def script_get_def cmd_del_def cmd_exists_def cmd_scan_def
      cmd_zrangebyscore_def cmd_zcard_def cmd_set_def cmd_zadd_def cmd_pexpire_def cmd_zedit_def store_zset_def
      quiet_upd lock_space_del
      split: option.splits redis_value.splits prod.splits sum.splits)

lemma lock_scripts [lock_keeps]:
  "quiet_key lib K k \<Longrightarrow> keeps (lock_space lib K own ks0 ms) (cmd_zrem k m ms)"
  "quiet_key lib K k \<Longrightarrow> keeps (lock_space lib K own ks0 ms) (cmd_zremrangebyscore k x ms)"
  "keeps (lock_space lib K own ks0 ms) (release_active_script k v ms)"
  "quiet_key lib K k \<Longrightarrow> keeps (lock_space lib K own ks0 ms) (acquire_scope_script k a b c m l ms)"
  unfolding cmd_zrem_def cmd_zremrangebyscore_def release_active_script_def acquire_scope_script_def
  by (intro lock_keeps keeps_then_cmd keeps_reply keeps_redis_branches; assumption)+

lemma lock_redis_do [lock_keeps]:
  assumes "\<And>ms. keeps (lock_space lib K own ks0 ms) (cmd ms)"
  shows "keeps (lock_inv lib K own ks0) (redis_do cmd)"
proof -
  have "lock_inv lib K own ks0 (snd (redis_do cmd w))" if w: "lock_inv lib K own ks0 w" for w
  proof -
    obtain r ks where c: "cmd (rw_ms w) (rw_keys w) = (r, ks)" by fastforce
    have "lock_inv lib K own ks0 (w\<lparr>rw_keys := ks\<rparr>)"
      using w keepsD2 [OF assms c] by (simp add: lock_inv_def)
    moreover have "calm_redis w" using w by (simp add: lock_inv_def)
    ultimately show ?thesis using c by (simp add: calm_redis_do)
  qed
  then show ?thesis by (simp add: keeps_def)
qed

lemma lock_calls [lock_keeps]:
  "keeps (lock_inv lib K own ks0) time_now"
  "keeps (lock_inv lib K own ks0) rand_read"
  "keeps (lock_inv lib K own ks0) (worker_create_session req)"
  "keeps (lock_inv lib K own ks0) (worker_get_session ref)"
  "keeps (lock_inv lib K own ks0) (worker_stop_session ref)"
  "keeps (lock_inv lib K own ks0) (on_core m)"
  by (auto simp: keeps_def time_now_def rand_read_def worker_create_session_def worker_get_session_def
      worker_stop_session_def on_core_def split: prod.splits)

section \<open>The operations of a start\<close>

lemma quiet_keys [simp]:
  "quiet_key lib (active_key lib u p) (stream_current_key lib i)"
  "quiet_key lib (active_key lib u p) (stream_token_key lib i h)"
  "quiet_key lib (active_key lib u p) cleanup_key"
  "quiet_key lib (active_key lib u p) (quota_user_key v)"
  "quiet_key lib (active_key lib u p) (quota_tenant_key tn)"
  by (simp_all add: quiet_key_def browser_key_defs)

abbreviation held :: "browser_lib \<Rightarrow> uuid \<Rightarrow> string \<Rightarrow> string option \<Rightarrow> keyspace \<Rightarrow> browser_world \<Rightarrow> bool" where
  "held lib u p \<equiv> lock_inv lib (active_key lib u p)"

lemma held_redis_ops [lock_keeps]:
  "keeps (held lib u p own ks0) (redis_get_opt k)"
  "(\<And>ms. keeps (lock_space lib (active_key lib u p) own ks0 ms) (c ms)) \<Longrightarrow> keeps (held lib u p own ks0) (eval_result c)"
  "keeps (held lib u p own ks0) (live_ttl t)"
  "keeps (held lib u p own ks0) (stream_token_expires_at t i)"
  unfolding redis_get_opt_def eval_result_def live_ttl_def stream_token_expires_at_def Let_def
  by (intro keeps_intros lock_keeps; assumption)+

lemma held_release [lock_keeps]:
  "keeps (held lib u p own ks0) (release_redis_active_session_value lib cl u' p' v)"
  "keeps (held lib u p own ks0) (release_redis_active_session lib cl u' p' i)"
  unfolding release_redis_active_session_value_def release_redis_active_session_def
  by (intro keeps_intros lock_keeps)+

lemma held_release_quota:
  "(\<And>q. q \<in> set scopes \<Longrightarrow> quiet_key lib (active_key lib u p) (qs_key q)) \<Longrightarrow>
     keeps (held lib u p own ks0) (release_quota_scopes scopes i)"
  unfolding release_quota_scopes_def
  by (intro keeps_intros keeps_collect_errors; auto intro!: keeps_intros lock_keeps)

lemma held_quota_scopes:
  assumes "\<And>q. q \<in> set scopes \<union> set acquired \<Longrightarrow> quiet_key lib (active_key lib u p) (qs_key q)"
  shows "keeps (held lib u p own ks0) (acquire_quota_scopes i t ttl scopes acquired)"
  using assms
proof (induction scopes arbitrary: acquired)
  case (Cons scope scopes)
  show ?case
    unfolding acquire_quota_scopes.simps give_back_quota_def acquire_quota_scope_def
    by (intro keeps_intros lock_keeps held_release_quota Cons) (use Cons.prems in auto)
qed (simp add: keeps_intros)

lemma held_quota_ops [lock_keeps]:
  "keeps (held lib u p own ks0) (acquire_redis_concurrency_quota cl v tn i t)"
  "keeps (held lib u p own ks0) (release_redis_concurrency_quota cl v tn i)"
  unfolding acquire_redis_concurrency_quota_def release_redis_concurrency_quota_def Let_def quota_scopes_def
  by (intro keeps_intros lock_keeps held_quota_scopes held_release_quota; auto)+

lemma held_live_ops [lock_keeps]:
  "keeps (held lib u p own ks0) (get_redis_live_session lib cl i)"
  "keeps (held lib u p own ks0) (delete_redis_live_session lib cl i)"
  "keeps (held lib u p own ks0) (redis_worker_heartbeat_alive cl ref)"
  "keeps (held lib u p own ks0) (delete_redis_worker_heartbeat cl ref)"
  "keeps (held lib u p own ks0) (remove_redis_cleanup_member cl i)"
  "keeps (held lib u p own ks0) (redis_session_tenant_id lib cl tn i)"
  unfolding redis_session_tenant_id_def get_redis_live_session_def delete_redis_live_session_def
    redis_worker_heartbeat_alive_def delete_redis_worker_heartbeat_def remove_redis_cleanup_member_def Let_def
  by (intro keeps_intros lock_keeps; simp)+

lemma held_set_live:
  assumes "readable lib"
  shows "keeps (held lib u p own ks0) (redis_do (cmd_set (session_key lib i) (bl_enc_live lib st) d))"
proof (rule lock_redis_do)
  show "keeps (lock_space lib (active_key lib u p) own ks0 ms) (cmd_set (session_key lib i) (bl_enc_live lib st) d ms)" for ms
    using assms
    by (auto simp: keeps_def cmd_set_def readable_def browser_key_defs intro!: lock_space_upd)
qed

lemma held_save_live:
  "readable lib \<Longrightarrow> keeps (held lib u p own ks0) (save_redis_live_session lib cl st)"
  unfolding save_redis_live_session_def Let_def
  by (intro keeps_intros lock_keeps held_set_live; simp)

lemma held_token_ops [lock_keeps]:
  "keeps (held lib u p own ks0) (delete_redis_stream_token lib cl i)"
  "keeps (held lib u p own ks0) (rotate_redis_stream_token lib cl i v q h t)"
proof -
  show "keeps (held lib u p own ks0) (delete_redis_stream_token lib cl i)"
    unfolding delete_redis_stream_token_def Let_def
    by (intro keeps_intros lock_keeps keeps_collect_errors; auto intro!: keeps_intros lock_keeps)
  show "keeps (held lib u p own ks0) (rotate_redis_stream_token lib cl i v q h t)"
    unfolding rotate_redis_stream_token_def Let_def by (intro keeps_intros lock_keeps; simp)
qed

lemma held_row_ops [lock_keeps]:
  "keeps (held lib u p own ks0) (update_session session f)"
  "keeps (held lib u p own ks0) (set_session_status session status)"
  "keeps (held lib u p own ks0) (create_session session)"
  "keeps (held lib u p own ks0) (expire_superseded_active_rows v q)"
  "keeps (held lib u p own ks0) (expire_redis_active_session_row i message)"
  "keeps (held lib u p own ks0) (generate_stream_token lib')"
  unfolding set_session_status_def update_session_def create_session_def expire_superseded_active_rows_def
    expire_redis_active_session_row_def generate_stream_token_def Let_def
  by (intro keeps_intros lock_keeps)+

lemma held_cleanup [lock_keeps]:
  "keeps (held lib u p own ks0) (cleanup_redis_session_for_tenant lib cl v tn q i ref)"
  "keeps (held lib u p own ks0) (cleanup_redis_session lib cl v q i ref)"
proof -
  show c: "keeps (held lib u p own ks0) (cleanup_redis_session_for_tenant lib cl v tn q i ref)" for tn
    unfolding cleanup_redis_session_for_tenant_def
    by (intro keeps_intros lock_keeps keeps_collect_errors; auto intro!: keeps_intros lock_keeps)
  show "keeps (held lib u p own ks0) (cleanup_redis_session lib cl v q i ref)"
    unfolding cleanup_redis_session_def by (rule c)
qed

section \<open>Giving the lock back\<close>

text \<open>The release script finds the own value, or a value of the old state, or an expired entry.\<close>

lemma release_frees:
  assumes "held lib u p (Some (uuid_text i)) ks0 w" "rc_coordination cl"
  shows "held lib u p None ks0 (snd (release_redis_active_session lib cl u p i w))"
proof -
  let ?K = "active_key lib u p" and ?ms = "rw_ms w"
  have calm: "calm_redis w" and sp: "lock_space lib ?K (Some (uuid_text i)) ks0 ?ms (rw_keys w)"
    using assms(1) by (simp_all add: lock_inv_def)
  obtain r ks where s: "release_active_script ?K (uuid_text i) ?ms (rw_keys w) = (r, ks)" by fastforce
  have "lock_space lib ?K None ks0 ?ms ks"
  proof (cases "live_entry ?ms (rw_keys w) ?K")
    case None
    then have "ks = rw_keys w"
      using s by (auto simp: release_active_script_def then_cmd_def script_get_def cmd_get_def bindE_def reply_def)
    with None sp show ?thesis by (auto simp: lock_space_def live_entry_def split: option.splits if_splits)
  next
    case (Some e)
    then have k: "rw_keys w ?K = Some e" "entry_live ?ms e"
      by (auto simp: live_entry_def split: option.splits if_splits)
    show ?thesis
    proof (cases "ent_value e = RStr (uuid_text i)")
      case True
      with Some s have "ks = (rw_keys w)(?K := None)"
        by (auto simp: release_active_script_def then_cmd_def script_get_def cmd_get_def cmd_del_def bindE_def reply_def)
      with sp show ?thesis by (auto simp: lock_space_def)
    next
      case False
      with Some s have "ks = rw_keys w"
        by (auto simp: release_active_script_def then_cmd_def script_get_def cmd_get_def wrong_type_def bindE_def reply_def
            split: redis_value.splits)
      with sp k False show ?thesis by (auto simp: lock_space_def)
    qed
  qed
  then have "held lib u p None ks0 (rw_tick (w\<lparr>rw_keys := ks\<rparr>))"
    using calm by (intro lock_inv_tick) (simp add: lock_inv_def)
  then show ?thesis
    using s assms(2) calm
    by (simp add: release_redis_active_session_def release_redis_active_session_value_def eval_result_def
        calm_redis_do bindE_def throw_def ret_def split: sum.split)
qed

lemma tenant_found:
  assumes "held lib u p own ks0 w"
  obtains tn' w' where "redis_session_tenant_id lib cl tn i w = (Inr tn', w')" "held lib u p own ks0 w'"
proof -
  obtain r w' where r: "redis_session_tenant_id lib cl tn i w = (r, w')" by fastforce
  have "held lib u p own ks0 w'"
    using keepsD2 [OF held_live_ops(6) r] assms by simp
  moreover have "\<exists>x. r = Inr x"
  proof -
    have calm: "calm_redis w" and sp: "\<forall>i e. rw_keys w (session_key lib i) = Some e \<longrightarrow>
        (\<exists>t st. ent_value e = RStr t \<and> bl_dec_live lib t = Inr st)"
      using assms by (simp_all add: lock_inv_def lock_space_def)
    have "\<exists>y w2. get_redis_live_session lib cl i w = (Inr y, w2)"
      using sp [rule_format, of i]
      by (auto simp: get_redis_live_session_def redis_get_opt_def bindE_def tryE_def calm_redis_do [OF calm]
          cmd_get_def ret_def throw_def liftS_def dest!: live_entry_Some
          split: option.split redis_value.split sum.split)
    then show ?thesis using r
      by (auto simp: redis_session_tenant_id_def Let_def bindE_def ret_def split: if_splits option.splits)
  qed
  ultimately show thesis using that r by blast
qed

lemma drop_frees:
  assumes "held (bs_lib s) u p (Some (uuid_text i)) ks0 w" "rc_coordination (bs_clients s)"
  shows "held (bs_lib s) u p None ks0 (snd (drop_redis s u tn p i ref w))"
proof -
  let ?lib = "bs_lib s" and ?cl = "bs_clients s"
  let ?I = "held ?lib u p None ks0"
  obtain tn' w1 where t: "redis_session_tenant_id ?lib ?cl tn i w = (Inr tn', w1)"
    and h1: "held ?lib u p (Some (uuid_text i)) ks0 w1"
    by (rule tenant_found [OF assms(1), where cl = ?cl and tn = tn and i = i])
  let ?rest = "[release_redis_concurrency_quota ?cl u tn' i, delete_redis_stream_token ?lib ?cl i,
      delete_redis_live_session ?lib ?cl i, delete_redis_worker_heartbeat ?cl ref,
      remove_redis_cleanup_member ?cl i]"
  have rest: "keeps ?I (collect_errors ?rest)"
    by (rule keeps_collect_errors) (auto intro!: keeps_intros lock_keeps)
  have "?I (snd (release_redis_active_session ?lib ?cl u p i w1))" by (rule release_frees [OF h1 assms(2)])
  then have "?I (snd (collect_errors (release_redis_active_session ?lib ?cl u p i # ?rest) w1))"
    using rest by (auto simp: keeps_def bindE_def tryE_def ret_def split: prod.split sum.split)
  with t assms(2) show ?thesis
    by (auto simp: drop_redis_def ignoreE_def cleanup_redis_session_for_tenant_def bindE_def throw_def ret_def
        simp del: collect_errors.simps split: prod.split sum.split option.split)
qed

section \<open>A start that fails\<close>

definition sure :: "('w, 'a) io \<Rightarrow> bool" where
  "sure m \<longleftrightarrow> (\<forall>w. \<exists>x. fst (m w) = Inr x)"

lemma sure_try [simp]: "sure (tryE m)" "sure (ignoreE m)" "sure (ret x)"
  by (simp_all add: sure_def tryE_def ignoreE_def ret_def split: prod.split)

lemma sure_token_expiry [simp]: "sure (stream_token_expires_at t i)"
  by (simp add: sure_def stream_token_expires_at_def bindE_def time_now_def Let_def)

text \<open>A statement that cannot fail and keeps the invariant: on with the rest.\<close>

lemma wp_sure:
  assumes "keeps I m" "sure m" "I w" "\<And>x w'. I w' \<Longrightarrow> wp (f x) Q E w'"
  shows "wp (bindE m f) Q E w"
proof -
  obtain r w' where r: "m w = (r, w')" by fastforce
  obtain x where "r = Inr x" using assms(2) r by (metis fst_conv sure_def)
  with r assms(4) [OF keepsD2 [OF assms(1) r assms(3)]] show ?thesis by (simp add: wp_def bindE_def)
qed

lemma wp_drop:
  assumes "held (bs_lib s) u p (Some (uuid_text i)) ks0 w" "rc_coordination (bs_clients s)"
    and "keeps (held (bs_lib s) u p None ks0) m"
  shows "wp (bindE (drop_redis s u tn p i ref) (\<lambda>_. m)) (\<lambda>_ _. True) (\<lambda>_. held (bs_lib s) u p None ks0) w"
proof -
  obtain r w' where r: "drop_redis s u tn p i ref w = (r, w')" by fastforce
  have "held (bs_lib s) u p None ks0 w'" using drop_frees [OF assms(1,2), of tn ref] r by simp
  moreover have "\<exists>x. r = Inr x" using r by (auto simp: drop_redis_def ignoreE_def split: prod.splits)
  ultimately show ?thesis
    using r assms(3) by (auto simp: wp_def bindE_def keeps_def split: prod.split sum.split)
qed

lemma wp_drop_throw:
  assumes "held (bs_lib s) u p (Some (uuid_text i)) ks0 w" "rc_coordination (bs_clients s)"
  shows "wp (bindE (drop_redis s u tn p i ref) (\<lambda>_. throw e)) Q (\<lambda>_. held (bs_lib s) u p None ks0) w"
  using drop_frees [OF assms, of tn ref]
  by (auto simp: wp_def bindE_def throw_def split: prod.split sum.split)

lemma wp_abort:
  assumes "held (bs_lib s) u p (Some (uuid_text i)) ks0 w" "rc_coordination (bs_clients s)"
  shows "wp (abort_start s u tn p i ref session e) (\<lambda>_ _. True) (\<lambda>_. held (bs_lib s) u p None ks0) w"
  unfolding abort_start_def
proof (rule wp_sure [where I = "held (bs_lib s) u p (Some (uuid_text i)) ks0"])
  show "wp (bindE (drop_redis s u tn p i ref) (\<lambda>_.
      bindE (ignoreE (set_session_status session BrowserSessionStatusFailed)) (\<lambda>_. throw e)))
    (\<lambda>_ _. True) (\<lambda>_. held (bs_lib s) u p None ks0) w'"
    if "held (bs_lib s) u p (Some (uuid_text i)) ks0 w'" for w'
    by (intro wp_drop that assms(2) keeps_intros lock_keeps)
qed (simp_all add: assms keeps_intros lock_keeps)

lemma wp_publish:
  assumes "held (bs_lib s) u p (Some (uuid_text i)) ks0 w" "rc_coordination (bs_clients s)" "readable (bs_lib s)"
  shows "wp (publish_worker s u tn p i token h session now t resp) (\<lambda>_ _. True)
    (\<lambda>_. held (bs_lib s) u p None ks0) w"
proof -
  let ?I = "held (bs_lib s) u p (Some (uuid_text i)) ks0"
  note sure = wp_sure [where I = ?I]
  note ks = keeps_intros lock_keeps held_save_live assms(3)
  note ends = wp_abort wp_drop assms(2)
  show ?thesis
    unfolding publish_worker_def Let_def
    apply (intro wp_case_sum wp_abort assms)
    apply (rule sure, (intro ks), simp, rule assms(1))
    apply (intro wp_case_sum)
     apply (rule sure, (intro ks), simp, assumption, intro wp_drop ks assms, assumption)
    apply (rule sure, (intro ks), simp, assumption)
    apply (intro wp_case_sum ends, assumption)
    apply (rule sure, (intro ks), simp, assumption)
    apply (intro wp_case_sum ends, assumption)
    apply (rule sure, (intro ks), simp, assumption)
    apply (intro wp_case_sum ends, assumption)
    apply (rule wp_ret, simp)
    done
qed

lemma wp_start_worker:
  assumes "held (bs_lib s) u p (Some (uuid_text i)) ks0 w" "rc_coordination (bs_clients s)" "readable (bs_lib s)"
  shows "wp (start_worker s adapter u tn aid p i token h session now t) (\<lambda>_ _. True)
    (\<lambda>_. held (bs_lib s) u p None ks0) w"
proof -
  let ?I = "held (bs_lib s) u p (Some (uuid_text i)) ks0"
  note sure = wp_sure [where I = ?I]
  note ks = keeps_intros lock_keeps
  have create: "wp (bindE (tryE (worker_create_session req)) (\<lambda>r. case r of
        Inl e \<Rightarrow> bindE (ignoreE (set_session_status session BrowserSessionStatusFailed)) (\<lambda>_.
          bindE (drop_redis s u tn p i '''') (\<lambda>_. throw (g e)))
      | Inr resp \<Rightarrow> publish_worker s u tn p i token h session now t resp))
      (\<lambda>_ _. True) (\<lambda>_. held (bs_lib s) u p None ks0) v" if "?I v" for v req g
    apply (rule sure, (intro ks), simp, rule that)
    apply (intro wp_case_sum)
     apply (rule sure, (intro ks), simp, assumption, intro wp_drop ks assms, assumption)
    apply (intro wp_publish assms, assumption)
    done
  show ?thesis
    unfolding start_worker_def Let_def
    apply (rule sure, (intro ks), simp, rule assms(1))
    apply (intro wp_case_sum wp_If create)
      apply (rule sure, (intro ks), simp, assumption, intro wp_drop ks assms, assumption)
     apply assumption+
    done
qed

lemma wp_open:
  assumes "held (bs_lib s) u p (Some (uuid_text i)) ks0 w" "rc_coordination (bs_clients s)" "readable (bs_lib s)"
  shows "wp (open_session s adapter u tn wid aid p i now t) (\<lambda>_ _. True)
    (\<lambda>_. held (bs_lib s) u p None ks0) w"
proof -
  let ?I = "held (bs_lib s) u p (Some (uuid_text i)) ks0"
  note sure = wp_sure [where I = ?I]
  note ks = keeps_intros lock_keeps held_save_live assms(3)
  have create: "wp (bindE (bindE (tryE (create_session session)) (\<lambda>r. case r of
          Inr session \<Rightarrow> ret session
        | Inl e \<Rightarrow> bindE (drop_redis s u tn p i '''') (\<lambda>_. throw (g e)))) f) (\<lambda>_ _. True)
      (\<lambda>_. held (bs_lib s) u p None ks0) v"
    if v: "?I v" and f: "\<And>session w'. ?I w' \<Longrightarrow> wp (f session) (\<lambda>_ _. True) (\<lambda>_. held (bs_lib s) u p None ks0) w'"
    for v session g f
  proof (rule wp_bindE, rule sure, (intro ks), simp, rule v, intro wp_case_sum)
    fix w' e assume "?I w'"
    then show "wp (bindE (drop_redis s u tn p i '''') (\<lambda>_. throw (g e)))
        (\<lambda>x. wp (f x) (\<lambda>_ _. True) (\<lambda>_. held (bs_lib s) u p None ks0)) (\<lambda>_. held (bs_lib s) u p None ks0) w'"
      by (rule wp_drop_throw [OF _ assms(2)])
  qed (intro wp_ret f)
  show ?thesis
    unfolding open_session_def Let_def
    apply (rule sure, (intro ks), simp, rule assms(1))
    apply (intro wp_case_sum wp_case_prod)
     apply (intro wp_drop ks assms, assumption)
    apply (rule sure, (intro ks), simp, assumption)
    apply (simp only: assms(2) not_True_eq_False if_False)
    apply (rule create, assumption)
    apply (rule sure, (intro ks), simp, assumption)
    apply (intro wp_case_sum)
     apply (intro wp_drop ks assms, assumption)
    apply (intro wp_start_worker assms, assumption)
    done
qed

lemma acquire_holds:
  assumes "held lib u p None ks0 w" "rc_coordination cl"
  shows "wp (acquire_redis_active_session lib cl u p i t)
    (\<lambda>b. held lib u p (if b then Some (uuid_text i) else None) ks0) E w"
proof -
  let ?K = "active_key lib u p"
  have calm: "calm_redis (rw_tick w)" and sp: "lock_space lib ?K None ks0 (rw_ms (rw_tick w)) (rw_keys w)"
    using lock_inv_tick [OF assms(1)] by (simp_all add: lock_inv_def)
  have set: "lock_space lib ?K (Some (uuid_text i)) ks0 ms ((rw_keys w)(?K \<mapsto> \<lparr>ent_value = RStr (uuid_text i), ent_expires = x\<rparr>))"
    if "lock_space lib ?K None ks0 ms (rw_keys w)" for ms x
    using that by (auto simp: lock_space_def browser_key_defs)
  have "held lib u p (Some (uuid_text i)) ks0 (rw_tick (rw_tick w\<lparr>rw_keys := (rw_keys w)(?K \<mapsto>
      \<lparr>ent_value = RStr (uuid_text i), ent_expires = x\<rparr>)\<rparr>))" for x
    by (rule lock_inv_tick) (use calm in \<open>simp add: lock_inv_def set [OF sp]\<close>)
  moreover have "held lib u p None ks0 (rw_tick (rw_tick w\<lparr>rw_keys := rw_keys w\<rparr>))"
    by (rule lock_inv_tick) (use calm sp in \<open>simp add: lock_inv_def\<close>)
  ultimately show ?thesis
    using assms(2)
    by (auto simp: wp_def acquire_redis_active_session_def live_ttl_def bindE_def time_now_def Let_def
        calm_redis_do [OF calm] cmd_setnx_def split: option.split)
qed

lemma held_recover:
  "keeps (held (bs_lib s) u p own ks0) (recover_redis_active_session_lock s u p now)"
  unfolding recover_redis_active_session_lock_def cleanup_recovered_redis_active_session_def Let_def
  by (auto split: lock_verdict.split intro!: keeps_intros lock_keeps)

lemma lock_or_recover_holds:
  assumes "held (bs_lib s) u p None ks0 w" "rc_coordination (bs_clients s)"
  shows "wp (lock_or_recover s u p i t now) (\<lambda>_. held (bs_lib s) u p (Some (uuid_text i)) ks0)
    (\<lambda>_. held (bs_lib s) u p None ks0) w"
  unfolding lock_or_recover_def Let_def
proof (intro wp_bindE wp_conseq [OF acquire_holds [OF assms]])
  fix b w1 assume b: "held (bs_lib s) u p (if b then Some (uuid_text i) else None) ks0 w1"
  let ?E = "\<lambda>_. held (bs_lib s) u p None ks0" and ?Q = "\<lambda>_. held (bs_lib s) u p (Some (uuid_text i)) ks0"
  let ?again = "bindE (acquire_redis_active_session (bs_lib s) (bs_clients s) u p i t)
      (\<lambda>b. if \<not> b then throw ErrActiveSessionExists else ret ())"
  have again: "wp ?again ?Q ?E v" if "held (bs_lib s) u p None ks0 v" for v
    by (intro wp_bindE wp_conseq [OF acquire_holds [OF that assms(2)]] wp_If wp_throw wp_ret) auto
  show "wp (if b then ret () else bindE (recover_redis_active_session_lock s u p now) (\<lambda>r.
      if \<not> r then throw ErrActiveSessionExists else ?again)) ?Q ?E w1"
  proof (intro wp_If wp_ret wp_bindE)
    assume "\<not> b"
    with b have "held (bs_lib s) u p None ks0 w1" by simp
    then show "wp (recover_redis_active_session_lock s u p now) (\<lambda>r. wp (if \<not> r
        then throw ErrActiveSessionExists else ?again) ?Q ?E) ?E w1"
      by (rule wp_keeps [OF held_recover]) (auto intro!: wp_If wp_throw again)
  qed (use b in simp)
qed simp

lemma wp_give_up:
  assumes "held (bs_lib s) u p (Some (uuid_text i)) ks0 w" "rc_coordination (bs_clients s)"
  shows "wp (bindE (ignoreE (release_redis_active_session (bs_lib s) (bs_clients s) u p i)) (\<lambda>_. throw e)) Q
    (\<lambda>_. held (bs_lib s) u p None ks0) w"
  using release_frees [OF assms]
  by (auto simp: wp_def bindE_def ignoreE_def throw_def split: prod.split sum.split)

lemma wp_claim:
  assumes "held (bs_lib s) u p None ks0 w" "rc_coordination (bs_clients s)"
  shows "wp (claim_active_session s u tn p i t now) (\<lambda>_. held (bs_lib s) u p (Some (uuid_text i)) ks0)
    (\<lambda>_. held (bs_lib s) u p None ks0) w"
  unfolding claim_active_session_def Let_def
  apply (intro wp_bindE wp_conseq [OF lock_or_recover_holds [OF assms]])
   apply (rule wp_tryE, rule wp_keeps, rule held_row_ops, assumption)
    apply (simp only: sum.case, rule wp_bindE, rule wp_tryE, rule wp_keeps, rule held_quota_ops, assumption)
     apply (simp only: sum.case, rule wp_ret, assumption)
    apply (simp only: sum.case, rule wp_give_up [OF _ assms(2)], assumption)
   apply (simp only: sum.case, rule wp_give_up [OF _ assms(2)], assumption)
  apply assumption
  done

lemma wp_start:
  assumes "held (bs_lib s) u p None ks0 w" "rc_coordination (bs_clients s)" "readable (bs_lib s)"
  shows "wp (start_session_for_workspace s u tn wid aid p auth) (\<lambda>_ _. True)
    (\<lambda>_. held (bs_lib s) u p None ks0) w"
proof -
  let ?I = "held (bs_lib s) u p None ks0"
  have core: "wp (bindE (on_core m) f) (\<lambda>_ _. True) (\<lambda>_. ?I) v"
    if "?I v" "\<And>x v'. ?I v' \<Longrightarrow> wp (f x) (\<lambda>_ _. True) (\<lambda>_. ?I) v'" for m :: "'a mpp" and f v
    by (rule wp_bindE, rule wp_keeps [OF lock_calls(6) that(1)]) (simp_all add: that(2))
  have time: "sure time_now" by (simp add: sure_def)
  show ?thesis
    unfolding start_session_for_workspace_def Let_def
    apply (intro wp_case_option wp_throw assms core)
    apply (rule wp_sure [OF lock_calls(1) time], assumption)
    apply (rule core, assumption)
    apply (simp only: assms(2) if_True)
    apply (rule wp_bindE, rule wp_conseq [OF wp_claim [OF _ assms(2)]], assumption)
     apply (rule wp_open [OF _ assms(2,3)], assumption)
    apply assumption
    done
qed

section \<open>A healthy holder keeps the lock\<close>

definition same_sessions :: "browser_world \<Rightarrow> browser_world \<Rightarrow> bool" where
  "same_sessions w v \<longleftrightarrow> rw_keys v = rw_keys w \<and> rw_fault v = rw_fault w \<and> rw_now v = rw_now w \<and>
     bw_log v = bw_log w \<and> bw_state v = bw_state w \<and> db (bw_core v) = db (bw_core w)"

lemma same_sessions_tick [simp]: "same_sessions w (rw_tick v) = same_sessions w v"
  by (simp add: same_sessions_def rw_tick_def)

lemma same_sessions_core:
  assumes "\<And>J. keeps (on_db J) m" shows "keeps (same_sessions w) (on_core m)"
proof -
  have "same_sessions w (snd (on_core m v))" if v: "same_sessions w v" for v
  proof -
    obtain r c where m: "m (bw_core v) = (r, c)" by fastforce
    have "db c = db (bw_core v)" by (rule db_kept [OF assms m])
    with v m show ?thesis by (simp add: same_sessions_def on_core_def)
  qed
  then show ?thesis by (simp add: keeps_def)
qed

text \<open>A lock whose session is still starting, or whose worker answers.\<close>

definition healthy_lock :: "browser_service \<Rightarrow> uuid \<Rightarrow> string \<Rightarrow> browser_world \<Rightarrow> bool" where
  "healthy_lock s uid platform w \<longleftrightarrow>
     (\<exists>e v sid x t st. rw_keys w (active_key (bs_lib s) uid platform) = Some e \<and> ent_value e = RStr v \<and>
       (\<forall>n. entry_live (rw_now w n div millisecond) e) \<and> bl_parse_uuid (bs_lib s) v = Some sid \<and>
       rw_keys w (session_key (bs_lib s) sid) = Some x \<and> ent_value x = RStr t \<and>
       (\<forall>n. entry_live (rw_now w n div millisecond) x) \<and> bl_dec_live (bs_lib s) t = Inr st \<and>
       (\<forall>n. judge_lock uid platform (rw_now w n) st = LockPending \<or>
         judge_lock uid platform (rw_now w n) st = LockAskWorker \<and> (\<forall>m. \<exists>y. bw_state w m = Inr y)))"

lemma no_redis_fault:
  "\<forall>n. rw_fault w n = None \<Longrightarrow>
   redis_do cmd w = (case cmd (rw_ms w) (rw_keys w) of (r, ks) \<Rightarrow> (r, rw_tick (w\<lparr>rw_keys := ks\<rparr>)))"
  by (simp add: redis_do_def)

lemma same_sessions_keys [simp]: "rw_keys v = rw_keys w \<Longrightarrow> same_sessions w (v\<lparr>rw_keys := rw_keys w\<rparr>) = same_sessions w v"
  by (simp add: same_sessions_def)

lemma rw_keys_same [simp]: "rw_keys v = ks \<Longrightarrow> v\<lparr>rw_keys := ks\<rparr> = v" by auto

lemma heartbeat_same:
  "\<forall>n. rw_fault v n = None \<Longrightarrow> \<exists>b v'. redis_worker_heartbeat_alive cl ref v = (Inr b, v') \<and>
     (\<forall>w. same_sessions w v \<longrightarrow> same_sessions w v')"
  by (auto simp: redis_worker_heartbeat_alive_def no_redis_fault cmd_exists_def)

lemma healthy_lock_refuses:
  assumes h: "healthy_lock s uid p w" and cl: "rc_coordination (bs_clients s)" "rc_continuity (bs_clients s)"
    and f: "\<forall>n. rw_fault w n = None" and v: "same_sessions w v"
  shows "\<exists>v'. lock_or_recover s uid p i t (rw_now w k) v = (Inl ErrActiveSessionExists, v') \<and> same_sessions w v'"
proof -
  let ?lib = "bs_lib s" and ?cl = "bs_clients s"
  obtain e val sid x payload st where
    e: "rw_keys w (active_key ?lib uid p) = Some e" "ent_value e = RStr val"
      "\<forall>n. entry_live (rw_now w n div millisecond) e" "bl_parse_uuid ?lib val = Some sid"
    and x: "rw_keys w (session_key ?lib sid) = Some x" "ent_value x = RStr payload"
      "\<forall>n. entry_live (rw_now w n div millisecond) x" "bl_dec_live ?lib payload = Inr st"
    and j: "judge_lock uid p (rw_now w k) st = LockPending \<or>
      judge_lock uid p (rw_now w k) st = LockAskWorker \<and> (\<forall>m. \<exists>y. bw_state w m = Inr y)"
    using h unfolding healthy_lock_def by blast
  have sk: "rw_keys u = rw_keys w" "\<forall>n. rw_fault u n = None" "rw_ms u = rw_now w (rw_calls u) div millisecond"
    "bw_state u = bw_state w" if "same_sessions w u" for u
    using that f by (auto simp: same_sessions_def rw_ms_def)
  have liveK: "live_entry (rw_ms u) (rw_keys w) (active_key ?lib uid p) = Some e" if "same_sessions w u" for u
    using e sk [OF that] by (simp add: live_entry_def)
  have liveS: "live_entry (rw_ms u) (rw_keys w) (session_key ?lib sid) = Some x" if "same_sessions w u" for u
    using x sk [OF that] by (simp add: live_entry_def)
  have acq: "acquire_redis_active_session ?lib ?cl uid p i t u = (Inr False, rw_tick (rw_tick u))"
    if u: "same_sessions w u" for u
  proof -
    have t: "same_sessions w (rw_tick u)" using u by simp
    show ?thesis
      using liveK [OF t] sk [OF t] cl(1)
      by (simp add: acquire_redis_active_session_def live_ttl_def bindE_def time_now_def Let_def
          no_redis_fault cmd_setnx_def)
  qed
  have get: "redis_get_opt (active_key ?lib uid p) u = (Inr (Some val), rw_tick u)" if u: "same_sessions w u" for u
    using liveK [OF u] sk [OF u] e(2)
    by (simp add: redis_get_opt_def bindE_def tryE_def no_redis_fault cmd_get_def)
  have live: "get_redis_live_session ?lib ?cl sid u = (Inr (Some st), rw_tick u)" if u: "same_sessions w u" for u
    using liveS [OF u] sk [OF u] x(2,4) cl(2)
    by (simp add: get_redis_live_session_def redis_get_opt_def bindE_def tryE_def liftS_def no_redis_fault cmd_get_def)
  define v1 where "v1 = rw_tick (rw_tick (rw_tick (rw_tick v)))"
  have v1: "same_sessions w v1" using v by (simp add: v1_def)
  have rec: "\<exists>v'. recover_redis_active_session_lock s uid p (rw_now w k) (rw_tick (rw_tick v)) = (Inr False, v') \<and>
      same_sessions w v'"
  proof (cases "judge_lock uid p (rw_now w k) st = LockPending")
    case True
    with v v1 cl(1) e(4) show ?thesis
      by (simp add: recover_redis_active_session_lock_def Let_def bindE_app [OF get] bindE_app [OF live] v1_def)
  next
    case False
    with j have a: "judge_lock uid p (rw_now w k) st = LockAskWorker" "\<exists>y. bw_state w m = Inr y" for m by auto
    obtain b v2 where hb: "redis_worker_heartbeat_alive ?cl (ls_WorkerSessionRef st) v1 = (Inr b, v2)"
      "same_sessions w v2"
      using heartbeat_same [OF sk(2) [OF v1]] v1 by blast
    have hb': "bindE (redis_worker_heartbeat_alive ?cl (ls_WorkerSessionRef st)) F
        (rw_tick (rw_tick (rw_tick (rw_tick v)))) = F b v2" for F :: "bool \<Rightarrow> bool browser"
      by (rule bindE_app) (use hb(1) v1_def in simp)
    obtain y where y: "bw_state w (rw_calls v2) = Inr y" using a(2) by blast
    have "worker_get_session (ls_WorkerSessionRef st) v2 = (Inr y, rw_tick v2)"
      using sk(4) [OF hb(2)] y by (simp add: worker_get_session_def)
    with a(1) v cl(1) e(4) hb show ?thesis
      by (simp add: recover_redis_active_session_lock_def Let_def bindE_app [OF get] bindE_app [OF live]
          hb')
  qed
  with acq [OF v] show ?thesis by (auto simp: lock_or_recover_def Let_def bindE_def)
qed

lemma start_refused:
  assumes "healthy_lock s uid platform w" and "rc_coordination (bs_clients s)" and "rc_continuity (bs_clients s)"
    and "\<forall>n. rw_fault w n = None" and "bs_adapters s platform = Some adapter"
  shows "\<exists>e w'. start_session_for_workspace s uid tn wid aid platform auth w = (Inl e, w') \<and>
    (\<not> auth \<longrightarrow> e = ErrActiveSessionExists) \<and> same_sessions w w'"
proof -
  let ?who = "if auth then authorize_session_target uid wid aid platform
    else if wid = uuid_nil then asks (\<lambda>w. personal_workspace_id w uid) else ret wid"
  have keep: "keeps (same_sessions w) (on_core ?who)" "keeps (same_sessions w) (on_core uuid_new)"
    by (rule same_sessions_core, intro keeps_intros keeps_session_target)+
  obtain r1 w1 where a: "on_core ?who w = (r1, w1)" by fastforce
  have s1: "same_sessions w w1" by (rule keepsD2 [OF keep(1) a]) (simp add: same_sessions_def)
  show ?thesis
  proof (cases r1)
    case (Inl e)
    have "\<not> auth \<Longrightarrow> \<exists>x. r1 = Inr x" using a by (auto simp: on_core_def asks_def split: if_splits)
    with Inl a s1 assms(5) show ?thesis
      by (auto simp: start_session_for_workspace_def Let_def bindE_def)
  next
    case (Inr wid')
    obtain sid w2 where u: "on_core uuid_new (rw_tick w1) = (Inr sid, w2)" "same_sessions w w2"
      using s1 keepsD2 [OF keep(2), of "rw_tick w1"]
      by (auto simp: on_core_def uuid_new_def)
    have now: "rw_now w1 = rw_now w" using s1 by (simp add: same_sessions_def)
    define expiry where "expiry = rw_now w (rw_calls w1) + browser_session_ttl"
    obtain w3 where l: "lock_or_recover s uid platform sid expiry (rw_now w (rw_calls w1)) w2 =
        (Inl ErrActiveSessionExists, w3)" "same_sessions w w3"
      using healthy_lock_refuses [OF assms(1-4) u(2)] by blast
    have "start_session_for_workspace s uid tn wid aid platform auth w = (Inl ErrActiveSessionExists, w3)"
      using assms(2,5) a Inr u l(1) now
      by (simp add: start_session_for_workspace_def Let_def bindE_def time_now_def claim_active_session_def expiry_def)
    with l(2) show ?thesis by blast
  qed
qed


definition busy_world :: browser_world where
  "busy_world = (sample_browser_world (\<lambda>k.
     if k = active_key sample_browser_lib 4 ''zhihu'' then Some \<lparr>ent_value = RStr (uuid_text 5), ent_expires = None\<rparr>
     else if k = session_key sample_browser_lib 5 then Some \<lparr>ent_value = RStr ''live'', ent_expires = None\<rparr>
     else None) [])\<lparr>rw_now := (\<lambda>_. 2)\<rparr>"

lemma active_session_key [simp]: "active_key lib u p \<noteq> session_key lib' i" "session_key lib' i \<noteq> active_key lib u p"
  by (simp_all add: browser_key_defs)

lemma busy_lock: "healthy_lock (sample_browser_service True) 4 ''zhihu'' busy_world"
  unfolding healthy_lock_def
  by (rule exI [where x = "\<lparr>ent_value = RStr (uuid_text 5), ent_expires = None\<rparr>"],
      rule exI [where x = "uuid_text 5"], rule exI [where x = 5],
      rule exI [where x = "\<lparr>ent_value = RStr ''live'', ent_expires = None\<rparr>"], rule exI [where x = "''live''"],
      rule exI [where x = sample_live])
    (simp add: busy_world_def entry_live_def judge_lock_def sample_live_def pending_live_state_def go_consts
      is_terminal_browser_session_status_def sample_browser_world_def)

lemma sample_adapter: "bs_adapters (sample_browser_service b) p =
    Some \<lparr>ba_LoginURL = ''u'', ba_AllowedDomains = [], ba_RequiredCookies = []\<rparr>"
  by (simp add: sample_browser_service_def)

lemma busy_calm: "\<forall>n. rw_fault busy_world n = None" "calm_redis busy_world"
  by (simp_all add: busy_world_def calm_redis_def)

lemma busy_refused:
  "\<exists>w'. start_session_for_workspace (sample_browser_service True) 4 '''' 0 0 ''zhihu'' False busy_world =
     (Inl ErrActiveSessionExists, w') \<and> same_sessions busy_world w'"
  using start_refused [OF busy_lock _ _ busy_calm(1) sample_adapter, where auth = False] by simp


text \<open>
  C5: A start that fails does not leave the lock of the active session behind. When no Redis call
  fails and its clock does not go back, an unexpired entry of the lock key after a failed start is
  the one that was there before, whatever the database, the worker, the cookie store and the random
  source did and wherever the start stopped. The live states stored must be readable JSON.
\<close>

theorem failed_start_frees_lock:
  assumes "start_session_for_workspace s uid tn wid aid platform auth w = (Inl e, w')"
    and "rc_coordination (bs_clients s)" and "readable (bs_lib s)" and "calm_redis w"
    and "\<And>i x. rw_keys w (session_key (bs_lib s) i) = Some x \<Longrightarrow>
      \<exists>t st. ent_value x = RStr t \<and> bl_dec_live (bs_lib s) t = Inr st"
    and "live_entry (rw_ms w') (rw_keys w') (active_key (bs_lib s) uid platform) = Some x"
  shows "rw_keys w (active_key (bs_lib s) uid platform) = Some x"
proof -
  have "held (bs_lib s) uid platform None (rw_keys w) w"
    using assms(4,5) by (auto simp: lock_inv_def lock_space_def)
  from wpD [OF wp_start [OF this assms(2,3)] assms(1)]
  show ?thesis using assms(6) by (auto simp: lock_inv_def lock_space_def live_entry_def split: option.splits if_splits)
qed

theorem failed_start_frees_lock_witness:
  "\<exists>w' x. start_session_for_workspace (sample_browser_service True) 4 '''' 0 0 ''zhihu'' False busy_world =
       (Inl ErrActiveSessionExists, w') \<and>
     live_entry (rw_ms w') (rw_keys w') (active_key sample_browser_lib 4 ''zhihu'') = Some x \<and>
     rw_keys busy_world (active_key sample_browser_lib 4 ''zhihu'') = Some x"
proof -
  let ?K = "active_key sample_browser_lib 4 ''zhihu''" and ?e = "\<lparr>ent_value = RStr (uuid_text 5), ent_expires = None\<rparr>"
  obtain w' where w': "start_session_for_workspace (sample_browser_service True) 4 '''' 0 0 ''zhihu'' False busy_world =
     (Inl ErrActiveSessionExists, w')" "same_sessions busy_world w'"
    using busy_refused by blast
  have live: "live_entry (rw_ms w') (rw_keys w') ?K = Some ?e"
    using w'(2) by (simp add: busy_world_def same_sessions_def live_entry_def entry_live_def)
  have "rw_keys busy_world (active_key (bs_lib (sample_browser_service True)) 4 ''zhihu'') = Some ?e"
  proof (rule failed_start_frees_lock [OF w'(1) _ _ busy_calm(2)])
    show "readable (bs_lib (sample_browser_service True))" by (simp add: readable_def)
    show "live_entry (rw_ms w') (rw_keys w') (active_key (bs_lib (sample_browser_service True)) 4 ''zhihu'') = Some ?e"
      using live by simp
  qed (auto simp: busy_world_def split: if_splits)
  with w'(1) live show ?thesis by auto
qed

end
