(* ===== verification/Browser_Takeover.thy ===== *)
theory Browser_Takeover
  imports Browser_Lock
begin

text \<open>
  A start takes the lock first and stores the live state of its session later, after the quotas,
  the token and the row. A second start that finds the lock in between reads no live state, takes
  the session for a dead one and takes the lock over, so both go on. On PostgreSQL no index forbids
  two active rows of a user and platform.
\<close>

section \<open>Statements that succeed\<close>

definition succeeds :: "('w \<Rightarrow> bool) \<Rightarrow> ('w, 'a) io \<Rightarrow> bool" where
  "succeeds I m \<longleftrightarrow> (\<forall>w. I w \<longrightarrow> (\<exists>x w'. m w = (Inr x, w') \<and> I w'))"

lemma succeedsD: "succeeds I m \<Longrightarrow> I w \<Longrightarrow> \<exists>x w'. m w = (Inr x, w') \<and> I w'"
  by (simp add: succeeds_def)

lemma succeeds_ret: "succeeds I (ret x)"
  by (simp add: succeeds_def)

lemma succeeds_bindE: "succeeds I m \<Longrightarrow> (\<And>x. succeeds I (f x)) \<Longrightarrow> succeeds I (bindE m f)"
  unfolding succeeds_def bindE_def by fastforce

lemma succeeds_tryE: "succeeds I m \<Longrightarrow> (\<And>x. succeeds I (f (Inr x))) \<Longrightarrow> succeeds I (bindE (tryE m) f)"
  unfolding succeeds_def bindE_def tryE_def by fastforce

lemma succeeds_collect:
  assumes "\<And>m. m \<in> set ms \<Longrightarrow> succeeds I m" "I w"
  shows "\<exists>w'. collect_errors ms w = (Inr [], w') \<and> I w'"
  using assms
proof (induction ms arbitrary: w)
  case (Cons m ms)
  obtain x w1 where m: "m w = (Inr x, w1)" "I w1"
    using Cons.prems by (meson list.set_intros(1) succeedsD)
  from Cons.IH [OF _ m(2)] Cons.prems(1) obtain w2 where "collect_errors ms w1 = (Inr [], w2)" "I w2" by auto
  with m show ?case by (simp add: bindE_def tryE_def)
qed simp

section \<open>A tidy keyspace\<close>

text \<open>No call fails, the sets are sets and the other keys hold strings, and a session has no live state.\<close>

definition zset_key :: "string \<Rightarrow> bool" where
  "zset_key k \<longleftrightarrow> has_prefix k ''mpp:browser:quota:'' \<or> k = cleanup_key"

definition tidy :: "browser_lib \<Rightarrow> uuid \<Rightarrow> browser_world \<Rightarrow> bool" where
  "tidy lib sid w \<longleftrightarrow> (\<forall>n. rw_fault w n = None) \<and> no_fault (bw_core w) \<and>
     rw_keys w (session_key lib sid) = None \<and>
     (\<forall>k e. rw_keys w k = Some e \<longrightarrow> (if zset_key k then \<exists>zs. ent_value e = RZset zs else \<exists>v. ent_value e = RStr v))"

lemma zset_keys [simp]:
  "\<not> zset_key (active_key lib u p)" "\<not> zset_key (session_key lib i)" "\<not> zset_key (stream_current_key lib i)"
  "zset_key cleanup_key" "zset_key (quota_user_key u)" "zset_key (quota_tenant_key t)"
  by (simp_all add: zset_key_def browser_key_defs has_prefix_def)

lemma tidy_redis_do:
  assumes "\<And>ms ks. (\<forall>k e. ks k = Some e \<longrightarrow> (if zset_key k then \<exists>zs. ent_value e = RZset zs else \<exists>v. ent_value e = RStr v)) \<Longrightarrow>
      ks (session_key lib sid) = None \<Longrightarrow>
      \<exists>x ks'. cmd ms ks = (Inr x, ks') \<and> ks' (session_key lib sid) = None \<and> ks' K = ks K \<and>
        (\<forall>k e. ks' k = Some e \<longrightarrow> (if zset_key k then \<exists>zs. ent_value e = RZset zs else \<exists>v. ent_value e = RStr v))"
  shows "succeeds (\<lambda>w. tidy lib sid w \<and> rw_keys w K = E) (redis_do cmd)"
  unfolding succeeds_def
proof (intro allI impI)
  fix w assume w: "tidy lib sid w \<and> rw_keys w K = E"
  then obtain x ks' where "cmd (rw_ms w) (rw_keys w) = (Inr x, ks')" "ks' (session_key lib sid) = None"
    "ks' K = rw_keys w K"
    "\<forall>k e. ks' k = Some e \<longrightarrow> (if zset_key k then \<exists>zs. ent_value e = RZset zs else \<exists>v. ent_value e = RStr v)"
    using assms [of "rw_keys w" "rw_ms w"] unfolding tidy_def by blast
  with w show "\<exists>x w'. redis_do cmd w = (Inr x, w') \<and> tidy lib sid w' \<and> rw_keys w' K = E"
    by (simp add: tidy_def redis_do_def)
qed

lemma tidy_zrem: "zset_key k \<Longrightarrow> k \<noteq> K \<Longrightarrow>
    succeeds (\<lambda>w. tidy lib sid w \<and> rw_keys w K = E) (redis_do (cmd_zrem k m))"
  by (rule tidy_redis_do)
    (fastforce simp: cmd_zrem_def cmd_zedit_def store_zset_def dest!: live_entry_Some
      split: option.split redis_value.split)

lemma tidy_del: "k \<noteq> K \<Longrightarrow> succeeds (\<lambda>w. tidy lib sid w \<and> rw_keys w K = E) (redis_do (cmd_del k))"
  by (rule tidy_redis_do) (auto simp: cmd_del_def)

lemma tidy_scan: "succeeds (\<lambda>w. tidy lib sid w \<and> rw_keys w K = E) (redis_do (cmd_scan lib' p))"
  by (rule tidy_redis_do) (auto simp: cmd_scan_def)

lemma tidy_get: "\<not> zset_key k \<Longrightarrow> succeeds (\<lambda>w. tidy lib sid w \<and> rw_keys w K = E) (redis_get_opt k)"
proof -
  assume k: "\<not> zset_key k"
  have "\<exists>x w'. redis_get_opt k w = (Inr x, w') \<and> tidy lib sid w' \<and> rw_keys w' K = E"
    if w: "tidy lib sid w" "rw_keys w K = E" for w
  proof (cases "live_entry (rw_ms w) (rw_keys w) k")
    case None
    with w show ?thesis
      by (simp add: redis_get_opt_def bindE_def tryE_def redis_do_def cmd_get_def tidy_def)
  next
    case (Some e)
    then have "rw_keys w k = Some e" by (rule live_entry_Some)
    then obtain v where "ent_value e = RStr v" using w(1) k unfolding tidy_def by meson
    with Some w show ?thesis
      by (simp add: redis_get_opt_def bindE_def tryE_def redis_do_def cmd_get_def tidy_def)
  qed
  then show ?thesis by (simp add: succeeds_def)
qed

section \<open>The cleanup of a session without live state\<close>

definition swept :: "browser_lib \<Rightarrow> uuid \<Rightarrow> string \<Rightarrow> browser_world \<Rightarrow> bool" where
  "swept lib sid K w \<longleftrightarrow> tidy lib sid w \<and> rw_keys w K = None"

lemma swept_eq: "swept lib sid K = (\<lambda>w. tidy lib sid w \<and> rw_keys w K = None)"
  by (simp add: fun_eq_iff swept_def)

lemma swept_ops:
  "zset_key k \<Longrightarrow> k \<noteq> K \<Longrightarrow> succeeds (swept lib sid K) (redis_do (cmd_zrem k m))"
  "succeeds (swept lib sid K) (redis_do (cmd_del k))"
  "succeeds (swept lib sid K) (redis_do (cmd_scan lib' p))"
  "\<not> zset_key k \<Longrightarrow> succeeds (swept lib sid K) (redis_get_opt k)"
proof -
  show "zset_key k \<Longrightarrow> k \<noteq> K \<Longrightarrow> succeeds (swept lib sid K) (redis_do (cmd_zrem k m))"
    "succeeds (swept lib sid K) (redis_do (cmd_scan lib' p))"
    "\<not> zset_key k \<Longrightarrow> succeeds (swept lib sid K) (redis_get_opt k)"
    unfolding swept_eq by (rule tidy_zrem tidy_scan tidy_get; assumption)+
  show "succeeds (swept lib sid K) (redis_do (cmd_del k))"
    unfolding succeeds_def swept_def tidy_def redis_do_def cmd_del_def by simp
qed

lemma swept_collect:
  assumes "\<And>m. m \<in> set ms \<Longrightarrow> succeeds (swept lib sid K) m"
  shows "succeeds (swept lib sid K) (bindE (collect_errors ms) (\<lambda>es. case join_errors es of
    None \<Rightarrow> ret () | Some e \<Rightarrow> throw e))"
  unfolding succeeds_def using succeeds_collect [OF assms] by (fastforce simp: bindE_def)

lemma quota_key_active [simp]: "quota_user_key u \<noteq> active_key lib v p" "quota_tenant_key t \<noteq> active_key lib v p"
  "cleanup_key \<noteq> active_key lib v p"
  by (simp_all add: browser_key_defs)

lemma swept_quota: "succeeds (swept lib sid (active_key lib v p)) (release_redis_concurrency_quota cl u t i)"
proof -
  have q: "succeeds (swept lib sid (active_key lib v p)) (release_quota_scopes scopes i)"
    if "\<And>q. q \<in> set scopes \<Longrightarrow> zset_key (qs_key q) \<and> qs_key q \<noteq> active_key lib v p" for scopes
    unfolding release_quota_scopes_def using that
    by (intro swept_collect) (auto intro!: succeeds_tryE swept_ops succeeds_ret)
  show ?thesis unfolding release_redis_concurrency_quota_def by (auto intro!: q succeeds_ret)
qed

lemma swept_token: "succeeds (swept lib sid K) (delete_redis_stream_token lib cl i)"
  unfolding delete_redis_stream_token_def Let_def
  by (cases "rc_coordination cl")
    (auto intro!: swept_collect succeeds_bindE swept_ops succeeds_ret)

lemma swept_rest:
  "m \<in> set [release_redis_concurrency_quota cl u t i, delete_redis_stream_token lib cl i,
      delete_redis_live_session lib cl i, delete_redis_worker_heartbeat cl '''', remove_redis_cleanup_member cl i] \<Longrightarrow>
   succeeds (swept lib sid (active_key lib v p)) m"
  by (auto simp: delete_redis_live_session_def delete_redis_worker_heartbeat_def remove_redis_cleanup_member_def
      intro!: swept_quota swept_token swept_ops succeeds_ret)

lemma release_held:
  assumes "tidy lib sid w" "live_entry (rw_ms w) (rw_keys w) (active_key lib u p) = Some e"
    "ent_value e = RStr (uuid_text sid)" "rc_coordination cl"
  shows "\<exists>w'. release_redis_active_session lib cl u p sid w = (Inr (), w') \<and> swept lib sid (active_key lib u p) w'"
  using assms
  by (auto simp: release_redis_active_session_def release_redis_active_session_value_def eval_result_def
      redis_do_def release_active_script_def then_cmd_def script_get_def cmd_get_def cmd_del_def reply_def
      bindE_def tidy_def swept_def)

lemma live_state_missing:
  assumes "tidy lib sid w" "rc_continuity cl"
  shows "get_redis_live_session lib cl sid w = (Inr None, rw_tick w)"
  using assms
  by (simp add: tidy_def get_redis_live_session_def redis_get_opt_def bindE_def tryE_def redis_do_def cmd_get_def
      live_entry_def)

lemma cleanup_sweeps:
  assumes "tidy lib sid w" "live_entry (rw_ms (rw_tick w)) (rw_keys w) (active_key lib u p) = Some e"
    "ent_value e = RStr (uuid_text sid)" "rc_coordination cl" "rc_continuity cl"
  shows "\<exists>w'. cleanup_redis_session lib cl u p sid '''' w = (Inr (), w') \<and> swept lib sid (active_key lib u p) w'"
proof -
  let ?rest = "[release_redis_concurrency_quota cl u default_tenant_id sid, delete_redis_stream_token lib cl sid,
      delete_redis_live_session lib cl sid, delete_redis_worker_heartbeat cl '''', remove_redis_cleanup_member cl sid]"
  have t: "redis_session_tenant_id lib cl '''' sid w = (Inr default_tenant_id, rw_tick w)"
    using live_state_missing [OF assms(1,5)]
    by (simp add: redis_session_tenant_id_def normalize_tenant_id_def Let_def bindE_def)
  have "tidy lib sid (rw_tick w)" using assms(1) by (simp add: tidy_def)
  then obtain w1 where r: "release_redis_active_session lib cl u p sid (rw_tick w) = (Inr (), w1)"
    "swept lib sid (active_key lib u p) w1"
    using release_held [of lib sid "rw_tick w" u p e cl] assms(2-4) by auto
  have rest: "succeeds (swept lib sid (active_key lib u p)) m" if "m \<in> set ?rest" for m
    using that by (rule swept_rest)
  obtain w2 where "collect_errors ?rest w1 = (Inr [], w2)" "swept lib sid (active_key lib u p) w2"
    using succeeds_collect [where I = "swept lib sid (active_key lib u p)", OF rest r(2)] by blast
  with r t assms(4) show ?thesis
    by (simp add: cleanup_redis_session_def cleanup_redis_session_for_tenant_def bindE_def tryE_def
        del: collect_errors.simps add: collect_errors.simps(2) [of "release_redis_active_session lib cl u p sid"])
qed

section \<open>The takeover\<close>

lemma free_acquire:
  assumes "\<forall>n. rw_fault w n = None" "rw_keys w (active_key lib u p) = None" "rc_coordination cl"
  shows "\<exists>w' x. acquire_redis_active_session lib cl u p i t w = (Inr True, w') \<and>
    rw_keys w' (active_key lib u p) = Some \<lparr>ent_value = RStr (uuid_text i), ent_expires = x\<rparr>"
  using assms
  by (simp add: acquire_redis_active_session_def live_ttl_def bindE_def time_now_def Let_def redis_do_def
      cmd_setnx_def live_entry_def)

lemma row_expired:
  assumes "tidy lib i v"
  shows "\<exists>v'. expire_redis_active_session_row sid message v = (Inr (), v') \<and> rw_keys v' = rw_keys v \<and>
    rw_now v' = rw_now v \<and> tidy lib i v'"
  using assms
  by (auto simp: expire_redis_active_session_row_def bindE_def on_core_def set_sessions_def exec_ok tidy_def)

text \<open>
  C24: The lock does not protect a session that is being started. Until the first session's live
  state is stored, a second start for the same user and platform finds its lock, removes what the
  first start has put into Redis and goes on with a lock of its own, although the first start goes
  on as well.
\<close>

theorem starting_session_loses_lock:
  assumes "rc_coordination (bs_clients s)" and "rc_continuity (bs_clients s)"
    and "tidy (bs_lib s) first w"
    and "rw_keys w (active_key (bs_lib s) uid platform) = Some e" and "ent_value e = RStr (uuid_text first)"
    and "ent_expires e = None \<or> (\<exists>x. ent_expires e = Some x \<and> (\<forall>n. rw_now w n div millisecond < x))"
    and "bl_parse_uuid (bs_lib s) (uuid_text first) = Some first"
  shows "\<exists>w' x. lock_or_recover s uid platform later expiresAt now w = (Inr (), w') \<and>
    rw_keys w' (active_key (bs_lib s) uid platform) =
      Some \<lparr>ent_value = RStr (uuid_text later), ent_expires = x\<rparr>"
proof -
  let ?lib = "bs_lib s" and ?cl = "bs_clients s" and ?K = "active_key (bs_lib s) uid platform"
  have live: "live_entry (rw_ms v) (rw_keys v) ?K = Some e"
    if "rw_keys v = rw_keys w" "rw_now v = rw_now w" for v
    using that assms(4,6) by (auto simp: live_entry_def entry_live_def rw_ms_def)
  have calm: "rw_fault w n = None" for n using assms(3) by (simp add: tidy_def)
  define w1 where "w1 = rw_tick (rw_tick w)"
  have w1: "rw_keys w1 = rw_keys w" "rw_now w1 = rw_now w" "rw_fault w1 n = None" "tidy ?lib first (rw_tick w1)" for n
    using calm assms(3) by (simp_all add: w1_def tidy_def)
  have acq: "acquire_redis_active_session ?lib ?cl uid platform later expiresAt w = (Inr False, w1)"
    using live [of "rw_tick w"] calm assms(1)
    by (simp add: acquire_redis_active_session_def live_ttl_def bindE_def time_now_def Let_def redis_do_def
        cmd_setnx_def w1_def)
  have get: "redis_get_opt ?K w1 = (Inr (Some (uuid_text first)), rw_tick w1)"
    using live [OF w1(1,2)] w1(1,3) assms(5) by (simp add: redis_get_opt_def bindE_def tryE_def redis_do_def cmd_get_def)
  have missing: "get_redis_live_session ?lib ?cl first (rw_tick w1) = (Inr None, rw_tick (rw_tick w1))"
    by (rule live_state_missing [OF w1(4) assms(2)])
  obtain w2 where row: "expire_redis_active_session_row first ''redis live session missing''
      (rw_tick (rw_tick w1)) = (Inr (), w2)" "rw_keys w2 = rw_keys w" "rw_now w2 = rw_now w" "tidy ?lib first w2"
    using row_expired [of ?lib first "rw_tick (rw_tick w1)" first "''redis live session missing''"] w1 by (auto simp: tidy_def)
  have "live_entry (rw_ms (rw_tick w2)) (rw_keys w2) ?K = Some e"
    using live [of "rw_tick w2"] row(2,3) by simp
  then obtain w3 where clean: "cleanup_redis_session ?lib ?cl uid platform first '''' w2 = (Inr (), w3)"
    "swept ?lib first ?K w3"
    using cleanup_sweeps [OF row(4) _ assms(5,1,2)] by blast
  have rec: "recover_redis_active_session_lock s uid platform now w1 = (Inr True, w3)"
    using assms(1,7) get missing row(1) clean(1)
    by (simp add: recover_redis_active_session_lock_def cleanup_recovered_redis_active_session_def Let_def bindE_def)
  have "\<forall>n. rw_fault w3 n = None" "rw_keys w3 ?K = None" using clean(2) by (auto simp: swept_def tidy_def)
  from free_acquire [OF this assms(1), of later expiresAt] obtain w4 x where
    "acquire_redis_active_session ?lib ?cl uid platform later expiresAt w3 = (Inr True, w4)"
    "rw_keys w4 ?K = Some \<lparr>ent_value = RStr (uuid_text later), ent_expires = x\<rparr>" by blast
  then show ?thesis using acq rec by (auto simp: lock_or_recover_def Let_def bindE_def)
qed

definition starting_world :: browser_world where
  "starting_world = sample_browser_world (\<lambda>k.
     if k = active_key sample_browser_lib 4 ''zhihu'' then Some \<lparr>ent_value = RStr (uuid_text 5), ent_expires = None\<rparr>
     else None) []"

theorem starting_session_loses_lock_witness:
  "\<exists>w' x. lock_or_recover (sample_browser_service True) 4 ''zhihu'' 6 9 3 starting_world = (Inr (), w') \<and>
     rw_keys w' (active_key sample_browser_lib 4 ''zhihu'') = Some \<lparr>ent_value = RStr (uuid_text 6), ent_expires = x\<rparr>"
proof -
  have "tidy (bs_lib (sample_browser_service True)) 5 starting_world"
    by (auto simp: tidy_def starting_world_def split: if_splits)
  moreover have "rw_keys starting_world (active_key (bs_lib (sample_browser_service True)) 4 ''zhihu'') =
      Some \<lparr>ent_value = RStr (uuid_text 5), ent_expires = None\<rparr>"
    by (simp add: starting_world_def)
  ultimately show ?thesis
    using starting_session_loses_lock [of "sample_browser_service True" 5 starting_world 4 "''zhihu''"
        "\<lparr>ent_value = RStr (uuid_text 5), ent_expires = None\<rparr>" 6 9 3] by simp
qed

end
