(* ===== verification/Browser_Completion.thy ===== *)
theory Browser_Completion
  imports Browser_Lock
begin

text \<open>
  The end of a session: a completion reports a connected account only after the worker saw the
  login, the account was authorized and its cookies were saved - but also when the row could not be
  written - and a cancellation expires a session whatever its status.
\<close>

section \<open>What the Redis part leaves alone\<close>

text \<open>An invariant that looks neither at the keyspace nor at the number of calls.\<close>

definition blind :: "('z redis_world_scheme \<Rightarrow> bool) \<Rightarrow> bool" where
  "blind I \<longleftrightarrow> (\<forall>w ks. I w \<longrightarrow> I (w\<lparr>rw_keys := ks\<rparr>)) \<and> (\<forall>w. I w \<longrightarrow> I (rw_tick w))"

lemma blind_calls: "blind I \<Longrightarrow> keeps I (redis_do cmd)" "blind I \<Longrightarrow> keeps I time_now"
  by (auto simp: blind_def keeps_def redis_do_def time_now_def split: option.split redis_fault.split prod.split)

lemma blind_basic:
  assumes "blind I"
  shows "keeps I (redis_get_opt k)" "keeps I (eval_result c)" "keeps I (live_ttl t)"
    and "keeps I (get_redis_live_session lib cl i)" "keeps I (release_quota_scopes scopes i)"
  unfolding redis_get_opt_def eval_result_def live_ttl_def get_redis_live_session_def release_quota_scopes_def Let_def
  using assms by (intro keeps_intros blind_calls keeps_collect_errors;
      auto intro!: keeps_intros blind_calls)+

lemma blind_ops:
  assumes "blind I"
  shows "keeps I (save_redis_live_session lib cl st)"
    and "keeps I (release_redis_active_session lib cl u p i)"
    and "keeps I (release_redis_concurrency_quota cl u t i)"
    and "keeps I (delete_redis_stream_token lib cl i)"
    and "keeps I (delete_redis_live_session lib cl i)"
    and "keeps I (delete_redis_worker_heartbeat cl ref)"
    and "keeps I (remove_redis_cleanup_member cl i)"
    and "keeps I (redis_session_tenant_id lib cl t i)"
  unfolding save_redis_live_session_def release_redis_active_session_def release_redis_active_session_value_def
    release_redis_concurrency_quota_def delete_redis_stream_token_def delete_redis_live_session_def
    delete_redis_worker_heartbeat_def remove_redis_cleanup_member_def redis_session_tenant_id_def Let_def
  using assms by (intro keeps_intros blind_calls blind_basic keeps_collect_errors;
      auto intro!: keeps_intros blind_calls)+

lemma blind_cleanup:
  assumes "blind I" shows "keeps I (cleanup_redis_session lib cl u p i ref)"
  unfolding cleanup_redis_session_def cleanup_redis_session_for_tenant_def
  using assms by (intro keeps_intros blind_ops keeps_collect_errors) (auto intro!: keeps_intros blind_ops)

text \<open>The definitions a completion without coordination Redis unfolds.\<close>

lemmas plain_run_defs = complete_session_def save_captured_def note_session_def on_core_def
  tryE_def bindE_def ignoreE_def first_row_def select_def sql_def external_def asks_def
  find_user_session_def sample_browser_session_def is_streamable_browser_session_status_def
  update_session_def set_sessions_def exec_def update_rows_def tick_def start_world_def calm_env_def empty_db_def
  save_redis_live_session_def worker_capture_session_def log_call_def rw_tick_def sample_browser_world_def
  sample_browser_service_def authorize_session_target_def require_session_account_connect_def
  require_workspace_account_connect_def personal_workspace_id_def Let_def invalidate_account_cache_def
  time_now_def worker_stop_session_def cleanup_redis_session_def cleanup_redis_session_for_tenant_def ret_def

section \<open>What a note of the session leaves alone\<close>

definition notes_only :: "browser_world \<Rightarrow> browser_world \<Rightarrow> bool" where
  "notes_only w v \<longleftrightarrow> bw_capture v = bw_capture w \<and> env (bw_core v) = env (bw_core w) \<and>
     (db (bw_core v))\<lparr>browser_sessions := []\<rparr> = (db (bw_core w))\<lparr>browser_sessions := []\<rparr>"

lemma blind_notes: "blind (notes_only w)"
  by (simp add: blind_def notes_only_def rw_tick_def)

lemma notes_rows: "keeps (notes_only w) (on_core (set_sessions p f))"
  by (auto simp: keeps_def notes_only_def on_core_def set_sessions_def exec_def sql_def external_def
      split: option.splits prod.splits)

lemma notes_note: "keeps (notes_only w) (note_session s session status message f)"
  unfolding note_session_def update_session_def by (intro keeps_intros notes_rows blind_ops blind_notes)

section \<open>Completion\<close>

definition session_workspace :: "remote_browser_session \<Rightarrow> uuid \<Rightarrow> uuid" where
  "session_workspace session personal = (case rbs_WorkspaceID session of Some wid \<Rightarrow> wid | None \<Rightarrow> personal)"

definition session_account :: "remote_browser_session \<Rightarrow> uuid" where
  "session_account session = (case rbs_PlatformAccountID session of Some aid \<Rightarrow> aid | None \<Rightarrow> uuid_nil)"

lemma back_to_ready_fails: "back_to_ready s session m e w \<noteq> (Inr x, w')"
  by (auto simp: back_to_ready_def bindE_Inr)

lemma save_captured_saves:
  assumes "save_captured s uid sid session capture w = (Inr resp, w')"
  shows "\<exists>wid c1 c2. authorize_session_target uid (session_workspace session (personal_workspace_id (bw_core w) uid))
      (session_account session) (rbs_Platform session) (bw_core w) = (Inr wid, c1) \<and>
    cs_save (bs_cookies s) uid wid (session_account session) (rbs_Platform session) (cr_Cookies capture)
      (cr_Account capture) c1 = (Inr (), c2) \<and>
    resp = \<lparr>co_SessionID = sid, co_Platform = rbs_Platform session, co_Status = BrowserSessionStatusConnected,
      co_Username = ap_Username (cr_Account capture), co_AvatarURL = ap_AvatarURL (cr_Account capture),
      co_Message = ''Account connected successfully''\<rparr>"
proof -
  let ?auth = "authorize_session_target uid (session_workspace session (personal_workspace_id (bw_core w) uid))
      (session_account session) (rbs_Platform session)"
  have core: "bindE (on_core (asks f)) g w = g (f (bw_core w)) w" for f g
    by (simp add: bindE_def on_core_def asks_def)
  obtain r c1 where a: "?auth (bw_core w) = (r, c1)" by fastforce
  then have oa: "on_core ?auth w = (r, w\<lparr>bw_core := c1\<rparr>)" by (simp add: on_core_def)
  note defs = save_captured_def core Let_def session_workspace_def [symmetric] session_account_def [symmetric]
  show ?thesis
  proof (cases r)
    case (Inl e)
    with oa assms show ?thesis by (simp add: defs back_to_ready_fails)
  next
    case (Inr wid)
    obtain r2 c2 where c: "cs_save (bs_cookies s) uid wid (session_account session) (rbs_Platform session)
        (cr_Cookies capture) (cr_Account capture) c1 = (r2, c2)" by fastforce
    then have oc: "on_core (cs_save (bs_cookies s) uid wid (session_account session) (rbs_Platform session)
        (cr_Cookies capture) (cr_Account capture)) (w\<lparr>bw_core := c1\<rparr>) = (r2, w\<lparr>bw_core := c2\<rparr>)"
      by (simp add: on_core_def)
    show ?thesis
    proof (cases r2)
      case (Inl e)
      with oa oc Inr assms show ?thesis by (simp add: defs back_to_ready_fails)
    next
      case (Inr u)
      with oa oc \<open>r = Inr wid\<close> assms a c show ?thesis by (auto simp: defs bindE_Inr)
    qed
  qed
qed

text \<open>
  C7: A completion that reports success has connected the account: the session was the caller's and
  streamable, the worker answered the capture with a login, the caller is authorized for the
  account or workspace in the state then - the one before but for notes in the table of sessions -
  and the captured cookies were saved under that authorization; the answer names the captured
  account. This holds whatever else fails.
\<close>

theorem complete_connects_after_save:
  assumes "complete_session s uid sid w = (Inr resp, w')"
  shows "\<exists>session capture n c wid c1 c2.
    find_user_session sid uid (db (bw_core w)) = Some session \<and>
    is_streamable_browser_session_status (rbs_Status session) \<and>
    bw_capture w n = Inr capture \<and> cr_Status capture = ''login_detected'' \<and>
    env c = env (bw_core w) \<and> (db c)\<lparr>browser_sessions := []\<rparr> = (db (bw_core w))\<lparr>browser_sessions := []\<rparr> \<and>
    authorize_session_target uid (session_workspace session (personal_workspace_id c uid))
      (session_account session) (rbs_Platform session) c = (Inr wid, c1) \<and>
    cs_save (bs_cookies s) uid wid (session_account session) (rbs_Platform session) (cr_Cookies capture)
      (cr_Account capture) c1 = (Inr (), c2) \<and>
    co_Status resp = BrowserSessionStatusConnected \<and> co_Username resp = ap_Username (cr_Account capture)"
proof -
  obtain session w1 where f: "on_core (first_row (find_user_session sid uid)) w = (Inr session, w1)"
    and st: "rbs_Status session \<noteq> BrowserSessionStatusConnected"
      "is_streamable_browser_session_status (rbs_Status session)"
    using assms by (auto simp: complete_session_def split: prod.splits sum.splits if_splits)
  from on_core_Inr [OF f] obtain c where
    c: "first_row (find_user_session sid uid) (bw_core w) = (Inr session, c)" "w1 = w\<lparr>bw_core := c\<rparr>" by blast
  from first_row_Inr [OF c(1)] have row: "find_user_session sid uid (db (bw_core w)) = Some session"
    and n1: "notes_only w w1" using c(2) by (auto simp: notes_only_def)
  let ?note = "note_session s session BrowserSessionStatusCapturing ''''
      (\<lambda>x. x\<lparr>rbs_Status := BrowserSessionStatusCapturing\<rparr>)"
  obtain w2 where noted: "?note w1 = (Inr (), w2)" "notes_only w w2"
  proof -
    obtain r w2 where r: "?note w1 = (r, w2)" by fastforce
    moreover from r have "r = Inr ()" by (auto simp: note_session_def ignoreE_def bindE_def split: prod.splits sum.splits)
    ultimately show thesis using that keepsD2 [OF notes_note r n1] by blast
  qed
  define w3 where "w3 = rw_tick (log_call (WorkerCaptures (rbs_WorkerSessionRef session)) w2)"
  have n3: "notes_only w w3" using noted(2) by (simp add: w3_def notes_only_def rw_tick_def log_call_def)
  obtain capture where cap: "bw_capture w2 (rw_calls w2) = Inr capture" "cr_Status capture = ''login_detected''"
    and saved: "save_captured s uid sid session capture w3 = (Inr resp, w')"
    using assms f st noted(1)
    by (auto simp: complete_session_def bindE_app worker_capture_session_def w3_def Let_def back_to_ready_fails
        bindE_Inr split: sum.splits if_splits)
  from save_captured_saves [OF saved] n3 row st cap noted(2) show ?thesis
    unfolding notes_only_def by (auto 0 4)
qed

theorem complete_connects_after_save_witness:
  "\<exists>(capture :: capture_response) c wid c1 c2. cr_Status capture = ''login_detected'' \<and> env c = calm_env \<and>
     authorize_session_target 4 (session_workspace sample_browser_session (personal_workspace_id c 4))
       (session_account sample_browser_session) ''zhihu'' c = (Inr wid, c1) \<and>
     cs_save (bs_cookies (sample_browser_service False)) 4 wid (session_account sample_browser_session) ''zhihu''
       (cr_Cookies capture) (cr_Account capture) c1 = (Inr (), c2)"
proof -
  let ?w = "sample_browser_world (\<lambda>_. None) [sample_browser_session]"
  have "\<exists>resp w'. complete_session (sample_browser_service False) 4 5 ?w = (Inr resp, w')"
    by (simp add: plain_run_defs)
  then obtain resp w' where run: "complete_session (sample_browser_service False) 4 5 ?w = (Inr resp, w')" by blast
  have row: "find_user_session 5 4 (db (bw_core ?w)) = Some sample_browser_session" "env (bw_core ?w) = calm_env"
    by (simp_all add: plain_run_defs)
  have platform: "rbs_Platform sample_browser_session = ''zhihu''" by (simp add: sample_browser_session_def)
  from complete_connects_after_save [OF run] obtain session and capture :: capture_response and c wid c1 c2 where
    found: "find_user_session 5 4 (db (bw_core ?w)) = Some session" and env: "env c = env (bw_core ?w)"
    and saved: "cr_Status capture = ''login_detected''"
    "authorize_session_target 4 (session_workspace session (personal_workspace_id c 4))
       (session_account session) (rbs_Platform session) c = (Inr wid, c1)"
    "cs_save (bs_cookies (sample_browser_service False)) 4 wid (session_account session) (rbs_Platform session)
       (cr_Cookies capture) (cr_Account capture) c1 = (Inr (), c2)"
    by (elim exE conjE) (rule that)
  have "session = sample_browser_session" using found unfolding row(1) by (rule option.inject [THEN iffD1, symmetric])
  with saved have "cr_Status capture = ''login_detected'' \<and> env c = calm_env \<and>
     authorize_session_target 4 (session_workspace sample_browser_session (personal_workspace_id c 4))
       (session_account sample_browser_session) ''zhihu'' c = (Inr wid, c1) \<and>
     cs_save (bs_cookies (sample_browser_service False)) 4 wid (session_account sample_browser_session) ''zhihu''
       (cr_Cookies capture) (cr_Account capture) c1 = (Inr (), c2)"
    unfolding env row(2) by (simp only: platform simp_thms)
  then show ?thesis by blast
qed

section \<open>Cancellation\<close>

lemma find_user_updated:
  assumes "find_user_session sid uid d = Some session" "\<And>x. rbs_ID (f x) = rbs_ID x \<and> rbs_UserID (f x) = rbs_UserID x"
  shows "find_user_session sid uid (d\<lparr>browser_sessions := update_rows
      (\<lambda>x. rbs_ID x = rbs_ID session \<and> rbs_CreatedAt x = rbs_CreatedAt session) f (browser_sessions d)\<rparr>) = Some (f session)"
proof -
  let ?g = "\<lambda>x. if rbs_ID x = rbs_ID session \<and> rbs_CreatedAt x = rbs_CreatedAt session then f x else x"
  have "find (\<lambda>s. (rbs_ID s, rbs_UserID s) = (sid, uid)) (map ?g (browser_sessions d)) =
      map_option ?g (find (\<lambda>s. (rbs_ID s, rbs_UserID s) = (sid, uid)) (browser_sessions d))"
    by (rule find_map_key) (simp add: assms(2))
  with assms(1) show ?thesis by (simp add: find_user_session_def update_rows_def)
qed

text \<open>
  C25: Cancelling expires a session whatever its status, a connected one included: the row that
  recorded the connected account is set to expired, and its completion time stays. Neither Redis
  nor the worker can stop it.
\<close>

theorem cancel_overwrites_connected:
  assumes "find_user_session sid uid (db (bw_core w)) = Some session" and "no_fault (bw_core w)"
  shows "\<exists>w'. cancel_session s uid sid w = (Inr (), w') \<and>
    find_user_session sid uid (db (bw_core w')) =
      Some (session\<lparr>rbs_Status := BrowserSessionStatusExpired, rbs_ConnectTokenHash := ''''\<rparr>)"
proof -
  let ?c = "tick (bw_core w)" and ?f = "\<lambda>x. x\<lparr>rbs_Status := BrowserSessionStatusExpired, rbs_ConnectTokenHash := ''''\<rparr>"
  let ?I = "\<lambda>v :: browser_world. bw_core v = ?c"
  have b: "blind ?I" by (simp add: blind_def)
  have row: "on_core (first_row (find_user_session sid uid)) w = (Inr session, w\<lparr>bw_core := ?c\<rparr>)"
    using assms by (simp add: on_core_def first_row_ok)
  let ?stop = "if rbs_WorkerSessionRef session \<noteq> [] then ignoreE (worker_stop_session (rbs_WorkerSessionRef session))
      else ret ()"
    and ?clean = "ignoreE (cleanup_redis_session (bs_lib s) (bs_clients s) (rbs_UserID session) (rbs_Platform session)
      (rbs_ID session) (rbs_WorkerSessionRef session))"
  have stop: "keeps ?I ?stop" "sure ?stop"
    by (auto simp: keeps_def worker_stop_session_def ignoreE_def sure_def split: prod.splits sum.splits)
  have clean: "keeps ?I ?clean" "sure ?clean"
    using keeps_ignoreE [OF blind_cleanup [OF b]] by simp_all
  have update: "wp (update_session session ?f)
      (\<lambda>_ v. find_user_session sid uid (db (bw_core v)) = Some (?f session)) (\<lambda>_ _. False) v" if "?I v" for v
    using that assms(2) find_user_updated [OF assms(1), of ?f]
    by (simp add: wp_def update_session_def bindE_def on_core_def set_sessions_def exec_ok)
  have "cancel_session s uid sid w = bindE ?stop (\<lambda>_. bindE ?clean (\<lambda>_. update_session session ?f)) (w\<lparr>bw_core := ?c\<rparr>)"
    using row by (simp add: cancel_session_def)
  moreover have "wp (bindE ?stop (\<lambda>_. bindE ?clean (\<lambda>_. update_session session ?f)))
      (\<lambda>_ v. find_user_session sid uid (db (bw_core v)) = Some (?f session)) (\<lambda>_ _. False) (w\<lparr>bw_core := ?c\<rparr>)"
    by (rule wp_sure [OF stop], simp, rule wp_sure [OF clean], assumption, rule update)
  ultimately show ?thesis by (auto simp: wp_def split: prod.splits sum.splits)
qed

theorem cancel_overwrites_connected_witness:
  "\<exists>w'. cancel_session (sample_browser_service True) 4 5 (sample_browser_world (\<lambda>_. None)
       [sample_browser_session\<lparr>rbs_Status := BrowserSessionStatusConnected, rbs_CompletedAt := Some 9\<rparr>]) = (Inr (), w') \<and>
     map (\<lambda>x. (rbs_Status x, rbs_CompletedAt x)) (filter (\<lambda>x. rbs_ID x = 5) [the (find_user_session 5 4 (db (bw_core w')))]) =
       [(BrowserSessionStatusExpired, Some 9)]"
proof -
  let ?x = "sample_browser_session\<lparr>rbs_Status := BrowserSessionStatusConnected, rbs_CompletedAt := Some 9\<rparr>"
  have "find_user_session 5 4 (db (bw_core (sample_browser_world (\<lambda>_. None) [?x]))) = Some ?x"
    "no_fault (bw_core (sample_browser_world (\<lambda>_. None) [?x]))"
    by (simp_all add: find_user_session_def sample_browser_session_def)
  from cancel_overwrites_connected [OF this, of "sample_browser_service True"]
  show ?thesis by (auto simp: sample_browser_session_def)
qed

section \<open>A completion whose row is lost\<close>

text \<open>The third statement of the database, the last update of the row, fails.\<close>

definition lost_write_world :: browser_world where
  "lost_write_world = (sample_browser_world (\<lambda>_. None) [sample_browser_session])
     \<lparr>bw_core := (start_world (empty_db\<lparr>browser_sessions := [sample_browser_session]\<rparr>))
       \<lparr>env := calm_env\<lparr>env_fault := (\<lambda>n. if n = 2 then Some (ErrText ''connection reset'') else None)\<rparr>\<rparr>\<rparr>"

text \<open>
  The error of the last update of a completion is ignored: the answer says that the account is
  connected while the row stays in the capturing status, with its token and without a completion
  time.
\<close>

theorem complete_hides_lost_write:
  "\<exists>resp w'. complete_session (sample_browser_service False) 4 5 lost_write_world = (Inr resp, w') \<and>
     co_Status resp = BrowserSessionStatusConnected \<and>
     map (\<lambda>x. (rbs_Status x, rbs_CompletedAt x)) (browser_sessions (db (bw_core w'))) =
       [(BrowserSessionStatusCapturing, None)]"
  by (simp add: lost_write_world_def plain_run_defs)

end
